(* ===== verification/Prelude.thy ===== *)
theory Prelude
  imports Main "HOL-Library.Word"
begin

text \<open>
  The vocabulary every component shares: the widths of Rust's unsigned integers, their
  checked, saturating and widening operations, the \<open>Result\<close> and \<open>Option\<close> combinators the
  source chains calls with, and the rewrite rules that turn a statement about words into
  one about natural numbers (the collection \<open>arith\<close>).
\<close>

named_theorems arith "checked and saturating word operations read as natural numbers"

subsection \<open>Integers of the source\<close>

type_synonym u8 = "8 word"
type_synonym u16 = "16 word"
type_synonym u32 = "32 word"
type_synonym u64 = "64 word"
type_synonym u128 = "128 word"
type_synonym bytes = "8 word list"

text \<open>A \<open>Uuid\<close> is a 128-bit value; its nil value is zero.\<close>

type_synonym uuid = "128 word"

definition is_nil :: "uuid \<Rightarrow> bool" where
  "is_nil u \<longleftrightarrow> u = 0"

definition checked_add :: "'a::len word \<Rightarrow> 'a word \<Rightarrow> 'a word option" where
  "checked_add a b = (if unat a + unat b < 2 ^ LENGTH('a) then Some (a + b) else None)"

definition checked_sub :: "'a::len word \<Rightarrow> 'a word \<Rightarrow> 'a word option" where
  "checked_sub a b = (if b \<le> a then Some (a - b) else None)"

definition checked_mul :: "'a::len word \<Rightarrow> 'a word \<Rightarrow> 'a word option" where
  "checked_mul a b = (if unat a * unat b < 2 ^ LENGTH('a) then Some (a * b) else None)"

definition saturating_add :: "'a::len word \<Rightarrow> 'a word \<Rightarrow> 'a word" where
  "saturating_add a b = (if unat a + unat b < 2 ^ LENGTH('a) then a + b else - 1)"

definition saturating_sub :: "'a::len word \<Rightarrow> 'a word \<Rightarrow> 'a word" where
  "saturating_sub a b = (if b \<le> a then a - b else 0)"

definition saturating_mul :: "'a::len word \<Rightarrow> 'a word \<Rightarrow> 'a word" where
  "saturating_mul a b = (if unat a * unat b < 2 ^ LENGTH('a) then a * b else - 1)"

text \<open>
  \<open>(u128::from(a) * u128::from(b) / d) as u64\<close>: the product cannot overflow 128 bits, and
  the cast keeps the low 64 bits of the quotient.
\<close>

definition mul_div_u64 :: "u64 \<Rightarrow> u64 \<Rightarrow> u128 \<Rightarrow> u64" where
  "mul_div_u64 a b d = ucast ((ucast a * ucast b :: u128) div d)"

subsection \<open>Results and options\<close>

definition ok_or :: "'e \<Rightarrow> 'a option \<Rightarrow> 'e + 'a" where
  "ok_or e x = (case x of None \<Rightarrow> Inl e | Some v \<Rightarrow> Inr v)"

text \<open>The \<open>?\<close> operator: pass an error on, or continue with the value.\<close>

definition try_bind :: "'e + 'a \<Rightarrow> ('a \<Rightarrow> 'e + 'b) \<Rightarrow> 'e + 'b" where
  "try_bind r f = (case r of Inl e \<Rightarrow> Inl e | Inr v \<Rightarrow> f v)"

definition map_err :: "('e \<Rightarrow> 'f) \<Rightarrow> 'e + 'a \<Rightarrow> 'f + 'a" where
  "map_err f r = (case r of Inl e \<Rightarrow> Inl (f e) | Inr v \<Rightarrow> Inr v)"

definition is_ok :: "'e + 'a \<Rightarrow> bool" where
  "is_ok r = (case r of Inl _ \<Rightarrow> False | Inr _ \<Rightarrow> True)"

definition unwrap_or :: "'a option \<Rightarrow> 'a \<Rightarrow> 'a" where
  "unwrap_or x d = (case x of None \<Rightarrow> d | Some v \<Rightarrow> v)"

text \<open>\<open>Option::or\<close>: the first if it is there, else the second.\<close>

definition opt_or :: "'a option \<Rightarrow> 'a option \<Rightarrow> 'a option" where
  "opt_or x y = (case x of None \<Rightarrow> y | Some v \<Rightarrow> Some v)"

lemma ok_or_simps [simp]:
  "ok_or e None = Inl e" "ok_or e (Some v) = Inr v"
  by (simp_all add: ok_or_def)

lemma ok_or_Inr [simp]: "ok_or e x = Inr v \<longleftrightarrow> x = Some v"
  by (cases x) simp_all

lemma ok_or_Inl [simp]: "ok_or e x = Inl e' \<longleftrightarrow> x = None \<and> e' = e"
  by (cases x) auto

lemma try_bind_simps [simp]:
  "try_bind (Inl e) f = Inl e" "try_bind (Inr v) f = f v"
  by (simp_all add: try_bind_def)

lemma try_bind_Inr: "try_bind r f = Inr y \<longleftrightarrow> (\<exists>x. r = Inr x \<and> f x = Inr y)"
  by (cases r) simp_all

lemma map_err_simps [simp]:
  "map_err f (Inl e) = Inl (f e)" "map_err f (Inr v) = Inr v"
  by (simp_all add: map_err_def)

lemma map_err_Inr [simp]: "map_err f r = Inr v \<longleftrightarrow> r = Inr v"
  by (cases r) simp_all

lemma is_ok_simps [simp]: "is_ok (Inl e) = False" "is_ok (Inr v) = True"
  by (simp_all add: is_ok_def)

lemma is_ok_iff: "is_ok r \<longleftrightarrow> (\<exists>v. r = Inr v)"
  by (cases r) simp_all

lemma is_ok_unit: "is_ok r \<longleftrightarrow> r = Inr ()"
  by (cases r) simp_all

lemma unwrap_or_simps [simp]: "unwrap_or None d = d" "unwrap_or (Some v) d = v"
  by (simp_all add: unwrap_or_def)

lemma opt_or_simps [simp]: "opt_or None y = y" "opt_or (Some v) y = Some v"
  by (simp_all add: opt_or_def)

subsection \<open>Decimal display\<close>

definition digit_char :: "nat \<Rightarrow> char" where
  "digit_char d = char_of (48 + d)"

fun show_nat :: "nat \<Rightarrow> string" where
  "show_nat n = (if n < 10 then [digit_char n] else show_nat (n div 10) @ [digit_char (n mod 10)])"

declare show_nat.simps [simp del]

text \<open>How \<open>format!\<close> prints an unsigned integer.\<close>

definition show_u :: "'a::len word \<Rightarrow> string" where
  "show_u w = show_nat (unat w)"

text \<open>What is printed can be read back, so two numbers never print the same.\<close>

definition read_digits :: "string \<Rightarrow> nat" where
  "read_digits s = foldl (\<lambda>a c. 10 * a + (of_char c - 48)) 0 s"

lemma read_show_nat: "read_digits (show_nat n) = n"
proof (induction n rule: show_nat.induct)
  case (1 n)
  have digit: "of_char (digit_char d) = 48 + d" if "d < 10" for d :: nat
    using that by (simp add: digit_char_def of_char_of take_bit_eq_mod)
  show ?case
  proof (cases "n < 10")
    case True
    then show ?thesis by (simp add: show_nat.simps [of n] read_digits_def digit)
  next
    case False
    then have "read_digits (show_nat (n div 10)) = n div 10" by (rule 1)
    then show ?thesis
      by (simp add: show_nat.simps [of n] read_digits_def digit False)
  qed
qed

lemma inj_show_u: "inj (show_u :: 'a::len word \<Rightarrow> string)"
  by (rule inj_on_inverseI [where g = "\<lambda>s. word_of_nat (read_digits s)"])
    (simp add: show_u_def read_show_nat)

lemma find_SomeD: "List.find P xs = Some e \<Longrightarrow> e \<in> set xs \<and> P e"
  by (induction xs) (auto split: if_splits)

subsection \<open>Words as natural numbers\<close>

lemma unat_add_nowrap:
  fixes a b :: "'a::len word"
  assumes "unat a + unat b < 2 ^ LENGTH('a)"
  shows "unat (a + b) = unat a + unat b"
  using assms by (simp add: unat_word_ariths)

lemma unat_mult_nowrap:
  fixes a b :: "'a::len word"
  assumes "unat a * unat b < 2 ^ LENGTH('a)"
  shows "unat (a * b) = unat a * unat b"
  using assms by (simp add: unat_word_ariths)

lemma unat_sub_nowrap:
  fixes a b :: "'a::len word"
  assumes "b \<le> a"
  shows "unat (a - b) = unat a - unat b"
  using assms by (rule unat_sub)

lemma unat_bound: "unat (a :: 'a::len word) < 2 ^ LENGTH('a)"
  by (rule unsigned_less)

lemma unat_le_max: "unat (a :: 'a::len word) \<le> 2 ^ LENGTH('a) - 1"
  using unat_bound [of a] by linarith

lemma unat_u32_bound: "unat (a :: u32) < 4294967296"
  using unat_bound [of a] by simp

lemma unat_u64_bound: "unat (a :: u64) < 18446744073709551616"
  using unat_bound [of a] by simp

lemma checked_add_Some:
  "checked_add a b = Some c \<longleftrightarrow>
     unat a + unat b < 2 ^ LENGTH('a) \<and> unat c = unat a + unat b"
  for a b c :: "'a::len word"
  by (auto simp: checked_add_def unat_add_nowrap word_unat_eq_iff)

lemma checked_add_None:
  "checked_add a b = None \<longleftrightarrow> 2 ^ LENGTH('a) \<le> unat a + unat b"
  for a b :: "'a::len word"
  by (auto simp: checked_add_def)

lemma checked_sub_Some:
  "checked_sub a b = Some c \<longleftrightarrow> unat b \<le> unat a \<and> unat c = unat a - unat b"
  for a b c :: "'a::len word"
  by (auto simp: checked_sub_def word_le_nat_alt unat_sub_nowrap word_unat_eq_iff)

lemma checked_sub_None: "checked_sub a b = None \<longleftrightarrow> unat a < unat b"
  for a b :: "'a::len word"
  by (auto simp: checked_sub_def word_le_nat_alt)

lemma checked_mul_Some:
  "checked_mul a b = Some c \<longleftrightarrow>
     unat a * unat b < 2 ^ LENGTH('a) \<and> unat c = unat a * unat b"
  for a b c :: "'a::len word"
  by (auto simp: checked_mul_def unat_mult_nowrap word_unat_eq_iff)

lemma checked_mul_None:
  "checked_mul a b = None \<longleftrightarrow> 2 ^ LENGTH('a) \<le> unat a * unat b"
  for a b :: "'a::len word"
  by (auto simp: checked_mul_def)

lemma unat_minus_one_word: "unat (- 1 :: 'a::len word) = 2 ^ LENGTH('a) - 1"
  by (simp add: unsigned_minus_1_eq_mask mask_eq_exp_minus_1)

lemma unat_saturating_add [arith]:
  "unat (saturating_add a b) = min (unat a + unat b) (2 ^ LENGTH('a) - 1)"
  for a b :: "'a::len word"
  by (auto simp: saturating_add_def unat_add_nowrap unat_minus_one_word min_def)

lemma unat_saturating_sub [arith]: "unat (saturating_sub a b) = unat a - unat b"
  for a b :: "'a::len word"
  by (simp add: saturating_sub_def word_le_nat_alt unat_sub_nowrap)

lemma unat_saturating_mul [arith]:
  "unat (saturating_mul a b) = min (unat a * unat b) (2 ^ LENGTH('a) - 1)"
  for a b :: "'a::len word"
proof (cases "unat a * unat b < 2 ^ LENGTH('a)")
  case True
  then show ?thesis by (simp add: saturating_mul_def unat_mult_nowrap min_absorb1)
next
  case False
  then have "2 ^ LENGTH('a) - 1 \<le> unat a * unat b" by linarith
  with False show ?thesis
    by (simp only: saturating_mul_def unat_minus_one_word if_False min_absorb2)
qed

lemma unat_max [arith]: "unat (max a b) = max (unat a) (unat b)"
  for a b :: "'a::len word"
  by (simp add: max_def word_le_nat_alt)

lemma unat_min [arith]: "unat (min a b) = min (unat a) (unat b)"
  for a b :: "'a::len word"
  by (simp add: min_def word_le_nat_alt)

lemma unat_u64_to_u128: "unat (ucast (a :: u64) :: u128) = unat a"
  using unat_bound [of a] by (simp add: unsigned_ucast_eq take_bit_nat_eq_self_iff)

lemma mul_div_u64_unat:
  "unat (mul_div_u64 a b d) = (unat a * unat b div unat d) mod 2 ^ 64"
proof -
  have "unat a * unat b < 2 ^ 64 * 2 ^ 64"
    by (rule mult_strict_mono) (use unat_bound [of a] unat_bound [of b] in auto)
  then have "unat (ucast a * ucast b :: u128) = unat a * unat b"
    by (subst unat_mult_nowrap) (simp_all add: unat_u64_to_u128)
  then show ?thesis
    by (simp add: mul_div_u64_def unat_div_distrib unsigned_ucast_eq take_bit_eq_mod)
qed

text \<open>A chain of checked additions, as \<open>checked_add(..).and_then(..)\<close> writes it.\<close>

lemma checked_add_bind:
  "Option.bind (checked_add a b) f =
     (if unat a + unat b < 2 ^ LENGTH('a) then f (a + b) else None)"
  for a b :: "'a::len word"
  by (simp add: checked_add_def)

lemma checked_add3_Some:
  "Option.bind (checked_add a b) (\<lambda>v. checked_add v c) = Some r \<longleftrightarrow>
     unat a + unat b + unat c < 2 ^ LENGTH('a) \<and> unat r = unat a + unat b + unat c"
  for a b c r :: "'a::len word"
  by (auto simp: checked_add_bind checked_add_Some unat_add_nowrap)

lemma checked_add3_None:
  "Option.bind (checked_add a b) (\<lambda>v. checked_add v c) = None \<longleftrightarrow>
     2 ^ LENGTH('a) \<le> unat a + unat b + unat c"
  for a b c :: "'a::len word"
  by (auto simp: checked_add_bind checked_add_None unat_add_nowrap)

lemma checked_add4_Some:
  "Option.bind (checked_add a b) (\<lambda>v. Option.bind (checked_add v c) (\<lambda>v. checked_add v d)) = Some r
   \<longleftrightarrow> unat a + unat b + unat c + unat d < 2 ^ LENGTH('a)
     \<and> unat r = unat a + unat b + unat c + unat d"
  for a b c d r :: "'a::len word"
  by (auto simp: checked_add_bind checked_add_Some unat_add_nowrap)

lemma checked_sub_nat:
  "checked_sub a b = (if unat b \<le> unat a then Some (a - b) else None)"
  by (simp add: checked_sub_def word_le_nat_alt)

lemma unat_sub_nat: "unat b \<le> unat a \<Longrightarrow> unat (a - b) = unat a - unat b"
  by (rule unat_sub_nowrap) (simp add: word_le_nat_alt)

text \<open>The rules a proof about word guards starts from.\<close>

lemmas word_nat = word_le_nat_alt word_less_nat_alt word_unat_eq_iff
lemmas checked = checked_add_Some checked_add_None checked_sub_Some checked_sub_None
  checked_mul_Some checked_mul_None checked_add3_Some checked_add3_None checked_add4_Some

end
