(* ===== verification/Swap_Types.thy ===== *)
theory Swap_Types
  imports Prelude
begin

text \<open>
  The core vocabulary of \<open>swap-common/src/swap.rs\<close> and \<open>swap-common/src/error.rs\<close>: the
  direction of a swap, the networks the protocol can name, the lifecycle states, the error
  type with its transient/permanent split, and the projection of a lifecycle state onto the
  per-leg status the owner is shown.
\<close>

subsection \<open>Direction and network\<close>

datatype swap_direction = Submarine | Reverse

fun direction_as_str :: "swap_direction \<Rightarrow> string" where
  "direction_as_str Submarine = ''submarine''"
| "direction_as_str Reverse = ''reverse''"

datatype network_spec = Bitcoin | Testnet | Signet | Regtest

text \<open>
  \<open>bitcoin::Network\<close> is non-exhaustive: \<open>OtherNetwork\<close> stands for every variant a later
  release of that crate may add, with the name it displays.
\<close>

datatype bitcoin_network = NetBitcoin | NetTestnet | NetSignet | NetRegtest | OtherNetwork string

fun to_bitcoin_network :: "network_spec \<Rightarrow> bitcoin_network" where
  "to_bitcoin_network Bitcoin = NetBitcoin"
| "to_bitcoin_network Testnet = NetTestnet"
| "to_bitcoin_network Signet = NetSignet"
| "to_bitcoin_network Regtest = NetRegtest"

subsection \<open>Errors\<close>

datatype swap_error =
    InvalidAmount string
  | AmountOutOfRange u64 u64 u64
  | UnsupportedDirection
  | InvalidPubkey string
  | InvalidPreimage string
  | HtlcError string
  | SwapQuoteExpired string
  | Serialization string
  | HexError string
  | Transient string
  | Permanent string
  | Other string

fun is_transient :: "swap_error \<Rightarrow> bool" where
  "is_transient (Transient _) = True"
| "is_transient _ = False"

definition transient :: "string \<Rightarrow> string \<Rightarrow> swap_error" where
  "transient what e = Transient (what @ '': '' @ e)"

text \<open>How the error type displays (its \<open>#[error(..)]\<close> attributes).\<close>

fun show_swap_error :: "swap_error \<Rightarrow> string" where
  "show_swap_error (InvalidAmount e) = ''invalid amount: '' @ e"
| "show_swap_error (AmountOutOfRange amount mn mx) =
     ''amount '' @ show_u amount @ '' outside offer range ['' @ show_u mn @ '', '' @ show_u mx @ '']''"
| "show_swap_error UnsupportedDirection = ''unsupported swap direction for this offer''"
| "show_swap_error (InvalidPubkey e) = ''invalid public key: '' @ e"
| "show_swap_error (InvalidPreimage e) = ''invalid preimage/hash: '' @ e"
| "show_swap_error (HtlcError e) = ''htlc script error: '' @ e"
| "show_swap_error (SwapQuoteExpired e) = ''quote expired or unknown: '' @ e"
| "show_swap_error (Serialization e) = ''serialization error: '' @ e"
| "show_swap_error (HexError e) = ''hex error: '' @ e"
| "show_swap_error (Transient e) = ''transient: '' @ e"
| "show_swap_error (Permanent e) = ''permanent: '' @ e"
| "show_swap_error (Other e) = ''other: '' @ e"

fun from_bitcoin_network :: "bitcoin_network \<Rightarrow> swap_error + network_spec" where
  "from_bitcoin_network NetBitcoin = Inr Bitcoin"
| "from_bitcoin_network NetTestnet = Inr Testnet"
| "from_bitcoin_network NetSignet = Inr Signet"
| "from_bitcoin_network NetRegtest = Inr Regtest"
| "from_bitcoin_network (OtherNetwork other) =
     Inl (Permanent (''this build has no wire name for the '' @ other @ '' network''))"

subsection \<open>Lifecycle\<close>

datatype swap_state =
    Created
  | LockupPending
  | LockupConfirmed
  | InvoicePending
  | InvoicePaid
  | ClaimPending
  | Claimed
  | Refunded
  | Expired
  | Failed string

fun is_terminal :: "swap_state \<Rightarrow> bool" where
  "is_terminal Claimed = True"
| "is_terminal Refunded = True"
| "is_terminal Expired = True"
| "is_terminal (Failed _) = True"
| "is_terminal _ = False"

datatype leg_status =
    LegPending
  | LegFailed
  | LegReplaced
  | LegInTransit
  | LegNeedsAttention
  | LegDeliveryFailed
  | LegRefunded
  | LegDelivered

fun leg_is_terminal :: "leg_status \<Rightarrow> bool" where
  "leg_is_terminal LegPending = False"
| "leg_is_terminal LegInTransit = False"
| "leg_is_terminal LegNeedsAttention = False"
| "leg_is_terminal LegFailed = True"
| "leg_is_terminal LegReplaced = True"
| "leg_is_terminal LegDeliveryFailed = True"
| "leg_is_terminal LegRefunded = True"
| "leg_is_terminal LegDelivered = True"

definition leg_status :: "swap_state \<Rightarrow> swap_direction \<Rightarrow> bool \<Rightarrow> bool \<Rightarrow> leg_status" where
  "leg_status state direction funding_known needs_recovery =
     (let status =
        (case state of
           Created \<Rightarrow> LegPending
         | LockupPending \<Rightarrow>
             (case direction of Reverse \<Rightarrow> LegInTransit | Submarine \<Rightarrow> LegPending)
         | LockupConfirmed \<Rightarrow> LegInTransit
         | InvoicePending \<Rightarrow> LegInTransit
         | InvoicePaid \<Rightarrow>
             (case direction of Reverse \<Rightarrow> LegInTransit | Submarine \<Rightarrow> LegDelivered)
         | ClaimPending \<Rightarrow>
             (case direction of Reverse \<Rightarrow> LegInTransit | Submarine \<Rightarrow> LegDelivered)
         | Claimed \<Rightarrow> LegDelivered
         | Refunded \<Rightarrow> LegRefunded
         | Expired \<Rightarrow> LegFailed
         | Failed _ \<Rightarrow> (if funding_known then LegDeliveryFailed else LegFailed))
      in if needs_recovery \<and> \<not> leg_is_terminal status then LegNeedsAttention else status)"

subsection \<open>Facts\<close>

lemma network_roundtrip: "from_bitcoin_network (to_bitcoin_network s) = Inr s"
  by (cases s) simp_all

lemma from_bitcoin_network_inj:
  "from_bitcoin_network n = Inr s \<longleftrightarrow> n = to_bitcoin_network s"
  by (cases n; cases s) simp_all

text \<open>The owner was paid before the swap itself finished: a submarine swap past its payment.\<close>

definition owner_paid_early :: "swap_state \<Rightarrow> swap_direction \<Rightarrow> bool" where
  "owner_paid_early s d \<longleftrightarrow> d = Submarine \<and> s \<in> {InvoicePaid, ClaimPending}"

lemma leg_status_plain_terminal:
  "leg_is_terminal (leg_status s d f False) \<longleftrightarrow> is_terminal s \<or> owner_paid_early s d"
  by (cases s; cases d) (simp_all add: leg_status_def owner_paid_early_def)

lemma leg_status_recovery:
  "leg_status s d f True =
     (if is_terminal s \<or> owner_paid_early s d then leg_status s d f False else LegNeedsAttention)"
  by (cases s; cases d) (simp_all add: leg_status_def owner_paid_early_def)

lemma leg_status_never:
  "leg_status s d f r \<noteq> LegReplaced"
  "leg_status s d f False \<noteq> LegNeedsAttention"
  by (cases s; cases d; simp add: leg_status_def)+

text \<open>A leg the owner is told is finished is exactly one whose swap is terminal, or a
  submarine swap whose invoice has been paid; the recovery flag turns every other status into
  \<open>needs_attention\<close> and never reopens a finished leg, and \<open>replaced\<close> is never reported.\<close>

theorem leg_status_correct:
  "(leg_is_terminal (leg_status s d f r) \<longleftrightarrow> is_terminal s \<or> owner_paid_early s d)
   \<and> (leg_status s d f r = LegNeedsAttention \<longleftrightarrow> r \<and> \<not> (is_terminal s \<or> owner_paid_early s d))
   \<and> leg_status s d f r \<noteq> LegReplaced"
  using leg_status_never [of s d f] leg_status_recovery [of s d f]
    leg_status_plain_terminal [of s d f]
  by (cases r) auto

end
