(* ===== verification/Timelock.thy ===== *)
theory Timelock
  imports Prelude
begin

text \<open>
  The cross-leg timelock model of \<open>swap-common/src/timelock.rs\<close>: the constants, the
  operator's parameters, every gate either side runs before an irreversible act, and the
  displayed reason of a refusal. All heights are \<open>u32\<close> and every sum is checked, exactly
  as in the source; the lemmas restate each gate over natural numbers, where nothing wraps.
\<close>

subsection \<open>Constants and parameters\<close>

definition REFUND_CONFIRM_BLOCKS :: u32 where "REFUND_CONFIRM_BLOCKS = 18"
definition LN_HOLD_EXPIRY_DELTA :: u32 where "LN_HOLD_EXPIRY_DELTA = 24"
definition REVERSE_LATE_PAYMENT_SLACK :: u32 where "REVERSE_LATE_PAYMENT_SLACK = 30"
definition PROVIDER_MIN_CLAIM_WINDOW :: u32 where "PROVIDER_MIN_CLAIM_WINDOW = 18"
definition CLIENT_CLAIM_WINDOW :: u32 where "CLIENT_CLAIM_WINDOW = 18"
definition SECONDS_PER_BLOCK :: u64 where "SECONDS_PER_BLOCK = 600"
definition CLAIM_ABORT_MARGIN :: u32 where "CLAIM_ABORT_MARGIN = 6"
definition FUNDING_GRACE :: u32 where "FUNDING_GRACE = 6"
definition MAX_TIMEOUT_BLOCKS :: u32 where "MAX_TIMEOUT_BLOCKS = 1008"

text \<open>\<open>validate::MAX_REQUIRED_CONFIRMATIONS\<close>, declared here because this module reads it.\<close>

definition MAX_REQUIRED_CONFIRMATIONS :: u32 where "MAX_REQUIRED_CONFIRMATIONS = 12"

lemmas timelock_consts = REFUND_CONFIRM_BLOCKS_def LN_HOLD_EXPIRY_DELTA_def
  REVERSE_LATE_PAYMENT_SLACK_def PROVIDER_MIN_CLAIM_WINDOW_def CLIENT_CLAIM_WINDOW_def
  SECONDS_PER_BLOCK_def CLAIM_ABORT_MARGIN_def FUNDING_GRACE_def MAX_TIMEOUT_BLOCKS_def
  MAX_REQUIRED_CONFIRMATIONS_def

record timelock_params =
  tl_htlc_timeout_blocks :: u32
  tl_required_confirmations :: u32
  tl_min_claim_window_blocks :: u32
  tl_refund_confirm_blocks :: u32
  tl_ln_hold_expiry_delta :: u32
  tl_late_payment_slack :: u32
  tl_max_timeout_blocks :: u32

definition default_params :: timelock_params where
  "default_params =
     \<lparr>tl_htlc_timeout_blocks = 144,
      tl_required_confirmations = 1,
      tl_min_claim_window_blocks = PROVIDER_MIN_CLAIM_WINDOW,
      tl_refund_confirm_blocks = REFUND_CONFIRM_BLOCKS,
      tl_ln_hold_expiry_delta = LN_HOLD_EXPIRY_DELTA,
      tl_late_payment_slack = REVERSE_LATE_PAYMENT_SLACK,
      tl_max_timeout_blocks = MAX_TIMEOUT_BLOCKS\<rparr>"

datatype timelock_violation =
    LnExpiryTooEarly (tv_ln_expiry: u32) (tv_onchain_timeout: u32) (tv_need: u32)
  | ClaimWindowTooShort u32 u32 u32 \<comment> \<open>tip, timeout, need\<close>
  | LnExpiryTooLate u32 u32 u32 \<comment> \<open>ln_expiry, onchain_timeout, latest\<close>
  | TimeoutTooFar u32 u32 u32 \<comment> \<open>timeout, tip, max\<close>
  | TimeoutInPast u32 u32 \<comment> \<open>timeout, tip\<close>
  | ParamsUnsatisfiable string
  | HeightOverflow

fun show_violation :: "timelock_violation \<Rightarrow> string" where
  "show_violation (LnExpiryTooEarly ln_expiry ot need) =
     ''lightning HTLC expires at height '' @ show_u ln_expiry
     @ '' but the on-chain HTLC refunds at '' @ show_u ot
     @ ''; the lightning leg must survive to at least '' @ show_u need"
| "show_violation (LnExpiryTooLate ln_expiry ot latest) =
     ''the outgoing lightning HTLC could expire as late as '' @ show_u ln_expiry
     @ '', but the on-chain HTLC refunds at '' @ show_u ot
     @ ''; it must end by '' @ show_u latest @ '' to leave room to claim''"
| "show_violation (ClaimWindowTooShort tip timeout need) =
     ''only '' @ show_u (saturating_sub timeout tip) @ '' block(s) remain to the timeout at ''
     @ show_u timeout @ '' (tip '' @ show_u tip @ ''); '' @ show_u need @ '' are needed''"
| "show_violation (TimeoutTooFar timeout tip mx) =
     ''timeout height '' @ show_u timeout @ '' is '' @ show_u (saturating_sub timeout tip)
     @ '' blocks past the tip '' @ show_u tip @ ''; the ceiling is '' @ show_u mx"
| "show_violation (TimeoutInPast timeout tip) =
     ''timeout height '' @ show_u timeout @ '' is not ahead of the tip '' @ show_u tip"
| "show_violation (ParamsUnsatisfiable detail) =
     ''timelock parameters are unsatisfiable: '' @ detail"
| "show_violation HeightOverflow = ''block height arithmetic overflowed''"

subsection \<open>The gates\<close>

definition reverse_invoice_min_expiry_secs :: "u32 \<Rightarrow> u64" where
  "reverse_invoice_min_expiry_secs required_confirmations =
     (let confirmations = max required_confirmations MAX_REQUIRED_CONFIRMATIONS
      in saturating_mul (ucast (saturating_add confirmations CLIENT_CLAIM_WINDOW)) SECONDS_PER_BLOCK)"

definition onchain_timeout :: "u32 \<Rightarrow> timelock_params \<Rightarrow> timelock_violation + u32" where
  "onchain_timeout tip p = ok_or HeightOverflow (checked_add tip (tl_htlc_timeout_blocks p))"

definition reverse_invoice_cltv_delta :: "timelock_params \<Rightarrow> timelock_violation + u32" where
  "reverse_invoice_cltv_delta p =
     ok_or HeightOverflow
       (Option.bind (Option.bind (checked_add (tl_htlc_timeout_blocks p) (tl_refund_confirm_blocks p))
          (\<lambda>v. checked_add v (tl_ln_hold_expiry_delta p)))
          (\<lambda>v. checked_add v (tl_late_payment_slack p)))"

definition required_ln_expiry :: "u32 \<Rightarrow> timelock_params \<Rightarrow> timelock_violation + u32" where
  "required_ln_expiry timeout p =
     ok_or HeightOverflow
       (Option.bind (checked_add timeout (tl_refund_confirm_blocks p))
          (\<lambda>v. checked_add v (tl_ln_hold_expiry_delta p)))"

definition check_reverse_before_fund ::
  "u32 \<Rightarrow> u32 \<Rightarrow> u32 \<Rightarrow> timelock_params \<Rightarrow> timelock_violation + unit" where
  "check_reverse_before_fund tip timeout ln_expiry p =
     try_bind (required_ln_expiry timeout p) (\<lambda>need.
       if ln_expiry < need then Inl (LnExpiryTooEarly ln_expiry timeout need)
       else try_bind
         (ok_or HeightOverflow
           (Option.bind (checked_add (tl_required_confirmations p) CLIENT_CLAIM_WINDOW)
              (\<lambda>v. checked_add v (tl_refund_confirm_blocks p))))
         (\<lambda>need_blocks.
           let remaining = saturating_sub timeout tip
           in if remaining < need_blocks
              then Inl (ClaimWindowTooShort tip timeout need_blocks)
              else Inr ()))"

definition check_submarine_before_pay ::
  "u32 \<Rightarrow> u32 \<Rightarrow> timelock_params \<Rightarrow> timelock_violation + unit" where
  "check_submarine_before_pay tip timeout_height p =
     (if timeout_height \<le> tip then Inl (TimeoutInPast timeout_height tip)
      else let remaining = timeout_height - tip
        in if remaining < tl_min_claim_window_blocks p
           then Inl (ClaimWindowTooShort tip timeout_height (tl_min_claim_window_blocks p))
           else Inr ())"

definition submarine_cltv_budget :: "u32 \<Rightarrow> u32 \<Rightarrow> timelock_params \<Rightarrow> u32 option" where
  "submarine_cltv_budget tip timeout_height p =
     Option.bind (checked_sub timeout_height tip) (\<lambda>v.
       Option.bind (checked_sub v (tl_min_claim_window_blocks p)) (\<lambda>budget.
         if budget > 0 then Some budget else None))"

definition check_submarine_invoice_cltv ::
  "u32 \<Rightarrow> u32 \<Rightarrow> u32 \<Rightarrow> timelock_params \<Rightarrow> timelock_violation + unit" where
  "check_submarine_invoice_cltv tip timeout_height min_final_cltv_expiry p =
     try_bind
       (ok_or (ClaimWindowTooShort tip timeout_height (tl_min_claim_window_blocks p))
          (submarine_cltv_budget tip timeout_height p))
       (\<lambda>budget.
         if min_final_cltv_expiry \<ge> budget
         then Inl (LnExpiryTooLate (saturating_add tip min_final_cltv_expiry) timeout_height
                     (saturating_add tip budget))
         else Inr ())"

definition check_timeout_ceiling ::
  "u32 \<Rightarrow> u32 \<Rightarrow> timelock_params \<Rightarrow> timelock_violation + unit" where
  "check_timeout_ceiling tip timeout_height p =
     (if timeout_height \<le> tip then Inl (TimeoutInPast timeout_height tip)
      else if timeout_height - tip > tl_max_timeout_blocks p
      then Inl (TimeoutTooFar timeout_height tip (tl_max_timeout_blocks p))
      else Inr ())"

definition check_client_reverse_accept ::
  "u32 \<Rightarrow> u32 \<Rightarrow> timelock_params \<Rightarrow> timelock_violation + unit" where
  "check_client_reverse_accept tip timeout_height p =
     try_bind (check_timeout_ceiling tip timeout_height p) (\<lambda>_.
       try_bind
         (ok_or HeightOverflow
           (Option.bind (checked_add (tl_required_confirmations p) CLIENT_CLAIM_WINDOW)
              (\<lambda>v. checked_add v CLAIM_ABORT_MARGIN)))
         (\<lambda>need.
           let remaining = timeout_height - tip
           in if remaining < need then Inl (ClaimWindowTooShort tip timeout_height need)
              else Inr ()))"

definition check_client_submarine_accept ::
  "u32 \<Rightarrow> u32 \<Rightarrow> timelock_params \<Rightarrow> timelock_violation + unit" where
  "check_client_submarine_accept tip timeout_height p =
     try_bind (check_timeout_ceiling tip timeout_height p) (\<lambda>_.
       try_bind
         (ok_or HeightOverflow
           (Option.bind (checked_add (tl_required_confirmations p) PROVIDER_MIN_CLAIM_WINDOW)
              (\<lambda>v. checked_add v FUNDING_GRACE)))
         (\<lambda>need.
           let remaining = timeout_height - tip
           in if remaining < need then Inl (ClaimWindowTooShort tip timeout_height need)
              else Inr ()))"

definition claim_start_is_safe :: "u32 \<Rightarrow> u32 \<Rightarrow> bool" where
  "claim_start_is_safe tip timeout_height \<longleftrightarrow>
     timeout_height > tip \<and> timeout_height - tip > CLAIM_ABORT_MARGIN"

definition validate_params :: "timelock_params \<Rightarrow> timelock_violation + unit" where
  "validate_params p =
     try_bind
       (ok_or HeightOverflow
         (Option.bind (checked_add (tl_required_confirmations p) FUNDING_GRACE)
            (\<lambda>v. checked_add v (tl_min_claim_window_blocks p))))
       (\<lambda>need.
         if tl_htlc_timeout_blocks p < need
         then Inl (ParamsUnsatisfiable
           (''htlc_timeout_blocks is shorter than required_confirmations + funding grace ''
            @ ''+ min_claim_window_blocks''))
         else if tl_htlc_timeout_blocks p > tl_max_timeout_blocks p
         then Inl (ParamsUnsatisfiable ''htlc_timeout_blocks exceeds max_timeout_blocks'')
         else try_bind (reverse_invoice_cltv_delta p) (\<lambda>delta.
           if delta > 2016
           then Inl (ParamsUnsatisfiable
             (''the derived hold-invoice CLTV delta exceeds the 2016-block ceiling most ''
              @ ''Lightning nodes enforce; lower htlc_timeout_blocks''))
           else Inr ()))"

subsection \<open>The gates over natural numbers\<close>

lemma const_unat [simp]:
  "unat REFUND_CONFIRM_BLOCKS = 18" "unat LN_HOLD_EXPIRY_DELTA = 24"
  "unat REVERSE_LATE_PAYMENT_SLACK = 30" "unat PROVIDER_MIN_CLAIM_WINDOW = 18"
  "unat CLIENT_CLAIM_WINDOW = 18" "unat CLAIM_ABORT_MARGIN = 6" "unat FUNDING_GRACE = 6"
  "unat MAX_TIMEOUT_BLOCKS = 1008" "unat MAX_REQUIRED_CONFIRMATIONS = 12"
  "unat SECONDS_PER_BLOCK = 600"
  by (simp_all add: timelock_consts)

lemma onchain_timeout_Inr:
  "onchain_timeout tip p = Inr t \<longleftrightarrow>
     unat tip + unat (tl_htlc_timeout_blocks p) < 2 ^ 32
     \<and> unat t = unat tip + unat (tl_htlc_timeout_blocks p)"
  by (simp add: onchain_timeout_def checked)

lemma required_ln_expiry_Inr:
  "required_ln_expiry t p = Inr n \<longleftrightarrow>
     unat t + unat (tl_refund_confirm_blocks p) + unat (tl_ln_hold_expiry_delta p) < 2 ^ 32
     \<and> unat n = unat t + unat (tl_refund_confirm_blocks p) + unat (tl_ln_hold_expiry_delta p)"
  by (simp add: required_ln_expiry_def checked)

lemma reverse_invoice_cltv_delta_Inr:
  "reverse_invoice_cltv_delta p = Inr d \<longleftrightarrow>
     unat (tl_htlc_timeout_blocks p) + unat (tl_refund_confirm_blocks p)
       + unat (tl_ln_hold_expiry_delta p) + unat (tl_late_payment_slack p) < 2 ^ 32
     \<and> unat d = unat (tl_htlc_timeout_blocks p) + unat (tl_refund_confirm_blocks p)
       + unat (tl_ln_hold_expiry_delta p) + unat (tl_late_payment_slack p)"
  by (simp add: reverse_invoice_cltv_delta_def checked)

lemma check_submarine_before_pay_Inr:
  "check_submarine_before_pay tip t p = Inr () \<longleftrightarrow>
     unat tip < unat t \<and> unat tip + unat (tl_min_claim_window_blocks p) \<le> unat t"
  by (auto simp: check_submarine_before_pay_def Let_def word_nat unat_sub_nowrap not_le)

lemma submarine_cltv_budget_Some:
  "submarine_cltv_budget tip t p = Some b \<longleftrightarrow>
     unat tip + unat (tl_min_claim_window_blocks p) + unat b = unat t \<and> 0 < unat b"
  by (auto simp: submarine_cltv_budget_def checked_sub_nat word_nat unat_sub_nat)

lemma check_timeout_ceiling_Inr:
  "check_timeout_ceiling tip t p = Inr () \<longleftrightarrow>
     unat tip < unat t \<and> unat t \<le> unat tip + unat (tl_max_timeout_blocks p)"
  by (auto simp: check_timeout_ceiling_def word_nat unat_sub_nowrap not_le)

lemma check_reverse_before_fund_Inr:
  "check_reverse_before_fund tip t ln_expiry p = Inr () \<longleftrightarrow>
     unat t + unat (tl_refund_confirm_blocks p) + unat (tl_ln_hold_expiry_delta p) \<le> unat ln_expiry
     \<and> unat (tl_required_confirmations p) + 18 + unat (tl_refund_confirm_blocks p) < 2 ^ 32
     \<and> unat (tl_required_confirmations p) + 18 + unat (tl_refund_confirm_blocks p)
         \<le> unat t - unat tip"
  using unat_u32_bound [of ln_expiry]
  by (auto simp: check_reverse_before_fund_def required_ln_expiry_def checked_add_bind
      checked_add_def Let_def word_nat arith unat_add_nowrap)

lemma check_client_reverse_accept_Inr:
  "check_client_reverse_accept tip t p = Inr () \<longleftrightarrow>
     unat tip < unat t \<and> unat t \<le> unat tip + unat (tl_max_timeout_blocks p)
     \<and> unat tip + (unat (tl_required_confirmations p) + 24) \<le> unat t"
  using unat_u32_bound [of t]
  by (auto simp: check_client_reverse_accept_def check_timeout_ceiling_def checked_add_bind
      checked_add_def Let_def word_nat unat_add_nowrap unat_sub_nat not_less)

lemma check_client_submarine_accept_Inr:
  "check_client_submarine_accept tip t p = Inr () \<longleftrightarrow>
     unat tip < unat t \<and> unat t \<le> unat tip + unat (tl_max_timeout_blocks p)
     \<and> unat tip + (unat (tl_required_confirmations p) + 24) \<le> unat t"
  using unat_u32_bound [of t]
  by (auto simp: check_client_submarine_accept_def check_timeout_ceiling_def checked_add_bind
      checked_add_def Let_def word_nat unat_add_nowrap unat_sub_nat not_less)

lemma check_submarine_invoice_cltv_Inr:
  "check_submarine_invoice_cltv tip t d p = Inr () \<longleftrightarrow>
     unat tip + unat (tl_min_claim_window_blocks p) + unat d < unat t"
  by (auto simp: check_submarine_invoice_cltv_def submarine_cltv_budget_def checked_sub_nat
      word_nat unat_sub_nat)

lemma claim_start_is_safe_iff: "claim_start_is_safe tip t \<longleftrightarrow> unat tip + 6 < unat t"
  by (auto simp: claim_start_is_safe_def word_nat unat_sub_nat)

lemma validate_params_Inr:
  "validate_params p = Inr () \<longleftrightarrow>
     unat (tl_required_confirmations p) + 6 + unat (tl_min_claim_window_blocks p)
       \<le> unat (tl_htlc_timeout_blocks p)
     \<and> unat (tl_htlc_timeout_blocks p) \<le> unat (tl_max_timeout_blocks p)
     \<and> unat (tl_htlc_timeout_blocks p) + unat (tl_refund_confirm_blocks p)
       + unat (tl_ln_hold_expiry_delta p) + unat (tl_late_payment_slack p) \<le> 2016"
  using unat_u32_bound [of "tl_htlc_timeout_blocks p"]
  by (auto simp: validate_params_def reverse_invoice_cltv_delta_def checked_add_bind
      checked_add_def Let_def word_nat unat_add_nowrap not_less)

lemma reverse_invoice_min_expiry_secs_unat:
  "unat (reverse_invoice_min_expiry_secs c) = 600 * min (max (unat c) 12 + 18) 4294967295"
proof -
  have "unat (ucast (x :: u32) :: u64) = unat x" for x
    using unat_bound [of x] by (simp add: unsigned_ucast_eq take_bit_nat_eq_self_iff)
  then show ?thesis using unat_u32_bound [of c]
    by (auto simp: reverse_invoice_min_expiry_secs_def Let_def arith min_def max_def word_le_nat_alt)
qed

subsection \<open>What the gates buy\<close>

text \<open>C40: The reverse funding gate lets the provider fund exactly when, over unbounded numbers,
  the held Lightning HTLC outlives the on-chain timeout by the refund window plus the node's
  hold margin, and enough blocks remain for the client's claim and the provider's refund; in
  particular no height sum wrapped around.\<close>

theorem reverse_fund_gate_exact:
  "check_reverse_before_fund tip t ln_expiry p = Inr () \<longleftrightarrow>
     unat t + unat (tl_refund_confirm_blocks p) + unat (tl_ln_hold_expiry_delta p) \<le> unat ln_expiry
     \<and> unat tip + (unat (tl_required_confirmations p) + 18 + unat (tl_refund_confirm_blocks p)) \<le> unat t"
  using unat_u32_bound [of t] by (auto simp: check_reverse_before_fund_Inr)

text \<open>A swap accepted at \<open>accepted\<close> whose invoice is paid at or after that height through a
  node that honours the requested CLTV delta always satisfies the Lightning half of the funding
  gate: the gate then refuses only because too few blocks remain before the on-chain timeout.\<close>

theorem honoured_delta_passes_fund_gate:
  assumes "onchain_timeout accepted p = Inr t"
    and "reverse_invoice_cltv_delta p = Inr d"
    and "accepted \<le> paid" and "checked_add paid d = Some ln_expiry"
  shows "check_reverse_before_fund tip t ln_expiry p = Inr () \<longleftrightarrow>
     unat tip + (unat (tl_required_confirmations p) + 18 + unat (tl_refund_confirm_blocks p)) \<le> unat t"
  using assms unat_u32_bound [of t]
  by (auto simp: onchain_timeout_Inr reverse_invoice_cltv_delta_Inr checked_add_Some
      word_le_nat_alt check_reverse_before_fund_Inr)

theorem honoured_delta_passes_fund_gate_witness:
  "check_reverse_before_fund 800010 800144 800226 default_params = Inr () \<longleftrightarrow>
     unat (800010 :: u32) + (unat (tl_required_confirmations default_params) + 18
       + unat (tl_refund_confirm_blocks default_params)) \<le> unat (800144 :: u32)"
proof (rule honoured_delta_passes_fund_gate)
  show "onchain_timeout 800000 default_params = Inr 800144"
    by (simp add: onchain_timeout_Inr default_params_def)
  show "reverse_invoice_cltv_delta default_params = Inr 216"
    by (simp add: reverse_invoice_cltv_delta_Inr default_params_def)
  show "(800000 :: u32) \<le> 800010" by simp
  show "checked_add (800010 :: u32) 216 = Some 800226" by (simp add: checked_add_Some)
qed

text \<open>A client's invoice that passes the submarine CLTV check can be paid at that tip: the
  pay gate holds, a positive CLTV budget exists, the invoice's own demand is below it, and every
  Lightning HTLC within the budget ends early enough to leave the whole claim window before the
  client's refund branch opens.\<close>

theorem submarine_invoice_gate_sound:
  assumes "check_submarine_invoice_cltv tip t d p = Inr ()"
  shows "check_submarine_before_pay tip t p = Inr ()
    \<and> (\<exists>b. submarine_cltv_budget tip t p = Some b \<and> d < b
        \<and> unat tip + unat b + unat (tl_min_claim_window_blocks p) = unat t)"
proof -
  from assms have d: "unat tip + unat (tl_min_claim_window_blocks p) + unat d < unat t"
    by (simp add: check_submarine_invoice_cltv_Inr)
  then obtain b where b: "submarine_cltv_budget tip t p = Some b"
    using assms by (cases "submarine_cltv_budget tip t p") (auto simp: check_submarine_invoice_cltv_def)
  with d show ?thesis
    by (auto simp: submarine_cltv_budget_Some check_submarine_before_pay_Inr word_nat)
qed

theorem submarine_invoice_gate_sound_witness:
  "check_submarine_before_pay 800000 800144 default_params = Inr ()
    \<and> (\<exists>b. submarine_cltv_budget 800000 800144 default_params = Some b \<and> 80 < b
        \<and> unat (800000 :: u32) + unat b + unat (tl_min_claim_window_blocks default_params)
          = unat (800144 :: u32))"
proof (rule submarine_invoice_gate_sound)
  show "check_submarine_invoice_cltv 800000 800144 80 default_params = Inr ()"
    by (simp add: check_submarine_invoice_cltv_Inr default_params_def)
qed

text \<open>A client that accepts a reverse-swap timeout at \<open>tip\<close> can still safely start its claim
  at every height below \<open>tip\<close> plus the required confirmations plus its claim window, and its
  funds are never locked longer than its own ceiling.\<close>

theorem client_reverse_accept_leaves_claim_window:
  assumes "check_client_reverse_accept tip t p = Inr ()"
    and "unat now < unat tip + unat (tl_required_confirmations p) + unat CLIENT_CLAIM_WINDOW"
  shows "claim_start_is_safe now t \<and> unat t - unat tip \<le> unat (tl_max_timeout_blocks p)"
  using assms by (auto simp: check_client_reverse_accept_Inr claim_start_is_safe_iff)

theorem client_reverse_accept_leaves_claim_window_witness:
  "claim_start_is_safe 800018 800144
   \<and> unat (800144 :: u32) - unat (800000 :: u32) \<le> unat (tl_max_timeout_blocks default_params)"
proof (rule client_reverse_accept_leaves_claim_window)
  show "check_client_reverse_accept 800000 800144 default_params = Inr ()"
    by (simp add: check_client_reverse_accept_Inr default_params_def)
  show "unat (800018 :: u32) < unat (800000 :: u32)
      + unat (tl_required_confirmations default_params) + unat CLIENT_CLAIM_WINDOW"
    by (simp add: default_params_def)
qed

text \<open>A configuration that passes startup validation with at least the protocol's claim
  window serves a submarine swap from any tip whose timeout is expressible: the client's accept
  gate passes at that tip, the provider may still pay at every height up to the funding depth
  plus grace, and the hold-invoice delta exists and is at most 2016 blocks.\<close>

theorem validated_params_serve_submarine:
  assumes "validate_params p = Inr ()"
    and "PROVIDER_MIN_CLAIM_WINDOW \<le> tl_min_claim_window_blocks p"
    and "onchain_timeout tip p = Inr t"
  shows "check_client_submarine_accept tip t p = Inr ()
    \<and> (\<forall>now. unat now \<le> unat tip + unat (tl_required_confirmations p) + unat FUNDING_GRACE
         \<longrightarrow> check_submarine_before_pay now t p = Inr ())
    \<and> (\<exists>d. reverse_invoice_cltv_delta p = Inr d \<and> d \<le> 2016)"
proof -
  from assms have v: "unat (tl_required_confirmations p) + 6 + unat (tl_min_claim_window_blocks p)
       \<le> unat (tl_htlc_timeout_blocks p)"
    and m: "unat (tl_htlc_timeout_blocks p) \<le> unat (tl_max_timeout_blocks p)"
    and w: "18 \<le> unat (tl_min_claim_window_blocks p)"
    and t: "unat t = unat tip + unat (tl_htlc_timeout_blocks p)"
    by (auto simp: validate_params_Inr onchain_timeout_Inr word_le_nat_alt)
  obtain d where d: "reverse_invoice_cltv_delta p = Inr d"
    using assms(1)
    by (cases "reverse_invoice_cltv_delta p") (auto simp: validate_params_def try_bind_Inr split: if_splits)
  then have "unat d \<le> 2016"
    using assms(1) by (simp add: reverse_invoice_cltv_delta_Inr validate_params_Inr)
  with v m w t d show ?thesis
    by (auto simp: check_client_submarine_accept_Inr check_submarine_before_pay_Inr word_le_nat_alt)
qed

theorem validated_params_serve_submarine_witness:
  "check_client_submarine_accept 800000 800144 default_params = Inr ()
    \<and> check_submarine_before_pay 800007 800144 default_params = Inr ()
    \<and> (\<exists>d. reverse_invoice_cltv_delta default_params = Inr d \<and> d \<le> 2016)"
proof -
  have p: "validate_params default_params = Inr ()"
    by (simp add: validate_params_Inr default_params_def)
  have w: "PROVIDER_MIN_CLAIM_WINDOW \<le> tl_min_claim_window_blocks default_params"
    by (simp add: default_params_def)
  have t: "onchain_timeout 800000 default_params = Inr 800144"
    by (simp add: onchain_timeout_Inr default_params_def)
  have "unat (800007 :: u32) \<le> unat (800000 :: u32)
      + unat (tl_required_confirmations default_params) + unat FUNDING_GRACE"
    by (simp add: default_params_def)
  with validated_params_serve_submarine [OF p w t] show ?thesis by blast
qed

end
