(* ===== verification/Messages.thy ===== *)
theory Messages
  imports Swap_Types
begin

text \<open>
  The wire messages of \<open>swap-common/src/messages.rs\<close>: one record per message struct, the
  tagged \<open>SwapMessage\<close> enum with its transport grouping, the fee arithmetic of an offer, the
  protocol version window, and the closed vocabulary of reject codes. How a \<open>Uuid\<close> is
  displayed belongs to the uuid crate, so it is the parameter \<open>us\<close> of the definitions that
  print one.
\<close>

subsection \<open>Protocol versions and limits\<close>

definition PROTOCOL_VERSION :: u16 where "PROTOCOL_VERSION = 1"
definition MIN_SUPPORTED_PROTOCOL_VERSION :: u16 where "MIN_SUPPORTED_PROTOCOL_VERSION = 0"

definition protocol_version_supported :: "u16 \<Rightarrow> bool" where
  "protocol_version_supported version \<longleftrightarrow>
     MIN_SUPPORTED_PROTOCOL_VERSION \<le> version \<and> version \<le> PROTOCOL_VERSION"

definition SWAP_LIST_DEFAULT_PAGE :: u32 where "SWAP_LIST_DEFAULT_PAGE = 10"
definition SWAP_LIST_MAX_PAGE :: u32 where "SWAP_LIST_MAX_PAGE = 16"
definition OWNER_REF_MAX_LEN :: nat where "OWNER_REF_MAX_LEN = 128"
definition MIN_AMOUNT_FEE_MULTIPLE :: u64 where "MIN_AMOUNT_FEE_MULTIPLE = 10"

text \<open>Strings are their UTF-8 bytes, one \<open>char\<close> each, so \<open>length\<close> is Rust's \<open>len\<close>.\<close>

definition owner_ref_is_valid :: "string \<Rightarrow> bool" where
  "owner_ref_is_valid owner_ref \<longleftrightarrow>
     length owner_ref \<le> OWNER_REF_MAX_LEN
     \<and> list_all (\<lambda>b. 0x20 \<le> (of_char b :: nat) \<and> (of_char b :: nat) \<le> 0x7e) owner_ref"

subsection \<open>Message bodies\<close>

record swap_offer =
  of_request_id :: "uuid option"
  of_offer_id :: uuid
  of_provider_pkarr :: string
  of_network :: network_spec
  of_directions :: "swap_direction list"
  of_min_amount_sat :: u64
  of_max_amount_sat :: u64
  of_base_fee_sat :: u64
  of_fee_ppm :: u64
  of_required_confirmations :: u32
  of_htlc_timeout_blocks :: u32
  of_lightning_node_id :: "string option"
  of_valid_until_unix :: u64
  of_fund_within_secs :: u64
  of_onchain_fee_sat :: u64
  of_fee_rate_sat_vb :: u64
  of_protocol_version :: u16
  of_features :: "string list"

record quote_fee =
  service_fee_sat :: u64
  onchain_fee_sat :: u64
  total_fee_sat :: u64

record quote_request =
  qr_request_id :: "uuid option"
  qr_offer_id :: uuid
  qr_client_pkarr :: string
  qr_direction :: swap_direction
  qr_amount_sat :: u64
  qr_protocol_version :: u16
  qr_features :: "string list"

record quote =
  q_request_id :: "uuid option"
  q_quote_id :: uuid
  q_offer_id :: uuid
  q_direction :: swap_direction
  q_amount_sat :: u64
  q_fee_sat :: u64
  q_service_fee_sat :: u64
  q_onchain_fee_sat :: u64
  q_fee_rate_sat_vb :: u64
  q_total_sat :: u64
  q_htlc_timeout_blocks :: u32
  q_required_confirmations :: u32
  q_valid_until_unix :: u64
  q_fund_within_secs :: u64
  q_protocol_version :: u16

datatype swap_script = P2wsh | TaprootBoltz

record boltz_tap_leaf =
  leaf_version :: u8
  leaf_output :: string

record boltz_swap_tree =
  claim_leaf :: boltz_tap_leaf
  refund_leaf :: boltz_tap_leaf

record swap_request =
  sr_script_type :: swap_script
  sr_quote_id :: uuid
  sr_client_pkarr :: string
  sr_direction :: swap_direction
  sr_payment_hash_hex :: string
  sr_client_claim_pubkey_hex :: "string option"
  sr_client_refund_pubkey_hex :: "string option"
  sr_invoice :: "string option"
  sr_owner_ref :: "string option"

record swap_accept =
  sa_script_type :: swap_script
  sa_swap_tree :: "boltz_swap_tree option"
  sa_quote_id :: uuid
  sa_swap_id :: uuid
  sa_direction :: swap_direction
  sa_htlc_script_hex :: string
  sa_htlc_address :: string
  sa_onchain_amount_sat :: u64
  sa_timeout_block_height :: u32
  sa_provider_pubkey_hex :: string
  sa_invoice :: "string option"

record offer_request =
  or_request_id :: "uuid option"

record swap_status_request =
  ssr_request_id :: "uuid option"
  ssr_swap_id :: "uuid option"
  ssr_quote_id :: "uuid option"

record swap_status_snapshot =
  ss_request_id :: "uuid option"
  ss_accept :: swap_accept
  ss_network :: network_spec
  ss_state :: swap_state
  ss_funding_txid_hex :: "string option"
  ss_funding_vout :: "u32 option"
  ss_spend_txid_hex :: "string option"
  ss_claim_observed_txid_hex :: "string option"
  ss_required_confirmations :: u32
  ss_updated_at_unix :: u64
  ss_observed_at_unix :: u64
  ss_created_at_unix :: u64
  ss_payment_hash_hex :: string
  ss_owner_ref :: "string option"
  ss_claimable :: bool

record swap_list_request =
  slr_request_id :: "uuid option"
  slr_cursor :: "string option"
  slr_limit :: "u32 option"
  slr_active_only :: bool

record swap_list =
  sl_request_id :: "uuid option"
  sl_snapshots :: "swap_status_snapshot list"
  sl_next_cursor :: "string option"

record swap_status_update =
  su_swap_id :: uuid
  su_state :: swap_state
  su_reference :: "string option"

record wake_capability =
  wc_v :: u16
  wc_gateway :: string
  wc_topics :: "string list"
  wc_token :: string
  wc_expires_at :: u64

record swap_wake_capability =
  sw_request_id :: "uuid option"
  sw_swap_id :: uuid
  sw_capability :: wake_capability

record coop_signature =
  cs_swap_id :: uuid
  cs_data_hex :: string

record reject =
  rj_code :: "string option"
  rj_request_id :: "uuid option"
  rj_swap_id :: "uuid option"
  rj_quote_id :: "uuid option"
  rj_reason :: string

datatype swap_message =
    MsgOffer swap_offer
  | MsgOfferRequest offer_request
  | MsgQuoteRequest quote_request
  | MsgQuote quote
  | MsgSwapRequest swap_request
  | MsgSwapAccept swap_accept
  | MsgSwapStatusUpdate swap_status_update
  | MsgSwapStatusRequest swap_status_request
  | MsgSwapStatusSnapshot swap_status_snapshot
  | MsgSwapListRequest swap_list_request
  | MsgSwapList swap_list
  | MsgSwapWakeCapability swap_wake_capability
  | MsgCoopSignature coop_signature
  | MsgReject reject

subsection \<open>Operations on offers and quotes\<close>

definition quote_fee_of :: "swap_offer \<Rightarrow> u64 \<Rightarrow> quote_fee" where
  "quote_fee_of offer amount_sat =
     (let proportional = mul_div_u64 amount_sat (of_fee_ppm offer) 1000000;
          service = saturating_add (of_base_fee_sat offer) proportional
      in \<lparr>service_fee_sat = service,
          onchain_fee_sat = of_onchain_fee_sat offer,
          total_fee_sat = saturating_add service (of_onchain_fee_sat offer)\<rparr>)"

definition supports :: "swap_offer \<Rightarrow> swap_direction \<Rightarrow> bool" where
  "supports offer dir \<longleftrightarrow> List.member (of_directions offer) dir"

definition effective_min_amount_sat :: "swap_offer \<Rightarrow> u64" where
  "effective_min_amount_sat offer =
     max (of_min_amount_sat offer) (saturating_mul (of_onchain_fee_sat offer) MIN_AMOUNT_FEE_MULTIPLE)"

definition accepts_amount :: "swap_offer \<Rightarrow> u64 \<Rightarrow> bool" where
  "accepts_amount offer amount_sat \<longleftrightarrow>
     amount_sat \<ge> effective_min_amount_sat offer \<and> amount_sat \<le> of_max_amount_sat offer"

definition quote_is_expired :: "quote \<Rightarrow> u64 \<Rightarrow> bool" where
  "quote_is_expired q now_unix \<longleftrightarrow> q_valid_until_unix q \<noteq> 0 \<and> now_unix \<ge> q_valid_until_unix q"

subsection \<open>Transport grouping\<close>

definition ephemeral :: "(uuid \<Rightarrow> string) \<Rightarrow> string \<Rightarrow> uuid \<Rightarrow> string" where
  "ephemeral us kind ident = ''ephemeral:'' @ kind @ '':'' @ us ident"

fun delivery_scope :: "(uuid \<Rightarrow> string) \<Rightarrow> swap_message \<Rightarrow> string" where
  "delivery_scope us (MsgSwapRequest request) = ''quote:'' @ us (sr_quote_id request)"
| "delivery_scope us (MsgSwapAccept accept) = ''quote:'' @ us (sa_quote_id accept)"
| "delivery_scope us (MsgSwapStatusUpdate update) = ''swap:'' @ us (su_swap_id update)"
| "delivery_scope us (MsgCoopSignature signature) = ''swap:'' @ us (cs_swap_id signature)"
| "delivery_scope us (MsgOffer offer) =
     ephemeral us ''offer'' (unwrap_or (of_request_id offer) (of_offer_id offer))"
| "delivery_scope us (MsgOfferRequest request) =
     ephemeral us ''offer-request'' (unwrap_or (or_request_id request) 0)"
| "delivery_scope us (MsgQuoteRequest request) =
     ephemeral us ''quote-request'' (unwrap_or (qr_request_id request) (qr_offer_id request))"
| "delivery_scope us (MsgQuote q) =
     ephemeral us ''quote'' (unwrap_or (q_request_id q) (q_quote_id q))"
| "delivery_scope us (MsgSwapStatusRequest request) =
     ephemeral us ''status-request''
       (unwrap_or (opt_or (opt_or (ssr_request_id request) (ssr_swap_id request)) (ssr_quote_id request)) 0)"
| "delivery_scope us (MsgSwapStatusSnapshot snapshot) =
     ephemeral us ''status-snapshot''
       (unwrap_or (ss_request_id snapshot) (sa_swap_id (ss_accept snapshot)))"
| "delivery_scope us (MsgSwapListRequest request) =
     ephemeral us ''list-request'' (unwrap_or (slr_request_id request) 0)"
| "delivery_scope us (MsgSwapList l) = ephemeral us ''list'' (unwrap_or (sl_request_id l) 0)"
| "delivery_scope us (MsgSwapWakeCapability offer) =
     ephemeral us ''wake-capability'' (unwrap_or (sw_request_id offer) (sw_swap_id offer))"
| "delivery_scope us (MsgReject rejection) =
     ephemeral us ''reject''
       (unwrap_or (opt_or (opt_or (rj_request_id rejection) (rj_quote_id rejection)) (rj_swap_id rejection)) 0)"

subsection \<open>Reject codes\<close>

datatype reject_code =
    RcNotFound
  | RcPending
  | RcAccessDenied
  | RcUnsupportedRoute
  | RcAmountBelowMinimum
  | RcAmountAboveMaximum
  | RcLiquidityUnavailable
  | RcRateLimited
  | RcPricingUnavailable
  | RcQuoteExpired
  | RcInvalidDestination
  | RcInvalidRequest
  | RcUnsupportedProtocol
  | RcOfferStale
  | RcInternalError

definition all_reject_codes :: "reject_code list" where
  "all_reject_codes =
     [RcNotFound, RcPending, RcAccessDenied, RcUnsupportedRoute, RcAmountBelowMinimum,
      RcAmountAboveMaximum, RcLiquidityUnavailable, RcRateLimited, RcPricingUnavailable,
      RcQuoteExpired, RcInvalidDestination, RcInvalidRequest, RcUnsupportedProtocol,
      RcOfferStale, RcInternalError]"

fun reject_code_as_str :: "reject_code \<Rightarrow> string" where
  "reject_code_as_str RcNotFound = ''not_found''"
| "reject_code_as_str RcPending = ''pending''"
| "reject_code_as_str RcAccessDenied = ''access_denied''"
| "reject_code_as_str RcUnsupportedRoute = ''unsupported_route''"
| "reject_code_as_str RcAmountBelowMinimum = ''amount_below_minimum''"
| "reject_code_as_str RcAmountAboveMaximum = ''amount_above_maximum''"
| "reject_code_as_str RcLiquidityUnavailable = ''liquidity_unavailable''"
| "reject_code_as_str RcRateLimited = ''rate_limited''"
| "reject_code_as_str RcPricingUnavailable = ''pricing_unavailable''"
| "reject_code_as_str RcQuoteExpired = ''quote_expired''"
| "reject_code_as_str RcInvalidDestination = ''invalid_destination''"
| "reject_code_as_str RcInvalidRequest = ''invalid_request''"
| "reject_code_as_str RcUnsupportedProtocol = ''unsupported_protocol''"
| "reject_code_as_str RcOfferStale = ''offer_stale''"
| "reject_code_as_str RcInternalError = ''internal_error''"

datatype unknown_reject_code = UnknownRejectCode

definition reject_code_from_str :: "string \<Rightarrow> unknown_reject_code + reject_code" where
  "reject_code_from_str value =
     ok_or UnknownRejectCode (List.find (\<lambda>code. reject_code_as_str code = value) all_reject_codes)"

definition reject_code_of :: "reject \<Rightarrow> reject_code option" where
  "reject_code_of r =
     Option.bind (rj_code r) (\<lambda>s.
       case reject_code_from_str s of Inl _ \<Rightarrow> None | Inr c \<Rightarrow> Some c)"

subsection \<open>Facts\<close>

lemma all_reject_codes_complete: "c \<in> set all_reject_codes"
  by (cases c) (simp_all add: all_reject_codes_def)

lemma reject_code_as_str_inj [simp]:
  "reject_code_as_str c = reject_code_as_str d \<longleftrightarrow> c = d"
  by (cases c; cases d) simp_all

text \<open>Every reject code is sent as its own string and read back as itself, and a received
  string is read as a code only if it is that code's string: no two codes share a spelling, and
  an unknown string is reported as no code rather than as a wrong one.\<close>

theorem reject_code_roundtrip:
  "(reject_code_from_str s = Inr c \<longleftrightarrow> s = reject_code_as_str c)
   \<and> (reject_code_of r = Some c \<longleftrightarrow> rj_code r = Some (reject_code_as_str c))"
proof -
  have parse: "reject_code_from_str s = Inr c \<longleftrightarrow> s = reject_code_as_str c" for s
  proof
    assume "reject_code_from_str s = Inr c"
    then show "s = reject_code_as_str c"
      by (auto simp: reject_code_from_str_def find_Some_iff)
  next
    assume "s = reject_code_as_str c"
    then show "reject_code_from_str s = Inr c"
      using all_reject_codes_complete [of c]
      by (cases "List.find (\<lambda>code. reject_code_as_str code = s) all_reject_codes")
         (auto simp: reject_code_from_str_def find_None_iff find_Some_iff)
  qed
  show ?thesis
  proof (cases "rj_code r")
    case None
    then show ?thesis by (simp add: reject_code_of_def parse)
  next
    case (Some v)
    then show ?thesis using parse [of v] parse [of s]
      by (cases "reject_code_from_str v") (auto simp: reject_code_of_def)
  qed
qed

lemma delivery_scope_quote:
  assumes "delivery_scope us m = ''quote:'' @ t"
  shows "(\<exists>r. m = MsgSwapRequest r \<and> us (sr_quote_id r) = t)
       \<or> (\<exists>a. m = MsgSwapAccept a \<and> us (sa_quote_id a) = t)"
  using assms by (cases m) (simp_all add: ephemeral_def)

text \<open>The only messages grouped with a swap's creation are its request and its acceptance,
  and only for that quote: whatever ids a quote, a status query, a listing, a wake grant or a
  rejection carries, its transport scope never equals a creation scope, so expiring it cannot
  complete a creation.\<close>

theorem creation_scope_is_exclusive:
  "delivery_scope us m = delivery_scope us (MsgSwapRequest r) \<longleftrightarrow>
     (\<exists>r'. m = MsgSwapRequest r' \<and> us (sr_quote_id r') = us (sr_quote_id r))
   \<or> (\<exists>a. m = MsgSwapAccept a \<and> us (sa_quote_id a) = us (sr_quote_id r))"
  using delivery_scope_quote [of us m "us (sr_quote_id r)"] by auto

lemma quote_fee_total:
  "total_fee_sat (quote_fee_of offer a) =
     saturating_add (service_fee_sat (quote_fee_of offer a)) (onchain_fee_sat (quote_fee_of offer a))"
  by (simp add: quote_fee_of_def Let_def)

lemma quote_fee_service_unat:
  "unat (service_fee_sat (quote_fee_of offer a)) =
     min (unat (of_base_fee_sat offer) + unat a * unat (of_fee_ppm offer) div 1000000 mod 2 ^ 64)
         (2 ^ 64 - 1)"
  by (simp add: quote_fee_of_def Let_def arith mul_div_u64_unat)

text \<open>An amount the offer accepts is at least ten times the on-chain cost the offer itself
  quotes for it, so the miner fee is never more than a tenth of the swap, and an offer whose
  configured range excludes that floor accepts nothing.\<close>

theorem accepted_amount_covers_onchain_cost:
  assumes "accepts_amount offer a"
  shows "10 * unat (onchain_fee_sat (quote_fee_of offer a)) \<le> unat a
         \<or> unat a = 2 ^ 64 - 1"
proof -
  have "unat (saturating_mul (of_onchain_fee_sat offer) MIN_AMOUNT_FEE_MULTIPLE) \<le> unat a"
    using assms
    by (auto simp: accepts_amount_def effective_min_amount_sat_def word_le_nat_alt arith)
  then show ?thesis
    using unat_u64_bound [of a]
    by (auto simp: arith MIN_AMOUNT_FEE_MULTIPLE_def quote_fee_of_def Let_def min_def
        split: if_splits)
qed

end
