(* ===== verification/Externals.thy ===== *)
theory Externals
  imports Swap_Types
begin

text \<open>
  What the program takes from crates that are not in the repository. The Bitcoin data types
  are records with the fields the source reads and writes; everything the crates compute
  (hashing, hex, key parsing, script and address encoding, sighashes, signatures, Taproot
  commitments, Uuid and txid display) is a field of the record \<open>ext\<close>, and every definition
  that needs one takes the record as its argument \<open>x\<close>.
\<close>

type_synonym txid = "256 word" \<comment> \<open>the 32 bytes, ordered as the byte array is\<close>
type_synonym block_hash = "256 word"
type_synonym script = bytes
type_synonym preimage = bytes
type_synonym payment_hash = bytes
type_synonym secret_key = bytes
type_synonym x_only_key = bytes
type_synonym spend_info = bytes \<comment> \<open>an opaque Taproot commitment\<close>
type_synonym address = bytes \<comment> \<open>an opaque address\<close>

record outpoint =
  op_txid :: txid
  op_vout :: u32

text \<open>\<open>OutPoint::null()\<close>: a zero txid and the highest index.\<close>

definition null_outpoint :: outpoint where
  "null_outpoint = \<lparr>op_txid = 0, op_vout = - 1\<rparr>"

record txin =
  in_previous_output :: outpoint
  in_script_sig :: script
  in_sequence :: u32
  in_witness :: "bytes list"

record txout =
  out_value :: u64
  out_script_pubkey :: script

record transaction =
  tx_version :: u32
  tx_lock_time :: u32
  tx_input :: "txin list"
  tx_output :: "txout list"

record pubkey =
  pk_inner :: bytes
  pk_compressed :: bool

text \<open>A script under construction: the calls the source makes on \<open>Builder\<close>, in order.\<close>

datatype script_op =
    OP_IF | OP_ELSE | OP_ENDIF | OP_SHA256 | OP_HASH160 | OP_SIZE | OP_EQUALVERIFY
  | OP_CHECKSIG | OP_CHECKSIGVERIFY | OP_CLTV | OP_DROP
  | PushSlice bytes | PushKey pubkey | PushXOnlyKey x_only_key | PushInt int

record ext =
  x_uuid_str :: "uuid \<Rightarrow> string"
  x_hex_encode :: "bytes \<Rightarrow> string"
  x_hex_decode :: "string \<Rightarrow> string + bytes"
  x_sha256 :: "bytes \<Rightarrow> bytes"
  x_ripemd160 :: "bytes \<Rightarrow> bytes"
  x_pubkey_parse :: "string \<Rightarrow> string + pubkey"
  x_pubkey_str :: "pubkey \<Rightarrow> string"
  x_script_bytes :: "script_op list \<Rightarrow> script"
  x_p2wsh_address :: "script \<Rightarrow> bitcoin_network \<Rightarrow> address"
  x_p2tr_address :: "spend_info \<Rightarrow> bitcoin_network \<Rightarrow> address"
  x_p2tr_spk :: "spend_info \<Rightarrow> script"
  x_address_str :: "address \<Rightarrow> string"
  x_address_spk :: "address \<Rightarrow> script"
  x_txid :: "transaction \<Rightarrow> txid"
  x_txid_str :: "txid \<Rightarrow> string"
  x_txid_parse :: "string \<Rightarrow> txid option"
  x_vsize :: "transaction \<Rightarrow> u64"
  x_locktime_from_height :: "u32 \<Rightarrow> string + u32"
  x_p2wsh_sighash :: "transaction \<Rightarrow> script \<Rightarrow> u64 \<Rightarrow> string + bytes"
  x_sign_ecdsa :: "bytes \<Rightarrow> secret_key \<Rightarrow> bytes"
  x_taproot_sighash :: "transaction \<Rightarrow> txout \<Rightarrow> script \<Rightarrow> string + bytes"
  x_sign_schnorr :: "bytes \<Rightarrow> secret_key \<Rightarrow> bytes"
  x_xonly_of_pubkey :: "bytes \<Rightarrow> x_only_key"
  x_xonly_of_secret :: "secret_key \<Rightarrow> x_only_key"
  x_musig_key :: "bytes \<Rightarrow> string option"
  x_musig_aggregate :: "bytes \<Rightarrow> bytes \<Rightarrow> string + bytes"
  x_musig_internal :: "bytes \<Rightarrow> string + x_only_key"
  x_taproot_add_leaf :: "script list \<Rightarrow> script \<Rightarrow> string option"
  x_taproot_finalize :: "script list \<Rightarrow> x_only_key \<Rightarrow> spend_info option"
  x_control_block :: "spend_info \<Rightarrow> script \<Rightarrow> bytes option"
  x_minimal_non_dust :: "script \<Rightarrow> u64"
  x_max_money :: u64
  x_secret_key_parse :: "bytes \<Rightarrow> string + secret_key"

text \<open>
  One concrete choice of every external, used only to show that hypotheses about them can
  hold together: text is its own hex, a hash is its input, a signature is the key, an address
  is its script.
\<close>

definition sample_str :: "bytes \<Rightarrow> string" where
  "sample_str b = map (\<lambda>w. char_of (unat w)) b"

definition sample_bytes :: "string \<Rightarrow> bytes" where
  "sample_bytes s = map (\<lambda>c. word_of_nat (of_char c)) s"

definition sample_script :: "script_op list \<Rightarrow> script" where
  "sample_script ops = concat (map (\<lambda>p. case p of
      PushSlice b \<Rightarrow> b | PushKey k \<Rightarrow> pk_inner k | PushXOnlyKey k \<Rightarrow> k
    | PushInt n \<Rightarrow> [word_of_int n] | _ \<Rightarrow> [0]) ops)"

definition sample_ext :: ext where
  "sample_ext =
     \<lparr>x_uuid_str = show_u, x_hex_encode = sample_str, x_hex_decode = (\<lambda>s. Inr (sample_bytes s)),
      x_sha256 = (\<lambda>b. b), x_ripemd160 = (\<lambda>b. b),
      x_pubkey_parse = (\<lambda>s. Inr \<lparr>pk_inner = sample_bytes s, pk_compressed = True\<rparr>),
      x_pubkey_str = (\<lambda>k. sample_str (pk_inner k)), x_script_bytes = sample_script,
      x_p2wsh_address = (\<lambda>s n. s), x_p2tr_address = (\<lambda>s n. s), x_p2tr_spk = (\<lambda>s. s),
      x_address_str = sample_str, x_address_spk = (\<lambda>a. a),
      x_txid = (\<lambda>t. word_of_nat (length (tx_input t)) + ucast (tx_lock_time t)),
      x_txid_str = show_u, x_txid_parse = (\<lambda>s. Some (word_of_nat (read_digits s))),
      x_vsize = (\<lambda>t. 100),
      x_locktime_from_height = (\<lambda>h. if h < 500000000 then Inr h else Inl ''not a height''),
      x_p2wsh_sighash = (\<lambda>t s v. Inr []), x_sign_ecdsa = (\<lambda>m k. k),
      x_taproot_sighash = (\<lambda>t out s. Inr []), x_sign_schnorr = (\<lambda>m k. k),
      x_xonly_of_pubkey = (\<lambda>b. b), x_xonly_of_secret = (\<lambda>k. k),
      x_musig_key = (\<lambda>b. None), x_musig_aggregate = (\<lambda>a b. Inr (a @ b)),
      x_musig_internal = (\<lambda>b. Inr b), x_taproot_add_leaf = (\<lambda>ls s. None),
      x_taproot_finalize = (\<lambda>ls k. Some (k @ concat ls)),
      x_control_block = (\<lambda>i s. Some i), x_minimal_non_dust = (\<lambda>s. 330),
      x_max_money = 2100000000000000, x_secret_key_parse = (\<lambda>b. Inr b)\<rparr>"

end
