(* ===== verification/Htlc.thy ===== *)
theory Htlc
  imports Externals
begin

text \<open>
  The P2WSH HTLC of \<open>swap-common/src/htlc.rs\<close>: the payment hash and the redeem script, as the
  sequence of \<open>Builder\<close> calls the source makes.
\<close>

definition payment_hash :: "ext \<Rightarrow> preimage \<Rightarrow> payment_hash" where
  "payment_hash x preimage = x_sha256 x preimage"

definition htlc_script_ops ::
  "payment_hash \<Rightarrow> pubkey \<Rightarrow> pubkey \<Rightarrow> u32 \<Rightarrow> script_op list" where
  "htlc_script_ops h claim_pubkey refund_pubkey timeout =
     [OP_IF, OP_SHA256, PushSlice h, OP_EQUALVERIFY, PushKey claim_pubkey,
      OP_CHECKSIG, OP_ELSE, PushInt (int (unat timeout)), OP_CLTV, OP_DROP,
      PushKey refund_pubkey, OP_CHECKSIG, OP_ENDIF]"

definition build_htlc_script ::
  "ext \<Rightarrow> payment_hash \<Rightarrow> pubkey \<Rightarrow> pubkey \<Rightarrow> u32 \<Rightarrow> script" where
  "build_htlc_script x h claim_pubkey refund_pubkey timeout =
     x_script_bytes x (htlc_script_ops h claim_pubkey refund_pubkey timeout)"

definition htlc_p2wsh_address :: "ext \<Rightarrow> script \<Rightarrow> bitcoin_network \<Rightarrow> address" where
  "htlc_p2wsh_address x redeem_script network = x_p2wsh_address x redeem_script network"

text \<open>The script determines every parameter of the contract.\<close>

lemma htlc_script_ops_inj:
  "htlc_script_ops h c r t = htlc_script_ops h' c' r' t' \<longleftrightarrow> h = h' \<and> c = c' \<and> r = r' \<and> t = t'"
  by (auto simp: htlc_script_ops_def intro: word_uint_eqI)

end
