(* ===== verification/Onchain.thy ===== *)
theory Onchain
  imports Htlc
begin

text \<open>
  Spending an HTLC: \<open>swap-common/src/onchain.rs\<close>. Size and fee estimation, the fee-rate
  policy (floor, cap, escalation towards a deadline), the construction of a claim or refund
  transaction with each of its refusals, and the recovery of the preimage from a spend.
\<close>

definition DUST_THRESHOLD :: u64 where "DUST_THRESHOLD = 546"

datatype spend_path = SpendClaim preimage | SpendRefund

definition varint_len :: "u64 \<Rightarrow> u64" where
  "varint_len n = (if n \<le> 0xfc then 1 else if n \<le> 0xffff then 3 else if n \<le> 0xffffffff then 5 else 9)"

definition div_ceil :: "'a::len word \<Rightarrow> 'a word \<Rightarrow> 'a word" where
  "div_ceil a b = (if a mod b = 0 then a div b else a div b + 1)"

definition spend_vsize :: "script \<Rightarrow> script \<Rightarrow> bool \<Rightarrow> u64" where
  "spend_vsize redeem_script dest_spk is_claim =
     (let base = 4 + 1 + 36 + 1 + 4 + 1 + 8 + 1 + of_nat (length dest_spk) + 4;
          script_len = of_nat (length redeem_script);
          witness = 1 + 1 + 72 + varint_len script_len + script_len;
          witness = witness + (if is_claim then 1 + 32 + 1 + 1 else 1);
          weight = base * 4 + witness + 2
      in div_ceil weight 4)"

definition estimate_spend_fee :: "u64 \<Rightarrow> u64 \<Rightarrow> u64" where
  "estimate_spend_fee fee_rate_sat_vb vsize = saturating_mul vsize fee_rate_sat_vb"

definition CLAIM_FEE_TARGET_BLOCKS :: u16 where "CLAIM_FEE_TARGET_BLOCKS = 3"
definition REFUND_FEE_TARGET_BLOCKS :: u16 where "REFUND_FEE_TARGET_BLOCKS = 6"
definition ABSOLUTE_MAX_FEE_RATE_SAT_VB :: u64 where "ABSOLUTE_MAX_FEE_RATE_SAT_VB = 1000"
definition DEFAULT_MAX_FEE_BPS :: u16 where "DEFAULT_MAX_FEE_BPS = 2000"

definition resolve_fee_rate :: "u64 option \<Rightarrow> u64 \<Rightarrow> u64 \<Rightarrow> u64" where
  "resolve_fee_rate estimate floor_sat_vb cap_sat_vb =
     min (max (unwrap_or estimate floor_sat_vb) floor_sat_vb) (max cap_sat_vb floor_sat_vb)"

definition fee_rate_cap :: "u64 \<Rightarrow> u64 \<Rightarrow> u16 \<Rightarrow> u64 \<Rightarrow> u64 \<Rightarrow> u64" where
  "fee_rate_cap htlc_value_sat vsize max_fee_bps absolute_cap_sat_vb floor_sat_vb =
     (let max_fee = mul_div_u64 htlc_value_sat (ucast max_fee_bps) 10000
      in max (min (max_fee div max vsize 1) absolute_cap_sat_vb) floor_sat_vb)"

definition target_for_remaining :: "u32 \<Rightarrow> u16" where
  "target_for_remaining remaining =
     (if remaining \<le> 3 then 1 else if remaining \<le> 9 then 2 else if remaining \<le> 19 then 3
      else if remaining \<le> 49 then 6 else 12)"

definition deadline_fee_rate ::
  "u32 \<Rightarrow> u32 option \<Rightarrow> u64 \<Rightarrow> (u16 \<Rightarrow> u64 option) \<Rightarrow> u64 \<Rightarrow> u64 \<Rightarrow> u64" where
  "deadline_fee_rate tip deadline_height previous estimate_for floor_sat_vb cap_sat_vb =
     (let cap = max cap_sat_vb floor_sat_vb;
          min_bump = max (saturating_add (saturating_add previous (previous div 4)) 1) floor_sat_vb;
          remaining = (case deadline_height of Some deadline \<Rightarrow> saturating_sub deadline tip
                       | None \<Rightarrow> - 1)
      in if remaining \<le> 2 then cap
         else let target = target_for_remaining remaining;
                  estimated = unwrap_or (estimate_for target) 0
           in min (max estimated min_bump) cap)"

definition build_htlc_spend ::
  "ext \<Rightarrow> outpoint \<Rightarrow> u64 \<Rightarrow> script \<Rightarrow> script \<Rightarrow> u64 \<Rightarrow> u32 \<Rightarrow> spend_path \<Rightarrow> secret_key
   \<Rightarrow> swap_error + transaction" where
  "build_htlc_spend x htlc_outpoint htlc_value_sat redeem_script dest_spk fee_sat timeout path key =
     (if fee_sat \<ge> htlc_value_sat
      then Inl (Other (''fee '' @ show_u fee_sat @ '' >= htlc value '' @ show_u htlc_value_sat))
      else let out_value = htlc_value_sat - fee_sat in
      if out_value < DUST_THRESHOLD
      then Inl (Other (''swept output '' @ show_u out_value @ '' below dust threshold''))
      else try_bind
        (case path of
           SpendClaim _ \<Rightarrow> Inr 0
         | SpendRefund \<Rightarrow>
             map_err (\<lambda>e. Other (''locktime: '' @ e)) (x_locktime_from_height x timeout))
        (\<lambda>lock_time.
          let txn = \<lparr>tx_version = 2, tx_lock_time = lock_time,
                    tx_input = [\<lparr>in_previous_output = htlc_outpoint, in_script_sig = [],
                                 in_sequence = 0xFFFFFFFD, in_witness = []\<rparr>],
                    tx_output = [\<lparr>out_value = out_value, out_script_pubkey = dest_spk\<rparr>]\<rparr>
          in try_bind (map_err (\<lambda>e. HtlcError (''sighash: '' @ e))
               (x_p2wsh_sighash x txn redeem_script htlc_value_sat))
             (\<lambda>msg.
               let sig_bytes = x_sign_ecdsa x msg key;
                   witness = [sig_bytes]
                     @ (case path of SpendClaim preimage \<Rightarrow> [preimage, [1]] | SpendRefund \<Rightarrow> [[]])
                     @ [redeem_script]
               in Inr (txn\<lparr>tx_input := map (\<lambda>i. i\<lparr>in_witness := witness\<rparr>) (tx_input txn)\<rparr>))))"

definition build_claim_tx ::
  "ext \<Rightarrow> outpoint \<Rightarrow> u64 \<Rightarrow> script \<Rightarrow> script \<Rightarrow> u64 \<Rightarrow> preimage \<Rightarrow> secret_key
   \<Rightarrow> swap_error + transaction" where
  "build_claim_tx x htlc_outpoint htlc_value_sat redeem_script dest_spk fee_sat preimage claim_key =
     build_htlc_spend x htlc_outpoint htlc_value_sat redeem_script dest_spk fee_sat 0
       (SpendClaim preimage) claim_key"

definition build_refund_tx ::
  "ext \<Rightarrow> outpoint \<Rightarrow> u64 \<Rightarrow> script \<Rightarrow> script \<Rightarrow> u64 \<Rightarrow> u32 \<Rightarrow> secret_key
   \<Rightarrow> swap_error + transaction" where
  "build_refund_tx x htlc_outpoint htlc_value_sat redeem_script dest_spk fee_sat timeout refund_key =
     build_htlc_spend x htlc_outpoint htlc_value_sat redeem_script dest_spk fee_sat timeout
       SpendRefund refund_key"

text \<open>The two nested loops of \<open>extract_preimage\<close>: the first matching element of the first
  input that spends the outpoint and has one.\<close>

fun extract_from_inputs ::
  "ext \<Rightarrow> txin list \<Rightarrow> outpoint \<Rightarrow> payment_hash \<Rightarrow> preimage option" where
  "extract_from_inputs x [] htlc_outpoint h = None"
| "extract_from_inputs x (i # is) htlc_outpoint h =
     (if in_previous_output i \<noteq> htlc_outpoint then extract_from_inputs x is htlc_outpoint h
      else case List.find (\<lambda>e. length e = 32 \<and> x_sha256 x e = h) (in_witness i) of
          Some e \<Rightarrow> Some e
        | None \<Rightarrow> extract_from_inputs x is htlc_outpoint h)"

definition extract_preimage ::
  "ext \<Rightarrow> transaction \<Rightarrow> outpoint \<Rightarrow> payment_hash \<Rightarrow> preimage option" where
  "extract_preimage x txn htlc_outpoint h = extract_from_inputs x (tx_input txn) htlc_outpoint h"

subsection \<open>Fee policy\<close>

lemma resolve_fee_rate_bounds:
  "floor \<le> resolve_fee_rate e floor cap" "resolve_fee_rate e floor cap \<le> max cap floor"
  by (auto simp: resolve_fee_rate_def)

lemma fee_rate_cap_ge_floor: "floor \<le> fee_rate_cap v vsize bps c floor"
  by (simp add: fee_rate_cap_def Let_def)

lemma unat_u16_to_u64: "unat (ucast (a :: u16) :: u64) = unat a"
  using unat_bound [of a] by (simp add: unsigned_ucast_eq take_bit_nat_eq_self_iff)

text \<open>The fee-rate ceiling for a sweep never costs more than the configured share of the
  output's value and never exceeds the absolute ceiling, unless the operator's own floor is
  higher, in which case the ceiling is exactly that floor.\<close>

theorem fee_rate_cap_scales_with_value:
  assumes "bps \<le> 10000" and "fee_rate_cap v vsize bps c floor \<noteq> floor"
  shows "unat (fee_rate_cap v vsize bps c floor) * unat vsize \<le> unat v * unat bps div 10000
       \<and> fee_rate_cap v vsize bps c floor \<le> c"
proof -
  let ?mf = "mul_div_u64 v (ucast bps) 10000" and ?vs = "max vsize 1"
  have b: "unat bps \<le> 10000" using assms(1) by (simp add: word_le_nat_alt)
  have "unat v * unat bps div 10000 \<le> unat v * 10000 div 10000"
    by (rule div_le_mono) (use b in simp)
  then have "unat v * unat bps div 10000 \<le> unat v" by simp
  then have "unat v * unat bps div 10000 < 2 ^ 64" using unat_u64_bound [of v] by simp
  then have mf: "unat ?mf = unat v * unat bps div 10000"
    by (simp add: mul_div_u64_unat unat_u16_to_u64)
  have c: "fee_rate_cap v vsize bps c floor = min (?mf div ?vs) c"
    using assms(2) by (auto simp: fee_rate_cap_def Let_def max_def split: if_splits)
  have "unat (?mf div ?vs) * unat ?vs \<le> unat ?mf"
    by (simp add: unat_div_distrib div_times_less_eq_dividend)
  moreover have "unat vsize \<le> unat ?vs" by (simp add: arith)
  ultimately have "unat (?mf div ?vs) * unat vsize \<le> unat ?mf"
    by (meson le_trans mult_le_mono2)
  moreover have "unat (min (?mf div ?vs) c) \<le> unat (?mf div ?vs)" by (simp add: arith)
  ultimately have "unat (min (?mf div ?vs) c) * unat vsize \<le> unat ?mf"
    by (meson le_trans mult_le_mono1)
  then show ?thesis using c mf by simp
qed

theorem fee_rate_cap_scales_with_value_witness:
  "unat (fee_rate_cap 10000 150 DEFAULT_MAX_FEE_BPS ABSOLUTE_MAX_FEE_RATE_SAT_VB 2) * unat (150 :: u64)
     \<le> unat (10000 :: u64) * unat DEFAULT_MAX_FEE_BPS div 10000
   \<and> fee_rate_cap 10000 150 DEFAULT_MAX_FEE_BPS ABSOLUTE_MAX_FEE_RATE_SAT_VB 2
     \<le> ABSOLUTE_MAX_FEE_RATE_SAT_VB"
  by (rule fee_rate_cap_scales_with_value)
     (simp_all add: DEFAULT_MAX_FEE_BPS_def fee_rate_cap_def Let_def ABSOLUTE_MAX_FEE_RATE_SAT_VB_def
       mul_div_u64_def)

lemma deadline_fee_rate_le_cap:
  "deadline_fee_rate tip d prev est floor cap \<le> max cap floor"
  by (simp add: deadline_fee_rate_def Let_def)

lemma saturating_bump:
  "unat (saturating_add (saturating_add p (p div 4)) 1) =
     min (unat p + unat p div 4 + 1) (2 ^ 64 - 1)" for p :: u64
  by (simp add: arith unat_div_distrib)

lemma deadline_fee_rate_step:
  assumes "prev \<le> max cap floor"
  shows "prev \<le> deadline_fee_rate tip d prev est floor cap
    \<and> deadline_fee_rate tip d prev est floor cap \<le> max cap floor
    \<and> (deadline_fee_rate tip d prev est floor cap = prev \<longrightarrow> prev = max cap floor)
    \<and> (\<forall>h. d = Some h \<and> unat h \<le> unat tip + 2 \<longrightarrow>
         deadline_fee_rate tip d prev est floor cap = max cap floor)"
proof -
  let ?C = "max cap floor"
  let ?b = "max (saturating_add (saturating_add prev (prev div 4)) 1) floor"
  have b: "prev \<le> ?b"
    using unat_u64_bound [of prev] by (auto simp: word_le_nat_alt unat_max saturating_bump le_max_iff_disj min_def)
  have grow: "prev < ?b \<or> prev = ?C"
  proof (cases "unat prev = 2 ^ 64 - 1")
    case True
    then have "unat prev = unat ?C"
      using assms unat_u64_bound [of "?C"] by (simp add: word_le_nat_alt)
    then show ?thesis by (simp add: word_unat_eq_iff)
  next
    case False
    then have "prev < saturating_add (saturating_add prev (prev div 4)) 1"
      using unat_u64_bound [of prev] by (simp add: word_less_nat_alt saturating_bump)
    then show ?thesis by (simp add: less_max_iff_disj)
  qed
  have step: "prev \<le> min (max e ?b) ?C \<and> (min (max e ?b) ?C = prev \<longrightarrow> prev = ?C)" for e
  proof
    show "prev \<le> min (max e ?b) ?C" using b assms by (simp add: le_max_iff_disj)
    show "min (max e ?b) ?C = prev \<longrightarrow> prev = ?C"
    proof
      assume m: "min (max e ?b) ?C = prev"
      show "prev = ?C"
      proof (rule disjE [OF grow])
        assume "prev < ?b"
        then have "prev < max e ?b" by (rule less_le_trans) (rule max.cobounded2)
        with m show "prev = ?C" unfolding min_def by (metis less_irrefl)
      qed
    qed
  qed
  have last: "saturating_sub h tip \<le> 2" if "unat h \<le> unat tip + 2" for h
    using that by (simp add: word_le_nat_alt arith)
  show ?thesis
    using step assms last by (auto simp: deadline_fee_rate_def Let_def)
qed

text \<open>Fee escalation never lowers the rate, never passes the ceiling, stays put only once
  the ceiling is reached, and goes straight to the ceiling inside the last two blocks before
  the deadline: every replacement it asks for pays strictly more, as BIP125 requires.\<close>

theorem deadline_fee_rate_escalates:
  assumes "prev \<le> max cap floor"
  shows "prev \<le> deadline_fee_rate tip d prev est floor cap
    \<and> deadline_fee_rate tip d prev est floor cap \<le> max cap floor
    \<and> (deadline_fee_rate tip d prev est floor cap = prev \<longrightarrow> prev = max cap floor)
    \<and> (\<forall>h. d = Some h \<and> unat h \<le> unat tip + 2 \<longrightarrow>
         deadline_fee_rate tip d prev est floor cap = max cap floor)"
  using assms by (rule deadline_fee_rate_step)

theorem deadline_fee_rate_escalates_witness:
  "(8 :: u64) \<le> deadline_fee_rate 100 (Some 101) 8 (\<lambda>_. None) 2 50
    \<and> deadline_fee_rate 100 (Some 101) 8 (\<lambda>_. None) 2 50 = 50"
  using deadline_fee_rate_escalates [of 8 50 2 100 "Some 101" "\<lambda>_. None"] by simp

subsection \<open>Building a spend\<close>

lemma build_htlc_spend_Inr:
  assumes "build_htlc_spend x op v rs spk fee timeout path key = Inr t"
  shows "fee < v" and "DUST_THRESHOLD \<le> v - fee"
    and "tx_output t = [\<lparr>out_value = v - fee, out_script_pubkey = spk\<rparr>]"
    and "\<exists>s. tx_input t = [\<lparr>in_previous_output = op, in_script_sig = [], in_sequence = 0xFFFFFFFD,
           in_witness = [s] @ (case path of SpendClaim p \<Rightarrow> [p, [1]] | SpendRefund \<Rightarrow> [[]]) @ [rs]\<rparr>]"
    and "path = SpendRefund \<longrightarrow> x_locktime_from_height x timeout = Inr (tx_lock_time t)"
    and "path \<noteq> SpendRefund \<longrightarrow> tx_lock_time t = 0"
  using assms
  by (auto simp: build_htlc_spend_def Let_def try_bind_Inr not_le not_less
      split: if_splits sum.splits spend_path.splits)

text \<open>A spend that is built pays out exactly the output's value less the fee, never below the
  dust threshold and only to the given destination, spends exactly the HTLC outpoint with
  replace-by-fee signalled, and carries the timeout as its lock time on the refund branch and no
  lock time on the claim branch; a fee that eats the output is refused.\<close>

theorem built_spend_conserves_value:
  assumes "build_htlc_spend x op v rs spk fee timeout path key = Inr t"
  shows "\<exists>i out. tx_input t = [i] \<and> tx_output t = [out]
    \<and> in_previous_output i = op \<and> in_sequence i = 0xFFFFFFFD
    \<and> out_script_pubkey out = spk \<and> unat (out_value out) + unat fee = unat v
    \<and> 546 \<le> unat (out_value out)
    \<and> (case path of SpendClaim _ \<Rightarrow> tx_lock_time t = 0
       | SpendRefund \<Rightarrow> x_locktime_from_height x timeout = Inr (tx_lock_time t))"
proof -
  note b = build_htlc_spend_Inr [OF assms]
  obtain s where "tx_input t = [\<lparr>in_previous_output = op, in_script_sig = [], in_sequence = 0xFFFFFFFD,
           in_witness = [s] @ (case path of SpendClaim p \<Rightarrow> [p, [1]] | SpendRefund \<Rightarrow> [[]]) @ [rs]\<rparr>]"
    using b(4) by blast
  moreover have "unat (v - fee) + unat fee = unat v"
    using b(1) by (simp add: unat_sub_nat word_less_nat_alt)
  moreover have "546 \<le> unat (v - fee)"
    using b(2) by (simp add: word_le_nat_alt DUST_THRESHOLD_def)
  ultimately show ?thesis using b(3,5,6) by (cases path) auto
qed

theorem built_spend_conserves_value_witness:
  "\<exists>t :: transaction. \<exists>i out. tx_input t = [i] \<and> tx_output t = [out]
    \<and> in_previous_output i = \<lparr>op_txid = 7, op_vout = 0\<rparr> \<and> in_sequence i = 0xFFFFFFFD
    \<and> out_script_pubkey out = [2] \<and> unat (out_value out) + unat (500 :: u64) = unat (50000 :: u64)
    \<and> 546 \<le> unat (out_value out)
    \<and> (case SpendRefund of SpendClaim _ \<Rightarrow> tx_lock_time t = 0
       | SpendRefund \<Rightarrow> x_locktime_from_height sample_ext 800000 = Inr (tx_lock_time t))"
proof -
  obtain t where t: "build_htlc_spend sample_ext \<lparr>op_txid = 7, op_vout = 0\<rparr> 50000 [1] [2] 500 800000
      SpendRefund [9] = Inr t"
    by (simp add: build_htlc_spend_def sample_ext_def DUST_THRESHOLD_def)
  show ?thesis by (rule exI [of _ t]) (rule built_spend_conserves_value [OF t])
qed

subsection \<open>Recovering the preimage\<close>

lemma extract_from_inputs_Some:
  assumes "extract_from_inputs x is op h = Some p"
  shows "length p = 32 \<and> x_sha256 x p = h
    \<and> (\<exists>i\<in>set is. in_previous_output i = op \<and> p \<in> set (in_witness i))"
  using assms
  by (induction "is") (auto dest!: find_SomeD split: if_splits option.splits)

lemma extract_from_inputs_None:
  "extract_from_inputs x is op h = None \<longleftrightarrow>
     (\<forall>i\<in>set is. in_previous_output i = op \<longrightarrow>
        (\<forall>e\<in>set (in_witness i). length e = 32 \<longrightarrow> x_sha256 x e \<noteq> h))"
  by (induction "is") (auto simp: find_None_iff dest!: find_SomeD split: option.splits)

lemma extract_preimage_sound:
  assumes "extract_preimage x t op h = Some p"
  shows "length p = 32" "x_sha256 x p = h"
    "\<exists>i\<in>set (tx_input t). in_previous_output i = op \<and> p \<in> set (in_witness i)"
  using assms extract_from_inputs_Some unfolding extract_preimage_def by blast+

text \<open>Extraction returns a value exactly when some input spending the HTLC outpoint carries a
  32-byte witness element that hashes to the payment hash, and what it returns is such an
  element: the provider never settles with a wrong preimage and never overlooks a right one.\<close>

theorem extract_preimage_correct:
  "case extract_preimage x t op h of
     None \<Rightarrow> \<not> (\<exists>i\<in>set (tx_input t). in_previous_output i = op
       \<and> (\<exists>e\<in>set (in_witness i). length e = 32 \<and> payment_hash x e = h))
   | Some p \<Rightarrow> length p = 32 \<and> payment_hash x p = h
       \<and> (\<exists>i\<in>set (tx_input t). in_previous_output i = op \<and> p \<in> set (in_witness i))"
proof (cases "extract_preimage x t op h")
  case None
  then have "extract_from_inputs x (tx_input t) op h = None" by (simp add: extract_preimage_def)
  with None show ?thesis unfolding payment_hash_def extract_from_inputs_None by auto
next
  case (Some p)
  then show ?thesis using extract_preimage_sound [OF Some] unfolding payment_hash_def by auto
qed

text \<open>The atomic link: a claim built with a 32-byte preimage of the payment hash always
  reveals, to anyone who reads it back from the chain, a preimage of that payment hash, and the
  very one used whenever the signature is not itself 32 bytes long.\<close>

theorem claim_reveals_preimage:
  assumes "build_claim_tx x op v rs spk fee p key = Inr t" and "length p = 32"
  shows "\<exists>q. extract_preimage x t op (payment_hash x p) = Some q \<and> x_sha256 x q = payment_hash x p
    \<and> ((\<forall>m k. length (x_sign_ecdsa x m k) \<noteq> 32) \<longrightarrow> q = p)"
proof -
  obtain s m where s: "s = x_sign_ecdsa x m key"
    and i: "tx_input t = [\<lparr>in_previous_output = op, in_script_sig = [], in_sequence = 0xFFFFFFFD,
           in_witness = [s, p, [1], rs]\<rparr>]"
    using assms(1)
    by (auto simp: build_claim_tx_def build_htlc_spend_def Let_def try_bind_Inr
        split: if_splits sum.splits)
  show ?thesis using assms(2) s
    by (auto simp: extract_preimage_def i payment_hash_def)
qed

theorem claim_reveals_preimage_witness:
  "\<exists>(t :: transaction) q. extract_preimage sample_ext t \<lparr>op_txid = 7, op_vout = 0\<rparr>
        (payment_hash sample_ext (replicate 32 5)) = Some q
    \<and> x_sha256 sample_ext q = payment_hash sample_ext (replicate 32 5)"
proof -
  obtain t where t: "build_claim_tx sample_ext \<lparr>op_txid = 7, op_vout = 0\<rparr> 50000 [1] [2] 500
      (replicate 32 5) [9] = Inr t"
    by (simp add: build_claim_tx_def build_htlc_spend_def sample_ext_def DUST_THRESHOLD_def)
  have len: "length (replicate 32 (5 :: u8)) = 32" by simp
  from claim_reveals_preimage [OF t len] show ?thesis by blast
qed

end
