(* ===== verification/Taproot.thy ===== *)
theory Taproot
  imports Onchain Messages
begin

text \<open>
  The Boltz-compatible Taproot contract of \<open>swap-common/src/taproot.rs\<close>: parameter checks,
  the two leaf scripts, key aggregation order, the validating constructor and its persisted
  form, and the claim and refund spends.
\<close>

record taproot_parameters =
  tp_direction :: swap_direction
  tp_payment_hash :: payment_hash
  tp_claim_public_key :: string
  tp_refund_public_key :: string
  tp_timeout :: u32

record taproot_swap =
  ts_parameters :: taproot_parameters
  ts_claim_key :: x_only_key
  ts_refund_key :: x_only_key
  ts_claim_script :: script
  ts_refund_script :: script
  ts_spend_info :: spend_info
  ts_claim_control_block :: bytes
  ts_refund_control_block :: bytes

subsection \<open>Construction\<close>

definition validate_parameters :: "ext \<Rightarrow> pubkey \<Rightarrow> pubkey \<Rightarrow> u32 \<Rightarrow> swap_error + unit" where
  "validate_parameters x claim refund timeout =
     (if \<not> pk_compressed claim \<or> \<not> pk_compressed refund
         \<or> x_xonly_of_pubkey x (pk_inner claim) = x_xonly_of_pubkey x (pk_inner refund)
      then Inl (InvalidPubkey ''Taproot requires distinct compressed public keys'')
      else if timeout = 0 \<or> \<not> is_ok (x_locktime_from_height x timeout)
      then Inl (HtlcError ''Taproot timeout must be a nonzero block height'')
      else Inr ())"

definition claim_script_ops :: "ext \<Rightarrow> swap_direction \<Rightarrow> payment_hash \<Rightarrow> x_only_key \<Rightarrow> script_op list" where
  "claim_script_ops x direction h key =
     (case direction of Submarine \<Rightarrow> [] | Reverse \<Rightarrow> [OP_SIZE, PushInt 32, OP_EQUALVERIFY])
     @ [OP_HASH160, PushSlice (x_ripemd160 x h), OP_EQUALVERIFY, PushXOnlyKey key, OP_CHECKSIG]"

definition build_claim_script :: "ext \<Rightarrow> swap_direction \<Rightarrow> payment_hash \<Rightarrow> x_only_key \<Rightarrow> script" where
  "build_claim_script x direction h key = x_script_bytes x (claim_script_ops x direction h key)"

definition build_refund_script :: "ext \<Rightarrow> x_only_key \<Rightarrow> u32 \<Rightarrow> script" where
  "build_refund_script x key timeout =
     x_script_bytes x [PushXOnlyKey key, OP_CHECKSIGVERIFY, PushInt (int (unat timeout)), OP_CLTV]"

definition musig_point :: "ext \<Rightarrow> pubkey \<Rightarrow> swap_error + bytes" where
  "musig_point x key =
     (case x_musig_key x (pk_inner key) of
        Some e \<Rightarrow> Inl (InvalidPubkey (''MuSig2 public key: '' @ e)) | None \<Rightarrow> Inr (pk_inner key))"

definition aggregate_internal_key ::
  "ext \<Rightarrow> swap_direction \<Rightarrow> pubkey \<Rightarrow> pubkey \<Rightarrow> swap_error + x_only_key" where
  "aggregate_internal_key x direction claim refund =
     (let (first, second) = (case direction of Submarine \<Rightarrow> (claim, refund) | Reverse \<Rightarrow> (refund, claim))
      in try_bind (musig_point x first) (\<lambda>p1.
         try_bind (musig_point x second) (\<lambda>p2.
         try_bind (map_err (\<lambda>e. HtlcError (''MuSig2 key aggregation: '' @ e)) (x_musig_aggregate x p1 p2))
           (\<lambda>aggregate.
         map_err (\<lambda>e. InvalidPubkey (''MuSig2 internal key: '' @ e)) (x_musig_internal x aggregate)))))"

definition add_leaf :: "ext \<Rightarrow> script list \<Rightarrow> script \<Rightarrow> swap_error + script list" where
  "add_leaf x leaves s =
     (case x_taproot_add_leaf x leaves s of
        Some e \<Rightarrow> Inl (HtlcError (''Taproot tree: '' @ e)) | None \<Rightarrow> Inr (leaves @ [s]))"

definition build_spend_info :: "ext \<Rightarrow> x_only_key \<Rightarrow> script \<Rightarrow> script \<Rightarrow> swap_error + spend_info" where
  "build_spend_info x key claim refund =
     try_bind (add_leaf x [] claim) (\<lambda>b.
     try_bind (add_leaf x b refund) (\<lambda>b.
     ok_or (HtlcError ''incomplete Taproot tree'') (x_taproot_finalize x b key)))"

definition control_block :: "ext \<Rightarrow> spend_info \<Rightarrow> script \<Rightarrow> swap_error + bytes" where
  "control_block x info s =
     ok_or (HtlcError ''Taproot leaf missing from commitment'') (x_control_block x info s)"

definition taproot_new ::
  "ext \<Rightarrow> swap_direction \<Rightarrow> payment_hash \<Rightarrow> pubkey \<Rightarrow> pubkey \<Rightarrow> u32 \<Rightarrow> swap_error + taproot_swap" where
  "taproot_new x direction h claim refund timeout =
     try_bind (validate_parameters x claim refund timeout) (\<lambda>_.
       let claim_key = x_xonly_of_pubkey x (pk_inner claim);
           refund_key = x_xonly_of_pubkey x (pk_inner refund);
           claim_script = build_claim_script x direction h claim_key;
           refund_script = build_refund_script x refund_key timeout
       in try_bind (aggregate_internal_key x direction claim refund) (\<lambda>internal_key.
          try_bind (build_spend_info x internal_key claim_script refund_script) (\<lambda>spend_info.
          try_bind (control_block x spend_info claim_script) (\<lambda>claim_cb.
          try_bind (control_block x spend_info refund_script) (\<lambda>refund_cb.
          Inr \<lparr>ts_parameters =
                 \<lparr>tp_direction = direction, tp_payment_hash = h,
                  tp_claim_public_key = x_pubkey_str x claim,
                  tp_refund_public_key = x_pubkey_str x refund, tp_timeout = timeout\<rparr>,
               ts_claim_key = claim_key, ts_refund_key = refund_key,
               ts_claim_script = claim_script, ts_refund_script = refund_script,
               ts_spend_info = spend_info,
               ts_claim_control_block = claim_cb, ts_refund_control_block = refund_cb\<rparr>)))))"

definition taproot_address :: "ext \<Rightarrow> taproot_swap \<Rightarrow> bitcoin_network \<Rightarrow> address" where
  "taproot_address x s network = x_p2tr_address x (ts_spend_info s) network"

definition taproot_script_pubkey :: "ext \<Rightarrow> taproot_swap \<Rightarrow> script" where
  "taproot_script_pubkey x s = x_p2tr_spk x (ts_spend_info s)"

definition serialized_leaf :: "ext \<Rightarrow> script \<Rightarrow> boltz_tap_leaf" where
  "serialized_leaf x s = \<lparr>leaf_version = 192, leaf_output = x_hex_encode x s\<rparr>"

definition swap_tree :: "ext \<Rightarrow> taproot_swap \<Rightarrow> boltz_swap_tree" where
  "swap_tree x s =
     \<lparr>claim_leaf = serialized_leaf x (ts_claim_script s),
      refund_leaf = serialized_leaf x (ts_refund_script s)\<rparr>"

text \<open>The persisted form and the validating constructor it goes back through.\<close>

definition into_parameters :: "taproot_swap \<Rightarrow> taproot_parameters" where
  "into_parameters s = ts_parameters s"

definition try_from_parameters :: "ext \<Rightarrow> taproot_parameters \<Rightarrow> swap_error + taproot_swap" where
  "try_from_parameters x value =
     try_bind (map_err InvalidPubkey (x_pubkey_parse x (tp_claim_public_key value))) (\<lambda>claim.
     try_bind (map_err InvalidPubkey (x_pubkey_parse x (tp_refund_public_key value))) (\<lambda>refund.
     taproot_new x (tp_direction value) (tp_payment_hash value) claim refund (tp_timeout value)))"

subsection \<open>Spending\<close>

record spend_request =
  rq_outpoint :: outpoint
  rq_value_sat :: u64
  rq_destination :: script
  rq_fee_sat :: u64
  rq_path :: spend_path
  rq_key :: secret_key

definition spend_output_value :: "ext \<Rightarrow> spend_request \<Rightarrow> swap_error + u64" where
  "spend_output_value x request =
     (if rq_value_sat request > x_max_money x \<or> rq_fee_sat request = 0
      then Inl (InvalidAmount ''invalid Taproot funding value or zero fee'')
      else try_bind
        (ok_or (InvalidAmount ''Taproot spend fee exceeds funding value'')
           (checked_sub (rq_value_sat request) (rq_fee_sat request)))
        (\<lambda>v. let dust = max (x_minimal_non_dust x (rq_destination request)) 546
             in if v < dust
                then Inl (InvalidAmount (''Taproot spend output is below dust ('' @ show_u dust @ '' sat)''))
                else Inr v))"

definition unsigned_spend :: "outpoint \<Rightarrow> u64 \<Rightarrow> script \<Rightarrow> u32 \<Rightarrow> transaction" where
  "unsigned_spend op value_sat destination lock_time =
     \<lparr>tx_version = 2, tx_lock_time = lock_time,
      tx_input = [\<lparr>in_previous_output = op, in_script_sig = [], in_sequence = 0xFFFFFFFD,
                   in_witness = []\<rparr>],
      tx_output = [\<lparr>out_value = value_sat, out_script_pubkey = destination\<rparr>]\<rparr>"

fun leaf_script :: "taproot_swap \<Rightarrow> spend_path \<Rightarrow> script" where
  "leaf_script s (SpendClaim _) = ts_claim_script s"
| "leaf_script s SpendRefund = ts_refund_script s"

fun taproot_lock_time :: "taproot_swap \<Rightarrow> spend_path \<Rightarrow> u32" where
  "taproot_lock_time s (SpendClaim _) = 0"
| "taproot_lock_time s SpendRefund = tp_timeout (ts_parameters s)"

fun taproot_witness :: "taproot_swap \<Rightarrow> spend_path \<Rightarrow> bytes \<Rightarrow> bytes list" where
  "taproot_witness s (SpendClaim preimage) signature =
     [signature, preimage, ts_claim_script s, ts_claim_control_block s]"
| "taproot_witness s SpendRefund signature =
     [signature, ts_refund_script s, ts_refund_control_block s]"

definition set_witness :: "transaction \<Rightarrow> bytes list \<Rightarrow> transaction" where
  "set_witness t w = t\<lparr>tx_input := map (\<lambda>i. i\<lparr>in_witness := w\<rparr>) (tx_input t)\<rparr>"

fun validate_signing_key :: "taproot_swap \<Rightarrow> spend_path \<Rightarrow> x_only_key \<Rightarrow> swap_error + unit" where
  "validate_signing_key s path actual =
     (let expected = (case path of SpendClaim _ \<Rightarrow> ts_claim_key s | SpendRefund \<Rightarrow> ts_refund_key s)
      in if actual \<noteq> expected
         then Inl (InvalidPubkey ''key does not own the Taproot script path'') else Inr ())"

definition sign_spend ::
  "ext \<Rightarrow> taproot_swap \<Rightarrow> transaction \<Rightarrow> txout \<Rightarrow> spend_path \<Rightarrow> secret_key \<Rightarrow> swap_error + bytes" where
  "sign_spend x s t prevout path key =
     try_bind (map_err (\<lambda>e. HtlcError (''Taproot sighash: '' @ e))
         (x_taproot_sighash x t prevout (leaf_script s path)))
       (\<lambda>message. Inr (x_sign_schnorr x message key))"

definition spend_tx :: "ext \<Rightarrow> taproot_swap \<Rightarrow> spend_request \<Rightarrow> swap_error + transaction" where
  "spend_tx x s request =
     try_bind (validate_signing_key s (rq_path request) (x_xonly_of_secret x (rq_key request))) (\<lambda>_.
     try_bind (spend_output_value x request) (\<lambda>output_value.
       let t = unsigned_spend (rq_outpoint request) output_value (rq_destination request)
                 (taproot_lock_time s (rq_path request));
           prevout = \<lparr>out_value = rq_value_sat request, out_script_pubkey = taproot_script_pubkey x s\<rparr>
       in try_bind (sign_spend x s t prevout (rq_path request) (rq_key request)) (\<lambda>signature.
          Inr (set_witness t (taproot_witness s (rq_path request) signature)))))"

definition taproot_claim_tx ::
  "ext \<Rightarrow> taproot_swap \<Rightarrow> outpoint \<Rightarrow> u64 \<Rightarrow> script \<Rightarrow> u64 \<Rightarrow> preimage \<Rightarrow> secret_key
   \<Rightarrow> swap_error + transaction" where
  "taproot_claim_tx x s op value_sat destination fee_sat preimage key =
     (if payment_hash x preimage \<noteq> tp_payment_hash (ts_parameters s)
      then Inl (InvalidPreimage ''Taproot claim preimage does not match'')
      else spend_tx x s \<lparr>rq_outpoint = op, rq_value_sat = value_sat, rq_destination = destination,
             rq_fee_sat = fee_sat, rq_path = SpendClaim preimage, rq_key = key\<rparr>)"

definition taproot_refund_tx ::
  "ext \<Rightarrow> taproot_swap \<Rightarrow> outpoint \<Rightarrow> u64 \<Rightarrow> script \<Rightarrow> u64 \<Rightarrow> secret_key \<Rightarrow> swap_error + transaction" where
  "taproot_refund_tx x s op value_sat destination fee_sat key =
     spend_tx x s \<lparr>rq_outpoint = op, rq_value_sat = value_sat, rq_destination = destination,
       rq_fee_sat = fee_sat, rq_path = SpendRefund, rq_key = key\<rparr>"

definition taproot_spend_vsize :: "ext \<Rightarrow> taproot_swap \<Rightarrow> script \<Rightarrow> bool \<Rightarrow> u64" where
  "taproot_spend_vsize x s destination is_claim =
     (let path = (if is_claim then SpendClaim (replicate 32 0) else SpendRefund);
          t = unsigned_spend null_outpoint 0 destination (taproot_lock_time s path)
      in x_vsize x (set_witness t (taproot_witness s path (replicate 64 0))))"

subsection \<open>Facts\<close>

lemma taproot_new_shape:
  assumes "taproot_new x d h c r t = Inr s"
  shows "validate_parameters x c r t = Inr () \<and> (\<exists>si cb rb. s =
    \<lparr>ts_parameters = \<lparr>tp_direction = d, tp_payment_hash = h,
       tp_claim_public_key = x_pubkey_str x c, tp_refund_public_key = x_pubkey_str x r, tp_timeout = t\<rparr>,
     ts_claim_key = x_xonly_of_pubkey x (pk_inner c), ts_refund_key = x_xonly_of_pubkey x (pk_inner r),
     ts_claim_script = build_claim_script x d h (x_xonly_of_pubkey x (pk_inner c)),
     ts_refund_script = build_refund_script x (x_xonly_of_pubkey x (pk_inner r)) t,
     ts_spend_info = si, ts_claim_control_block = cb, ts_refund_control_block = rb\<rparr>)"
  using assms unfolding taproot_new_def Let_def try_bind_Inr
  by (elim exE conjE) (simp only: sum.inject unit_eq, blast)

lemma taproot_new_Inr:
  assumes "taproot_new x d h c r t = Inr s"
  shows "ts_parameters s = \<lparr>tp_direction = d, tp_payment_hash = h, tp_claim_public_key = x_pubkey_str x c,
      tp_refund_public_key = x_pubkey_str x r, tp_timeout = t\<rparr>"
    and "ts_claim_key s = x_xonly_of_pubkey x (pk_inner c)"
    and "ts_refund_key s = x_xonly_of_pubkey x (pk_inner r)"
    and "ts_claim_script s = build_claim_script x d h (ts_claim_key s)"
    and "ts_refund_script s = build_refund_script x (ts_refund_key s) t"
    and "ts_claim_key s \<noteq> ts_refund_key s" and "t \<noteq> 0"
proof -
  obtain si cb rb where s: "s =
    \<lparr>ts_parameters = \<lparr>tp_direction = d, tp_payment_hash = h,
       tp_claim_public_key = x_pubkey_str x c, tp_refund_public_key = x_pubkey_str x r, tp_timeout = t\<rparr>,
     ts_claim_key = x_xonly_of_pubkey x (pk_inner c), ts_refund_key = x_xonly_of_pubkey x (pk_inner r),
     ts_claim_script = build_claim_script x d h (x_xonly_of_pubkey x (pk_inner c)),
     ts_refund_script = build_refund_script x (x_xonly_of_pubkey x (pk_inner r)) t,
     ts_spend_info = si, ts_claim_control_block = cb, ts_refund_control_block = rb\<rparr>"
    using taproot_new_shape [OF assms] by blast
  have "validate_parameters x c r t = Inr ()"
    using taproot_new_shape [OF assms] by blast
  then show "ts_claim_key s \<noteq> ts_refund_key s" and "t \<noteq> 0"
    unfolding s validate_parameters_def by (auto split: if_split_asm)
  show "ts_parameters s = \<lparr>tp_direction = d, tp_payment_hash = h, tp_claim_public_key = x_pubkey_str x c,
      tp_refund_public_key = x_pubkey_str x r, tp_timeout = t\<rparr>"
    and "ts_claim_key s = x_xonly_of_pubkey x (pk_inner c)"
    and "ts_refund_key s = x_xonly_of_pubkey x (pk_inner r)"
    and "ts_claim_script s = build_claim_script x d h (ts_claim_key s)"
    and "ts_refund_script s = build_refund_script x (ts_refund_key s) t"
    by (simp_all add: s)
qed

text \<open>C39: A Taproot contract survives being written down: whatever the constructor accepted is
  rebuilt exactly from its persisted public parameters, given that the key parser reads back
  what the key printer wrote for its two keys, so a restarted party derives the same address
  and the same keys.\<close>

theorem taproot_persistence_roundtrip:
  assumes "x_pubkey_parse x (x_pubkey_str x c) = Inr c"
    and "x_pubkey_parse x (x_pubkey_str x r) = Inr r"
    and "taproot_new x d h c r t = Inr s"
  shows "try_from_parameters x (into_parameters s) = Inr s"
  using assms taproot_new_Inr(1) [OF assms(3)]
  by (simp add: try_from_parameters_def into_parameters_def)

definition sample_claim_key :: pubkey where
  "sample_claim_key = \<lparr>pk_inner = [2], pk_compressed = True\<rparr>"

definition sample_refund_key :: pubkey where
  "sample_refund_key = \<lparr>pk_inner = [3], pk_compressed = True\<rparr>"

definition sample_taproot :: taproot_swap where
  "sample_taproot =
     \<lparr>ts_parameters = \<lparr>tp_direction = Reverse, tp_payment_hash = replicate 32 5,
        tp_claim_public_key = sample_str [2], tp_refund_public_key = sample_str [3],
        tp_timeout = 800144\<rparr>,
      ts_claim_key = [2], ts_refund_key = [3],
      ts_claim_script = build_claim_script sample_ext Reverse (replicate 32 5) [2],
      ts_refund_script = build_refund_script sample_ext [3] 800144,
      ts_spend_info = [3, 2] @ build_claim_script sample_ext Reverse (replicate 32 5) [2]
        @ build_refund_script sample_ext [3] 800144,
      ts_claim_control_block = [3, 2] @ build_claim_script sample_ext Reverse (replicate 32 5) [2]
        @ build_refund_script sample_ext [3] 800144,
      ts_refund_control_block = [3, 2] @ build_claim_script sample_ext Reverse (replicate 32 5) [2]
        @ build_refund_script sample_ext [3] 800144\<rparr>"

lemma sample_taproot_new:
  "taproot_new sample_ext Reverse (replicate 32 5) sample_claim_key sample_refund_key 800144
     = Inr sample_taproot"
  by (simp add: taproot_new_def sample_taproot_def sample_claim_key_def sample_refund_key_def
      validate_parameters_def aggregate_internal_key_def musig_point_def build_spend_info_def
      add_leaf_def control_block_def sample_ext_def Let_def)

theorem taproot_persistence_roundtrip_witness:
  "try_from_parameters sample_ext (into_parameters sample_taproot) = Inr sample_taproot"
proof (rule taproot_persistence_roundtrip [OF _ _ sample_taproot_new])
  show "x_pubkey_parse sample_ext (x_pubkey_str sample_ext sample_claim_key) = Inr sample_claim_key"
    by (simp add: sample_ext_def sample_claim_key_def sample_bytes_def sample_str_def)
  show "x_pubkey_parse sample_ext (x_pubkey_str sample_ext sample_refund_key) = Inr sample_refund_key"
    by (simp add: sample_ext_def sample_refund_key_def sample_bytes_def sample_str_def)
qed

lemma spend_output_value_Inr:
  "spend_output_value x r = Inr v \<longleftrightarrow>
     rq_value_sat r \<le> x_max_money x \<and> rq_fee_sat r \<noteq> 0
     \<and> unat v + unat (rq_fee_sat r) = unat (rq_value_sat r)
     \<and> 546 \<le> v \<and> x_minimal_non_dust x (rq_destination r) \<le> v"
proof -
  have "spend_output_value x r = Inr v \<longleftrightarrow>
      rq_value_sat r \<le> x_max_money x \<and> rq_fee_sat r \<noteq> 0
      \<and> checked_sub (rq_value_sat r) (rq_fee_sat r) = Some v
      \<and> max (x_minimal_non_dust x (rq_destination r)) 546 \<le> v"
    by (cases "checked_sub (rq_value_sat r) (rq_fee_sat r)")
       (auto simp: spend_output_value_def Let_def linorder_not_le linorder_not_less
         simp del: max_less_iff_conj max.bounded_iff split: if_splits)
  moreover have "checked_sub (rq_value_sat r) (rq_fee_sat r) = Some v \<longleftrightarrow>
      unat v + unat (rq_fee_sat r) = unat (rq_value_sat r)"
    unfolding checked_sub_Some by linarith
  ultimately show ?thesis by (simp add: conj_comms)
qed

lemma spend_tx_Inr:
  assumes "spend_tx x s r = Inr t"
  shows "x_xonly_of_secret x (rq_key r) =
      (case rq_path r of SpendClaim _ \<Rightarrow> ts_claim_key s | SpendRefund \<Rightarrow> ts_refund_key s)"
    and "\<exists>v sig. spend_output_value x r = Inr v
      \<and> t = set_witness (unsigned_spend (rq_outpoint r) v (rq_destination r)
              (taproot_lock_time s (rq_path r))) (taproot_witness s (rq_path r) sig)"
  using assms by (auto simp: spend_tx_def try_bind_Inr Let_def split: if_splits)

text \<open>A Taproot claim is only ever signed with the key that owns the claim path and with the
  preimage of the contract's payment hash; it pays the funding value less the fee to the given
  destination above both dust limits, with no lock time, and carries the preimage for the other
  leg to be settled with.\<close>

theorem taproot_claim_sound:
  assumes "taproot_claim_tx x s op v dest fee p key = Inr t"
  shows "payment_hash x p = tp_payment_hash (ts_parameters s)
    \<and> x_xonly_of_secret x key = ts_claim_key s
    \<and> tx_lock_time t = 0
    \<and> (\<exists>out. tx_output t = [out] \<and> out_script_pubkey out = dest
         \<and> unat (out_value out) + unat fee = unat v \<and> 546 \<le> out_value out)
    \<and> (length p = 32 \<longrightarrow> extract_preimage x t op (tp_payment_hash (ts_parameters s)) \<noteq> None)"
proof -
  let ?r = "\<lparr>rq_outpoint = op, rq_value_sat = v, rq_destination = dest, rq_fee_sat = fee,
    rq_path = SpendClaim p, rq_key = key\<rparr>"
  have h: "payment_hash x p = tp_payment_hash (ts_parameters s)"
    and sp: "spend_tx x s ?r = Inr t"
    using assms by (auto simp: taproot_claim_tx_def split: if_splits)
  obtain o' sig where o': "spend_output_value x ?r = Inr o'"
    and t: "t = set_witness (unsigned_spend op o' dest 0) [sig, p, ts_claim_script s, ts_claim_control_block s]"
    using spend_tx_Inr(2) [OF sp] by auto
  have "length p = 32 \<longrightarrow> extract_preimage x t op (tp_payment_hash (ts_parameters s)) \<noteq> None"
    using h by (auto simp: t extract_preimage_def set_witness_def unsigned_spend_def payment_hash_def)
  then show ?thesis
    using h spend_tx_Inr(1) [OF sp] o'
    by (auto simp: t set_witness_def unsigned_spend_def spend_output_value_Inr)
qed

theorem taproot_claim_sound_witness:
  "\<exists>t :: transaction. x_xonly_of_secret sample_ext [2] = ts_claim_key sample_taproot
    \<and> tx_lock_time t = 0
    \<and> extract_preimage sample_ext t \<lparr>op_txid = 7, op_vout = 0\<rparr>
           (tp_payment_hash (ts_parameters sample_taproot)) \<noteq> None"
proof -
  obtain t where t: "taproot_claim_tx sample_ext sample_taproot \<lparr>op_txid = 7, op_vout = 0\<rparr> 50000 [8] 500
      (replicate 32 5) [2] = Inr t"
    by (simp add: taproot_claim_tx_def spend_tx_def sample_taproot_def sample_ext_def payment_hash_def
        spend_output_value_def sign_spend_def checked_sub_def Let_def)
  have len: "length (replicate 32 (5 :: u8)) = 32" by simp
  from taproot_claim_sound [OF t] len show ?thesis by blast
qed

end
