(* ===== verification/Validate.thy ===== *)
theory Validate
  imports Taproot Timelock
begin

text \<open>
  The client's checks of \<open>swap-common/src/validate.rs\<close> on what a provider sends: its quote, its
  acceptance, the contract the acceptance describes, and the hold invoice. Every refusal is a
  constructor of \<open>validation_error\<close> carrying what was seen and what was wanted, as in the
  source. One addition in \<open>validate_accept\<close> is unchecked there; the definition takes whether the
  build traps such an overflow (Rust's debug profile) or wraps (release), and the panic is the
  outer \<open>None\<close>.
\<close>

definition MAX_QUOTE_VALIDITY_SECS :: u64 where "MAX_QUOTE_VALIDITY_SECS = 3600"
definition MAX_FUND_WITHIN_SECS :: u64 where "MAX_FUND_WITHIN_SECS = 3600"
definition ACCEPT_TIMEOUT_SLACK_BLOCKS :: u32 where "ACCEPT_TIMEOUT_SLACK_BLOCKS = 6"
definition MIN_MAINNET_CONFIRMATIONS :: u32 where "MIN_MAINNET_CONFIRMATIONS = 2"

record client_policy =
  cp_min_required_confirmations :: u32
  cp_max_required_confirmations :: u32
  cp_max_fee_bps :: u16
  cp_max_total_sat :: u64
  cp_timelock :: timelock_params

definition for_network :: "bitcoin_network \<Rightarrow> timelock_params \<Rightarrow> client_policy" where
  "for_network network timelock =
     \<lparr>cp_min_required_confirmations =
        (case network of NetBitcoin \<Rightarrow> MIN_MAINNET_CONFIRMATIONS | _ \<Rightarrow> 1),
      cp_max_required_confirmations = MAX_REQUIRED_CONFIRMATIONS,
      cp_max_fee_bps = 500,
      cp_max_total_sat = - 1,
      cp_timelock = timelock\<rparr>"

definition effective_confirmations :: "client_policy \<Rightarrow> u32 \<Rightarrow> u32" where
  "effective_confirmations policy quoted = max quoted (cp_min_required_confirmations policy)"

datatype validation_error =
    QuoteIdMissing
  | UnsupportedProtocolVersion u16 u16
  | OfferMismatch string string
  | DirectionMismatch
  | AmountMismatch u64 u64
  | QuoteExpired u64 u64
  | QuoteNeverExpires
  | QuoteValidTooLong u64 u64
  | FundWithinTooLong u64 u64
  | TotalNotAmountPlusFee u64 u64 u64
  | FeeTooHigh u64 u64
  | FeeItemisationMismatch u64 u64 u64
  | TotalTooLarge u64 u64
  | ConfirmationsTooLow u32 u32
  | ConfirmationsTooHigh u32 u32
  | SwapIdMissing
  | OnchainAmountMismatch u64 u64
  | TimeoutMismatch u32 u32 u32
  | TimelockRefused timelock_violation
  | ContractMismatch string
  | InvalidContract string
  | PaymentHashMismatch
  | InvoiceAmountMismatch u64 u64
  | InvoiceHasNoAmount
  | InvoiceExpiresTooSoon u64 u64
  | MissingInvoice
  | AmountOverflow

subsection \<open>The quote\<close>

text \<open>The two overflow-checked steps of \<open>validate_quote\<close> and everything after them.\<close>

definition max_quote_fee :: "quote \<Rightarrow> client_policy \<Rightarrow> u64" where
  "max_quote_fee q policy = mul_div_u64 (q_amount_sat q) (ucast (cp_max_fee_bps policy)) 10000"

definition check_quote_limits :: "quote \<Rightarrow> client_policy \<Rightarrow> validation_error + unit" where
  "check_quote_limits q policy =
     (let max_fee = max_quote_fee q policy in
      if q_fee_sat q > max_fee then Inl (FeeTooHigh (q_fee_sat q) max_fee)
      else if q_total_sat q > cp_max_total_sat policy
      then Inl (TotalTooLarge (q_total_sat q) (cp_max_total_sat policy))
      else if q_required_confirmations q < cp_min_required_confirmations policy
      then Inl (ConfirmationsTooLow (q_required_confirmations q) (cp_min_required_confirmations policy))
      else if q_required_confirmations q > cp_max_required_confirmations policy
      then Inl (ConfirmationsTooHigh (q_required_confirmations q) (cp_max_required_confirmations policy))
      else Inr ())"

definition check_quote_itemisation :: "quote \<Rightarrow> validation_error + unit" where
  "check_quote_itemisation q =
     (if q_service_fee_sat q \<noteq> 0 \<or> q_onchain_fee_sat q \<noteq> 0
      then try_bind (ok_or AmountOverflow (checked_add (q_service_fee_sat q) (q_onchain_fee_sat q)))
        (\<lambda>itemised. if itemised \<noteq> q_fee_sat q
           then Inl (FeeItemisationMismatch (q_service_fee_sat q) (q_onchain_fee_sat q) (q_fee_sat q))
           else Inr ())
      else Inr ())"

definition validate_quote ::
  "(uuid \<Rightarrow> string) \<Rightarrow> quote \<Rightarrow> quote_request \<Rightarrow> u64 \<Rightarrow> client_policy \<Rightarrow> validation_error + unit" where
  "validate_quote us q request now_unix policy =
     (if is_nil (q_quote_id q) then Inl QuoteIdMissing
      else if \<not> protocol_version_supported (q_protocol_version q)
      then Inl (UnsupportedProtocolVersion (q_protocol_version q) PROTOCOL_VERSION)
      else if \<not> is_nil (qr_offer_id request) \<and> q_offer_id q \<noteq> qr_offer_id request
      then Inl (OfferMismatch (us (q_offer_id q)) (us (qr_offer_id request)))
      else if q_direction q \<noteq> qr_direction request then Inl DirectionMismatch
      else if q_amount_sat q \<noteq> qr_amount_sat request
      then Inl (AmountMismatch (q_amount_sat q) (qr_amount_sat request))
      else if q_valid_until_unix q = 0 then Inl QuoteNeverExpires
      else if quote_is_expired q now_unix then Inl (QuoteExpired now_unix (q_valid_until_unix q))
      else let valid_for = saturating_sub (q_valid_until_unix q) now_unix in
      if valid_for > MAX_QUOTE_VALIDITY_SECS
      then Inl (QuoteValidTooLong valid_for MAX_QUOTE_VALIDITY_SECS)
      else if q_fund_within_secs q > MAX_FUND_WITHIN_SECS
      then Inl (FundWithinTooLong (q_fund_within_secs q) MAX_FUND_WITHIN_SECS)
      else try_bind (ok_or AmountOverflow (checked_add (q_amount_sat q) (q_fee_sat q)))
        (\<lambda>expected_total.
           if q_total_sat q \<noteq> expected_total
           then Inl (TotalNotAmountPlusFee (q_total_sat q) (q_amount_sat q) (q_fee_sat q))
           else try_bind (check_quote_itemisation q) (\<lambda>_. check_quote_limits q policy)))"

subsection \<open>The acceptance\<close>

text \<open>\<open>a + b\<close> on \<open>u32\<close>: \<open>None\<close> where a build that traps overflow panics.\<close>

definition add_u32 :: "bool \<Rightarrow> u32 \<Rightarrow> u32 \<Rightarrow> u32 option" where
  "add_u32 overflow_checks a b =
     (if overflow_checks \<and> checked_add a b = None then None else Some (a + b))"

definition timeout_mismatch :: "bool \<Rightarrow> u32 \<Rightarrow> u32 \<Rightarrow> bool option" where
  "timeout_mismatch overflow_checks timeout implied =
     (if timeout > saturating_add implied ACCEPT_TIMEOUT_SLACK_BLOCKS then Some True
      else Option.bind (add_u32 overflow_checks timeout ACCEPT_TIMEOUT_SLACK_BLOCKS)
        (\<lambda>v. Some (v < implied)))"

definition validate_accept ::
  "bool \<Rightarrow> (uuid \<Rightarrow> string) \<Rightarrow> swap_accept \<Rightarrow> quote \<Rightarrow> u32 option \<Rightarrow> client_policy
   \<Rightarrow> (validation_error + unit) option" where
  "validate_accept overflow_checks us accept q tip policy =
     (if sa_quote_id accept \<noteq> q_quote_id q
      then Some (Inl (OfferMismatch (us (sa_quote_id accept)) (us (q_quote_id q))))
      else if is_nil (sa_swap_id accept) then Some (Inl SwapIdMissing)
      else if sa_direction accept \<noteq> q_direction q then Some (Inl DirectionMismatch)
      else let expected_onchain =
             (case q_direction q of Submarine \<Rightarrow> q_total_sat q | Reverse \<Rightarrow> q_amount_sat q) in
      if sa_onchain_amount_sat accept \<noteq> expected_onchain
      then Some (Inl (OnchainAmountMismatch (sa_onchain_amount_sat accept) expected_onchain))
      else case tip of None \<Rightarrow> Some (Inr ())
      | Some tip \<Rightarrow>
        let implied = saturating_add tip (q_htlc_timeout_blocks q) in
        Option.bind (timeout_mismatch overflow_checks (sa_timeout_block_height accept) implied)
          (\<lambda>mismatch.
            if mismatch
            then Some (Inl (TimeoutMismatch (sa_timeout_block_height accept) implied
                              ACCEPT_TIMEOUT_SLACK_BLOCKS))
            else let timelock = (cp_timelock policy)
                       \<lparr>tl_required_confirmations :=
                          effective_confirmations policy (q_required_confirmations q)\<rparr>
              in Some (map_err TimelockRefused
                   (case q_direction q of
                      Reverse \<Rightarrow> check_client_reverse_accept tip (sa_timeout_block_height accept) timelock
                    | Submarine \<Rightarrow>
                        check_client_submarine_accept tip (sa_timeout_block_height accept) timelock))))"

subsection \<open>The contract\<close>

text \<open>The three derived values of \<open>verify_contract\<close>: script hex, tree and address.\<close>

definition derive_contract ::
  "ext \<Rightarrow> swap_script \<Rightarrow> swap_direction \<Rightarrow> payment_hash \<Rightarrow> pubkey \<Rightarrow> pubkey \<Rightarrow> u32 \<Rightarrow> bitcoin_network
   \<Rightarrow> validation_error + (string \<times> boltz_swap_tree option \<times> address)" where
  "derive_contract x script_type direction h claim refund timeout network =
     (case script_type of
        P2wsh \<Rightarrow>
          (let scr = build_htlc_script x h claim refund timeout
           in Inr (x_hex_encode x scr, None, htlc_p2wsh_address x scr network))
      | TaprootBoltz \<Rightarrow>
          try_bind (map_err (\<lambda>e. InvalidContract (show_swap_error e))
              (taproot_new x direction h claim refund timeout))
            (\<lambda>contract. Inr ('''', Some (swap_tree x contract), taproot_address x contract network)))"

definition verify_contract ::
  "ext \<Rightarrow> swap_accept \<Rightarrow> swap_direction \<Rightarrow> payment_hash \<Rightarrow> pubkey
   \<Rightarrow> bitcoin_network \<Rightarrow> validation_error + script" where
  "verify_contract x accept direction h client_pubkey network =
     (if sa_direction accept \<noteq> direction then Inl DirectionMismatch
      else try_bind (map_err (\<lambda>e. InvalidContract (''provider_pubkey_hex: '' @ e))
             (x_pubkey_parse x (sa_provider_pubkey_hex accept)))
        (\<lambda>provider.
          let (claim, refund) =
            (case direction of Reverse \<Rightarrow> (client_pubkey, provider) | Submarine \<Rightarrow> (provider, client_pubkey))
          in try_bind (derive_contract x (sa_script_type accept) direction h claim refund
                  (sa_timeout_block_height accept) network)
            (\<lambda>(script_hex, tree, address).
              if sa_htlc_script_hex accept \<noteq> '''' \<and> sa_htlc_script_hex accept \<noteq> script_hex
              then Inl (ContractMismatch ''htlc_script_hex'')
              else if sa_swap_tree accept \<noteq> None \<and> sa_swap_tree accept \<noteq> tree
              then Inl (ContractMismatch ''swap_tree'')
              else if sa_htlc_address accept \<noteq> '''' \<and> sa_htlc_address accept \<noteq> x_address_str x address
              then Inl (ContractMismatch ''htlc_address'')
              else Inr (x_address_spk x address))))"

subsection \<open>The hold invoice\<close>

record decoded_hold_invoice =
  dh_payment_hash :: payment_hash
  dh_amount_msat :: u64
  dh_amount_is_explicit :: bool
  dh_expires_at_unix :: u64

definition validate_hold_invoice ::
  "decoded_hold_invoice \<Rightarrow> quote \<Rightarrow> payment_hash \<Rightarrow> u64 \<Rightarrow> client_policy \<Rightarrow> validation_error + unit" where
  "validate_hold_invoice invoice q our_payment_hash now_unix policy =
     (if dh_payment_hash invoice \<noteq> our_payment_hash then Inl PaymentHashMismatch
      else if \<not> dh_amount_is_explicit invoice then Inl InvoiceHasNoAmount
      else try_bind (ok_or AmountOverflow (checked_mul (q_total_sat q) 1000)) (\<lambda>want_msat.
        if dh_amount_msat invoice \<noteq> want_msat
        then Inl (InvoiceAmountMismatch (dh_amount_msat invoice) want_msat)
        else let confirmations = effective_confirmations policy (q_required_confirmations q) in
        try_bind (ok_or AmountOverflow
            (checked_add (ucast confirmations :: u64) (ucast CLIENT_CLAIM_WINDOW))) (\<lambda>blocks_needed.
          let need = saturating_add now_unix (saturating_mul blocks_needed 600) in
          if dh_expires_at_unix invoice \<noteq> 0 \<and> dh_expires_at_unix invoice < need
          then Inl (InvoiceExpiresTooSoon (dh_expires_at_unix invoice) need)
          else Inr ())))"

subsection \<open>What a validated quote guarantees\<close>

lemma check_quote_itemisation_Inr:
  "check_quote_itemisation q = Inr () \<longleftrightarrow>
     (q_service_fee_sat q = 0 \<and> q_onchain_fee_sat q = 0)
     \<or> unat (q_service_fee_sat q) + unat (q_onchain_fee_sat q) = unat (q_fee_sat q)"
proof -
  let ?c = "checked_add (q_service_fee_sat q) (q_onchain_fee_sat q)"
  have "?c = Some (q_fee_sat q) \<longleftrightarrow>
      unat (q_service_fee_sat q) + unat (q_onchain_fee_sat q) = unat (q_fee_sat q)"
    using unat_u64_bound [of "q_fee_sat q"] by (auto simp: checked_add_Some)
  moreover have "check_quote_itemisation q = Inr () \<longleftrightarrow>
      (q_service_fee_sat q = 0 \<and> q_onchain_fee_sat q = 0) \<or> ?c = Some (q_fee_sat q)"
    by (cases ?c) (auto simp: check_quote_itemisation_def checked_add_def split: if_splits)
  ultimately show ?thesis by simp
qed

lemma check_quote_limits_Inr:
  "check_quote_limits q p = Inr () \<longleftrightarrow>
     q_fee_sat q \<le> max_quote_fee q p \<and> q_total_sat q \<le> cp_max_total_sat p
     \<and> cp_min_required_confirmations p \<le> q_required_confirmations q
     \<and> q_required_confirmations q \<le> cp_max_required_confirmations p"
  by (auto simp: check_quote_limits_def Let_def linorder_not_less linorder_not_le)

lemma max_quote_fee_le:
  "unat (max_quote_fee q p) \<le> unat (q_amount_sat q) * unat (cp_max_fee_bps p) div 10000"
  by (simp add: max_quote_fee_def mul_div_u64_unat unat_u16_to_u64)

lemma max_quote_fee_exact:
  assumes "cp_max_fee_bps p \<le> 10000"
  shows "unat (max_quote_fee q p) = unat (q_amount_sat q) * unat (cp_max_fee_bps p) div 10000"
proof -
  have "unat (q_amount_sat q) * unat (cp_max_fee_bps p) div 10000 \<le> unat (q_amount_sat q) * 10000 div 10000"
    by (rule div_le_mono) (use assms in \<open>simp add: word_le_nat_alt\<close>)
  then show ?thesis using unat_u64_bound [of "q_amount_sat q"]
    by (simp add: max_quote_fee_def mul_div_u64_unat unat_u16_to_u64)
qed

text \<open>The client accepts a quote exactly when it names itself, speaks a supported protocol,
  answers the request it was asked (offer, direction, amount), expires in the future but within
  an hour, declares at most an hour to fund, totals exactly amount plus fee with any itemisation
  adding up to that fee, and stays within the client's fee, total and confirmation limits; no
  sum or product in the decision wraps around.\<close>

theorem quote_accepted_iff:
  assumes "cp_max_fee_bps p \<le> 10000"
  shows "validate_quote us q r now p = Inr () \<longleftrightarrow>
     q_quote_id q \<noteq> 0 \<and> q_protocol_version q \<le> 1
     \<and> (qr_offer_id r = 0 \<or> q_offer_id q = qr_offer_id r)
     \<and> q_direction q = qr_direction r \<and> q_amount_sat q = qr_amount_sat r
     \<and> unat now < unat (q_valid_until_unix q) \<and> unat (q_valid_until_unix q) \<le> unat now + 3600
     \<and> unat (q_fund_within_secs q) \<le> 3600
     \<and> unat (q_total_sat q) = unat (q_amount_sat q) + unat (q_fee_sat q)
     \<and> ((q_service_fee_sat q = 0 \<and> q_onchain_fee_sat q = 0)
        \<or> unat (q_service_fee_sat q) + unat (q_onchain_fee_sat q) = unat (q_fee_sat q))
     \<and> unat (q_fee_sat q) \<le> unat (q_amount_sat q) * unat (cp_max_fee_bps p) div 10000
     \<and> q_total_sat q \<le> cp_max_total_sat p
     \<and> cp_min_required_confirmations p \<le> q_required_confirmations q
     \<and> q_required_confirmations q \<le> cp_max_required_confirmations p"
proof -
  let ?c = "checked_add (q_amount_sat q) (q_fee_sat q)"
  have total: "?c = Some (q_total_sat q) \<longleftrightarrow>
      unat (q_total_sat q) = unat (q_amount_sat q) + unat (q_fee_sat q)"
    using unat_u64_bound [of "q_total_sat q"] by (auto simp: checked_add_Some)
  have window: "q_valid_until_unix q \<noteq> 0 \<and> \<not> quote_is_expired q now
        \<and> saturating_sub (q_valid_until_unix q) now \<le> MAX_QUOTE_VALIDITY_SECS \<longleftrightarrow>
      unat now < unat (q_valid_until_unix q) \<and> unat (q_valid_until_unix q) \<le> unat now + 3600"
    by (auto simp: quote_is_expired_def word_le_nat_alt arith MAX_QUOTE_VALIDITY_SECS_def
        word_unat_eq_iff [of "q_valid_until_unix q" 0])
  have version: "protocol_version_supported v \<longleftrightarrow> v \<le> 1" for v
    by (simp add: protocol_version_supported_def MIN_SUPPORTED_PROTOCOL_VERSION_def PROTOCOL_VERSION_def)
  have fund: "q_fund_within_secs q \<le> MAX_FUND_WITHIN_SECS \<longleftrightarrow> unat (q_fund_within_secs q) \<le> 3600"
    by (simp add: MAX_FUND_WITHIN_SECS_def word_le_nat_alt)
  have fee: "q_fee_sat q \<le> max_quote_fee q p \<longleftrightarrow>
      unat (q_fee_sat q) \<le> unat (q_amount_sat q) * unat (cp_max_fee_bps p) div 10000"
    by (simp add: word_le_nat_alt max_quote_fee_exact [OF assms])
  have "validate_quote us q r now p = Inr () \<longleftrightarrow>
      q_quote_id q \<noteq> 0 \<and> protocol_version_supported (q_protocol_version q)
      \<and> (qr_offer_id r = 0 \<or> q_offer_id q = qr_offer_id r)
      \<and> q_direction q = qr_direction r \<and> q_amount_sat q = qr_amount_sat r
      \<and> (q_valid_until_unix q \<noteq> 0 \<and> \<not> quote_is_expired q now
          \<and> saturating_sub (q_valid_until_unix q) now \<le> MAX_QUOTE_VALIDITY_SECS)
      \<and> q_fund_within_secs q \<le> MAX_FUND_WITHIN_SECS
      \<and> ?c = Some (q_total_sat q) \<and> check_quote_itemisation q = Inr () \<and> check_quote_limits q p = Inr ()"
    by (cases ?c) (auto simp: validate_quote_def Let_def is_nil_def linorder_not_less try_bind_Inr)
  then show ?thesis
    unfolding window total version fund check_quote_itemisation_Inr check_quote_limits_Inr fee
    by blast
qed

text \<open>One quote and the request it answers, used to show that the hypotheses below can hold.\<close>

definition sample_policy :: client_policy where
  "sample_policy = for_network NetBitcoin default_params"

definition sample_request :: quote_request where
  "sample_request =
     \<lparr>qr_request_id = None, qr_offer_id = 0, qr_client_pkarr = ''client'', qr_direction = Reverse,
      qr_amount_sat = 100000, qr_protocol_version = 1, qr_features = []\<rparr>"

definition sample_quote :: "u32 \<Rightarrow> quote" where
  "sample_quote htlc_timeout =
     \<lparr>q_request_id = None, q_quote_id = 9, q_offer_id = 3, q_direction = Reverse,
      q_amount_sat = 100000, q_fee_sat = 1500, q_service_fee_sat = 1000, q_onchain_fee_sat = 500,
      q_fee_rate_sat_vb = 2, q_total_sat = 101500, q_htlc_timeout_blocks = htlc_timeout,
      q_required_confirmations = 2, q_valid_until_unix = 1600, q_fund_within_secs = 600,
      q_protocol_version = 1\<rparr>"

lemmas sample_quote_defs = sample_policy_def sample_request_def sample_quote_def for_network_def
  default_params_def

lemma sample_policy_fee: "cp_max_fee_bps sample_policy \<le> 10000"
  by (simp add: sample_policy_def for_network_def)

theorem quote_accepted_iff_witness:
  "validate_quote show_u (sample_quote 144) sample_request 1000 sample_policy = Inr ()
   \<and> validate_quote show_u (sample_quote 144) sample_request 1600 sample_policy \<noteq> Inr ()"
  unfolding quote_accepted_iff [OF sample_policy_fee]
  by (simp add: sample_quote_defs MIN_MAINNET_CONFIRMATIONS_def MAX_REQUIRED_CONFIRMATIONS_def)

subsection \<open>What a validated acceptance guarantees\<close>

lemma timeout_mismatch_False:
  "timeout_mismatch oc t i = Some False \<longleftrightarrow>
     unat t \<le> unat i + 6 \<and> unat t + 6 < 2 ^ 32 \<and> unat i \<le> unat t + 6
     \<or> \<not> oc \<and> unat t \<le> unat i + 6 \<and> 2 ^ 32 \<le> unat t + 6 \<and> unat i \<le> unat t + 6 - 2 ^ 32"
proof (cases "unat t + 6 < 2 ^ 32")
  case True
  then have "unat (t + 6) = unat t + 6" by (simp add: unat_add_nowrap)
  with True show ?thesis using unat_u32_bound [of t]
    by (auto simp: timeout_mismatch_def add_u32_def checked_add_def ACCEPT_TIMEOUT_SLACK_BLOCKS_def
        word_nat arith not_less split: if_splits)
next
  case False
  then have "unat (t + 6) = unat t + 6 - 2 ^ 32"
    using unat_u32_bound [of t] by (simp add: unat_word_ariths mod_if)
  with False show ?thesis using unat_u32_bound [of t]
    by (auto simp: timeout_mismatch_def add_u32_def checked_add_def ACCEPT_TIMEOUT_SLACK_BLOCKS_def
        word_nat arith not_less split: if_splits)
qed

lemma timeout_mismatch_None:
  "timeout_mismatch oc t i = None \<longleftrightarrow> oc \<and> 2 ^ 32 \<le> unat t + 6 \<and> unat t \<le> unat i + 6"
  using unat_u32_bound [of t]
  by (auto simp: timeout_mismatch_def add_u32_def checked_add_def ACCEPT_TIMEOUT_SLACK_BLOCKS_def
      word_nat arith not_less split: if_splits)

lemma timeout_agrees:
  assumes "timeout_mismatch oc t (saturating_add tip h) = Some False"
  shows "unat t \<le> unat tip + unat h + 6 \<and> min (unat tip + unat h) (2 ^ 32 - 1) \<le> unat t + 6
    \<and> unat t + 6 < 2 ^ 32"
  using assms unat_u32_bound [of t] by (auto simp: timeout_mismatch_False arith min_def split: if_splits)

definition accept_timelock :: "client_policy \<Rightarrow> quote \<Rightarrow> timelock_params" where
  "accept_timelock policy q = (cp_timelock policy)
     \<lparr>tl_required_confirmations := effective_confirmations policy (q_required_confirmations q)\<rparr>"

lemma validate_accept_Inr:
  "validate_accept oc us a q (Some tip) p = Some (Inr ()) \<longleftrightarrow>
     sa_quote_id a = q_quote_id q \<and> sa_swap_id a \<noteq> 0 \<and> sa_direction a = q_direction q
     \<and> sa_onchain_amount_sat a =
         (case q_direction q of Submarine \<Rightarrow> q_total_sat q | Reverse \<Rightarrow> q_amount_sat q)
     \<and> timeout_mismatch oc (sa_timeout_block_height a)
         (saturating_add tip (q_htlc_timeout_blocks q)) = Some False
     \<and> check_client_reverse_accept tip (sa_timeout_block_height a) (accept_timelock p q) = Inr ()"
proof -
  have same: "check_client_submarine_accept tip t tl = Inr () \<longleftrightarrow>
      check_client_reverse_accept tip t tl = Inr ()" for t tl
    by (simp add: check_client_submarine_accept_Inr check_client_reverse_accept_Inr)
  let ?m = "timeout_mismatch oc (sa_timeout_block_height a) (saturating_add tip (q_htlc_timeout_blocks q))"
  show ?thesis
    by (cases ?m; cases "q_direction q")
       (auto simp: validate_accept_def Let_def is_nil_def same accept_timelock_def)
qed

text \<open>C38: An acceptance the client goes on with answers its quote and direction, prices the
  on-chain leg at exactly what the quote says for that direction, and sets a timeout that is
  within six blocks of the quoted one, no further away than the client's ceiling, and late enough
  that the claim may still be safely started at every height before the required depth plus the
  claim window has passed. This holds whether or not the build traps overflow.\<close>

theorem accepted_terms_are_quoted_terms:
  assumes "validate_accept oc us a q (Some tip) p = Some (Inr ())"
  shows "sa_quote_id a = q_quote_id q \<and> sa_direction a = q_direction q
    \<and> sa_onchain_amount_sat a =
         (case q_direction q of Submarine \<Rightarrow> q_total_sat q | Reverse \<Rightarrow> q_amount_sat q)
    \<and> unat (sa_timeout_block_height a) \<le> unat tip + unat (q_htlc_timeout_blocks q) + 6
    \<and> min (unat tip + unat (q_htlc_timeout_blocks q)) (2 ^ 32 - 1) \<le> unat (sa_timeout_block_height a) + 6
    \<and> unat (sa_timeout_block_height a) \<le> unat tip + unat (tl_max_timeout_blocks (cp_timelock p))
    \<and> (\<forall>now. unat now < unat tip + max (unat (q_required_confirmations q))
             (unat (cp_min_required_confirmations p)) + unat CLIENT_CLAIM_WINDOW
          \<longrightarrow> claim_start_is_safe now (sa_timeout_block_height a))"
proof -
  from assms have c: "check_client_reverse_accept tip (sa_timeout_block_height a) (accept_timelock p q) = Inr ()"
    and m: "timeout_mismatch oc (sa_timeout_block_height a)
         (saturating_add tip (q_htlc_timeout_blocks q)) = Some False"
    by (simp_all add: validate_accept_Inr)
  from c have "unat (sa_timeout_block_height a) \<le> unat tip + unat (tl_max_timeout_blocks (cp_timelock p))"
    and "unat tip + (max (unat (q_required_confirmations q)) (unat (cp_min_required_confirmations p)) + 24)
          \<le> unat (sa_timeout_block_height a)"
    by (simp_all add: check_client_reverse_accept_Inr accept_timelock_def effective_confirmations_def unat_max)
  with timeout_agrees [OF m] assms show ?thesis
    by (simp add: validate_accept_Inr claim_start_is_safe_iff)
qed

definition sample_accept :: "u32 \<Rightarrow> swap_accept" where
  "sample_accept timeout =
     \<lparr>sa_script_type = P2wsh, sa_swap_tree = None, sa_quote_id = 9, sa_swap_id = 4,
      sa_direction = Reverse, sa_htlc_script_hex = [], sa_htlc_address = [],
      sa_onchain_amount_sat = 100000, sa_timeout_block_height = timeout,
      sa_provider_pubkey_hex = sample_str [3], sa_invoice = None\<rparr>"

theorem accepted_terms_are_quoted_terms_witness:
  "sa_quote_id (sample_accept 800146) = q_quote_id (sample_quote 144)
    \<and> unat (sa_timeout_block_height (sample_accept 800146)) \<le> unat (800000 :: u32) + 144 + 6
    \<and> claim_start_is_safe 800019 (sa_timeout_block_height (sample_accept 800146))"
proof -
  have "validate_accept True show_u (sample_accept 800146) (sample_quote 144) (Some 800000) sample_policy
      = Some (Inr ())"
    by (simp add: validate_accept_Inr sample_accept_def sample_quote_defs timeout_mismatch_False arith
        check_client_reverse_accept_Inr accept_timelock_def effective_confirmations_def
        MIN_MAINNET_CONFIRMATIONS_def timelock_consts)
  from accepted_terms_are_quoted_terms [OF this]
  show ?thesis by (simp add: sample_accept_def sample_quote_def sample_policy_def for_network_def
      MIN_MAINNET_CONFIRMATIONS_def)
qed

lemma validate_accept_None:
  "validate_accept oc us a q (Some tip) p = None \<longleftrightarrow>
     oc \<and> sa_quote_id a = q_quote_id q \<and> sa_swap_id a \<noteq> 0 \<and> sa_direction a = q_direction q
     \<and> sa_onchain_amount_sat a =
         (case q_direction q of Submarine \<Rightarrow> q_total_sat q | Reverse \<Rightarrow> q_amount_sat q)
     \<and> 2 ^ 32 \<le> unat (sa_timeout_block_height a) + 6
     \<and> unat (sa_timeout_block_height a) \<le> min (unat tip + unat (q_htlc_timeout_blocks q)) (2 ^ 32 - 1) + 6"
proof -
  let ?m = "timeout_mismatch oc (sa_timeout_block_height a) (saturating_add tip (q_htlc_timeout_blocks q))"
  have "validate_accept oc us a q (Some tip) p = None \<longleftrightarrow>
     sa_quote_id a = q_quote_id q \<and> sa_swap_id a \<noteq> 0 \<and> sa_direction a = q_direction q
     \<and> sa_onchain_amount_sat a =
         (case q_direction q of Submarine \<Rightarrow> q_total_sat q | Reverse \<Rightarrow> q_amount_sat q) \<and> ?m = None"
    by (cases ?m; cases "q_direction q") (auto simp: validate_accept_def Let_def is_nil_def)
  then show ?thesis by (auto simp: timeout_mismatch_None arith)
qed

lemma sample_quote_validates:
  "validate_quote show_u (sample_quote t) sample_request 1000 sample_policy = Inr ()"
  by (simp add: validate_quote_def sample_quote_defs
      is_nil_def protocol_version_supported_def MIN_SUPPORTED_PROTOCOL_VERSION_def PROTOCOL_VERSION_def
      quote_is_expired_def saturating_sub_def MAX_QUOTE_VALIDITY_SECS_def MAX_FUND_WITHIN_SECS_def
      check_quote_itemisation_def checked_add_def check_quote_limits_def max_quote_fee_def mul_div_u64_def
      MIN_MAINNET_CONFIRMATIONS_def timelock_consts)

text \<open>The acceptance check has one unchecked addition. A build that wraps on overflow always
  returns a verdict; a build that traps it panics exactly when every earlier check passed and
  the provider's timeout is one of the last six heights a \<open>u32\<close> can hold and at most six
  above the (saturated) quoted one; and a quote the client has itself validated leads there.\<close>

theorem accept_check_panics_exactly:
  "(validate_accept oc us a q (Some tip) p = None \<longleftrightarrow>
     oc \<and> sa_quote_id a = q_quote_id q \<and> sa_swap_id a \<noteq> 0 \<and> sa_direction a = q_direction q
     \<and> sa_onchain_amount_sat a =
         (case q_direction q of Submarine \<Rightarrow> q_total_sat q | Reverse \<Rightarrow> q_amount_sat q)
     \<and> 2 ^ 32 \<le> unat (sa_timeout_block_height a) + 6
     \<and> unat (sa_timeout_block_height a) \<le> min (unat tip + unat (q_htlc_timeout_blocks q)) (2 ^ 32 - 1) + 6)
   \<and> validate_quote show_u (sample_quote (- 1)) sample_request 1000 sample_policy = Inr ()
   \<and> validate_accept True show_u (sample_accept (- 1)) (sample_quote (- 1)) (Some 800000) sample_policy = None"
  unfolding validate_accept_None sample_quote_validates
  by (simp add: sample_accept_def sample_quote_def unat_minus_one_word)

subsection \<open>What a verified contract guarantees\<close>

lemma derive_contract_P2wsh:
  "derive_contract x P2wsh d h c r t n =
     Inr (x_hex_encode x (build_htlc_script x h c r t), None,
          htlc_p2wsh_address x (build_htlc_script x h c r t) n)"
  by (simp add: derive_contract_def Let_def)

text \<open>The provider's own description of the contract, removed.\<close>

definition without_contract_fields :: "swap_accept \<Rightarrow> swap_accept" where
  "without_contract_fields a =
     a\<lparr>sa_htlc_script_hex := [], sa_swap_tree := None, sa_htlc_address := []\<rparr>"

definition contract_keys :: "swap_direction \<Rightarrow> pubkey \<Rightarrow> pubkey \<Rightarrow> pubkey \<times> pubkey" where
  "contract_keys direction client provider =
     (case direction of Reverse \<Rightarrow> (client, provider) | Submarine \<Rightarrow> (provider, client))"

lemma verify_contract_Inr:
  "verify_contract x a d h k n = Inr spk \<longleftrightarrow>
     sa_direction a = d \<and> (\<exists>provider hex tree addr.
       x_pubkey_parse x (sa_provider_pubkey_hex a) = Inr provider
       \<and> derive_contract x (sa_script_type a) d h (fst (contract_keys d k provider))
           (snd (contract_keys d k provider)) (sa_timeout_block_height a) n = Inr (hex, tree, addr)
       \<and> (sa_htlc_script_hex a = [] \<or> sa_htlc_script_hex a = hex)
       \<and> (sa_swap_tree a = None \<or> sa_swap_tree a = tree)
       \<and> (sa_htlc_address a = [] \<or> sa_htlc_address a = x_address_str x addr)
       \<and> spk = x_address_spk x addr)"
  by (cases "x_pubkey_parse x (sa_provider_pubkey_hex a)"; cases d)
     (auto simp: verify_contract_def contract_keys_def Let_def try_bind_def split: sum.splits)

text \<open>The output script the client watches or pays is a function of its own key, its own
  payment hash, the network, and the provider's key, timeout and contract type alone: whatever
  verifies also verifies, to the same script, with everything else the provider said about the
  contract deleted; and for a P2WSH contract it is the address of the script in which the
  claiming party is the client of a reverse swap and the provider of a submarine one.\<close>

theorem verified_contract_is_derived:
  assumes "verify_contract x a d h k n = Inr spk"
  shows "verify_contract x (without_contract_fields a) d h k n = Inr spk
    \<and> (\<exists>provider. x_pubkey_parse x (sa_provider_pubkey_hex a) = Inr provider
        \<and> (sa_script_type a = P2wsh \<longrightarrow>
            spk = x_address_spk x (htlc_p2wsh_address x
              (build_htlc_script x h (fst (contract_keys d k provider))
                 (snd (contract_keys d k provider)) (sa_timeout_block_height a)) n))
        \<and> (sa_script_type a = TaprootBoltz \<longrightarrow>
            (\<exists>c. taproot_new x d h (fst (contract_keys d k provider))
                 (snd (contract_keys d k provider)) (sa_timeout_block_height a) = Inr c
               \<and> spk = x_address_spk x (taproot_address x c n))))"
  using assms
  by (cases "sa_script_type a")
     (auto simp: verify_contract_Inr without_contract_fields_def derive_contract_def Let_def try_bind_Inr)

theorem verified_contract_is_derived_witness:
  "\<exists>spk. verify_contract sample_ext (without_contract_fields (sample_accept 800144)) Reverse
     (replicate 32 5) sample_claim_key NetBitcoin = Inr spk"
proof -
  obtain spk where "verify_contract sample_ext (sample_accept 800144) Reverse (replicate 32 5)
      sample_claim_key NetBitcoin = Inr spk"
    by (simp add: verify_contract_def sample_accept_def sample_ext_def Let_def derive_contract_P2wsh)
  from verified_contract_is_derived [OF this] show ?thesis by blast
qed

subsection \<open>What a validated hold invoice guarantees\<close>

lemma unat_u32_to_u64: "unat (ucast (a :: u32) :: u64) = unat a"
  using unat_bound [of a] by (simp add: unsigned_ucast_eq take_bit_nat_eq_self_iff)

lemma checked_mul_Some_iff:
  "checked_mul a b = Some (a * b) \<longleftrightarrow> checked_mul a b \<noteq> None" for a b :: "'a::len word"
  by (simp add: checked_mul_def)

definition hold_invoice_need :: "quote \<Rightarrow> u64 \<Rightarrow> client_policy \<Rightarrow> nat" where
  "hold_invoice_need q now p =
     min (unat now + 600 * (max (unat (q_required_confirmations q))
            (unat (cp_min_required_confirmations p)) + 18)) (2 ^ 64 - 1)"

lemma hold_invoice_need_word:
  "unat (saturating_add now (saturating_mul
      (ucast (effective_confirmations p (q_required_confirmations q)) + ucast CLIENT_CLAIM_WINDOW) 600))
   = hold_invoice_need q now p"
proof -
  let ?c = "effective_confirmations p (q_required_confirmations q)"
  have "unat (ucast ?c + ucast CLIENT_CLAIM_WINDOW :: u64) = unat ?c + 18"
    using unat_u32_bound [of ?c] by (subst unat_add_nowrap) (simp_all add: unat_u32_to_u64)
  then have "unat (saturating_mul (ucast ?c + ucast CLIENT_CLAIM_WINDOW :: u64) 600) = 600 * (unat ?c + 18)"
    using unat_u32_bound [of ?c] by (simp add: unat_saturating_mul)
  moreover have "unat ?c = max (unat (q_required_confirmations q)) (unat (cp_min_required_confirmations p))"
    by (simp add: effective_confirmations_def unat_max)
  ultimately show ?thesis by (simp only: unat_saturating_add hold_invoice_need_def) simp
qed

text \<open>The client pays a reverse swap's hold invoice exactly when it pays for the client's own
  preimage, names its amount, asks for the quoted total to the millisatoshi without overflow,
  and either never expires or stays payable for the required confirmations plus the claim
  window, counted at ten minutes a block.\<close>

theorem hold_invoice_accepted_iff:
  "validate_hold_invoice i q h now p = Inr () \<longleftrightarrow>
     dh_payment_hash i = h \<and> dh_amount_is_explicit i
     \<and> unat (dh_amount_msat i) = 1000 * unat (q_total_sat q)
     \<and> (dh_expires_at_unix i = 0 \<or> hold_invoice_need q now p \<le> unat (dh_expires_at_unix i))"
proof -
  let ?c = "effective_confirmations p (q_required_confirmations q)"
  have blocks: "checked_add (ucast ?c :: u64) (ucast CLIENT_CLAIM_WINDOW)
      = Some (ucast ?c + ucast CLIENT_CLAIM_WINDOW)"
    using unat_u32_bound [of ?c] by (simp add: checked_add_def unat_u32_to_u64)
  have amount: "checked_mul (q_total_sat q) 1000 = Some (dh_amount_msat i) \<longleftrightarrow>
      unat (dh_amount_msat i) = 1000 * unat (q_total_sat q)"
    using unat_u64_bound [of "dh_amount_msat i"] by (auto simp: checked_mul_Some)
  have "validate_hold_invoice i q h now p = Inr () \<longleftrightarrow>
     dh_payment_hash i = h \<and> dh_amount_is_explicit i
     \<and> checked_mul (q_total_sat q) 1000 = Some (dh_amount_msat i)
     \<and> (dh_expires_at_unix i = 0 \<or> hold_invoice_need q now p \<le> unat (dh_expires_at_unix i))"
  proof (cases "checked_mul (q_total_sat q) 1000")
    case None
    then show ?thesis by (simp add: validate_hold_invoice_def)
  next
    case (Some m)
    then show ?thesis unfolding validate_hold_invoice_def Let_def blocks Some ok_or_simps try_bind_simps
        word_less_nat_alt hold_invoice_need_word
      by (auto simp: linorder_not_less)
  qed
  then show ?thesis by (simp add: amount)
qed

definition sample_invoice :: "u64 \<Rightarrow> decoded_hold_invoice" where
  "sample_invoice expires =
     \<lparr>dh_payment_hash = replicate 32 5, dh_amount_msat = 101500000, dh_amount_is_explicit = True,
      dh_expires_at_unix = expires\<rparr>"

text \<open>The expiry a provider puts on a hold invoice and the expiry a client demands agree, and
  exactly how much time lies between them: an otherwise matching invoice issued at \<open>issued\<close>
  with the provider's minimum expiry passes the client's check at \<open>now\<close> if and only if at
  most ten minutes for each confirmation below the protocol's maximum of twelve have passed. At
  twelve confirmations that is no time at all.\<close>

theorem provider_expiry_meets_client_demand:
  assumes "rc \<le> MAX_REQUIRED_CONFIRMATIONS"
    and "effective_confirmations p (q_required_confirmations q) \<le> MAX_REQUIRED_CONFIRMATIONS"
    and "checked_add issued (reverse_invoice_min_expiry_secs rc) = Some (dh_expires_at_unix i)"
    and "dh_expires_at_unix i \<noteq> - 1"
    and "dh_payment_hash i = h" and "dh_amount_is_explicit i"
    and "checked_mul (q_total_sat q) 1000 = Some (dh_amount_msat i)"
  shows "validate_hold_invoice i q h now p = Inr () \<longleftrightarrow>
     unat now \<le> unat issued
        + 600 * (12 - unat (effective_confirmations p (q_required_confirmations q)))"
proof -
  let ?c = "effective_confirmations p (q_required_confirmations q)"
  have c: "unat ?c \<le> 12" and r: "unat rc \<le> 12"
    using assms(1,2) by (simp_all add: word_le_nat_alt)
  have m: "unat (reverse_invoice_min_expiry_secs rc) = 18000"
    using r by (simp add: reverse_invoice_min_expiry_secs_unat max_def min_def)
  have e: "unat (dh_expires_at_unix i) = unat issued + 18000"
    using assms(3) by (simp add: checked_add_Some m)
  then have nz: "dh_expires_at_unix i \<noteq> 0" by auto
  have top: "unat issued + 18000 \<noteq> 18446744073709551615"
    using assms(4) e unat_minus_one_word [where 'a = 64] by (auto simp: word_unat_eq_iff)
  have need: "hold_invoice_need q now p = min (unat now + 600 * (unat ?c + 18)) (2 ^ 64 - 1)"
    by (simp add: hold_invoice_need_def effective_confirmations_def unat_max)
  have blocks: "checked_add (ucast ?c :: u64) (ucast CLIENT_CLAIM_WINDOW)
      = Some (ucast ?c + ucast CLIENT_CLAIM_WINDOW)"
    using unat_u32_bound [of ?c] by (simp add: checked_add_def unat_u32_to_u64)
  have "validate_hold_invoice i q h now p = Inr () \<longleftrightarrow>
      \<not> unat (dh_expires_at_unix i) < hold_invoice_need q now p"
    unfolding validate_hold_invoice_def Let_def blocks assms(7) ok_or_simps try_bind_simps
      word_less_nat_alt hold_invoice_need_word
    using assms(5,6) nz by simp
  also have "\<dots> \<longleftrightarrow> unat now \<le> unat issued + 600 * (12 - unat ?c)"
    unfolding need e using c top unat_u64_bound [of "dh_expires_at_unix i"] e
    by (auto simp: min_def)
  finally show ?thesis .
qed

theorem provider_expiry_meets_client_demand_witness:
  "validate_hold_invoice (sample_invoice 19000) (sample_quote 144) (replicate 32 5) 1030 sample_policy = Inr ()
     \<longleftrightarrow> unat (1030 :: u64) \<le> unat (1000 :: u64)
          + 600 * (12 - unat (effective_confirmations sample_policy (q_required_confirmations (sample_quote 144))))"
  by (rule provider_expiry_meets_client_demand [where rc = 2 and issued = 1000])
     (simp_all add: sample_invoice_def sample_quote_defs MAX_REQUIRED_CONFIRMATIONS_def checked_mul_def
       effective_confirmations_def MIN_MAINNET_CONFIRMATIONS_def checked_add_def
       reverse_invoice_min_expiry_secs_unat saturating_add_def reverse_invoice_min_expiry_secs_def
       saturating_mul_def timelock_consts)

end
