(* ===== verification/Chain.thy ===== *)
theory Chain
  imports Onchain
begin

text \<open>
  What \<open>swap-common/src/chain.rs\<close> says about outputs paying an HTLC script: the unspent and the
  historical outputs, the classification a driver acts on, and the order in which historical
  outputs are preferred. The \<open>ChainWatcher\<close> calls themselves are in \<open>Effects\<close>.
\<close>

definition ASSUMED_FINAL_CONFIRMATIONS :: u32 where "ASSUMED_FINAL_CONFIRMATIONS = 1000000"
definition DEFAULT_MAX_OVERPAY_SAT :: u64 where "DEFAULT_MAX_OVERPAY_SAT = 10000"

record funding_utxo =
  fu_outpoint :: outpoint
  fu_value_sat :: u64
  fu_confirmations :: u32

record historical_output =
  ho_outpoint :: outpoint
  ho_value_sat :: u64
  ho_confirmations :: u32
  ho_spent_by :: "txid option"

datatype funding_selection =
    NoFunding
  | Exact funding_utxo
  | Overpaid funding_utxo u64
  | Underpaid u64
  | ExcessiveOverpay u64
  | Multiple "funding_utxo list"

fun select_funding :: "funding_utxo list \<Rightarrow> u64 \<Rightarrow> u64 \<Rightarrow> funding_selection" where
  "select_funding [] expected_sat max_overpay_sat = NoFunding"
| "select_funding [utxo] expected_sat max_overpay_sat =
     (if fu_value_sat utxo = expected_sat then Exact utxo
      else if fu_value_sat utxo < expected_sat then Underpaid (fu_value_sat utxo)
      else let excess = fu_value_sat utxo - expected_sat in
        if excess \<le> max_overpay_sat then Overpaid utxo excess
        else ExcessiveOverpay (fu_value_sat utxo))"
| "select_funding (u # v # us) expected_sat max_overpay_sat = Multiple (u # v # us)"

subsection \<open>The order of candidates\<close>

text \<open>
  \<open>select_recorded_funding\<close> sorts its candidates deepest first, then by txid and output index.
  The comparison is the order of this type, so the library's stable sort is the source's.
\<close>

datatype candidate_rank = CandidateRank (cr_confirmations: u32) (cr_txid: txid) (cr_vout: u32)

instantiation candidate_rank :: linorder
begin

definition less_eq_candidate_rank :: "candidate_rank \<Rightarrow> candidate_rank \<Rightarrow> bool" where
  "less_eq_candidate_rank a b \<longleftrightarrow>
     cr_confirmations b < cr_confirmations a
     \<or> cr_confirmations b = cr_confirmations a
       \<and> (cr_txid a < cr_txid b \<or> cr_txid a = cr_txid b \<and> cr_vout a \<le> cr_vout b)"

definition less_candidate_rank :: "candidate_rank \<Rightarrow> candidate_rank \<Rightarrow> bool" where
  "less_candidate_rank a b \<longleftrightarrow> a \<le> b \<and> \<not> b \<le> (a :: candidate_rank)"

instance
proof
  fix a b c :: candidate_rank
  show "a < b \<longleftrightarrow> a \<le> b \<and> \<not> b \<le> a" by (rule less_candidate_rank_def)
  show "a \<le> a" by (simp add: less_eq_candidate_rank_def)
  show "a \<le> b \<Longrightarrow> b \<le> c \<Longrightarrow> a \<le> c" by (auto simp: less_eq_candidate_rank_def)
  show "a \<le> b \<Longrightarrow> b \<le> a \<Longrightarrow> a = b"
    by (cases a; cases b) (auto simp: less_eq_candidate_rank_def)
  show "a \<le> b \<or> b \<le> a" by (auto simp: less_eq_candidate_rank_def)
qed

end

definition rank_of :: "historical_output \<Rightarrow> candidate_rank" where
  "rank_of h = CandidateRank (ho_confirmations h) (op_txid (ho_outpoint h)) (op_vout (ho_outpoint h))"

definition funding_candidates :: "u64 \<Rightarrow> historical_output list \<Rightarrow> historical_output list" where
  "funding_candidates expected_sat history =
     sort_key rank_of (filter (\<lambda>h. ho_value_sat h = expected_sat) history)"

subsection \<open>Facts\<close>

text \<open>The outputs a driver may act on at all: one output, at least the expected value, at most
  the tolerance above it.\<close>

fun selected_utxo :: "funding_selection \<Rightarrow> funding_utxo option" where
  "selected_utxo (Exact u) = Some u"
| "selected_utxo (Overpaid u _) = Some u"
| "selected_utxo _ = None"

lemma overpay_within:
  "v \<noteq> e \<Longrightarrow> \<not> v < e \<Longrightarrow> v - e \<le> m \<longleftrightarrow> unat v \<le> unat e + unat m" for v e m :: u64
  by (auto simp: word_nat unat_sub_nat)

lemma select_funding_selected:
  "selected_utxo (select_funding us e m) = Some u \<longleftrightarrow>
     us = [u] \<and> e \<le> fu_value_sat u \<and> unat (fu_value_sat u) \<le> unat e + unat m"
proof -
  consider "us = []" | v where "us = [v]" | v w ws where "us = v # w # ws"
    by (metis list.exhaust)
  then show ?thesis
    by cases (use overpay_within in \<open>auto simp: Let_def word_nat\<close>)
qed

text \<open>A driver is handed an output to act on exactly when a single output pays the script and
  its value lies between the expected amount and the overpayment tolerance above it; an
  underpayment, a larger overpayment and a second payment are each reported as such, with the
  amount seen, and never as an output to spend.\<close>

theorem select_funding_correct:
  "(selected_utxo (select_funding us e m) = Some u \<longleftrightarrow>
      us = [u] \<and> e \<le> fu_value_sat u \<and> unat (fu_value_sat u) \<le> unat e + unat m)
   \<and> (select_funding us e m = NoFunding \<longleftrightarrow> us = [])
   \<and> (select_funding us e m = Underpaid g \<longleftrightarrow> (\<exists>u. us = [u] \<and> fu_value_sat u = g \<and> g < e))
   \<and> (select_funding us e m = ExcessiveOverpay g \<longleftrightarrow>
        (\<exists>u. us = [u] \<and> fu_value_sat u = g \<and> unat e + unat m < unat g))
   \<and> (select_funding us e m = Multiple vs \<longleftrightarrow> vs = us \<and> 2 \<le> length us)"
proof -
  consider "us = []" | v where "us = [v]" | v w ws where "us = v # w # ws"
    by (metis list.exhaust)
  then show ?thesis
    by cases (use overpay_within in \<open>auto simp: Let_def word_nat\<close>)
qed

lemma set_funding_candidates:
  "set (funding_candidates e hs) = {h \<in> set hs. ho_value_sat h = e}"
  by (simp add: funding_candidates_def)

lemma sorted_funding_candidates: "sorted (map rank_of (funding_candidates e hs))"
  by (simp add: funding_candidates_def)

lemma deepest_candidate_first:
  assumes "funding_candidates e hs = c # cs" and "h \<in> set hs" and "ho_value_sat h = e"
  shows "ho_confirmations h \<le> ho_confirmations c"
proof -
  have "h \<in> set (c # cs)"
    using assms set_funding_candidates [of e hs] by simp
  moreover have "sorted (map rank_of (c # cs))"
    using sorted_funding_candidates [of e hs] assms(1) by simp
  ultimately have "rank_of c \<le> rank_of h" by auto
  then show ?thesis by (auto simp: rank_of_def less_eq_candidate_rank_def)
qed

end
