(* ===== verification/Lightning.thy ===== *)
theory Lightning
  imports Prelude Externals
begin

text \<open>
  The data of \<open>lightning/src/lib.rs\<close>: what a node reports about invoices and payments, the
  request a hold invoice is created from, and its errors.
\<close>

datatype lightning_error =
    NotImplemented string
  | LnBackend string
  | InvoiceNotFound
  | PaymentFailed string

fun show_lightning_error :: "lightning_error \<Rightarrow> string" where
  "show_lightning_error (NotImplemented e) = ''not implemented: '' @ e"
| "show_lightning_error (LnBackend e) = ''backend error: '' @ e"
| "show_lightning_error InvoiceNotFound = ''invoice not found''"
| "show_lightning_error (PaymentFailed e) = ''payment failed: '' @ e"

record hold_invoice =
  hi_bolt11 :: string
  hi_payment_hash :: payment_hash
  hi_amount_msat :: u64

datatype invoice_state = InvOpen | InvAccepted | InvSettled | InvCancelled

record payment_result =
  pr_preimage :: preimage
  pr_fee_msat :: u64

datatype payment_status =
    PayUnknown
  | PayNotFound
  | PayInFlight
  | PaySucceeded payment_result
  | PayFailed string

record decoded_invoice =
  di_payment_hash :: payment_hash
  di_amount_msat :: u64
  di_min_final_cltv_expiry :: u32
  di_amount_is_explicit :: bool
  di_expires_at_unix :: u64

record hold_invoice_request =
  hr_payment_hash :: payment_hash
  hr_amount_msat :: u64
  hr_expiry_secs :: u64
  hr_cltv_expiry_delta :: u32
  hr_memo :: string

record accepted_htlc =
  ah_amount_msat :: u64
  ah_expiry_height :: u32

record invoice_status =
  is_state :: invoice_state
  is_amount_paid_msat :: u64
  is_htlcs :: "accepted_htlc list"

fun min_opt :: "'a::linorder list \<Rightarrow> 'a option" where
  "min_opt [] = None"
| "min_opt (v # vs) = Some (case min_opt vs of None \<Rightarrow> v | Some w \<Rightarrow> min v w)"

definition earliest_htlc_expiry :: "invoice_status \<Rightarrow> u32 option" where
  "earliest_htlc_expiry status = min_opt (map ah_expiry_height (is_htlcs status))"

lemma min_opt_None [simp]: "min_opt vs = None \<longleftrightarrow> vs = []"
  by (cases vs) simp_all

lemma min_opt_Some: "min_opt vs = Some m \<Longrightarrow> m \<in> set vs \<and> (\<forall>v\<in>set vs. m \<le> v)"
  by (induction vs arbitrary: m) (fastforce split: option.splits simp: min_def)+

lemma earliest_htlc_expiry_le:
  assumes "earliest_htlc_expiry s = Some m" and "h \<in> set (is_htlcs s)"
  shows "m \<le> ah_expiry_height h"
  using min_opt_Some [of "map ah_expiry_height (is_htlcs s)" m] assms
  by (simp add: earliest_htlc_expiry_def)

end
