(* ===== verification/Effects.thy ===== *)
theory Effects
  imports Chain Lightning Timelock
begin

text \<open>
  How a driver talks to the world. The trait objects of the source (\<open>ChainWatcher\<close>,
  \<open>LightningBackend\<close>, \<open>OnchainWallet\<close>, \<open>ProgressSink\<close>) and the clock are records of
  operations on an arbitrary environment \<open>'e\<close>: whatever a backend, a node, a rival or the
  passage of time does between two calls happens inside those operations. Every call is also
  written to a log with its answer, so a property of a driver is a property of the
  conversation it has, for every environment. A loop the source leaves unbounded takes fuel;
  running out of it is the result \<open>None\<close>, with the log so far.
\<close>

subsection \<open>Errors of a driver\<close>

text \<open>\<open>anyhow::Error\<close>: a wrapped swap error keeps its kind, anything else is a message.\<close>

datatype any_error = AnySwap swap_error | AnyMsg string

definition any_is_transient :: "any_error \<Rightarrow> bool" where
  "any_is_transient e = (case e of AnySwap s \<Rightarrow> is_transient s | AnyMsg _ \<Rightarrow> False)"

fun show_any_error :: "any_error \<Rightarrow> string" where
  "show_any_error (AnySwap e) = show_swap_error e"
| "show_any_error (AnyMsg m) = m"

subsection \<open>The log\<close>

datatype event =
    ChTip "swap_error + u32"
  | ChFindFunding "swap_error + funding_utxo option"
  | ChFindOutputs "swap_error + funding_utxo list"
  | ChHistory "swap_error + historical_output list"
  | ChOutpointStatus outpoint "swap_error + funding_utxo option"
  | ChFindSpend outpoint "swap_error + transaction option"
  | ChConfirmations txid "swap_error + u32 option"
  | ChEstimate u16 "swap_error + u64 option"
  | ChBroadcast transaction "swap_error + txid"
  | ChBlockHashes u32 u16 "swap_error + block_hash list"
  | LnInvoiceStatus payment_hash "lightning_error + invoice_status"
  | LnInvoiceState payment_hash "lightning_error + invoice_state"
  | LnSettle preimage "lightning_error + unit"
  | LnCancel payment_hash "lightning_error + unit"
  | LnPay string u64 "u32 option" "lightning_error + payment_result"
  | LnPaymentStatus payment_hash "lightning_error + payment_status"
  | LnCreateHold hold_invoice_request "lightning_error + hold_invoice"
  | LnLookupHold hold_invoice_request "lightning_error + hold_invoice option"
  | LnDecode string "lightning_error + decoded_invoice"
  | WFundHtlc script u64 "swap_error + outpoint"
  | WReceive script
  | WCpfp txid u64 "swap_error + txid option"
  | PFundingIntent u32 "any_error + unit"
  | PFunded outpoint
  | PPayStarted "any_error + unit"
  | PInvoicePaid
  | PClaimObserved txid
  | PSpendBroadcast txid
  | PWantsClaimable bool
  | PClaimable outpoint
  | PaySpawned string u64 "u32 option"
  | PayFinished bool
  | PayJoined "string + (lightning_error + payment_result)"
  | PayAborted
  | Slept nat

subsection \<open>The backends\<close>

record 'e chain_watcher =
  ch_tip_height :: "'e \<Rightarrow> (swap_error + u32) \<times> 'e"
  ch_find_funding :: "script \<Rightarrow> u64 \<Rightarrow> 'e \<Rightarrow> (swap_error + funding_utxo option) \<times> 'e"
  ch_find_outputs :: "script \<Rightarrow> 'e \<Rightarrow> (swap_error + funding_utxo list) \<times> 'e"
  ch_find_historical_outputs :: "script \<Rightarrow> 'e \<Rightarrow> (swap_error + historical_output list) \<times> 'e"
  ch_outpoint_status :: "script \<Rightarrow> outpoint \<Rightarrow> 'e \<Rightarrow> (swap_error + funding_utxo option) \<times> 'e"
  ch_find_spend :: "script \<Rightarrow> outpoint \<Rightarrow> 'e \<Rightarrow> (swap_error + transaction option) \<times> 'e"
  ch_broadcast :: "transaction \<Rightarrow> 'e \<Rightarrow> (swap_error + txid) \<times> 'e"
  ch_estimate_fee_rate :: "u16 \<Rightarrow> 'e \<Rightarrow> (swap_error + u64 option) \<times> 'e"
  ch_tx_confirmations :: "script \<Rightarrow> txid \<Rightarrow> 'e \<Rightarrow> (swap_error + u32 option) \<times> 'e"
  ch_block_hashes_from :: "u32 \<Rightarrow> u16 \<Rightarrow> 'e \<Rightarrow> (swap_error + block_hash list) \<times> 'e"

record 'e lightning_backend =
  ln_invoice_status :: "payment_hash \<Rightarrow> 'e \<Rightarrow> (lightning_error + invoice_status) \<times> 'e"
  ln_settle_hold_invoice :: "preimage \<Rightarrow> 'e \<Rightarrow> (lightning_error + unit) \<times> 'e"
  ln_cancel_hold_invoice :: "payment_hash \<Rightarrow> 'e \<Rightarrow> (lightning_error + unit) \<times> 'e"
  ln_pay_invoice ::
    "string \<Rightarrow> u64 \<Rightarrow> u32 option \<Rightarrow> 'e \<Rightarrow> (lightning_error + payment_result) \<times> 'e"
  ln_payment_status :: "payment_hash \<Rightarrow> 'e \<Rightarrow> (lightning_error + payment_status) \<times> 'e"
  ln_create_hold_invoice :: "hold_invoice_request \<Rightarrow> 'e \<Rightarrow> (lightning_error + hold_invoice) \<times> 'e"
  ln_lookup_hold_invoice :: "hold_invoice_request \<Rightarrow> 'e \<Rightarrow> (lightning_error + hold_invoice option) \<times> 'e"
  ln_decode_invoice :: "string \<Rightarrow> 'e \<Rightarrow> (lightning_error + decoded_invoice) \<times> 'e"

record 'e onchain_wallet =
  w_fund_htlc :: "script \<Rightarrow> u64 \<Rightarrow> 'e \<Rightarrow> (swap_error + outpoint) \<times> 'e"
  w_receive_destination :: "'e \<Rightarrow> script \<times> 'e"
  w_cpfp_bump :: "outpoint \<Rightarrow> u64 \<Rightarrow> 'e \<Rightarrow> (swap_error + txid option) \<times> 'e"

record 'e progress_sink =
  p_funding_intent :: "u32 \<Rightarrow> 'e \<Rightarrow> (any_error + unit) \<times> 'e"
  p_funded :: "outpoint \<Rightarrow> 'e \<Rightarrow> unit \<times> 'e"
  p_invoice_pay_started :: "'e \<Rightarrow> (any_error + unit) \<times> 'e"
  p_invoice_paid :: "'e \<Rightarrow> unit \<times> 'e"
  p_claim_observed :: "txid \<Rightarrow> 'e \<Rightarrow> unit \<times> 'e"
  p_spend_broadcast :: "txid \<Rightarrow> 'e \<Rightarrow> unit \<times> 'e"
  p_wants_claimable :: "'e \<Rightarrow> bool \<times> 'e"
  p_claimable :: "outpoint \<Rightarrow> 'e \<Rightarrow> unit \<times> 'e"

text \<open>The client's own sinks, \<open>FundingSink\<close> and \<open>ClaimSink\<close>.\<close>

record 'e funding_sink =
  fs_funding_intent :: "u32 \<Rightarrow> 'e \<Rightarrow> (any_error + unit) \<times> 'e"
  fs_funded :: "outpoint \<Rightarrow> 'e \<Rightarrow> unit \<times> 'e"
  fs_spend_broadcast :: "txid \<Rightarrow> 'e \<Rightarrow> unit \<times> 'e"

record 'e claim_sink =
  cs_payment_started :: "'e \<Rightarrow> (any_error + unit) \<times> 'e"
  cs_spend_broadcast :: "txid \<Rightarrow> 'e \<Rightarrow> unit \<times> 'e"

text \<open>
  A payment running beside its driver: \<open>tokio::spawn\<close> of \<open>pay_invoice\<close> and the handle's
  \<open>is_finished\<close>, \<open>await\<close> (a join error is a message) and \<open>abort\<close>.
\<close>

record 'e pay_runtime =
  rt_spawn_pay :: "string \<Rightarrow> u64 \<Rightarrow> u32 option \<Rightarrow> 'e \<Rightarrow> unit \<times> 'e"
  rt_is_finished :: "'e \<Rightarrow> bool \<times> 'e"
  rt_join :: "'e \<Rightarrow> (string + (lightning_error + payment_result)) \<times> 'e"
  rt_abort :: "'e \<Rightarrow> unit \<times> 'e"

text \<open>\<open>Instant::now\<close> (milliseconds) and \<open>tokio::time::sleep\<close>.\<close>

record 'e clock =
  ck_now :: "'e \<Rightarrow> nat \<times> 'e"
  ck_sleep :: "nat \<Rightarrow> 'e \<Rightarrow> unit \<times> 'e"

subsection \<open>Actions\<close>

record 'e world =
  w_env :: 'e
  w_log :: "event list"

type_synonym ('e, 'a) act = "'e world \<Rightarrow> 'a option \<times> 'e world"

definition ret :: "'a \<Rightarrow> ('e, 'a) act" where
  "ret a w = (Some a, w)"

definition out_of_fuel :: "('e, 'a) act" where
  "out_of_fuel w = (None, w)"

definition bnd :: "('e, 'a) act \<Rightarrow> ('a \<Rightarrow> ('e, 'b) act) \<Rightarrow> ('e, 'b) act" where
  "bnd m f w = (case m w of (None, w') \<Rightarrow> (None, w') | (Some a, w') \<Rightarrow> f a w')"

text \<open>The \<open>?\<close> operator on the result of a call, and \<open>map_err(..)?\<close>.\<close>

definition tryb :: "('e, 'x + 'a) act \<Rightarrow> ('a \<Rightarrow> ('e, 'x + 'b) act) \<Rightarrow> ('e, 'x + 'b) act" where
  "tryb m f = bnd m (\<lambda>r. case r of Inl e \<Rightarrow> ret (Inl e) | Inr v \<Rightarrow> f v)"

definition trym :: "('x \<Rightarrow> 'y) \<Rightarrow> ('e, 'x + 'a) act \<Rightarrow> ('a \<Rightarrow> ('e, 'y + 'b) act) \<Rightarrow> ('e, 'y + 'b) act" where
  "trym h m f = bnd m (\<lambda>r. case r of Inl e \<Rightarrow> ret (Inl (h e)) | Inr v \<Rightarrow> f v)"

text \<open>One call: run the operation on the environment and log it with its answer.\<close>

definition call :: "('r \<Rightarrow> event) \<Rightarrow> ('e \<Rightarrow> 'r \<times> 'e) \<Rightarrow> ('e, 'r) act" where
  "call ev operation w =
     (let (r, e) = operation (w_env w) in (Some r, \<lparr>w_env = e, w_log = w_log w @ [ev r]\<rparr>))"

text \<open>A read of the clock changes no decision's evidence and is not logged.\<close>

definition quiet :: "('e \<Rightarrow> 'r \<times> 'e) \<Rightarrow> ('e, 'r) act" where
  "quiet operation w = (let (r, e) = operation (w_env w) in (Some r, w\<lparr>w_env := e\<rparr>))"

definition tip_height :: "'e chain_watcher \<Rightarrow> ('e, swap_error + u32) act" where
  "tip_height ch = call ChTip (ch_tip_height ch)"
definition find_funding :: "'e chain_watcher \<Rightarrow> script \<Rightarrow> u64 \<Rightarrow> ('e, swap_error + funding_utxo option) act" where
  "find_funding ch spk v = call ChFindFunding (ch_find_funding ch spk v)"
definition find_outputs :: "'e chain_watcher \<Rightarrow> script \<Rightarrow> ('e, swap_error + funding_utxo list) act" where
  "find_outputs ch spk = call ChFindOutputs (ch_find_outputs ch spk)"
definition find_historical_outputs ::
  "'e chain_watcher \<Rightarrow> script \<Rightarrow> ('e, swap_error + historical_output list) act" where
  "find_historical_outputs ch spk = call ChHistory (ch_find_historical_outputs ch spk)"
definition outpoint_status ::
  "'e chain_watcher \<Rightarrow> script \<Rightarrow> outpoint \<Rightarrow> ('e, swap_error + funding_utxo option) act" where
  "outpoint_status ch spk op = call (ChOutpointStatus op) (ch_outpoint_status ch spk op)"
definition find_spend ::
  "'e chain_watcher \<Rightarrow> script \<Rightarrow> outpoint \<Rightarrow> ('e, swap_error + transaction option) act" where
  "find_spend ch spk op = call (ChFindSpend op) (ch_find_spend ch spk op)"
definition broadcast :: "'e chain_watcher \<Rightarrow> transaction \<Rightarrow> ('e, swap_error + txid) act" where
  "broadcast ch t = call (ChBroadcast t) (ch_broadcast ch t)"
definition estimate_fee_rate :: "'e chain_watcher \<Rightarrow> u16 \<Rightarrow> ('e, swap_error + u64 option) act" where
  "estimate_fee_rate ch target = call (ChEstimate target) (ch_estimate_fee_rate ch target)"
definition tx_confirmations ::
  "'e chain_watcher \<Rightarrow> script \<Rightarrow> txid \<Rightarrow> ('e, swap_error + u32 option) act" where
  "tx_confirmations ch spk t = call (ChConfirmations t) (ch_tx_confirmations ch spk t)"

definition block_hashes_from ::
  "'e chain_watcher \<Rightarrow> u32 \<Rightarrow> u16 \<Rightarrow> ('e, swap_error + block_hash list) act" where
  "block_hashes_from ch start count = call (ChBlockHashes start count) (ch_block_hashes_from ch start count)"

definition invoice_status ::
  "'e lightning_backend \<Rightarrow> payment_hash \<Rightarrow> ('e, lightning_error + invoice_status) act" where
  "invoice_status ln h = call (LnInvoiceStatus h) (ln_invoice_status ln h)"

text \<open>The default method: a projection of the status.\<close>

definition invoice_state ::
  "'e lightning_backend \<Rightarrow> payment_hash \<Rightarrow> ('e, lightning_error + invoice_state) act" where
  "invoice_state ln h = call (LnInvoiceState h) (\<lambda>e. let (r, e') = ln_invoice_status ln h e in
     (case r of Inl x \<Rightarrow> Inl x | Inr s \<Rightarrow> Inr (is_state s), e'))"
definition settle_hold_invoice ::
  "'e lightning_backend \<Rightarrow> preimage \<Rightarrow> ('e, lightning_error + unit) act" where
  "settle_hold_invoice ln p = call (LnSettle p) (ln_settle_hold_invoice ln p)"
definition ln_cancel :: "'e lightning_backend \<Rightarrow> payment_hash \<Rightarrow> ('e, lightning_error + unit) act" where
  "ln_cancel ln h = call (LnCancel h) (ln_cancel_hold_invoice ln h)"
definition pay_invoice ::
  "'e lightning_backend \<Rightarrow> string \<Rightarrow> u64 \<Rightarrow> u32 option \<Rightarrow> ('e, lightning_error + payment_result) act" where
  "pay_invoice ln bolt11 fee limit = call (LnPay bolt11 fee limit) (ln_pay_invoice ln bolt11 fee limit)"
definition payment_status ::
  "'e lightning_backend \<Rightarrow> payment_hash \<Rightarrow> ('e, lightning_error + payment_status) act" where
  "payment_status ln h = call (LnPaymentStatus h) (ln_payment_status ln h)"

definition create_hold_invoice ::
  "'e lightning_backend \<Rightarrow> hold_invoice_request \<Rightarrow> ('e, lightning_error + hold_invoice) act" where
  "create_hold_invoice ln req = call (LnCreateHold req) (ln_create_hold_invoice ln req)"
definition lookup_hold_invoice ::
  "'e lightning_backend \<Rightarrow> hold_invoice_request \<Rightarrow> ('e, lightning_error + hold_invoice option) act" where
  "lookup_hold_invoice ln req = call (LnLookupHold req) (ln_lookup_hold_invoice ln req)"
definition decode_invoice ::
  "'e lightning_backend \<Rightarrow> string \<Rightarrow> ('e, lightning_error + decoded_invoice) act" where
  "decode_invoice ln bolt11 = call (LnDecode bolt11) (ln_decode_invoice ln bolt11)"

definition fund_htlc :: "'e onchain_wallet \<Rightarrow> script \<Rightarrow> u64 \<Rightarrow> ('e, swap_error + outpoint) act" where
  "fund_htlc wl spk v = call (WFundHtlc spk v) (w_fund_htlc wl spk v)"
definition receive_destination :: "'e onchain_wallet \<Rightarrow> ('e, script) act" where
  "receive_destination wl = call WReceive (w_receive_destination wl)"
definition cpfp_bump :: "'e onchain_wallet \<Rightarrow> txid \<Rightarrow> u64 \<Rightarrow> ('e, swap_error + txid option) act" where
  "cpfp_bump wl parent rate =
     call (WCpfp parent rate) (w_cpfp_bump wl \<lparr>op_txid = parent, op_vout = 0\<rparr> rate)"

text \<open>The drivers' CPFP closure: \<open>wallet.cpfp_bump(..).ok().flatten()\<close>.\<close>

definition cpfp_child :: "'e onchain_wallet \<Rightarrow> txid \<Rightarrow> u64 \<Rightarrow> ('e, txid option) act" where
  "cpfp_child wl parent rate =
     bnd (cpfp_bump wl parent rate) (\<lambda>r. ret (case r of Inl _ \<Rightarrow> None | Inr v \<Rightarrow> v))"

definition funding_intent :: "'e progress_sink \<Rightarrow> u32 \<Rightarrow> ('e, any_error + unit) act" where
  "funding_intent pg tip = call (PFundingIntent tip) (p_funding_intent pg tip)"
definition funded :: "'e progress_sink \<Rightarrow> outpoint \<Rightarrow> ('e, unit) act" where
  "funded pg op = call (\<lambda>_. PFunded op) (p_funded pg op)"
definition invoice_pay_started :: "'e progress_sink \<Rightarrow> ('e, any_error + unit) act" where
  "invoice_pay_started pg = call PPayStarted (p_invoice_pay_started pg)"
definition invoice_paid :: "'e progress_sink \<Rightarrow> ('e, unit) act" where
  "invoice_paid pg = call (\<lambda>_. PInvoicePaid) (p_invoice_paid pg)"
definition claim_observed :: "'e progress_sink \<Rightarrow> txid \<Rightarrow> ('e, unit) act" where
  "claim_observed pg t = call (\<lambda>_. PClaimObserved t) (p_claim_observed pg t)"
definition spend_broadcast :: "'e progress_sink \<Rightarrow> txid \<Rightarrow> ('e, unit) act" where
  "spend_broadcast pg t = call (\<lambda>_. PSpendBroadcast t) (p_spend_broadcast pg t)"
definition wants_claimable :: "'e progress_sink \<Rightarrow> ('e, bool) act" where
  "wants_claimable pg = call PWantsClaimable (p_wants_claimable pg)"
definition claimable :: "'e progress_sink \<Rightarrow> outpoint \<Rightarrow> ('e, unit) act" where
  "claimable pg op = call (\<lambda>_. PClaimable op) (p_claimable pg op)"

definition client_funding_intent :: "'e funding_sink \<Rightarrow> u32 \<Rightarrow> ('e, any_error + unit) act" where
  "client_funding_intent fs tip = call (PFundingIntent tip) (fs_funding_intent fs tip)"
definition client_funded :: "'e funding_sink \<Rightarrow> outpoint \<Rightarrow> ('e, unit) act" where
  "client_funded fs op = call (\<lambda>_. PFunded op) (fs_funded fs op)"
definition refund_broadcast :: "'e funding_sink \<Rightarrow> txid \<Rightarrow> ('e, unit) act" where
  "refund_broadcast fs t = call (\<lambda>_. PSpendBroadcast t) (fs_spend_broadcast fs t)"
definition payment_started :: "'e claim_sink \<Rightarrow> ('e, any_error + unit) act" where
  "payment_started cs = call PPayStarted (cs_payment_started cs)"
definition claim_broadcast :: "'e claim_sink \<Rightarrow> txid \<Rightarrow> ('e, unit) act" where
  "claim_broadcast cs t = call (\<lambda>_. PSpendBroadcast t) (cs_spend_broadcast cs t)"

definition spawn_pay :: "'e pay_runtime \<Rightarrow> string \<Rightarrow> u64 \<Rightarrow> u32 option \<Rightarrow> ('e, unit) act" where
  "spawn_pay rt bolt11 fee limit = call (\<lambda>_. PaySpawned bolt11 fee limit) (rt_spawn_pay rt bolt11 fee limit)"
definition pay_is_finished :: "'e pay_runtime \<Rightarrow> ('e, bool) act" where
  "pay_is_finished rt = call PayFinished (rt_is_finished rt)"
definition pay_join :: "'e pay_runtime \<Rightarrow> ('e, string + (lightning_error + payment_result)) act" where
  "pay_join rt = call PayJoined (rt_join rt)"
definition pay_abort :: "'e pay_runtime \<Rightarrow> ('e, unit) act" where
  "pay_abort rt = call (\<lambda>_. PayAborted) (rt_abort rt)"

definition sleep_for :: "'e clock \<Rightarrow> nat \<Rightarrow> ('e, unit) act" where
  "sleep_for ck d = call (\<lambda>_. Slept d) (ck_sleep ck d)"
definition now :: "'e clock \<Rightarrow> ('e, nat) act" where
  "now ck = quiet (ck_now ck)"

lemmas call_defs = tip_height_def find_funding_def find_outputs_def find_historical_outputs_def
  outpoint_status_def find_spend_def broadcast_def estimate_fee_rate_def tx_confirmations_def
  block_hashes_from_def
  invoice_status_def invoice_state_def settle_hold_invoice_def ln_cancel_def pay_invoice_def
  payment_status_def create_hold_invoice_def lookup_hold_invoice_def decode_invoice_def fund_htlc_def receive_destination_def cpfp_bump_def funding_intent_def
  funded_def invoice_pay_started_def invoice_paid_def claim_observed_def spend_broadcast_def
  wants_claimable_def claimable_def sleep_for_def client_funding_intent_def client_funded_def
  refund_broadcast_def payment_started_def claim_broadcast_def spawn_pay_def pay_is_finished_def
  pay_join_def pay_abort_def

subsection \<open>Reasoning about a conversation\<close>

text \<open>
  \<open>wpl m Q R l\<close>: whatever the environment answers, running \<open>m\<close> after the log \<open>l\<close> ends with a
  result and a log satisfying \<open>Q\<close>, or out of fuel with a log satisfying \<open>R\<close>.
\<close>

named_theorems wp "rules that compute what a conversation guarantees"

definition wpl ::
  "('e, 'a) act \<Rightarrow> ('a \<Rightarrow> event list \<Rightarrow> bool) \<Rightarrow> (event list \<Rightarrow> bool) \<Rightarrow> event list \<Rightarrow> bool" where
  "wpl m Q R l \<longleftrightarrow> (\<forall>w. w_log w = l \<longrightarrow>
     (case m w of (None, w') \<Rightarrow> R (w_log w') | (Some a, w') \<Rightarrow> Q a (w_log w')))"

lemma wpl_Some: "wpl m Q R (w_log w) \<Longrightarrow> m w = (Some a, w') \<Longrightarrow> Q a (w_log w')"
  by (auto simp: wpl_def split: option.splits prod.splits)

lemma wpl_None: "wpl m Q R (w_log w) \<Longrightarrow> m w = (None, w') \<Longrightarrow> R (w_log w')"
  by (auto simp: wpl_def split: option.splits prod.splits)

lemma wp_ret [wp]: "Q a l \<Longrightarrow> wpl (ret a) Q R l"
  by (simp add: wpl_def ret_def)

lemma wp_out_of_fuel [wp]: "R l \<Longrightarrow> wpl out_of_fuel Q R l"
  by (simp add: wpl_def out_of_fuel_def)

lemma wp_call: "(\<And>r. Q r (l @ [ev r])) \<Longrightarrow> wpl (call ev op) Q R l"
  by (auto simp: wpl_def call_def Let_def split: prod.splits)

lemma wp_quiet: "(\<And>r. Q r l) \<Longrightarrow> wpl (quiet op) Q R l"
  by (auto simp: wpl_def quiet_def Let_def split: prod.splits)

lemma wp_conseq:
  assumes "wpl m Q R l" and "\<And>a l'. Q a l' \<Longrightarrow> Q' a l'" and "\<And>l'. R l' \<Longrightarrow> R' l'"
  shows "wpl m Q' R' l"
  using assms by (fastforce simp: wpl_def split: option.splits prod.splits)

lemma wp_total: "wpl m Q (\<lambda>_. False) l \<Longrightarrow> wpl m Q R l"
  by (erule wp_conseq) simp_all

lemma wp_bnd:
  assumes "wpl m Q' R l" and "\<And>a l'. Q' a l' \<Longrightarrow> wpl (f a) Q R l'"
  shows "wpl (bnd m f) Q R l"
  using assms by (fastforce simp: wpl_def bnd_def split: option.splits prod.splits)

lemma wp_tryb:
  assumes "wpl m Q' R l" and "\<And>e l'. Q' (Inl e) l' \<Longrightarrow> Q (Inl e) l'"
    and "\<And>v l'. Q' (Inr v) l' \<Longrightarrow> wpl (f v) Q R l'"
  shows "wpl (tryb m f) Q R l"
  unfolding tryb_def by (rule wp_bnd [OF assms(1)]) (auto intro: wp_ret assms(2,3) split: sum.split)

lemma wp_trym:
  assumes "wpl m Q' R l" and "\<And>e l'. Q' (Inl e) l' \<Longrightarrow> Q (Inl (h e)) l'"
    and "\<And>v l'. Q' (Inr v) l' \<Longrightarrow> wpl (f v) Q R l'"
  shows "wpl (trym h m f) Q R l"
  unfolding trym_def by (rule wp_bnd [OF assms(1)]) (auto intro: wp_ret assms(2,3) split: sum.split)

text \<open>The step a proof takes at each call.\<close>

lemma wp_bnd_call [wp]:
  "(\<And>r. wpl (f r) Q R (l @ [ev r])) \<Longrightarrow> wpl (bnd (call ev op) f) Q R l"
  by (rule wp_bnd [where Q' = "\<lambda>r l'. l' = l @ [ev r]"]) (auto intro: wp_call)

lemma wp_bnd_quiet [wp]: "(\<And>r. wpl (f r) Q R l) \<Longrightarrow> wpl (bnd (quiet op) f) Q R l"
  by (rule wp_bnd [where Q' = "\<lambda>r l'. l' = l"]) (auto intro: wp_quiet)

lemma wp_tryb_call [wp]:
  "(\<And>e. Q (Inl e) (l @ [ev (Inl e)])) \<Longrightarrow> (\<And>v. wpl (f v) Q R (l @ [ev (Inr v)]))
   \<Longrightarrow> wpl (tryb (call ev op) f) Q R l"
  by (rule wp_tryb [where Q' = "\<lambda>r l'. l' = l @ [ev r]"]) (auto intro: wp_call)

lemma wp_trym_call [wp]:
  "(\<And>e. Q (Inl (h e)) (l @ [ev (Inl e)])) \<Longrightarrow> (\<And>v. wpl (f v) Q R (l @ [ev (Inr v)]))
   \<Longrightarrow> wpl (trym h (call ev op) f) Q R l"
  by (rule wp_trym [where Q' = "\<lambda>r l'. l' = l @ [ev r]"]) (auto intro: wp_call)

lemma wp_if [wp]:
  "(b \<Longrightarrow> wpl m Q R l) \<Longrightarrow> (\<not> b \<Longrightarrow> wpl n Q R l) \<Longrightarrow> wpl (if b then m else n) Q R l"
  by simp

lemma wp_sum [wp]:
  "(\<And>e. r = Inl e \<Longrightarrow> wpl (f e) Q R l) \<Longrightarrow> (\<And>v. r = Inr v \<Longrightarrow> wpl (g v) Q R l)
   \<Longrightarrow> wpl (case r of Inl e \<Rightarrow> f e | Inr v \<Rightarrow> g v) Q R l"
  by (cases r) simp_all

lemma wp_option [wp]:
  "(r = None \<Longrightarrow> wpl f Q R l) \<Longrightarrow> (\<And>v. r = Some v \<Longrightarrow> wpl (g v) Q R l)
   \<Longrightarrow> wpl (case r of None \<Rightarrow> f | Some v \<Rightarrow> g v) Q R l"
  by (cases r) simp_all

lemma wp_Let [wp]: "(\<And>v. v = e \<Longrightarrow> wpl (f v) Q R l) \<Longrightarrow> wpl (let v = e in f v) Q R l"
  by simp

text \<open>What never depends on the answers: a log only grows.\<close>

lemma wpl_trivial: "wpl m (\<lambda>_ _. True) (\<lambda>_. True) l"
  by (simp add: wpl_def split: option.splits prod.splits)

subsection \<open>Properties of a log\<close>

text \<open>
  \<open>always G l\<close>: every event of the log was allowed by what came before it. A safety property of
  a driver is such a \<open>G\<close>, and it holds of every prefix of a log it holds of.
\<close>

definition always :: "(event list \<Rightarrow> event \<Rightarrow> bool) \<Rightarrow> event list \<Rightarrow> bool" where
  "always G l \<longleftrightarrow> (\<forall>i<length l. G (take i l) (l ! i))"

lemma always_Nil [simp]: "always G []"
  by (simp add: always_def)

lemma always_snoc: "always G (l @ [e]) \<longleftrightarrow> always G l \<and> G l e"
  by (auto simp: always_def nth_append less_Suc_eq)

text \<open>The events \<open>q\<close> that follow a log \<open>p\<close>, one obligation each.\<close>

fun always_from :: "(event list \<Rightarrow> event \<Rightarrow> bool) \<Rightarrow> event list \<Rightarrow> event list \<Rightarrow> bool" where
  "always_from G p [] \<longleftrightarrow> True"
| "always_from G p (e # q) \<longleftrightarrow> G p e \<and> always_from G (p @ [e]) q"

lemma always_append [simp]: "always G (l @ q) \<longleftrightarrow> always G l \<and> always_from G l q"
proof (induction q arbitrary: l)
  case (Cons e q)
  have "always G (l @ e # q) \<longleftrightarrow> always G ((l @ [e]) @ q)" by simp
  also have "\<dots> \<longleftrightarrow> always G (l @ [e]) \<and> always_from G (l @ [e]) q" by (rule Cons.IH)
  finally show ?case by (simp add: always_snoc)
qed simp

lemma always_Cons: "always G (e # q) \<longleftrightarrow> G [] e \<and> always_from G [e] q"
  using always_append [of G "[]" "e # q"] by simp

lemma always_conj: "always (\<lambda>p e. G p e \<and> H p e) l \<longleftrightarrow> always G l \<and> always H l"
  by (auto simp: always_def)

lemma always_mono: "always G l \<Longrightarrow> (\<And>p e. G p e \<Longrightarrow> H p e) \<Longrightarrow> always H l"
  by (auto simp: always_def)

lemma alwaysD:
  assumes "always G (p @ e # q)"
  shows "G p e"
  using assms by simp

lemma always_from_free:
  assumes "list_all E q" and "\<And>p e. E e \<Longrightarrow> G p e"
  shows "always_from G p q"
  using assms(1) by (induction q arbitrary: p) (simp_all add: assms(2))

lemma wp_conj: "wpl m Q R l \<Longrightarrow> wpl m Q' R' l \<Longrightarrow> wpl m (\<lambda>a l. Q a l \<and> Q' a l) (\<lambda>l. R l \<and> R' l) l"
  by (auto simp: wpl_def split: option.splits prod.splits)

lemma wp_prod [wp]: "(\<And>a b. r = (a, b) \<Longrightarrow> wpl (f a b) Q R l) \<Longrightarrow> wpl (case r of (a, b) \<Rightarrow> f a b) Q R l"
  by (cases r) simp

lemma wp_payment_status [wp]:
  assumes "st = PayUnknown \<Longrightarrow> wpl a Q R l" and "st = PayNotFound \<Longrightarrow> wpl b Q R l"
    and "st = PayInFlight \<Longrightarrow> wpl c Q R l" and "\<And>p. st = PaySucceeded p \<Longrightarrow> wpl (d p) Q R l"
    and "\<And>m. st = PayFailed m \<Longrightarrow> wpl (e m) Q R l"
  shows "wpl (case st of PayUnknown \<Rightarrow> a | PayNotFound \<Rightarrow> b | PayInFlight \<Rightarrow> c | PaySucceeded p \<Rightarrow> d p
    | PayFailed m \<Rightarrow> e m) Q R l"
  using assms by (cases st) simp_all

lemma wp_selection [wp]:
  assumes "st = NoFunding \<Longrightarrow> wpl a Q R l" and "\<And>u. st = Exact u \<Longrightarrow> wpl (b u) Q R l"
    and "\<And>u v. st = Overpaid u v \<Longrightarrow> wpl (c u v) Q R l" and "\<And>v. st = Underpaid v \<Longrightarrow> wpl (d v) Q R l"
    and "\<And>v. st = ExcessiveOverpay v \<Longrightarrow> wpl (e v) Q R l" and "\<And>us. st = Multiple us \<Longrightarrow> wpl (f us) Q R l"
  shows "wpl (case st of NoFunding \<Rightarrow> a | Exact u \<Rightarrow> b u | Overpaid u v \<Rightarrow> c u v | Underpaid v \<Rightarrow> d v
    | ExcessiveOverpay v \<Rightarrow> e v | Multiple us \<Rightarrow> f us) Q R l"
  using assms by (cases st) simp_all

lemma wp_lightning_error [wp]:
  assumes "\<And>m. e = NotImplemented m \<Longrightarrow> wpl (a m) Q R l" and "\<And>m. e = LnBackend m \<Longrightarrow> wpl (b m) Q R l"
    and "e = InvoiceNotFound \<Longrightarrow> wpl c Q R l" and "\<And>m. e = PaymentFailed m \<Longrightarrow> wpl (d m) Q R l"
  shows "wpl (case e of NotImplemented m \<Rightarrow> a m | LnBackend m \<Rightarrow> b m | InvoiceNotFound \<Rightarrow> c | PaymentFailed m \<Rightarrow> d m) Q R l"
  using assms by (cases e) simp_all

subsection \<open>What a conversation can contain\<close>

text \<open>\<open>emits E m\<close>: every event \<open>m\<close> adds to a log, finished or not, satisfies \<open>E\<close>.\<close>

named_theorems em "rules that compute what a conversation can contain"

definition emits :: "(event \<Rightarrow> bool) \<Rightarrow> ('e, 'a) act \<Rightarrow> bool" where
  "emits E m \<longleftrightarrow> (\<forall>w. \<exists>q. w_log (snd (m w)) = w_log w @ q \<and> list_all E q)"

lemma emitsD: "emits E m \<Longrightarrow> m w = (a, w') \<Longrightarrow> \<exists>q. w_log w' = w_log w @ q \<and> list_all E q"
  by (metis emits_def snd_conv)

lemma emits_wpl:
  "emits E m \<Longrightarrow> wpl m (\<lambda>_ l'. \<exists>q. l' = l @ q \<and> list_all E q) (\<lambda>l'. \<exists>q. l' = l @ q \<and> list_all E q) l"
  by (auto simp: wpl_def split: option.splits prod.splits dest: emitsD)

lemma wpl_emits:
  assumes "\<And>l. wpl m (\<lambda>_ l'. \<exists>q. l' = l @ q \<and> list_all E q) (\<lambda>l'. \<exists>q. l' = l @ q \<and> list_all E q) l"
  shows "emits E m"
  unfolding emits_def
proof
  fix w
  show "\<exists>q. w_log (snd (m w)) = w_log w @ q \<and> list_all E q"
    using assms [of "w_log w"] by (cases "m w") (auto simp: wpl_def split: option.splits)
qed

lemma emits_mono: "emits E m \<Longrightarrow> (\<And>e. E e \<Longrightarrow> F e) \<Longrightarrow> emits F m"
  by (force simp: emits_def list_all_iff)

lemma em_ret [em]: "emits E (ret a)"
  by (simp add: emits_def ret_def)

lemma em_fuel [em]: "emits E out_of_fuel"
  by (simp add: emits_def out_of_fuel_def)

lemma em_call [em]: "(\<And>r. E (ev r)) \<Longrightarrow> emits E (call ev operation)"
  by (auto simp: emits_def call_def split: prod.split)

lemma em_quiet [em]: "emits E (quiet operation)"
  by (auto simp: emits_def quiet_def split: prod.split)

lemma em_bnd [em]:
  assumes "emits E m" and "\<And>a. emits E (f a)"
  shows "emits E (bnd m f)"
  unfolding emits_def
proof
  fix w
  obtain a w' where m: "m w = (a, w')" by (cases "m w")
  with assms(1) obtain q where q: "w_log w' = w_log w @ q" "list_all E q" by (blast dest: emitsD)
  show "\<exists>q. w_log (snd (bnd m f w)) = w_log w @ q \<and> list_all E q"
  proof (cases a)
    case None
    with m q show ?thesis by (simp add: bnd_def)
  next
    case (Some v)
    obtain b w'' where f: "f v w' = (b, w'')" by (cases "f v w'")
    with assms(2) obtain q' where "w_log w'' = w_log w' @ q'" "list_all E q'" by (blast dest: emitsD)
    with m q f Some show ?thesis by (intro exI [of _ "q @ q'"]) (simp add: bnd_def)
  qed
qed

lemma em_tryb [em]: "emits E m \<Longrightarrow> (\<And>v. emits E (f v)) \<Longrightarrow> emits E (tryb m f)"
  unfolding tryb_def by (intro em_bnd) (simp_all add: em_ret split: sum.split)

lemma em_trym [em]: "emits E m \<Longrightarrow> (\<And>v. emits E (f v)) \<Longrightarrow> emits E (trym h m f)"
  unfolding trym_def by (intro em_bnd) (simp_all add: em_ret split: sum.split)

lemma em_if [em]: "(b \<Longrightarrow> emits E m) \<Longrightarrow> (\<not> b \<Longrightarrow> emits E n) \<Longrightarrow> emits E (if b then m else n)"
  by simp

lemma em_sum [em]:
  "(\<And>e. emits E (f e)) \<Longrightarrow> (\<And>v. emits E (g v)) \<Longrightarrow> emits E (case r of Inl e \<Rightarrow> f e | Inr v \<Rightarrow> g v)"
  by (cases r) simp_all

lemma em_option [em]:
  "(r = None \<Longrightarrow> emits E f) \<Longrightarrow> (\<And>v. r = Some v \<Longrightarrow> emits E (g v))
   \<Longrightarrow> emits E (case r of None \<Rightarrow> f | Some v \<Rightarrow> g v)"
  by (cases r) simp_all

lemma em_prod [em]: "(\<And>a b. emits E (f a b)) \<Longrightarrow> emits E (case r of (a, b) \<Rightarrow> f a b)"
  by (cases r) simp

lemma em_Let [em]: "(\<And>v. emits E (f v)) \<Longrightarrow> emits E (let v = e in f v)"
  by simp

lemma em_selection [em]:
  assumes "emits E a" and "\<And>u. emits E (b u)" and "\<And>u v. emits E (d u v)" and "\<And>v. emits E (g v)"
    and "\<And>v. emits E (h v)" and "\<And>us. emits E (k us)"
  shows "emits E (case st of NoFunding \<Rightarrow> a | Exact u \<Rightarrow> b u | Overpaid u v \<Rightarrow> d u v | Underpaid v \<Rightarrow> g v
    | ExcessiveOverpay v \<Rightarrow> h v | Multiple us \<Rightarrow> k us)"
  using assms by (cases st) simp_all

subsection \<open>Conversations that do not look back\<close>

text \<open>\<open>oblivious m\<close>: what \<open>m\<close> does and adds does not depend on the log it starts from.\<close>

named_theorems ob "rules that show a conversation does not read its log"

definition oblivious :: "('e, 'a) act \<Rightarrow> bool" where
  "oblivious m \<longleftrightarrow> (\<forall>e l. m \<lparr>w_env = e, w_log = l\<rparr> =
     (case m \<lparr>w_env = e, w_log = []\<rparr> of (r, w) \<Rightarrow> (r, \<lparr>w_env = w_env w, w_log = l @ w_log w\<rparr>)))"

lemma obliviousD:
  assumes "oblivious m" and "m \<lparr>w_env = e, w_log = []\<rparr> = (r, w)"
  shows "m \<lparr>w_env = e, w_log = l\<rparr> = (r, \<lparr>w_env = w_env w, w_log = l @ w_log w\<rparr>)"
  using assms unfolding oblivious_def by (metis (mono_tags, lifting) case_prod_conv)

lemma world_eq: "w = \<lparr>w_env = w_env w, w_log = w_log w\<rparr>" for w :: "'e world"
  by (cases w) simp

lemma ob_ret [ob]: "oblivious (ret a)"
  by (simp add: oblivious_def ret_def)

lemma ob_fuel [ob]: "oblivious out_of_fuel"
  by (simp add: oblivious_def out_of_fuel_def)

lemma ob_call [ob]: "oblivious (call ev operation)"
  by (simp add: oblivious_def call_def split: prod.split)

lemma ob_quiet [ob]: "oblivious (quiet operation)"
  by (simp add: oblivious_def quiet_def split: prod.split)

lemma ob_bnd [ob]:
  assumes "oblivious m" and "\<And>a. oblivious (f a)"
  shows "oblivious (bnd m f)"
  unfolding oblivious_def
proof (intro allI)
  fix e l
  obtain r w where m: "m \<lparr>w_env = e, w_log = []\<rparr> = (r, w)" by (cases "m \<lparr>w_env = e, w_log = []\<rparr>")
  show "bnd m f \<lparr>w_env = e, w_log = l\<rparr> =
     (case bnd m f \<lparr>w_env = e, w_log = []\<rparr> of (r, w) \<Rightarrow> (r, \<lparr>w_env = w_env w, w_log = l @ w_log w\<rparr>))"
  proof (cases r)
    case None
    with m obliviousD [OF assms(1) m] show ?thesis by (simp add: bnd_def)
  next
    case (Some a)
    obtain b w' where f: "f a \<lparr>w_env = w_env w, w_log = []\<rparr> = (b, w')"
      by (cases "f a \<lparr>w_env = w_env w, w_log = []\<rparr>")
    have "f a w = (b, \<lparr>w_env = w_env w', w_log = w_log w @ w_log w'\<rparr>)"
      using obliviousD [OF assms(2) f, of "w_log w"] by (simp flip: world_eq)
    with m obliviousD [OF assms(1) m] obliviousD [OF assms(2) f] Some show ?thesis
      by (simp add: bnd_def)
  qed
qed

lemma ob_sum [ob]:
  "(\<And>e. oblivious (f e)) \<Longrightarrow> (\<And>v. oblivious (g v)) \<Longrightarrow> oblivious (case r of Inl e \<Rightarrow> f e | Inr v \<Rightarrow> g v)"
  by (cases r) simp_all

lemma ob_option [ob]:
  "(r = None \<Longrightarrow> oblivious f) \<Longrightarrow> (\<And>v. r = Some v \<Longrightarrow> oblivious (g v))
   \<Longrightarrow> oblivious (case r of None \<Rightarrow> f | Some v \<Rightarrow> g v)"
  by (cases r) simp_all

lemma ob_if [ob]: "oblivious m \<Longrightarrow> oblivious n \<Longrightarrow> oblivious (if b then m else n)"
  by simp

lemma ob_Let [ob]: "(\<And>v. oblivious (f v)) \<Longrightarrow> oblivious (let v = e in f v)"
  by simp

lemma ob_tryb [ob]: "oblivious m \<Longrightarrow> (\<And>v. oblivious (f v)) \<Longrightarrow> oblivious (tryb m f)"
  unfolding tryb_def by (intro ob)

lemma ob_trym [ob]: "oblivious m \<Longrightarrow> (\<And>v. oblivious (f v)) \<Longrightarrow> oblivious (trym h m f)"
  unfolding trym_def by (intro ob)

text \<open>Such a conversation keeps its guarantee after any log.\<close>

lemma wp_oblivious:
  assumes "oblivious m" and "wpl m Q R []"
  shows "wpl m (\<lambda>r l'. \<exists>q. l' = l @ q \<and> Q r q) (\<lambda>l'. \<exists>q. l' = l @ q \<and> R q) l"
  unfolding wpl_def
proof (intro allI impI)
  fix w :: "'a world" assume "w_log w = l"
  then have w: "w = \<lparr>w_env = w_env w, w_log = l\<rparr>" by simp
  obtain r w' where m: "m \<lparr>w_env = w_env w, w_log = []\<rparr> = (r, w')"
    by (cases "m \<lparr>w_env = w_env w, w_log = []\<rparr>")
  have run: "m w = (r, \<lparr>w_env = w_env w', w_log = l @ w_log w'\<rparr>)"
    by (subst w) (rule obliviousD [OF assms(1) m])
  show "case m w of (None, w') \<Rightarrow> \<exists>q. w_log w' = l @ q \<and> R q
      | (Some a, w') \<Rightarrow> \<exists>q. w_log w' = l @ q \<and> Q a q"
    using assms(2) m unfolding run by (auto simp: wpl_def split: option.splits dest!: spec [of _ "\<lparr>w_env = w_env w, w_log = []\<rparr>"])
qed

end
