(* ===== verification/Fee_Bump.thy ===== *)
theory Fee_Bump
  imports Effects
begin

text \<open>
  Driving a claim or refund to confirmation: \<open>confirm_or_bump\<close> of
  \<open>swap-common/src/fee_bump.rs\<close>. Two interfaces are assumed of the callers' closures: that
  announcing a spend is logged, and that the builder only builds spends of the HTLC outpoint.
  The loop is bounded by the configuration's own iteration ceiling, so fuel of that size is
  enough.
\<close>

definition DEFAULT_MAX_WALL_DURATION :: nat where "DEFAULT_MAX_WALL_DURATION = 6 * 60 * 60 * 1000"
definition DEFAULT_MAX_ITERATIONS :: u32 where "DEFAULT_MAX_ITERATIONS = 100000"

record spend_watch_config =
  sw_fee_target_blocks :: u16
  sw_floor_rate_sat_vb :: u64
  sw_cap_rate_sat_vb :: u64
  sw_poll :: nat
  sw_min_confirmations :: u32
  sw_deadline_height :: "u32 option"
  sw_max_wall_duration :: nat
  sw_max_iterations :: u32
  sw_known_ours :: "txid list"

definition claim_config :: "u16 \<Rightarrow> u64 \<Rightarrow> u64 \<Rightarrow> nat \<Rightarrow> u32 \<Rightarrow> u32 \<Rightarrow> spend_watch_config" where
  "claim_config fee_target_blocks floor_rate cap_rate poll min_confirmations deadline_height =
     \<lparr>sw_fee_target_blocks = fee_target_blocks, sw_floor_rate_sat_vb = floor_rate,
      sw_cap_rate_sat_vb = cap_rate, sw_poll = poll, sw_min_confirmations = min_confirmations,
      sw_deadline_height = Some deadline_height,
      sw_max_wall_duration = DEFAULT_MAX_WALL_DURATION, sw_max_iterations = DEFAULT_MAX_ITERATIONS,
      sw_known_ours = []\<rparr>"

definition with_known_ours :: "spend_watch_config \<Rightarrow> txid list \<Rightarrow> spend_watch_config" where
  "with_known_ours cfg txids = cfg\<lparr>sw_known_ours := txids\<rparr>"

definition refund_config :: "u16 \<Rightarrow> u64 \<Rightarrow> u64 \<Rightarrow> nat \<Rightarrow> u32 \<Rightarrow> spend_watch_config" where
  "refund_config fee_target_blocks floor_rate cap_rate poll min_confirmations =
     \<lparr>sw_fee_target_blocks = fee_target_blocks, sw_floor_rate_sat_vb = floor_rate,
      sw_cap_rate_sat_vb = cap_rate, sw_poll = poll, sw_min_confirmations = min_confirmations,
      sw_deadline_height = None,
      sw_max_wall_duration = DEFAULT_MAX_WALL_DURATION, sw_max_iterations = DEFAULT_MAX_ITERATIONS,
      sw_known_ours = []\<rparr>"

datatype spend_outcome =
    Confirmed txid
  | ConflictingSpend transaction
  | DeadlineExceeded txid u32

text \<open>\<open>chain.estimate_fee_rate(target).unwrap_or(None)\<close>\<close>

definition estimate :: "'e chain_watcher \<Rightarrow> u16 \<Rightarrow> ('e, u64 option) act" where
  "estimate ch target =
     bnd (estimate_fee_rate ch target) (\<lambda>r. ret (case r of Inl _ \<Rightarrow> None | Inr v \<Rightarrow> v))"

text \<open>\<open>deadline_fee_rate\<close> with the estimator as the call it is: asked once, at the target for
  the blocks that remain, unless the ceiling is already the answer.\<close>

definition next_rate ::
  "'e chain_watcher \<Rightarrow> spend_watch_config \<Rightarrow> u32 \<Rightarrow> u64 \<Rightarrow> ('e, u64) act" where
  "next_rate ch cfg tip rate =
     (let remaining = (case sw_deadline_height cfg of Some d \<Rightarrow> saturating_sub d tip | None \<Rightarrow> - 1);
          rate_with = (\<lambda>e. deadline_fee_rate tip (sw_deadline_height cfg) rate (\<lambda>_. e)
                         (sw_floor_rate_sat_vb cfg) (sw_cap_rate_sat_vb cfg))
      in if remaining \<le> 2 then ret (rate_with None)
         else bnd (estimate ch (target_for_remaining remaining)) (\<lambda>e. ret (rate_with e)))"

text \<open>What the loop carries: our txids, the live one, the rate.\<close>

record bump_state =
  bs_ours :: "txid list"
  bs_txid :: txid
  bs_rate :: u64

text \<open>The spend is nowhere to be seen: put it back on the wire.\<close>

definition rebroadcast ::
  "ext \<Rightarrow> 'e chain_watcher \<Rightarrow> (txid \<Rightarrow> ('e, unit) act) \<Rightarrow> (u64 \<Rightarrow> swap_error + transaction)
   \<Rightarrow> bump_state \<Rightarrow> ('e, bump_state) act" where
  "rebroadcast x ch on_spend build s =
     (case build (bs_rate s) of
        Inl _ \<Rightarrow> ret s
      | Inr t \<Rightarrow> bnd (on_spend (x_txid x t)) (\<lambda>_. bnd (broadcast ch t) (\<lambda>r. case r of
            Inl _ \<Rightarrow> ret s
          | Inr i \<Rightarrow> ret (s\<lparr>bs_ours := i # bs_ours s, bs_txid := i\<rparr>))))"

text \<open>The spend sits in the mempool: replace it at a higher rate, or pull it in with a child.\<close>

definition escalate ::
  "ext \<Rightarrow> 'e chain_watcher \<Rightarrow> spend_watch_config \<Rightarrow> (txid \<Rightarrow> u64 \<Rightarrow> ('e, txid option) act) option
   \<Rightarrow> (txid \<Rightarrow> ('e, unit) act) \<Rightarrow> (u64 \<Rightarrow> swap_error + transaction) \<Rightarrow> u32 \<Rightarrow> bump_state
   \<Rightarrow> ('e, bump_state) act" where
  "escalate x ch cfg cpfp on_spend build tip s =
     bnd (next_rate ch cfg tip (bs_rate s)) (\<lambda>rate'.
       if rate' > bs_rate s
       then case build rate' of
              Inl _ \<Rightarrow> ret s
            | Inr t \<Rightarrow> bnd (on_spend (x_txid x t)) (\<lambda>_. bnd (broadcast ch t) (\<lambda>r. case r of
                  Inr i \<Rightarrow> ret \<lparr>bs_ours = i # bs_ours s, bs_txid = i, bs_rate = rate'\<rparr>
                | Inl _ \<Rightarrow> (case cpfp of
                      None \<Rightarrow> ret s
                    | Some f \<Rightarrow> bnd (f (bs_txid s) rate') (\<lambda>child. case child of
                          Some _ \<Rightarrow> ret (s\<lparr>bs_rate := rate'\<rparr>)
                        | None \<Rightarrow> ret s))))
       else ret s)"

definition past_deadline :: "spend_watch_config \<Rightarrow> u32 \<Rightarrow> bool" where
  "past_deadline cfg tip = (case sw_deadline_height cfg of None \<Rightarrow> False | Some d \<Rightarrow> tip \<ge> d)"

text \<open>The loop, one iteration per unit of fuel.\<close>

fun bump_loop ::
  "nat \<Rightarrow> ext \<Rightarrow> 'e chain_watcher \<Rightarrow> 'e clock \<Rightarrow> script \<Rightarrow> outpoint \<Rightarrow> spend_watch_config
   \<Rightarrow> (txid \<Rightarrow> u64 \<Rightarrow> ('e, txid option) act) option \<Rightarrow> (txid \<Rightarrow> ('e, unit) act)
   \<Rightarrow> (u64 \<Rightarrow> swap_error + transaction) \<Rightarrow> nat \<Rightarrow> u32 \<Rightarrow> bump_state
   \<Rightarrow> ('e, swap_error + spend_outcome) act" where
  "bump_loop 0 x ch ck spk op cfg cpfp on_spend build started iterations s = out_of_fuel"
| "bump_loop (Suc n) x ch ck spk op cfg cpfp on_spend build started iterations s =
     (let iterations = iterations + 1 in
      tryb (tip_height ch) (\<lambda>tip.
      tryb (find_spend ch spk op) (\<lambda>spend.
        let rival = (case spend of None \<Rightarrow> None
              | Some t \<Rightarrow> if x_txid x t \<in> set (bs_ours s) then None else Some t);
            s = (case spend of None \<Rightarrow> s | Some t \<Rightarrow> s\<lparr>bs_txid := x_txid x t\<rparr>)
        in case rival of
          Some t \<Rightarrow> ret (Inr (ConflictingSpend t))
        | None \<Rightarrow>
      tryb (tx_confirmations ch spk (bs_txid s)) (\<lambda>confs.
        if (case confs of Some c \<Rightarrow> c \<ge> sw_min_confirmations cfg | None \<Rightarrow> False)
        then ret (Inr (Confirmed (bs_txid s)))
        else bnd (case confs of
                    None \<Rightarrow> rebroadcast x ch on_spend build s
                  | Some c \<Rightarrow> if c = 0 then escalate x ch cfg cpfp on_spend build tip s else ret s)
          (\<lambda>s.
            if past_deadline cfg tip then ret (Inr (DeadlineExceeded (bs_txid s) tip))
            else bnd (now ck) (\<lambda>t.
              if t - started \<ge> sw_max_wall_duration cfg \<or> iterations \<ge> sw_max_iterations cfg
              then ret (Inr (DeadlineExceeded (bs_txid s) tip))
              else bnd (sleep_for ck (sw_poll cfg)) (\<lambda>_.
                bump_loop n x ch ck spk op cfg cpfp on_spend build started iterations s)))))))"

text \<open>The live spend of an earlier run, if the chain shows one.\<close>

definition adopt_live ::
  "ext \<Rightarrow> 'e chain_watcher \<Rightarrow> script \<Rightarrow> outpoint \<Rightarrow> txid list \<Rightarrow> ('e, swap_error + txid option) act" where
  "adopt_live x ch spk op ours =
     (if ours = [] then ret (Inr None)
      else tryb (find_spend ch spk op) (\<lambda>spend. ret (Inr
        (case spend of None \<Rightarrow> None
         | Some t \<Rightarrow> if x_txid x t \<in> set ours then Some (x_txid x t) else None))))"

definition confirm_or_bump ::
  "nat \<Rightarrow> ext \<Rightarrow> 'e chain_watcher \<Rightarrow> 'e clock \<Rightarrow> script \<Rightarrow> outpoint \<Rightarrow> spend_watch_config
   \<Rightarrow> (txid \<Rightarrow> u64 \<Rightarrow> ('e, txid option) act) option \<Rightarrow> (txid \<Rightarrow> ('e, unit) act)
   \<Rightarrow> (u64 \<Rightarrow> swap_error + transaction) \<Rightarrow> ('e, swap_error + spend_outcome) act" where
  "confirm_or_bump fuel x ch ck spk op cfg cpfp on_spend build =
     bnd (estimate ch (sw_fee_target_blocks cfg)) (\<lambda>e.
       let rate = resolve_fee_rate e (sw_floor_rate_sat_vb cfg) (sw_cap_rate_sat_vb cfg);
           ours = sw_known_ours cfg
       in tryb (adopt_live x ch spk op ours) (\<lambda>live.
          tryb (case live of
                  Some i \<Rightarrow> ret (Inr i)
                | None \<Rightarrow> (case build rate of
                      Inl err \<Rightarrow> ret (Inl err)
                    | Inr t \<Rightarrow> bnd (on_spend (x_txid x t)) (\<lambda>_. broadcast ch t)))
            (\<lambda>txid. bnd (now ck) (\<lambda>started.
               bump_loop fuel x ch ck spk op cfg cpfp on_spend build started 0
                 \<lparr>bs_ours = txid # ours, bs_txid = txid, bs_rate = rate\<rparr>))))"

subsection \<open>The callers' closures\<close>

text \<open>The ids a log shows the chain accepting.\<close>

fun accepted_id :: "event \<Rightarrow> txid list" where
  "accepted_id (ChBroadcast t (Inr i)) = [i]"
| "accepted_id _ = []"

definition sent :: "event list \<Rightarrow> txid set" where
  "sent l = set (concat (map accepted_id l))"

lemma sent_Nil [simp]: "sent [] = {}"
  by (simp add: sent_def)

lemma sent_Cons [simp]: "sent (e # l) = set (accepted_id e) \<union> sent l"
  by (simp add: sent_def)

lemma sent_append [simp]: "sent (l @ q) = sent l \<union> sent q"
  by (simp add: sent_def)

text \<open>What \<open>confirm_or_bump\<close> needs of the closures it is given.\<close>

locale spend_hook =
  fixes on_spend :: "txid \<Rightarrow> ('e, unit) act"
  assumes on_spend_logs: "wpl (on_spend t) (\<lambda>_ l'. l' = l @ [PSpendBroadcast t]) (\<lambda>_. False) l"
    and on_spend_oblivious: "oblivious (on_spend t)"

locale htlc_spender = spend_hook on_spend
  for on_spend :: "txid \<Rightarrow> ('e, unit) act" +
  fixes build :: "u64 \<Rightarrow> swap_error + transaction"
    and op :: outpoint
    and cpfp :: "(txid \<Rightarrow> u64 \<Rightarrow> ('e, txid option) act) option"
  assumes build_spends: "build r = Inr t \<Longrightarrow> \<exists>i. tx_input t = [i] \<and> in_previous_output i = op"
    and cpfp_logs: "cpfp = Some f \<Longrightarrow>
      wpl (f p r) (\<lambda>_ l'. \<exists>a. l' = l @ [WCpfp p r a]) (\<lambda>_. False) l"
    and cpfp_oblivious: "cpfp = Some f \<Longrightarrow> oblivious (f p r)"

text \<open>A broadcast is allowed only right after its txid was announced, at a rate the
  configuration permits.\<close>

definition announced_spend ::
  "ext \<Rightarrow> (u64 \<Rightarrow> swap_error + transaction) \<Rightarrow> spend_watch_config \<Rightarrow> event list \<Rightarrow> event \<Rightarrow> bool" where
  "announced_spend x build cfg prior e = (case e of
     ChBroadcast t _ \<Rightarrow> prior \<noteq> [] \<and> last prior = PSpendBroadcast (x_txid x t)
       \<and> (\<exists>rate. sw_floor_rate_sat_vb cfg \<le> rate
            \<and> rate \<le> max (sw_cap_rate_sat_vb cfg) (sw_floor_rate_sat_vb cfg) \<and> build rate = Inr t)
   | _ \<Rightarrow> True)"

lemma announced_spend_other [simp]:
  "announced_spend x build cfg p (ChTip a)" "announced_spend x build cfg p (ChFindSpend o' b)"
  "announced_spend x build cfg p (ChConfirmations i c)" "announced_spend x build cfg p (ChEstimate g d)"
  "announced_spend x build cfg p (WCpfp i r j)" "announced_spend x build cfg p (PSpendBroadcast i)"
  "announced_spend x build cfg p (Slept n)"
  by (simp_all add: announced_spend_def)

definition rate_ok :: "spend_watch_config \<Rightarrow> u64 \<Rightarrow> bool" where
  "rate_ok cfg rate \<longleftrightarrow> sw_floor_rate_sat_vb cfg \<le> rate
     \<and> rate \<le> max (sw_cap_rate_sat_vb cfg) (sw_floor_rate_sat_vb cfg)"

text \<open>What the loop keeps true: \<open>k\<close> is the set adopted from earlier runs, \<open>s0\<close> what the chain had
  accepted before this one.\<close>

definition bump_inv ::
  "ext \<Rightarrow> (u64 \<Rightarrow> swap_error + transaction) \<Rightarrow> spend_watch_config \<Rightarrow> txid set \<Rightarrow> bump_state
   \<Rightarrow> event list \<Rightarrow> bool" where
  "bump_inv x build cfg s0 s l \<longleftrightarrow>
     always (announced_spend x build cfg) l \<and> rate_ok cfg (bs_rate s)
     \<and> bs_txid s \<in> set (bs_ours s)
     \<and> set (sw_known_ours cfg) \<subseteq> set (bs_ours s)
     \<and> set (bs_ours s) \<subseteq> set (sw_known_ours cfg) \<union> sent l
     \<and> sent l \<subseteq> s0 \<union> set (bs_ours s)"

text \<open>What each outcome means.\<close>

definition outcome_ok ::
  "ext \<Rightarrow> spend_watch_config \<Rightarrow> outpoint \<Rightarrow> txid set \<Rightarrow> swap_error + spend_outcome \<Rightarrow> event list \<Rightarrow> bool" where
  "outcome_ok x cfg op s0 r l = (case r of
     Inl _ \<Rightarrow> True
   | Inr (Confirmed i) \<Rightarrow> i \<in> set (sw_known_ours cfg) \<union> sent l \<and>
       (\<exists>p c. l = p @ [ChConfirmations i (Inr (Some c))] \<and> sw_min_confirmations cfg \<le> c)
   | Inr (ConflictingSpend t) \<Rightarrow> x_txid x t \<notin> set (sw_known_ours cfg) \<and> x_txid x t \<notin> sent l - s0 \<and>
       (\<exists>p. l = p @ [ChFindSpend op (Inr (Some t))])
   | Inr (DeadlineExceeded i tip) \<Rightarrow> i \<in> set (sw_known_ours cfg) \<union> sent l)"

context htlc_spender begin

lemma estimate_wp: "(\<And>r a. Q r (l @ [ChEstimate t a])) \<Longrightarrow> wpl (estimate ch t) Q R l"
  unfolding estimate_def call_defs by (intro wp) blast

lemma next_rate_wp:
  assumes "rate_ok cfg rate" and "always (announced_spend x build cfg) l"
  shows "wpl (next_rate ch cfg tip rate) (\<lambda>r l'. rate_ok cfg r \<and> rate \<le> r
    \<and> (l' = l \<or> (\<exists>t a. l' = l @ [ChEstimate t a]))) (\<lambda>_. False) l"
proof -
  let ?d = "\<lambda>e. deadline_fee_rate tip (sw_deadline_height cfg) rate e (sw_floor_rate_sat_vb cfg) (sw_cap_rate_sat_vb cfg)"
  have b: "rate \<le> ?d e \<and> ?d e \<le> max (sw_cap_rate_sat_vb cfg) (sw_floor_rate_sat_vb cfg)" for e
    using assms(1) deadline_fee_rate_step [of rate "sw_cap_rate_sat_vb cfg" "sw_floor_rate_sat_vb cfg" tip]
    by (simp add: rate_ok_def)
  then have "rate_ok cfg (?d e)" for e
    using assms(1) b [of e] by (auto simp: rate_ok_def intro: order_trans)
  with b show ?thesis unfolding next_rate_def Let_def
    by (auto intro!: wp wp_bnd [OF estimate_wp [where Q = "\<lambda>_ l'. \<exists>a. l' = l @ [ChEstimate _ a]"]])
qed

lemma announce_wp:
  "(\<And>u. wpl (f u) Q R (l @ [PSpendBroadcast t])) \<Longrightarrow> wpl (bnd (on_spend t) f) Q R l"
  by (rule wp_bnd [OF wp_conseq [OF on_spend_logs]]) auto

lemma cpfp_wp:
  "cpfp = Some f \<Longrightarrow> (\<And>r a. wpl (g r) Q R (l @ [WCpfp p v a])) \<Longrightarrow> wpl (bnd (f p v) g) Q R l"
  by (rule wp_bnd [OF wp_conseq [OF cpfp_logs]]) auto

lemma broadcast_step:
  assumes "bump_inv x build cfg s0 s l" and "build rate = Inr t" and "rate_ok cfg rate"
  shows "bump_inv x build cfg s0 s (l @ [PSpendBroadcast (x_txid x t), ChBroadcast t (Inl e)])"
    and "rate_ok cfg rate' \<Longrightarrow>
      bump_inv x build cfg s0 \<lparr>bs_ours = i # bs_ours s, bs_txid = i, bs_rate = rate'\<rparr>
        (l @ [PSpendBroadcast (x_txid x t), ChBroadcast t (Inr i)])"
  using assms by (auto simp: bump_inv_def announced_spend_def rate_ok_def)

lemma bump_inv_other:
  assumes "bump_inv x build cfg s0 s l" and "announced_spend x build cfg l e" and "accepted_id e = []"
  shows "bump_inv x build cfg s0 s (l @ [e])"
  using assms by (auto simp: bump_inv_def)

lemma cpfp_step:
  assumes "bump_inv x build cfg s0 s l" and "build rate = Inr t" and "rate_ok cfg rate"
  shows "bump_inv x build cfg s0 s
    (l @ [PSpendBroadcast (x_txid x t), ChBroadcast t (Inl e), WCpfp p v a])"
  using broadcast_step(1) [OF assms, of e] by (auto simp: bump_inv_def)

lemma bump_inv_rate:
  "bump_inv x build cfg s0 s l \<Longrightarrow> rate_ok cfg r \<Longrightarrow> bump_inv x build cfg s0 (s\<lparr>bs_rate := r\<rparr>) l"
  by (simp add: bump_inv_def)

lemma rebroadcast_wp:
  assumes "bump_inv x build cfg s0 s l"
  shows "wpl (rebroadcast x ch on_spend build s) (bump_inv x build cfg s0) (\<lambda>_. False) l"
proof -
  have ok: "rate_ok cfg (bs_rate s)" using assms by (simp add: bump_inv_def)
  have same: "s\<lparr>bs_ours := o', bs_txid := i\<rparr> = \<lparr>bs_ours = o', bs_txid = i, bs_rate = bs_rate s\<rparr>" for o' i
    by (cases s) simp
  show ?thesis unfolding rebroadcast_def call_defs same
    by (intro wp announce_wp) (simp_all add: assms ok broadcast_step)
qed

lemma escalate_wp:
  assumes "bump_inv x build cfg s0 s l"
  shows "wpl (escalate x ch cfg cpfp on_spend build tip s) (bump_inv x build cfg s0) (\<lambda>_. False) l"
  unfolding escalate_def
proof (rule wp_bnd [OF next_rate_wp])
  show "rate_ok cfg (bs_rate s)" "always (announced_spend x build cfg) l"
    using assms by (simp_all add: bump_inv_def)
  fix r' l'
  assume h: "rate_ok cfg r' \<and> bs_rate s \<le> r' \<and> (l' = l \<or> (\<exists>t a. l' = l @ [ChEstimate t a]))"
  then have inv: "bump_inv x build cfg s0 s l'" using assms by (auto intro: bump_inv_other)
  show "wpl (if bs_rate s < r'
      then case build r' of Inl _ \<Rightarrow> ret s
        | Inr t \<Rightarrow> bnd (on_spend (x_txid x t)) (\<lambda>_. bnd (broadcast ch t) (\<lambda>r. case r of
              Inl _ \<Rightarrow> (case cpfp of None \<Rightarrow> ret s
                | Some f \<Rightarrow> bnd (f (bs_txid s) r') (\<lambda>child. case child of
                    None \<Rightarrow> ret s | Some _ \<Rightarrow> ret (s\<lparr>bs_rate := r'\<rparr>)))
            | Inr i \<Rightarrow> ret \<lparr>bs_ours = i # bs_ours s, bs_txid = i, bs_rate = r'\<rparr>))
      else ret s) (bump_inv x build cfg s0) (\<lambda>_. False) l'"
    unfolding call_defs
    by (intro wp announce_wp cpfp_wp) (simp_all add: inv h broadcast_step cpfp_step bump_inv_rate)
qed

lemma bump_inv_snoc:
  assumes "bump_inv x build cfg s0 s l"
  shows "bump_inv x build cfg s0 s (l @ [ChTip a])"
    "bump_inv x build cfg s0 s (l @ [ChTip a, ChFindSpend o' b])"
    "bump_inv x build cfg s0 s (l @ [ChTip a, ChFindSpend o' b, ChConfirmations i c])"
    "bump_inv x build cfg s0 s (l @ [Slept d])"
  using assms by (auto simp: bump_inv_def)

lemma bump_inv_live:
  "bump_inv x build cfg s0 s l \<Longrightarrow> i \<in> set (bs_ours s) \<Longrightarrow> bump_inv x build cfg s0 (s\<lparr>bs_txid := i\<rparr>) l"
  by (simp add: bump_inv_def)

lemma bump_inv_always: "bump_inv x build cfg s0 s l \<Longrightarrow> always (announced_spend x build cfg) l"
  by (simp add: bump_inv_def)

lemma bump_inv_ours:
  "bump_inv x build cfg s0 s l \<Longrightarrow> bs_txid s \<in> set (sw_known_ours cfg) \<union> sent l"
  by (auto simp: bump_inv_def)

lemma bump_inv_rival:
  "bump_inv x build cfg s0 s l \<Longrightarrow> i \<notin> set (bs_ours s) \<Longrightarrow>
     i \<notin> set (sw_known_ours cfg) \<and> i \<notin> sent l - s0"
  by (auto simp: bump_inv_def)

lemma bump_loop_wp:
  assumes "bump_inv x build cfg s0 s l"
  shows "wpl (bump_loop n x ch ck spk op cfg cpfp on_spend build started iterations s)
    (\<lambda>r l'. always (announced_spend x build cfg) l' \<and> outcome_ok x cfg op s0 r l')
    (always (announced_spend x build cfg)) l"
  using assms
proof (induction n arbitrary: iterations s l)
  case 0
  then show ?case by (auto intro: wp simp: bump_inv_always)
next
  case (Suc n)
  have tail: "wpl (if past_deadline cfg tip then ret (Inr (DeadlineExceeded (bs_txid t) tip))
      else bnd (now ck) (\<lambda>u. if sw_max_wall_duration cfg \<le> u - started \<or> sw_max_iterations cfg \<le> i'
        then ret (Inr (DeadlineExceeded (bs_txid t) tip))
        else bnd (sleep_for ck (sw_poll cfg)) (\<lambda>_.
          bump_loop n x ch ck spk op cfg cpfp on_spend build started i' t)))
    (\<lambda>r l'. always (announced_spend x build cfg) l' \<and> outcome_ok x cfg op s0 r l')
    (always (announced_spend x build cfg)) l'" if inv: "bump_inv x build cfg s0 t l'" for t l' tip i'
    unfolding now_def call_defs
    by (intro wp Suc.IH bump_inv_snoc inv)
       (use bump_inv_always [OF inv] bump_inv_ours [OF inv] in \<open>simp_all add: outcome_ok_def\<close>)
  have mid: "wpl (bnd (case confs of None \<Rightarrow> rebroadcast x ch on_spend build t
        | Some c \<Rightarrow> if c = 0 then escalate x ch cfg cpfp on_spend build tip t else ret t)
      (\<lambda>s. if past_deadline cfg tip then ret (Inr (DeadlineExceeded (bs_txid s) tip))
        else bnd (now ck) (\<lambda>u. if sw_max_wall_duration cfg \<le> u - started \<or> sw_max_iterations cfg \<le> i'
          then ret (Inr (DeadlineExceeded (bs_txid s) tip))
          else bnd (sleep_for ck (sw_poll cfg)) (\<lambda>_.
            bump_loop n x ch ck spk op cfg cpfp on_spend build started i' s))))
    (\<lambda>r l'. always (announced_spend x build cfg) l' \<and> outcome_ok x cfg op s0 r l')
    (always (announced_spend x build cfg)) l'" if inv: "bump_inv x build cfg s0 t l'" for t l' tip i' confs
  proof (rule wp_bnd)
    show "wpl (case confs of None \<Rightarrow> rebroadcast x ch on_spend build t
        | Some c \<Rightarrow> if c = 0 then escalate x ch cfg cpfp on_spend build tip t else ret t)
      (bump_inv x build cfg s0) (always (announced_spend x build cfg)) l'"
      by (intro wp wp_conseq [OF rebroadcast_wp] wp_conseq [OF escalate_wp]) (simp_all add: inv)
  qed (rule tail)
  show ?case
  proof -
    note al = bump_inv_always [OF Suc.prems]
    show ?thesis unfolding bump_loop.simps Let_def call_defs
    proof (intro wp, goal_cases)
      case (4 tip spend confs)
      let ?s = "case spend of None \<Rightarrow> s | Some t \<Rightarrow> s\<lparr>bs_txid := x_txid x t\<rparr>"
      have "bump_inv x build cfg s0 ?s l"
        using 4 Suc.prems by (auto intro: bump_inv_live split: option.splits if_splits)
      from bump_inv_ours [OF this] 4 al show ?case
        by (auto simp: outcome_ok_def split: option.splits)
    next
      case (5 tip spend confs)
      let ?s = "case spend of None \<Rightarrow> s | Some t \<Rightarrow> s\<lparr>bs_txid := x_txid x t\<rparr>"
      have "bump_inv x build cfg s0 ?s l"
        using 5 Suc.prems by (auto intro: bump_inv_live split: option.splits if_splits)
      from mid [OF bump_inv_snoc(3) [OF this, of "Inr tip" op "Inr spend" "bs_txid ?s" "Inr confs"],
          of tip confs "iterations + 1", unfolded call_defs]
      show ?case by (simp only: append_assoc append_Cons append_Nil)
    next
      case (6 tip spend t)
      then show ?case
        using al bump_inv_rival [OF Suc.prems]
        by (auto simp: outcome_ok_def split: option.splits if_splits)
    qed (use al in \<open>auto simp: outcome_ok_def\<close>)
  qed
qed

lemma adopt_live_wp:
  assumes "always (announced_spend x build cfg) l"
  shows "wpl (adopt_live x ch spk op ours) (\<lambda>r l'. always (announced_spend x build cfg) l'
    \<and> sent l' = sent l \<and> (\<forall>i. r = Inr (Some i) \<longrightarrow> i \<in> set ours)) (\<lambda>_. False) l"
  unfolding adopt_live_def call_defs
  by (intro wp) (use assms in \<open>auto split: option.splits if_splits\<close>)

lemma first_spend_wp:
  assumes "always (announced_spend x build cfg) l" and "rate_ok cfg rate"
    and "\<forall>i. live = Some i \<longrightarrow> i \<in> set (sw_known_ours cfg)"
  shows "wpl (case live of Some i \<Rightarrow> ret (Inr i)
      | None \<Rightarrow> (case build rate of Inl err \<Rightarrow> ret (Inl err)
          | Inr t \<Rightarrow> bnd (on_spend (x_txid x t)) (\<lambda>_. broadcast ch t)))
    (\<lambda>r l'. always (announced_spend x build cfg) l' \<and> (\<forall>i. r = Inr i \<longrightarrow> bump_inv x build cfg (sent l)
        \<lparr>bs_ours = i # sw_known_ours cfg, bs_txid = i, bs_rate = rate\<rparr> l')) (\<lambda>_. False) l"
proof -
  have G: "announced_spend x build cfg (l @ [PSpendBroadcast (x_txid x t)]) (ChBroadcast t r)"
    if "build rate = Inr t" for t r
    using that assms(2) by (auto simp: announced_spend_def rate_ok_def)
  show ?thesis unfolding call_defs
    by (intro wp announce_wp wp_call) (use assms G in \<open>auto simp: bump_inv_def\<close>)
qed

lemma resolve_rate_ok:
  "rate_ok cfg (resolve_fee_rate e (sw_floor_rate_sat_vb cfg) (sw_cap_rate_sat_vb cfg))"
  by (simp add: rate_ok_def resolve_fee_rate_bounds)

lemma watch_wp:
  assumes "always (announced_spend x build cfg) l" and "rate_ok cfg rate"
    and "\<forall>i. live = Some i \<longrightarrow> i \<in> set (sw_known_ours cfg)"
  shows "wpl (tryb (case live of Some i \<Rightarrow> ret (Inr i)
          | None \<Rightarrow> (case build rate of Inl err \<Rightarrow> ret (Inl err)
              | Inr t \<Rightarrow> bnd (on_spend (x_txid x t)) (\<lambda>_. broadcast ch t)))
        (\<lambda>txid. bnd (now ck) (\<lambda>started.
           bump_loop fuel x ch ck spk op cfg cpfp on_spend build started 0
             \<lparr>bs_ours = txid # sw_known_ours cfg, bs_txid = txid, bs_rate = rate\<rparr>)))
    (\<lambda>r l'. always (announced_spend x build cfg) l' \<and> outcome_ok x cfg op (sent l) r l')
    (always (announced_spend x build cfg)) l"
  unfolding now_def
  by (intro wp_tryb [OF wp_total [OF first_spend_wp [OF assms]]] wp bump_loop_wp)
     (simp_all add: outcome_ok_def)

lemma confirm_or_bump_wp:
  assumes "always (announced_spend x build cfg) l"
  shows "wpl (confirm_or_bump fuel x ch ck spk op cfg cpfp on_spend build)
    (\<lambda>r l'. always (announced_spend x build cfg) l' \<and> outcome_ok x cfg op (sent l) r l')
    (always (announced_spend x build cfg)) l"
proof -
  have live: "wpl (tryb (adopt_live x ch spk op (sw_known_ours cfg)) (\<lambda>live.
        tryb (case live of Some i \<Rightarrow> ret (Inr i)
            | None \<Rightarrow> (case build rate of Inl err \<Rightarrow> ret (Inl err)
                | Inr t \<Rightarrow> bnd (on_spend (x_txid x t)) (\<lambda>_. broadcast ch t)))
          (\<lambda>txid. bnd (now ck) (\<lambda>started.
             bump_loop fuel x ch ck spk op cfg cpfp on_spend build started 0
               \<lparr>bs_ours = txid # sw_known_ours cfg, bs_txid = txid, bs_rate = rate\<rparr>))))
    (\<lambda>r l'. always (announced_spend x build cfg) l' \<and> outcome_ok x cfg op (sent l) r l')
    (always (announced_spend x build cfg)) l'"
    if l': "always (announced_spend x build cfg) l'" "sent l' = sent l" "rate_ok cfg rate" for l' rate
  proof (rule wp_tryb [OF wp_total [OF adopt_live_wp [OF l'(1)]]], goal_cases)
    case (2 live l'')
    with watch_wp [of x cfg l'' rate live ch ck fuel spk] l' show ?case by simp
  qed (simp add: outcome_ok_def)
  show ?thesis unfolding confirm_or_bump_def Let_def
    by (rule wp_bnd [OF estimate_wp [where Q = "\<lambda>_ l'. \<exists>a. l' = l @ [ChEstimate _ a]"]])
       (use assms in \<open>auto intro!: live resolve_rate_ok\<close>)
qed

lemma unat_plus_one_nowrap: "i \<noteq> - 1 \<Longrightarrow> unat (i + 1) = unat i + 1" for i :: u32
  using unat_u32_bound [of i] unat_minus_one_word [where 'a = 32]
  by (intro trans [OF unat_add_nowrap]) (auto simp: word_unat_eq_iff)

text \<open>Fuel of the configured iteration ceiling is always enough.\<close>

lemma rebroadcast_total: "wpl (rebroadcast x ch on_spend build s) (\<lambda>_ _. True) (\<lambda>_. False) l"
  unfolding rebroadcast_def call_defs by (intro wp announce_wp) simp_all

lemma next_rate_total: "wpl (next_rate ch cfg tip rate) (\<lambda>_ _. True) (\<lambda>_. False) l"
  unfolding next_rate_def Let_def
  by (intro wp wp_bnd [OF estimate_wp [where Q = "\<lambda>_ _. True"]]) simp_all

lemma escalate_total: "wpl (escalate x ch cfg cpfp on_spend build tip s) (\<lambda>_ _. True) (\<lambda>_. False) l"
  unfolding escalate_def call_defs
  by (intro wp_bnd [OF next_rate_total] wp announce_wp cpfp_wp) simp_all

lemma bump_loop_total:
  fixes x :: ext and ck :: "'e clock"
  assumes "1 \<le> n" and "unat (sw_max_iterations cfg) \<le> unat iterations + n" and "iterations \<noteq> - 1"
  shows "wpl (bump_loop n x ch ck spk op cfg cpfp on_spend build started iterations s)
    (\<lambda>_ _. True) (\<lambda>_. False) l"
  using assms
proof (induction n arbitrary: l iterations s)
  case (Suc n)
  have next_it: "wpl (bump_loop n x ch ck spk op cfg cpfp on_spend build started (iterations + 1) t)
      (\<lambda>_ _. True) (\<lambda>_. False) l'" if "\<not> sw_max_iterations cfg \<le> iterations + 1" for t l'
  proof (rule Suc.IH)
    have one: "unat (iterations + 1) = unat iterations + 1"
      using Suc.prems(3) by (rule unat_plus_one_nowrap)
    with that Suc.prems show "1 \<le> n" "unat (sw_max_iterations cfg) \<le> unat (iterations + 1) + n"
      by (simp_all add: word_le_nat_alt)
    show "iterations + 1 \<noteq> - 1"
      using that word_n1_ge [of "sw_max_iterations cfg"] by metis
  qed
  show ?case unfolding bump_loop.simps Let_def now_def call_defs
    by (intro wp wp_bnd [where Q' = "\<lambda>_ _. True"] wp_conseq [OF rebroadcast_total]
        wp_conseq [OF escalate_total] next_it) simp_all
qed simp

lemma confirm_or_bump_total:
  assumes "1 \<le> fuel" and "unat (sw_max_iterations cfg) \<le> fuel"
  shows "wpl (confirm_or_bump fuel x ch ck spk op cfg cpfp on_spend build) (\<lambda>_ _. True) (\<lambda>_. False) l"
  unfolding confirm_or_bump_def adopt_live_def Let_def now_def call_defs
  by (intro wp_bnd [OF estimate_wp [where Q = "\<lambda>_ _. True"]] wp_tryb [where Q' = "\<lambda>_ _. True"] wp
      announce_wp wp_call bump_loop_total) (use assms in simp_all)

end

end
