(* ===== verification/Mock_Chain.thy ===== *)
theory Mock_Chain
  imports Fee_Bump
begin

text \<open>
  The scripted chain of \<open>swap-common/src/chain/mock.rs\<close>: a chain whose every answer is set in
  advance, and the wrapper that fails its calls until an outage is over. They are the
  environments in which the concrete runs of this development take place.
\<close>

record mock_chain =
  mc_tip :: u32
  mc_outputs :: "funding_utxo list"
  mc_spent_outputs :: "historical_output list"
  mc_spend :: "transaction option"
  mc_confirmations :: "u32 option list"
  mc_confirmation_idx :: nat
  mc_estimate :: "u64 option"
  mc_block_hashes :: "u32 \<Rightarrow> block_hash option"
  mc_broadcasts :: "transaction list"
  mc_reject_replacements :: bool
  mc_tips :: "u32 list"
  mc_tip_idx :: nat

definition mock_new :: mock_chain where
  "mock_new =
     \<lparr>mc_tip = 0, mc_outputs = [], mc_spent_outputs = [], mc_spend = None, mc_confirmations = [],
      mc_confirmation_idx = 0, mc_estimate = None, mc_block_hashes = (\<lambda>_. None), mc_broadcasts = [],
      mc_reject_replacements = False, mc_tips = [], mc_tip_idx = 0\<rparr>"

definition mock_tip_height :: "mock_chain \<Rightarrow> (swap_error + u32) \<times> mock_chain" where
  "mock_tip_height m =
     (if mc_tips m = [] then (Inr (mc_tip m), m)
      else (Inr (mc_tips m ! min (mc_tip_idx m) (length (mc_tips m) - 1)),
            m\<lparr>mc_tip_idx := mc_tip_idx m + 1\<rparr>))"

definition mock_find_funding ::
  "script \<Rightarrow> u64 \<Rightarrow> mock_chain \<Rightarrow> (swap_error + funding_utxo option) \<times> mock_chain" where
  "mock_find_funding spk expected_value_sat m =
     (Inr (List.find (\<lambda>u. fu_value_sat u = expected_value_sat) (mc_outputs m)), m)"

definition mock_find_outputs ::
  "script \<Rightarrow> mock_chain \<Rightarrow> (swap_error + funding_utxo list) \<times> mock_chain" where
  "mock_find_outputs spk m = (Inr (mc_outputs m), m)"

text \<open>A spent output replaces the unspent entry for the same outpoint, or is added.\<close>

fun overlay_spent :: "historical_output list \<Rightarrow> historical_output \<Rightarrow> historical_output list" where
  "overlay_spent [] spent = [spent]"
| "overlay_spent (h # hs) spent =
     (if ho_outpoint h = ho_outpoint spent then spent # hs else h # overlay_spent hs spent)"

definition mock_find_historical_outputs ::
  "script \<Rightarrow> mock_chain \<Rightarrow> (swap_error + historical_output list) \<times> mock_chain" where
  "mock_find_historical_outputs spk m =
     (Inr (foldl overlay_spent
        (map (\<lambda>u. \<lparr>ho_outpoint = fu_outpoint u, ho_value_sat = fu_value_sat u,
                    ho_confirmations = fu_confirmations u, ho_spent_by = None\<rparr>) (mc_outputs m))
        (mc_spent_outputs m)), m)"

definition mock_outpoint_status ::
  "script \<Rightarrow> outpoint \<Rightarrow> mock_chain \<Rightarrow> (swap_error + funding_utxo option) \<times> mock_chain" where
  "mock_outpoint_status spk op m =
     (Inr (List.find (\<lambda>u. fu_outpoint u = op) (mc_outputs m)), m)"

definition mock_find_spend ::
  "script \<Rightarrow> outpoint \<Rightarrow> mock_chain \<Rightarrow> (swap_error + transaction option) \<times> mock_chain" where
  "mock_find_spend spk op m = (Inr (mc_spend m), m)"

definition mock_broadcast ::
  "ext \<Rightarrow> transaction \<Rightarrow> mock_chain \<Rightarrow> (swap_error + txid) \<times> mock_chain" where
  "mock_broadcast x t m =
     (let b = mc_broadcasts m @ [t];
          m = m\<lparr>mc_broadcasts := b\<rparr>
      in if mc_reject_replacements m \<and> 1 < length b then (Inl (Other ''replacement rejected''), m)
         else (Inr (x_txid x t), m))"

definition mock_estimate_fee_rate :: "u16 \<Rightarrow> mock_chain \<Rightarrow> (swap_error + u64 option) \<times> mock_chain" where
  "mock_estimate_fee_rate target m = (Inr (mc_estimate m), m)"

definition mock_tx_confirmations ::
  "script \<Rightarrow> txid \<Rightarrow> mock_chain \<Rightarrow> (swap_error + u32 option) \<times> mock_chain" where
  "mock_tx_confirmations spk i m =
     (if mc_confirmations m = [] then (Inr None, m)
      else (Inr (if mc_confirmation_idx m < length (mc_confirmations m)
                 then mc_confirmations m ! mc_confirmation_idx m else last (mc_confirmations m)),
            m\<lparr>mc_confirmation_idx := mc_confirmation_idx m + 1\<rparr>))"

text \<open>Consecutive scripted hashes from a height, stopping at the tip or the first gap.\<close>

fun mock_hashes :: "nat \<Rightarrow> u32 \<Rightarrow> mock_chain \<Rightarrow> block_hash list" where
  "mock_hashes 0 h m = []"
| "mock_hashes (Suc n) h m =
     (if h > mc_tip m then []
      else case mc_block_hashes m h of None \<Rightarrow> []
        | Some b \<Rightarrow> b # (if h = - 1 then [] else mock_hashes n (h + 1) m))"

definition mock_block_hashes_from ::
  "u32 \<Rightarrow> u16 \<Rightarrow> mock_chain \<Rightarrow> (swap_error + block_hash list) \<times> mock_chain" where
  "mock_block_hashes_from start count m =
     (Inr (mock_hashes (unat (saturating_add start (ucast count)) - unat start) start m), m)"

definition mock_watcher :: "ext \<Rightarrow> mock_chain chain_watcher" where
  "mock_watcher x =
     \<lparr>ch_tip_height = mock_tip_height, ch_find_funding = mock_find_funding,
      ch_find_outputs = mock_find_outputs, ch_find_historical_outputs = mock_find_historical_outputs,
      ch_outpoint_status = mock_outpoint_status, ch_find_spend = mock_find_spend,
      ch_broadcast = mock_broadcast x, ch_estimate_fee_rate = mock_estimate_fee_rate,
      ch_tx_confirmations = mock_tx_confirmations,
      ch_block_hashes_from = mock_block_hashes_from\<rparr>"

subsection \<open>The outage wrapper\<close>

text \<open>The state is the inner chain's, the failures left to serve and the calls failed.\<close>

record 'e flaky =
  fl_inner :: 'e
  fl_remaining :: u32
  fl_failed_calls :: u32

definition flaky_gate ::
  "('e \<Rightarrow> (swap_error + 'r) \<times> 'e) \<Rightarrow> 'e flaky \<Rightarrow> (swap_error + 'r) \<times> 'e flaky" where
  "flaky_gate f s =
     (if fl_remaining s = 0
      then (let (r, e) = f (fl_inner s) in (r, s\<lparr>fl_inner := e\<rparr>))
      else (Inl (transient ''electrum'' ''connection refused''),
            s\<lparr>fl_remaining := saturating_sub (fl_remaining s) 1,
              fl_failed_calls := fl_failed_calls s + 1\<rparr>))"

definition flaky_watcher :: "'e chain_watcher \<Rightarrow> 'e flaky chain_watcher" where
  "flaky_watcher c =
     \<lparr>ch_tip_height = flaky_gate (ch_tip_height c),
      ch_find_funding = (\<lambda>spk v. flaky_gate (ch_find_funding c spk v)),
      ch_find_outputs = (\<lambda>spk. flaky_gate (ch_find_outputs c spk)),
      ch_find_historical_outputs = (\<lambda>spk. flaky_gate (ch_find_historical_outputs c spk)),
      ch_outpoint_status = (\<lambda>spk op. flaky_gate (ch_outpoint_status c spk op)),
      ch_find_spend = (\<lambda>spk op. flaky_gate (ch_find_spend c spk op)),
      ch_broadcast = (\<lambda>t. flaky_gate (ch_broadcast c t)),
      ch_estimate_fee_rate = (\<lambda>g. flaky_gate (ch_estimate_fee_rate c g)),
      ch_tx_confirmations = (\<lambda>spk i. flaky_gate (ch_tx_confirmations c spk i)),
      ch_block_hashes_from = (\<lambda>h n. flaky_gate (ch_block_hashes_from c h n))\<rparr>"

subsection \<open>Collaborators that do nothing\<close>

text \<open>\<open>impl ProgressSink for ()\<close>: every default method.\<close>

definition null_progress :: "'e progress_sink" where
  "null_progress =
     \<lparr>p_funding_intent = (\<lambda>_ e. (Inr (), e)), p_funded = (\<lambda>_ e. ((), e)),
      p_invoice_pay_started = (\<lambda>e. (Inr (), e)), p_invoice_paid = (\<lambda>e. ((), e)),
      p_claim_observed = (\<lambda>_ e. ((), e)), p_spend_broadcast = (\<lambda>_ e. ((), e)),
      p_wants_claimable = (\<lambda>e. (False, e)), p_claimable = (\<lambda>_ e. ((), e))\<rparr>"

text \<open>A clock that stands still.\<close>

definition frozen_clock :: "'e clock" where
  "frozen_clock = \<lparr>ck_now = (\<lambda>e. (0, e)), ck_sleep = (\<lambda>_ e. ((), e))\<rparr>"

text \<open>A wallet with nothing to offer but a destination: the trait's defaults.\<close>

definition sample_wallet :: "'e onchain_wallet" where
  "sample_wallet =
     \<lparr>w_fund_htlc = (\<lambda>_ _ e. (Inr \<lparr>op_txid = 7, op_vout = 0\<rparr>, e)), w_receive_destination = (\<lambda>e. ([8], e)),
      w_cpfp_bump = (\<lambda>_ _ e. (Inr None, e))\<rparr>"

lemmas mock_defs = mock_watcher_def mock_new_def mock_tip_height_def mock_find_funding_def
  mock_find_outputs_def mock_find_historical_outputs_def mock_outpoint_status_def
  mock_find_spend_def mock_broadcast_def mock_estimate_fee_rate_def mock_tx_confirmations_def
  null_progress_def frozen_clock_def sample_wallet_def

text \<open>
  Running a driver on a concrete environment: one call at a time, each continuation entered only
  once the answer it waits for is known.
\<close>

lemma bnd_cong_weak: "m = m' \<Longrightarrow> w = w' \<Longrightarrow> bnd m f w = bnd m' f w'" by simp
lemma tryb_cong_weak: "m = m' \<Longrightarrow> w = w' \<Longrightarrow> tryb m f w = tryb m' f w'" by simp
lemma trym_cong_weak: "m = m' \<Longrightarrow> w = w' \<Longrightarrow> trym h m f w = trym h m' f w'" by simp

lemma run_call:
  "call ev operation w = (case operation (w_env w) of (r, e) \<Rightarrow> (Some r, \<lparr>w_env = e, w_log = w_log w @ [ev r]\<rparr>))"
  by (simp add: call_def)

lemma run_bnd:
  "bnd m f w = (case m w of (a, w') \<Rightarrow> (case a of None \<Rightarrow> (None, w') | Some v \<Rightarrow> f v w'))"
  by (simp add: bnd_def split: option.splits prod.splits)

lemma run_tryb:
  "tryb m f w = (case m w of (a, w') \<Rightarrow> (case a of None \<Rightarrow> (None, w')
     | Some r \<Rightarrow> (case r of Inl e \<Rightarrow> (Some (Inl e), w') | Inr v \<Rightarrow> f v w')))"
  by (simp add: tryb_def bnd_def ret_def split: option.splits prod.splits sum.splits)

lemma run_trym:
  "trym h m f w = (case m w of (a, w') \<Rightarrow> (case a of None \<Rightarrow> (None, w')
     | Some r \<Rightarrow> (case r of Inl e \<Rightarrow> (Some (Inl (h e)), w') | Inr v \<Rightarrow> f v w')))"
  by (simp add: trym_def bnd_def ret_def split: option.splits prod.splits sum.splits)

lemma run_quiet:
  "quiet operation w = (case operation (w_env w) of (r, e) \<Rightarrow> (Some r, w\<lparr>w_env := e\<rparr>))"
  by (simp add: quiet_def)

lemmas run_defs = ret_def run_bnd run_tryb run_trym run_call run_quiet out_of_fuel_def call_defs now_def
lemmas run_congs = bnd_cong_weak tryb_cong_weak trym_cong_weak

subsection \<open>Outages\<close>

text \<open>An outage is invisible except as transient failures: while it lasts every chain call
  fails as transient and leaves the chain untouched, and a call made when it is over answers
  exactly as the chain underneath does.\<close>

theorem outage_is_transient:
  "if fl_remaining s = 0
   then fst (flaky_gate f s) = fst (f (fl_inner s)) \<and> fl_inner (snd (flaky_gate f s)) = snd (f (fl_inner s))
   else (\<exists>e. fst (flaky_gate f s) = Inl e \<and> is_transient e)
      \<and> fl_inner (snd (flaky_gate f s)) = fl_inner s
      \<and> unat (fl_remaining (snd (flaky_gate f s))) + 1 = unat (fl_remaining s)"
  by (auto simp: flaky_gate_def transient_def arith unat_gt_0 Let_def split: prod.split)

end
