(* ===== verification/Spend_Safety.thy ===== *)
theory Spend_Safety
  imports Mock_Chain
begin

text \<open>
  What \<open>confirm_or_bump\<close> guarantees, with the wallet's CPFP and the progress sink every caller
  gives it: announcement before broadcast, the meaning of its outcomes, termination, and the
  one way it can mistake its own transaction for a rival's.
\<close>

subsection \<open>What driving a spend leaves in a log\<close>

text \<open>What driving a spend to confirmation can put in a log.\<close>

fun bump_event :: "event \<Rightarrow> bool" where
  "bump_event (ChTip _) = True"
| "bump_event (ChFindSpend _ _) = True"
| "bump_event (ChConfirmations _ _) = True"
| "bump_event (ChEstimate _ _) = True"
| "bump_event (ChBroadcast _ _) = True"
| "bump_event (WCpfp _ _ _) = True"
| "bump_event (PSpendBroadcast _) = True"
| "bump_event (Slept _) = True"
| "bump_event _ = False"

text \<open>A condition that announced spends meet is met throughout a drive to confirmation, as long as what
  it rests on, \<open>K\<close>, is not undone by the events of such a drive.\<close>

lemma bump_always:
  assumes "list_all bump_event q" and "always_from A l q" and "always G l" and "K l"
    and K: "\<And>p e. K p \<Longrightarrow> bump_event e \<Longrightarrow> K (p @ [e])"
    and G: "\<And>p e. K p \<Longrightarrow> A p e \<Longrightarrow> bump_event e \<Longrightarrow> G p e"
  shows "always G (l @ q) \<and> K (l @ q)"
  using assms(1-4)
proof (induction q arbitrary: l)
  case (Cons e q)
  then have "always G ((l @ [e]) @ q) \<and> K ((l @ [e]) @ q)"
    by (intro Cons.IH) (simp_all add: K G)
  then show ?case by simp
qed simp

lemma em_outcome [em]:
  assumes "\<And>i. emits E (a i)" and "\<And>t. emits E (b t)" and "\<And>i t. emits E (d i t)"
  shows "emits E (case st of Confirmed i \<Rightarrow> a i | ConflictingSpend t \<Rightarrow> b t | DeadlineExceeded i t \<Rightarrow> d i t)"
  using assms by (cases st) simp_all

lemma announced_prefix: "announced_spend x build cfg p e \<Longrightarrow> announced_spend x build cfg (l @ p) e"
  by (auto simp: announced_spend_def split: event.splits)

lemma announced_after:
  assumes "always (announced_spend x build cfg) q"
  shows "always_from (announced_spend x build cfg) l q"
proof -
  have "always_from (announced_spend x build cfg) (l @ p) q"
    if "always_from (announced_spend x build cfg) p q" for p
    using that
  proof (induction q arbitrary: p)
    case (Cons e q)
    then show ?case using Cons.IH [of "p @ [e]"] by (simp add: announced_prefix)
  qed simp
  from this [of "[]"] show ?thesis using assms always_append [of "announced_spend x build cfg" "[]" q] by simp
qed

text \<open>What a caller reads off an outcome.\<close>

definition spend_over ::
  "ext \<Rightarrow> spend_watch_config \<Rightarrow> outpoint \<Rightarrow> swap_error + spend_outcome \<Rightarrow> event list \<Rightarrow> bool" where
  "spend_over x cfg op r l = (case r of
     Inr (Confirmed i) \<Rightarrow> \<exists>p c. l = p @ [ChConfirmations i (Inr (Some c))] \<and> sw_min_confirmations cfg \<le> c
   | Inr (ConflictingSpend t) \<Rightarrow> x_txid x t \<notin> set (sw_known_ours cfg) \<and> (\<exists>p. l = p @ [ChFindSpend op (Inr (Some t))])
   | _ \<Rightarrow> True)"

lemma outcome_over:
  assumes "outcome_ok x cfg op s0 r q"
  shows "spend_over x cfg op r (l @ q)"
proof (cases r)
  case (Inr out)
  with assms show ?thesis by (cases out) (auto simp: outcome_ok_def spend_over_def)
qed (simp add: spend_over_def)

text \<open>A caller's condition \<open>G\<close> on its own log, and what it knows there, survive the drive.\<close>

context htlc_spender begin

lemma emits_hook: "emits bump_event (on_spend t)"
  by (rule wpl_emits [OF wp_conseq [OF on_spend_logs]]) simp_all

lemma emits_cpfp: "cpfp = Some f \<Longrightarrow> emits bump_event (f p r)"
  by (rule wpl_emits [OF wp_conseq [OF cpfp_logs]]) auto

lemma emits_estimate: "emits bump_event (estimate ch t)"
  unfolding estimate_def call_defs by (intro em) simp_all

lemma emits_rebroadcast: "emits bump_event (rebroadcast x ch on_spend build st)"
  unfolding rebroadcast_def broadcast_def by (intro em emits_hook) simp_all

lemma emits_escalate: "emits bump_event (escalate x ch cfg cpfp on_spend build tip st)"
  unfolding escalate_def next_rate_def broadcast_def Let_def
  by (intro em emits_hook emits_cpfp emits_estimate) simp_all

lemma emits_bump_loop:
  fixes x :: ext
  shows "emits bump_event (bump_loop n x ch ck spk op cfg cpfp on_spend build started i st)"
proof (induction n arbitrary: i st)
  case (Suc n)
  show ?case unfolding bump_loop.simps Let_def now_def tip_height_def find_spend_def tx_confirmations_def sleep_for_def
    by (intro em emits_rebroadcast emits_escalate Suc.IH) simp_all
qed (simp add: em)

lemma emits_confirm_or_bump:
  "emits bump_event (confirm_or_bump n x ch ck spk op cfg cpfp on_spend build)"
  unfolding confirm_or_bump_def adopt_live_def now_def Let_def find_spend_def broadcast_def
  by (intro em emits_bump_loop emits_hook emits_estimate) simp_all

lemma ob_bump_loop:
  fixes x :: ext
  shows "oblivious (bump_loop n x ch ck spk op cfg cpfp on_spend build started i st)"
proof (induction n arbitrary: i st)
  case (Suc n)
  show ?case
    unfolding bump_loop.simps Let_def now_def call_defs rebroadcast_def escalate_def next_rate_def estimate_def
    by (intro ob on_spend_oblivious cpfp_oblivious Suc.IH)
qed (simp add: ob)

lemma ob_confirm_or_bump: "oblivious (confirm_or_bump n x ch ck spk op cfg cpfp on_spend build)"
  unfolding confirm_or_bump_def adopt_live_def now_def Let_def call_defs estimate_def
  by (intro ob on_spend_oblivious ob_bump_loop)

lemma drive_wp:
  assumes "always G l" and "K l"
    and K: "\<And>p e. K p \<Longrightarrow> bump_event e \<Longrightarrow> K (p @ [e])"
    and G: "\<And>p e. K p \<Longrightarrow> announced_spend x build cfg p e \<Longrightarrow> bump_event e \<Longrightarrow> G p e"
  shows "wpl (confirm_or_bump n x ch ck spk op cfg cpfp on_spend build)
    (\<lambda>r l'. always G l' \<and> K l' \<and> spend_over x cfg op r l')
    (always G) l"
proof -
  let ?m = "confirm_or_bump n x ch ck spk op cfg cpfp on_spend build"
  have run: "wpl ?m
      (\<lambda>r q. (always (announced_spend x build cfg) q \<and> outcome_ok x cfg op {} r q) \<and> list_all bump_event q)
      (\<lambda>q. always (announced_spend x build cfg) q \<and> list_all bump_event q) []"
    using wp_conj [OF confirm_or_bump_wp [of x cfg "[]"] emits_wpl [OF emits_confirm_or_bump]] by simp
  have keep: "always G (l @ q) \<and> K (l @ q)"
    if "always (announced_spend x build cfg) q" "list_all bump_event q" for q
    by (rule bump_always [where G = G and K = K and A = "announced_spend x build cfg",
          OF that(2) announced_after [OF that(1)] assms(1,2) K G])
  show ?thesis
    by (rule wp_conseq [OF wp_oblivious [OF ob_confirm_or_bump run]]) (use keep outcome_over in blast)+
qed

end

subsection \<open>The closures of the drivers\<close>

lemma standard_spender:
  assumes "\<And>r t. build r = Inr t \<Longrightarrow> \<exists>i. tx_input t = [i] \<and> in_previous_output i = op"
  shows "htlc_spender (spend_broadcast pg) build op (Some (cpfp_child wl))"
  using assms by unfold_locales (auto simp: call_defs cpfp_child_def intro!: wp_call wp ob)

interpretation announce: spend_hook "spend_broadcast pg" for pg
  by unfold_locales (auto simp: call_defs intro!: wp_call ob)

lemma always_broadcast:
  assumes "always (announced_spend x build cfg) l" and "l = p @ ChBroadcast t r # q"
  shows "p \<noteq> [] \<and> last p = PSpendBroadcast (x_txid x t) \<and> (\<exists>rate. rate_ok cfg rate \<and> build rate = Inr t)"
  using alwaysD [of "announced_spend x build cfg" p "ChBroadcast t r" q] assms
  by (auto simp: announced_spend_def rate_ok_def)

lemma spend_run:
  assumes "\<And>r t. build r = Inr t \<Longrightarrow> \<exists>i. tx_input t = [i] \<and> in_previous_output i = op"
    and "w_log w = []"
    and "confirm_or_bump fuel x ch ck spk op cfg (Some (cpfp_child wl)) (spend_broadcast pg) build w = (res, w')"
  shows "always (announced_spend x build cfg) (w_log w')"
    and "\<And>r. res = Some r \<Longrightarrow> outcome_ok x cfg op {} r (w_log w')"
proof -
  have "always (announced_spend x build cfg) (w_log w)" using assms(2) by simp
  moreover have "htlc_spender (spend_broadcast pg) build op (Some (cpfp_child wl))"
    by (rule standard_spender) (rule assms(1))
  ultimately have c: "wpl (confirm_or_bump fuel x ch ck spk op cfg (Some (cpfp_child wl)) (spend_broadcast pg) build)
      (\<lambda>r l'. always (announced_spend x build cfg) l' \<and> outcome_ok x cfg op (sent (w_log w)) r l')
      (always (announced_spend x build cfg)) (w_log w)"
    by (intro htlc_spender.confirm_or_bump_wp)
  show "always (announced_spend x build cfg) (w_log w')"
    using c assms(2,3) wpl_Some [OF c] wpl_None [OF c] by (cases res) auto
  show "outcome_ok x cfg op {} r (w_log w')" if "res = Some r" for r
    using that c assms(2,3) wpl_Some [OF c] by auto
qed


text \<open>A concrete refund, from the mock chain's point of view.\<close>

definition sample_op :: outpoint where "sample_op = \<lparr>op_txid = 7, op_vout = 0\<rparr>"

definition sample_build :: "u64 \<Rightarrow> swap_error + transaction" where
  "sample_build rate =
     Inr \<lparr>tx_version = 2, tx_lock_time = ucast rate,
       tx_input = [\<lparr>in_previous_output = sample_op, in_script_sig = [], in_sequence = 0xFFFFFFFD,
                    in_witness = []\<rparr>],
       tx_output = [\<lparr>out_value = 50000 - rate, out_script_pubkey = [8]\<rparr>]\<rparr>"

definition sample_tx :: "u64 \<Rightarrow> transaction" where
  "sample_tx rate = (case sample_build rate of Inr t \<Rightarrow> t)"

definition sample_config :: spend_watch_config where
  "sample_config = refund_config REFUND_FEE_TARGET_BLOCKS 2 50 1000 2"

definition sample_run :: "mock_chain \<Rightarrow> (swap_error + spend_outcome) option \<times> mock_chain world" where
  "sample_run m =
     confirm_or_bump (Suc (Suc 0)) sample_ext (mock_watcher sample_ext) frozen_clock [1] sample_op sample_config
       (Some (cpfp_child sample_wallet)) (spend_broadcast null_progress) sample_build
       \<lparr>w_env = m, w_log = []\<rparr>"

lemma sample_build_spends:
  "sample_build r = Inr t \<Longrightarrow> \<exists>i. tx_input t = [i] \<and> in_previous_output i = sample_op"
  by (auto simp: sample_build_def)

lemmas sample_run_defs = sample_run_def confirm_or_bump_def estimate_def adopt_live_def escalate_def
  rebroadcast_def next_rate_def cpfp_child_def past_deadline_def sample_config_def refund_config_def
  resolve_fee_rate_def sample_build_def REFUND_FEE_TARGET_BLOCKS_def DEFAULT_MAX_ITERATIONS_def
  DEFAULT_MAX_WALL_DURATION_def

definition confirmed_mock :: mock_chain where
  "confirmed_mock = mock_new\<lparr>mc_confirmations := [Some 2]\<rparr>"

lemma sample_run_confirms:
  "map_prod id w_log (sample_run confirmed_mock) =
     (Some (Inr (Confirmed 3)),
      [ChEstimate 6 (Inr None), PSpendBroadcast 3, ChBroadcast (sample_tx 2) (Inr 3),
       ChTip (Inr 0), ChFindSpend sample_op (Inr None), ChConfirmations 3 (Inr (Some 2))])"
  by (simp add: sample_run_defs run_defs mock_defs confirmed_mock_def Let_def sample_tx_def sample_ext_def
      cong: run_congs)

lemma sample_run_eq:
  "confirm_or_bump (Suc (Suc 0)) sample_ext (mock_watcher sample_ext) frozen_clock [1] sample_op sample_config
     (Some (cpfp_child sample_wallet)) (spend_broadcast null_progress) sample_build
     \<lparr>w_env = confirmed_mock, w_log = []\<rparr>
   = (fst (sample_run confirmed_mock), snd (sample_run confirmed_mock))"
  by (simp add: sample_run_def)

lemma sample_run_log:
  "w_log (snd (sample_run confirmed_mock)) =
     [ChEstimate 6 (Inr None), PSpendBroadcast 3] @ ChBroadcast (sample_tx 2) (Inr 3)
     # [ChTip (Inr 0), ChFindSpend sample_op (Inr None), ChConfirmations 3 (Inr (Some 2))]"
  using sample_run_confirms by (cases "sample_run confirmed_mock") simp


text \<open>What an outcome is worth: \<open>Confirmed\<close> is only reported for a transaction of ours (adopted
  from the record or accepted by the chain) that the chain has just shown at the required depth;
  \<open>ConflictingSpend\<close> only for a spend the chain has just shown that is neither adopted nor
  accepted; and giving up names a transaction of ours.\<close>

theorem spend_outcome_means:
  assumes "\<And>r t. build r = Inr t \<Longrightarrow> \<exists>i. tx_input t = [i] \<and> in_previous_output i = op"
    and "w_log w = []"
    and "confirm_or_bump fuel x ch ck spk op cfg (Some (cpfp_child wl)) (spend_broadcast pg) build w
         = (Some (Inr outcome), w')"
  shows "case outcome of
      Confirmed i \<Rightarrow> i \<in> set (sw_known_ours cfg) \<union> sent (w_log w')
        \<and> (\<exists>p c. w_log w' = p @ [ChConfirmations i (Inr (Some c))] \<and> sw_min_confirmations cfg \<le> c)
    | ConflictingSpend t \<Rightarrow> x_txid x t \<notin> set (sw_known_ours cfg) \<union> sent (w_log w')
        \<and> (\<exists>p. w_log w' = p @ [ChFindSpend op (Inr (Some t))])
    | DeadlineExceeded i tip \<Rightarrow> i \<in> set (sw_known_ours cfg) \<union> sent (w_log w')"
  using spend_run(2) [OF assms refl] by (auto simp: outcome_ok_def split: spend_outcome.splits)

lemma sample_run_confirmed:
  "confirm_or_bump (Suc (Suc 0)) sample_ext (mock_watcher sample_ext) frozen_clock [1] sample_op sample_config
     (Some (cpfp_child sample_wallet)) (spend_broadcast null_progress) sample_build
     \<lparr>w_env = confirmed_mock, w_log = []\<rparr>
   = (Some (Inr (Confirmed 3)), snd (sample_run confirmed_mock))"
  using sample_run_confirms by (cases "sample_run confirmed_mock") (simp add: sample_run_def)

theorem spend_outcome_means_witness:
  "3 \<in> set (sw_known_ours sample_config) \<union> sent (w_log (snd (sample_run confirmed_mock)))"
  using spend_outcome_means [OF sample_build_spends _ sample_run_confirmed] by simp

text \<open>C36: \<open>confirm_or_bump\<close> always comes back: whatever the chain and the wallet answer, as many
  iterations as the configuration's ceiling (and at least one) end it with an outcome or an
  error.\<close>

theorem confirm_or_bump_terminates:
  assumes "\<And>r t. build r = Inr t \<Longrightarrow> \<exists>i. tx_input t = [i] \<and> in_previous_output i = op"
    and "max 1 (unat (sw_max_iterations cfg)) \<le> fuel"
  shows "\<exists>r w'. confirm_or_bump fuel x ch ck spk op cfg (Some (cpfp_child wl)) (spend_broadcast pg) build w
         = (Some r, w')"
proof -
  let ?m = "confirm_or_bump fuel x ch ck spk op cfg (Some (cpfp_child wl)) (spend_broadcast pg) build"
  have "htlc_spender (spend_broadcast pg) build op (Some (cpfp_child wl))"
    by (rule standard_spender) (rule assms(1))
  then have "wpl ?m (\<lambda>_ _. True) (\<lambda>_. False) (w_log w)"
    using assms(2) by (intro htlc_spender.confirm_or_bump_total) auto
  from wpl_None [OF this] show ?thesis
    by (metis option.exhaust prod.exhaust)
qed

theorem confirm_or_bump_terminates_witness:
  "\<exists>r w'. confirm_or_bump (unat DEFAULT_MAX_ITERATIONS) sample_ext (mock_watcher sample_ext) frozen_clock [1] sample_op sample_config
     (Some (cpfp_child sample_wallet)) (spend_broadcast null_progress) sample_build
     \<lparr>w_env = mock_new, w_log = []\<rparr> = (Some r, w')"
proof (rule confirm_or_bump_terminates [OF sample_build_spends])
  show "max 1 (unat (sw_max_iterations sample_config)) \<le> unat DEFAULT_MAX_ITERATIONS"
    unfolding sample_config_def refund_config_def DEFAULT_MAX_ITERATIONS_def
    by (rule max.boundedI) simp_all
qed

text \<open>A chain that accepts every transaction, but whose answer to every broadcast after the first
  is lost on the way back.\<close>

definition lossy_watcher :: "mock_chain chain_watcher" where
  "lossy_watcher = (mock_watcher sample_ext)
     \<lparr>ch_find_spend := (\<lambda>spk op m. (Inr (if mc_broadcasts m = [] then None else Some (last (mc_broadcasts m))), m))\<rparr>"

definition lossy_mock :: mock_chain where
  "lossy_mock = mock_new\<lparr>mc_confirmations := [Some 0], mc_reject_replacements := True\<rparr>"

text \<open>The one way a spend of ours is taken for a rival's: only broadcasts whose reply arrived
  count as ours within a call, so when a replacement reaches the chain and the reply is lost,
  the next look at the chain reports our own, already announced transaction as a conflicting
  spend.\<close>

theorem lost_reply_misreads_own_spend:
  "\<exists>w' t. confirm_or_bump (Suc (Suc 0)) sample_ext lossy_watcher frozen_clock [1] sample_op sample_config
       (Some (cpfp_child sample_wallet)) (spend_broadcast null_progress) sample_build
       \<lparr>w_env = lossy_mock, w_log = []\<rparr> = (Some (Inr (ConflictingSpend t)), w')
     \<and> PSpendBroadcast (x_txid sample_ext t) \<in> set (w_log w') \<and> t \<in> set (mc_broadcasts (w_env w'))"
  by (simp add: sample_run_defs run_defs mock_defs lossy_watcher_def lossy_mock_def Let_def sample_tx_def
      sample_ext_def deadline_fee_rate_def target_for_remaining_def saturating_add_def saturating_sub_def
      word_le_nat_alt cong: run_congs)

end
