(* ===== verification/Store.thy ===== *)
theory Store
  imports Effects Taproot
begin

text \<open>
  Crash-safe persistence: \<open>swap-common/src/store.rs\<close>. The record of one swap and what it says
  about the past (\<open>resume\<close>, \<open>funds_at_risk\<close>), and the directory of JSON files it is kept in.
  The signed contract a record may carry belongs to another component and is only passed
  through, so it is the type parameter \<open>'c\<close>. A file system call may fail at any of its steps:
  which one does is an argument of each write.
\<close>

subsection \<open>Records\<close>

datatype swap_role = Provider | Client

record pending_hold_invoice =
  ph_amount_msat :: u64
  ph_expiry_secs :: u64
  ph_cltv_expiry_delta :: u32
  ph_memo :: string

record 'c swap_record =
  r_record_version :: u16
  r_swap_id :: uuid
  r_pending_hold_invoice :: "pending_hold_invoice option"
  r_swap_request :: "swap_request option"
  r_swap_accept :: "swap_accept option"
  r_taproot :: "taproot_swap option"
  r_role :: swap_role
  r_direction :: swap_direction
  r_peer :: string
  r_peer_account :: "string option"
  r_peer_authorization_scope :: "string option"
  r_network :: network_spec
  r_payment_hash_hex :: string
  r_onchain_amount_sat :: u64
  r_fee_rate_sat_vb :: u64
  r_htlc_script_hex :: string
  r_timeout_height :: u32
  r_secret_key_hex :: string
  r_invoice :: string
  r_max_routing_fee_msat :: u64
  r_service_fee_sat :: u64
  r_onchain_fee_sat :: u64
  r_funding_fee_sat :: "u64 option"
  r_required_confirmations :: u32
  r_funding_txid_hex :: "string option"
  r_funding_vout :: "u32 option"
  r_state :: swap_state
  r_funding_intent_at_height :: "u32 option"
  r_funding_attempts :: u32
  r_invoice_pay_started_at_unix :: "u64 option"
  r_claim_observed_txid_hex :: "string option"
  r_spend_txid_hex :: "string option"
  r_claimable_hint :: bool
  r_claimable_at_unix :: "u64 option"
  r_our_spend_txids :: "string list"
  r_preimage_hex :: "string option"
  r_dest_spk_hex :: "string option"
  r_quote_total_sat :: u64
  r_client_quote :: "quote option"
  r_client_creation_started :: bool
  r_client_creation_tip :: "u32 option"
  r_client_execution_ready :: bool
  r_cap_contract :: "'c option"
  r_reorg_seen_at_height :: "u32 option"
  r_last_error :: "string option"
  r_retry_count :: u32
  r_next_retry_at_unix :: "u64 option"
  r_updated_at_unix :: u64
  r_created_at_unix :: u64

definition status_snapshot :: "'c swap_record \<Rightarrow> uuid option \<Rightarrow> u64 \<Rightarrow> swap_status_snapshot option" where
  "status_snapshot r request_id observed_at_unix =
     (case r_swap_accept r of None \<Rightarrow> None | Some accept \<Rightarrow> Some
        \<lparr>ss_request_id = request_id, ss_accept = accept, ss_network = r_network r,
         ss_state = r_state r, ss_funding_txid_hex = r_funding_txid_hex r,
         ss_funding_vout = r_funding_vout r, ss_spend_txid_hex = r_spend_txid_hex r,
         ss_claim_observed_txid_hex = r_claim_observed_txid_hex r,
         ss_required_confirmations = r_required_confirmations r,
         ss_updated_at_unix = r_updated_at_unix r, ss_observed_at_unix = observed_at_unix,
         ss_created_at_unix = r_created_at_unix r, ss_payment_hash_hex = r_payment_hash_hex r,
         ss_owner_ref = Option.bind (r_swap_request r) sr_owner_ref,
         ss_claimable = (r_claimable_hint r \<and> r_claimable_at_unix r \<noteq> None)\<rparr>)"

record resume =
  rz_invoice_pay_started_at_unix :: "u64 option"
  rz_funding :: "outpoint option"
  rz_funding_intent_at_height :: "u32 option"
  rz_our_spends :: "txid list"
  rz_reorg_seen_at_height :: "u32 option"

definition default_resume :: resume where
  "default_resume =
     \<lparr>rz_invoice_pay_started_at_unix = None, rz_funding = None, rz_funding_intent_at_height = None,
      rz_our_spends = [], rz_reorg_seen_at_height = None\<rparr>"

definition is_fresh :: "resume \<Rightarrow> bool" where
  "is_fresh z \<longleftrightarrow> z = default_resume"

definition RECORD_VERSION :: u16 where "RECORD_VERSION = 1"
definition current_record_version :: u16 where "current_record_version = 0"
definition MAX_TRACKED_OUR_SPENDS :: nat where "MAX_TRACKED_OUR_SPENDS = 16"

definition new_progress :: "'c swap_record" where
  "new_progress =
     \<lparr>r_record_version = RECORD_VERSION, r_swap_id = 0, r_pending_hold_invoice = None,
      r_swap_request = None, r_swap_accept = None, r_taproot = None, r_role = Provider,
      r_direction = Reverse, r_peer = [], r_peer_account = None, r_peer_authorization_scope = None,
      r_network = Regtest, r_payment_hash_hex = [], r_onchain_amount_sat = 0, r_fee_rate_sat_vb = 0,
      r_htlc_script_hex = [], r_timeout_height = 0, r_secret_key_hex = [], r_invoice = [],
      r_max_routing_fee_msat = 0, r_service_fee_sat = 0, r_onchain_fee_sat = 0,
      r_funding_fee_sat = None, r_required_confirmations = 0, r_funding_txid_hex = None,
      r_funding_vout = None, r_state = Created, r_funding_intent_at_height = None,
      r_funding_attempts = 0, r_invoice_pay_started_at_unix = None, r_claim_observed_txid_hex = None,
      r_spend_txid_hex = None, r_claimable_hint = False, r_claimable_at_unix = None,
      r_our_spend_txids = [], r_preimage_hex = None, r_dest_spk_hex = None, r_quote_total_sat = 0,
      r_client_quote = None, r_client_creation_started = False, r_client_creation_tip = None,
      r_client_execution_ready = False, r_cap_contract = None, r_reorg_seen_at_height = None,
      r_last_error = None, r_retry_count = 0, r_next_retry_at_unix = None, r_updated_at_unix = 0,
      r_created_at_unix = 0\<rparr>"

definition bytes32 :: "string \<Rightarrow> bytes \<Rightarrow> any_error + bytes" where
  "bytes32 message b = (if length b = 32 then Inr b else Inl (AnyMsg message))"

definition record_preimage :: "ext \<Rightarrow> 'c swap_record \<Rightarrow> any_error + preimage option" where
  "record_preimage x r =
     (case r_preimage_hex r of None \<Rightarrow> Inr None
      | Some hex_str \<Rightarrow>
          try_bind (map_err (\<lambda>_. AnyMsg ''decode preimage_hex'') (x_hex_decode x hex_str)) (\<lambda>b.
          try_bind (bytes32 ''preimage must be 32 bytes'' b) (\<lambda>a. Inr (Some a))))"

definition dest_spk :: "ext \<Rightarrow> 'c swap_record \<Rightarrow> any_error + script option" where
  "dest_spk x r =
     (case r_dest_spk_hex r of None \<Rightarrow> Inr None
      | Some hex_str \<Rightarrow>
          try_bind (map_err (\<lambda>e. AnyMsg (''parse dest_spk: '' @ e)) (x_hex_decode x hex_str))
            (\<lambda>s. Inr (Some s)))"

definition record_secret_key :: "ext \<Rightarrow> 'c swap_record \<Rightarrow> any_error + secret_key" where
  "record_secret_key x r =
     try_bind (map_err (\<lambda>_. AnyMsg ''decode secret_key_hex'') (x_hex_decode x (r_secret_key_hex r)))
       (\<lambda>b. map_err (\<lambda>e. AnyMsg (''parse secret key: '' @ e)) (x_secret_key_parse x b))"

definition record_htlc_script :: "ext \<Rightarrow> 'c swap_record \<Rightarrow> any_error + script" where
  "record_htlc_script x r =
     map_err (\<lambda>e. AnyMsg (''parse htlc script: '' @ e)) (x_hex_decode x (r_htlc_script_hex r))"

definition record_htlc_spk :: "ext \<Rightarrow> 'c swap_record \<Rightarrow> any_error + script" where
  "record_htlc_spk x r =
     (case r_taproot r of
        Some taproot \<Rightarrow> Inr (x_address_spk x (taproot_address x taproot (to_bitcoin_network (r_network r))))
      | None \<Rightarrow> try_bind (record_htlc_script x r) (\<lambda>s.
          Inr (x_address_spk x (htlc_p2wsh_address x s (to_bitcoin_network (r_network r))))))"

definition record_payment_hash :: "ext \<Rightarrow> 'c swap_record \<Rightarrow> any_error + payment_hash" where
  "record_payment_hash x r =
     try_bind (map_err (\<lambda>_. AnyMsg ''decode payment_hash_hex'') (x_hex_decode x (r_payment_hash_hex r)))
       (bytes32 ''payment hash must be 32 bytes'')"

definition note_our_spend :: "ext \<Rightarrow> txid \<Rightarrow> 'c swap_record \<Rightarrow> 'c swap_record" where
  "note_our_spend x txid r =
     (let hex = x_txid_str x txid;
          txids = (if List.member (r_our_spend_txids r) hex then r_our_spend_txids r
                   else let pushed = r_our_spend_txids r @ [hex]
                        in if length pushed > MAX_TRACKED_OUR_SPENDS then tl pushed else pushed)
      in r\<lparr>r_our_spend_txids := txids, r_spend_txid_hex := Some hex\<rparr>)"

definition our_spends :: "ext \<Rightarrow> 'c swap_record \<Rightarrow> txid list" where
  "our_spends x r =
     List.map_filter (x_txid_parse x)
       (r_our_spend_txids r @ (case r_spend_txid_hex r of None \<Rightarrow> [] | Some h \<Rightarrow> [h]))"

definition funding_outpoint :: "ext \<Rightarrow> 'c swap_record \<Rightarrow> outpoint option" where
  "funding_outpoint x r =
     Option.bind (Option.bind (r_funding_txid_hex r) (x_txid_parse x)) (\<lambda>txid.
     Option.bind (r_funding_vout r) (\<lambda>vout. Some \<lparr>op_txid = txid, op_vout = vout\<rparr>))"

definition resume_of :: "ext \<Rightarrow> 'c swap_record \<Rightarrow> resume" where
  "resume_of x r =
     \<lparr>rz_invoice_pay_started_at_unix = r_invoice_pay_started_at_unix r,
      rz_funding = funding_outpoint x r,
      rz_funding_intent_at_height = r_funding_intent_at_height r,
      rz_our_spends = our_spends x r,
      rz_reorg_seen_at_height = r_reorg_seen_at_height r\<rparr>"

definition progressed :: "'c swap_record \<Rightarrow> 'c swap_record" where
  "progressed r = r\<lparr>r_retry_count := 0, r_next_retry_at_unix := None, r_last_error := None\<rparr>"

definition we_fund_onchain :: "'c swap_record \<Rightarrow> bool" where
  "we_fund_onchain r \<longleftrightarrow>
     r_role r = Provider \<and> r_direction r = Reverse \<or> r_role r = Client \<and> r_direction r = Submarine"

definition funds_at_risk :: "ext \<Rightarrow> 'c swap_record \<Rightarrow> bool" where
  "funds_at_risk x r \<longleftrightarrow>
     (if we_fund_onchain r
      then r_funding_intent_at_height r \<noteq> None \<or> funding_outpoint x r \<noteq> None
      else r_invoice_pay_started_at_unix r \<noteq> None)
     \<or> r_our_spend_txids r \<noteq> [] \<or> r_spend_txid_hex r \<noteq> None"

definition safe_to_prune :: "ext \<Rightarrow> 'c swap_record \<Rightarrow> bool" where
  "safe_to_prune x r \<longleftrightarrow>
     (if r_updated_at_unix r = 0 \<or> r_pending_hold_invoice r \<noteq> None then False
      else case r_state r of Claimed \<Rightarrow> True | Refunded \<Rightarrow> True
           | Expired \<Rightarrow> \<not> funds_at_risk x r | _ \<Rightarrow> False)"

subsection \<open>The directory\<close>

record disk_file =
  f_name :: string
  f_bytes :: bytes
  f_readable :: bool
  f_age :: "nat option" \<comment> \<open>seconds since it was modified, when the file system says\<close>
  f_removable :: bool

type_synonym dir = "disk_file list" \<comment> \<open>in the order \<open>read_dir\<close> lists it\<close>

text \<open>\<open>serde_json\<close> on a record: a parameter.\<close>

record 'c codec =
  c_encode :: "'c swap_record \<Rightarrow> string + bytes"
  c_decode :: "bytes \<Rightarrow> string + 'c swap_record"

text \<open>Where a write stops, if it does: the bytes that reached the file before a failed write.\<close>

datatype write_fault = NoFault | OpenFails | WriteFails bytes | SyncFails | RenameFails

definition has_json_extension :: "string \<Rightarrow> bool" where
  "has_json_extension name \<longleftrightarrow>
     5 < length name \<and> drop (length name - 5) name = ''.json''"

definition path_for :: "ext \<Rightarrow> uuid \<Rightarrow> string" where
  "path_for x swap_id = x_uuid_str x swap_id @ ''.json''"

definition tmp_path_for :: "ext \<Rightarrow> uuid \<Rightarrow> nat \<Rightarrow> nat \<Rightarrow> string" where
  "tmp_path_for x swap_id pid n = x_uuid_str x swap_id @ ''.'' @ show_nat pid @ ''.'' @ show_nat n @ ''.tmp''"

definition lookup_file :: "string \<Rightarrow> dir \<Rightarrow> disk_file option" where
  "lookup_file name d = List.find (\<lambda>f. f_name f = name) d"

definition remove_file :: "string \<Rightarrow> dir \<Rightarrow> dir" where
  "remove_file name d = filter (\<lambda>f. f_name f \<noteq> name) d"

definition write_file :: "string \<Rightarrow> bytes \<Rightarrow> dir \<Rightarrow> dir" where
  "write_file name b d =
     remove_file name d @ [\<lparr>f_name = name, f_bytes = b, f_readable = True, f_age = Some 0, f_removable = True\<rparr>]"

definition store_get :: "ext \<Rightarrow> 'c codec \<Rightarrow> uuid \<Rightarrow> dir \<Rightarrow> any_error + 'c swap_record option" where
  "store_get x c swap_id d =
     (case lookup_file (path_for x swap_id) d of
        None \<Rightarrow> Inr None
      | Some f \<Rightarrow>
          if \<not> f_readable f then Inl (AnyMsg (''read '' @ path_for x swap_id))
          else map_err (\<lambda>_. AnyMsg (''parse '' @ path_for x swap_id))
                 (try_bind (c_decode c (f_bytes f)) (\<lambda>r. Inr (Some r))))"

text \<open>The stamping at the head of \<open>persist_record\<close>.\<close>

definition stamp :: "'c swap_record option \<Rightarrow> u64 \<Rightarrow> 'c swap_record \<Rightarrow> 'c swap_record" where
  "stamp existing now_unix r =
     (if r_created_at_unix r = 0 \<or> r_cap_contract r = None
      then r\<lparr>r_created_at_unix :=
               (if r_created_at_unix r = 0
                then (case existing of
                        Some e \<Rightarrow> if r_created_at_unix e > 0 then r_created_at_unix e else now_unix
                      | None \<Rightarrow> now_unix)
                else r_created_at_unix r),
             r_cap_contract := opt_or (r_cap_contract r) (Option.bind existing r_cap_contract)\<rparr>
      else r)"

definition existing_record :: "ext \<Rightarrow> 'c codec \<Rightarrow> uuid \<Rightarrow> dir \<Rightarrow> 'c swap_record option" where
  "existing_record x c swap_id d = (case store_get x c swap_id d of Inl _ \<Rightarrow> None | Inr e \<Rightarrow> e)"

definition persist_record ::
  "ext \<Rightarrow> 'c codec \<Rightarrow> u64 \<Rightarrow> nat \<Rightarrow> nat \<Rightarrow> write_fault \<Rightarrow> 'c swap_record \<Rightarrow> dir \<Rightarrow> (any_error + unit) \<times> dir" where
  "persist_record x c now_unix pid n fault r d =
     (let path = path_for x (r_swap_id r);
          tmp = tmp_path_for x (r_swap_id r) pid n;
          r = stamp (existing_record x c (r_swap_id r) d) now_unix r
      in case c_encode c r of
           Inl _ \<Rightarrow> (Inl (AnyMsg ''serialize swap record''), d)
         | Inr b \<Rightarrow> (case fault of
             OpenFails \<Rightarrow> (Inl (AnyMsg (''open '' @ tmp)), d)
           | WriteFails written \<Rightarrow> (Inl (AnyMsg (''write '' @ tmp)), write_file tmp written d)
           | SyncFails \<Rightarrow> (Inl (AnyMsg (''fsync '' @ tmp)), write_file tmp b d)
           | RenameFails \<Rightarrow> (Inl (AnyMsg (''rename into '' @ path)), write_file tmp b d)
           | NoFault \<Rightarrow> (Inr (), write_file path b (remove_file tmp d))))"

definition store_put ::
  "ext \<Rightarrow> 'c codec \<Rightarrow> u64 \<Rightarrow> nat \<Rightarrow> nat \<Rightarrow> write_fault \<Rightarrow> 'c swap_record \<Rightarrow> dir \<Rightarrow> (any_error + unit) \<times> dir" where
  "store_put x c now_unix pid n fault r d = persist_record x c now_unix pid n fault r d"

definition store_mutate ::
  "ext \<Rightarrow> 'c codec \<Rightarrow> u64 \<Rightarrow> nat \<Rightarrow> nat \<Rightarrow> write_fault \<Rightarrow> uuid \<Rightarrow> ('c swap_record \<Rightarrow> 'c swap_record) \<Rightarrow> dir
   \<Rightarrow> (any_error + bool) \<times> dir" where
  "store_mutate x c now_unix pid n fault swap_id f d =
     (case store_get x c swap_id d of
        Inl e \<Rightarrow> (Inl e, d)
      | Inr None \<Rightarrow> (Inr False, d)
      | Inr (Some r) \<Rightarrow>
          (case persist_record x c now_unix pid n fault (f r) d of
             (Inl e, d') \<Rightarrow> (Inl e, d') | (Inr _, d') \<Rightarrow> (Inr True, d')))"

text \<open>In a release build the assertion that the state is terminal is not there.\<close>

definition mark_terminal ::
  "ext \<Rightarrow> 'c codec \<Rightarrow> u64 \<Rightarrow> nat \<Rightarrow> nat \<Rightarrow> write_fault \<Rightarrow> 'c swap_record \<Rightarrow> dir \<Rightarrow> (any_error + unit) \<times> dir" where
  "mark_terminal x c now_unix pid n fault r d = store_put x c now_unix pid n fault r d"

text \<open>One directory entry of \<open>prune_terminal\<close>: does the sweep remove it?\<close>

definition prunable :: "ext \<Rightarrow> 'c codec \<Rightarrow> nat \<Rightarrow> disk_file \<Rightarrow> bool" where
  "prunable x c retain f \<longleftrightarrow>
     (if \<not> has_json_extension (f_name f) \<or> \<not> f_readable f then False
      else case c_decode c (f_bytes f) of
             Inl _ \<Rightarrow> False
           | Inr r \<Rightarrow> if \<not> safe_to_prune x r then False
               else (case f_age f of None \<Rightarrow> False | Some a \<Rightarrow> a \<ge> retain) \<and> f_removable f)"

fun prune_entries :: "ext \<Rightarrow> 'c codec \<Rightarrow> nat \<Rightarrow> disk_file list \<Rightarrow> nat \<Rightarrow> nat \<times> disk_file list" where
  "prune_entries x c retain [] removed = (removed, [])"
| "prune_entries x c retain (f # fs) removed =
     (if prunable x c retain f then prune_entries x c retain fs (removed + 1)
      else (let (n, kept) = prune_entries x c retain fs removed in (n, f # kept)))"

definition prune_terminal :: "ext \<Rightarrow> 'c codec \<Rightarrow> nat \<Rightarrow> dir \<Rightarrow> nat \<times> dir" where
  "prune_terminal x c retain d = prune_entries x c retain d 0"

fun load_entries :: "'c codec \<Rightarrow> disk_file list \<Rightarrow> 'c swap_record list" where
  "load_entries c [] = []"
| "load_entries c (f # fs) =
     (if \<not> has_json_extension (f_name f) then load_entries c fs
      else if \<not> f_readable f then load_entries c fs
      else case c_decode c (f_bytes f) of
             Inr r \<Rightarrow> r # load_entries c fs
           | Inl _ \<Rightarrow> load_entries c fs)"

definition load_all :: "'c codec \<Rightarrow> dir \<Rightarrow> 'c swap_record list" where
  "load_all c d = load_entries c d"

definition load_active :: "'c codec \<Rightarrow> dir \<Rightarrow> 'c swap_record list" where
  "load_active c d = filter (\<lambda>r. \<not> is_terminal (r_state r)) (load_all c d)"

fun load_all_checked :: "'c codec \<Rightarrow> dir \<Rightarrow> any_error + 'c swap_record list" where
  "load_all_checked c [] = Inr []"
| "load_all_checked c (f # fs) =
     (if \<not> has_json_extension (f_name f) then load_all_checked c fs
      else if \<not> f_readable f then Inl (AnyMsg (''read swap record '' @ f_name f))
      else try_bind (map_err (\<lambda>_. AnyMsg (''parse swap record '' @ f_name f)) (c_decode c (f_bytes f)))
             (\<lambda>r. try_bind (load_all_checked c fs) (\<lambda>rs. Inr (r # rs))))"

subsection \<open>File names\<close>

lemma path_for_json: "has_json_extension (path_for x i) \<longleftrightarrow> x_uuid_str x i \<noteq> []"
  by (simp add: has_json_extension_def path_for_def)

lemma tmp_not_json: "\<not> has_json_extension (tmp_path_for x i pid n)"
proof
  let ?t = "tmp_path_for x i pid n"
  assume "has_json_extension ?t"
  then have "drop (length ?t - 5) ?t = ''.json''" by (simp add: has_json_extension_def)
  moreover have "last (drop (length ?t - 5) ?t) = last ?t"
    by (rule last_drop) (simp add: tmp_path_for_def)
  ultimately show False by (simp add: tmp_path_for_def)
qed

lemma tmp_not_path: "tmp_path_for x i pid n \<noteq> path_for x j"
proof
  assume "tmp_path_for x i pid n = path_for x j"
  then have "last (tmp_path_for x i pid n) = last (path_for x j)" by simp
  then show False by (simp add: tmp_path_for_def path_for_def)
qed

lemma path_for_inj: "inj (x_uuid_str x) \<Longrightarrow> path_for x i = path_for x j \<longleftrightarrow> i = j"
  by (simp add: path_for_def inj_eq)

subsection \<open>What a write leaves behind\<close>

lemma lookup_write_file:
  "lookup_file name (write_file name' b d) =
     (if name = name' then Some \<lparr>f_name = name, f_bytes = b, f_readable = True, f_age = Some 0, f_removable = True\<rparr>
      else lookup_file name d)"
  by (induction d) (auto simp: lookup_file_def write_file_def remove_file_def)

lemma lookup_remove_file:
  "lookup_file name (remove_file name' d) = (if name = name' then None else lookup_file name d)"
  by (induction d) (auto simp: lookup_file_def remove_file_def)

lemma load_entries_append: "load_entries c (d @ e) = load_entries c d @ load_entries c e"
  by (induction d) (auto split: sum.split)

lemma load_entries_remove_tmp:
  "\<not> has_json_extension name \<Longrightarrow> load_entries c (remove_file name d) = load_entries c d"
  by (induction d) (auto simp: remove_file_def split: sum.split)

lemma load_entries_write_tmp:
  "\<not> has_json_extension name \<Longrightarrow> load_entries c (write_file name b d) = load_entries c d"
  by (simp add: write_file_def load_entries_append load_entries_remove_tmp)

lemma store_get_write_tmp:
  "store_get x c j (write_file (tmp_path_for x i pid n) b d) = store_get x c j d"
  by (simp add: store_get_def lookup_write_file tmp_not_path [symmetric])

text \<open>Encoding then decoding gives the record back, and distinct swaps have distinct names.\<close>

definition codec_ok :: "ext \<Rightarrow> 'c codec \<Rightarrow> bool" where
  "codec_ok x c \<longleftrightarrow> inj (x_uuid_str x) \<and> (\<forall>r b. c_encode c r = Inr b \<longrightarrow> c_decode c b = Inr r)"

lemma stamp_id [simp]: "r_swap_id (stamp e t r) = r_swap_id r"
  by (simp add: stamp_def)

lemma persist_failed:
  assumes "persist_record x c t pid n fault r d = (Inl e, d')"
  shows "store_get x c j d' = store_get x c j d" and "load_all c d' = load_all c d"
  using assms
  by (auto simp: persist_record_def Let_def load_all_def store_get_write_tmp load_entries_write_tmp
      tmp_not_json split: sum.splits write_fault.splits)

lemma persist_okE:
  assumes "persist_record x c t pid n fault r d = (Inr u, d')"
  obtains b where "c_encode c (stamp (existing_record x c (r_swap_id r) d) t r) = Inr b"
    and "d' = write_file (path_for x (r_swap_id r)) b (remove_file (tmp_path_for x (r_swap_id r) pid n) d)"
  using assms by (auto simp: persist_record_def Let_def split: sum.splits write_fault.splits)

lemma persist_ok:
  assumes c: "codec_ok x c" and p: "persist_record x c t pid n fault r d = (Inr u, d')"
  shows "store_get x c j d' =
    (if j = r_swap_id r then Inr (Some (stamp (existing_record x c j d) t r)) else store_get x c j d)"
proof -
  from p obtain b where e: "c_encode c (stamp (existing_record x c (r_swap_id r) d) t r) = Inr b"
    and d': "d' = write_file (path_for x (r_swap_id r)) b (remove_file (tmp_path_for x (r_swap_id r) pid n) d)"
    by (rule persist_okE)
  have "path_for x j \<noteq> tmp_path_for x (r_swap_id r) pid n"
    using tmp_not_path [of x "r_swap_id r" pid n j] by simp
  moreover have "path_for x j = path_for x (r_swap_id r) \<longleftrightarrow> j = r_swap_id r"
    using c by (simp add: codec_ok_def path_for_inj)
  moreover have "c_decode c b = Inr (stamp (existing_record x c (r_swap_id r) d) t r)"
    using c e by (simp add: codec_ok_def)
  ultimately show ?thesis
    by (simp add: store_get_def d' lookup_write_file lookup_remove_file)
qed

lemma persist_NoFault:
  "c_encode c (stamp (existing_record x c (r_swap_id r) d) t r) = Inr b
   \<Longrightarrow> fst (persist_record x c t pid n NoFault r d) = Inr ()"
  by (simp add: persist_record_def Let_def)

subsection \<open>A durable map\<close>

text \<open>
  What the drivers rely on: a write that reports success replaces one entry, a write that fails
  replaces none. \<open>sound\<close> is what the laws need of the encoding, and \<open>seal\<close> what the store itself
  adds to an entry, given the one it replaces.
\<close>

locale durable_map =
  fixes sound :: bool
    and look :: "'d \<Rightarrow> 'k \<Rightarrow> 'r option"
    and keep :: "'w \<Rightarrow> 'r \<Rightarrow> 'd \<Rightarrow> bool \<times> 'd"
    and key :: "'r \<Rightarrow> 'k"
    and seal :: "'w \<Rightarrow> 'r option \<Rightarrow> 'r \<Rightarrow> 'r"
  assumes keep_ok: "sound \<Longrightarrow> keep w r d = (True, d')
      \<Longrightarrow> look d' = (look d)(key r \<mapsto> seal w (look d (key r)) r)"
    and keep_fail: "keep w r d = (False, d') \<Longrightarrow> look d' = look d"
begin

text \<open>A marker \<open>P\<close> on the entry \<open>k\<close> outlives every write of an entry that carries it.\<close>

lemma marker_survives:
  assumes sound and "look d k = Some r0" and "P r0"
    and "\<And>e. key r = k \<Longrightarrow> P (seal w e r)"
  shows "\<exists>r1. look (snd (keep w r d)) k = Some r1 \<and> P r1"
proof (cases "keep w r d")
  case (Pair ok d')
  then show ?thesis
    using keep_ok [of w r d d'] keep_fail [of w r d d'] assms by (cases ok) auto
qed

lemma keep_other:
  assumes sound and "key r \<noteq> k"
  shows "look (snd (keep w r d)) k = look d k"
proof (cases "keep w r d")
  case (Pair ok d')
  then show ?thesis
    using keep_ok [of w r d d'] keep_fail [of w r d d'] assms by (cases ok) auto
qed

end

text \<open>The readable content of the directory, and one write with its circumstances.\<close>

definition contents :: "ext \<Rightarrow> 'c codec \<Rightarrow> dir \<Rightarrow> uuid \<Rightarrow> 'c swap_record option" where
  "contents x c d swap_id = existing_record x c swap_id d"

record circumstances =
  at_unix :: u64
  at_pid :: nat
  at_seq :: nat
  at_fault :: write_fault

definition put_at :: "ext \<Rightarrow> 'c codec \<Rightarrow> circumstances \<Rightarrow> 'c swap_record \<Rightarrow> dir \<Rightarrow> bool \<times> dir" where
  "put_at x c w r d =
     (case store_put x c (at_unix w) (at_pid w) (at_seq w) (at_fault w) r d of (res, d') \<Rightarrow> (is_ok res, d'))"

definition seal_at :: "circumstances \<Rightarrow> 'c swap_record option \<Rightarrow> 'c swap_record \<Rightarrow> 'c swap_record" where
  "seal_at w e r = stamp e (at_unix w) r"

lemma contents_put_ok:
  assumes "codec_ok x c" and "persist_record x c t pid n fault r d = (Inr u, d')"
  shows "contents x c d' = (contents x c d)(r_swap_id r \<mapsto> stamp (contents x c d (r_swap_id r)) t r)"
  by (rule ext) (simp add: contents_def existing_record_def persist_ok [OF assms])

lemma contents_put_fail:
  "persist_record x c t pid n fault r d = (Inl e, d') \<Longrightarrow> contents x c d' = contents x c d"
  by (rule ext) (simp add: contents_def existing_record_def persist_failed(1))

interpretation json: durable_map "codec_ok x c" "contents x c" "put_at x c" r_swap_id seal_at for x c
proof unfold_locales
  show "contents x c d' = (contents x c d)(r_swap_id r \<mapsto> seal_at w (contents x c d (r_swap_id r)) r)"
    if "codec_ok x c" and "put_at x c w r d = (True, d')" for w and r :: "'a swap_record" and d d'
    using that
    by (auto simp: put_at_def store_put_def seal_at_def is_ok_iff contents_put_ok split: prod.splits)
  show "contents x c d' = contents x c d"
    if "put_at x c w r d = (False, d')" for w and r :: "'a swap_record" and d d'
  proof -
    from that obtain e where
      "persist_record x c (at_unix w) (at_pid w) (at_seq w) (at_fault w) r d = (Inl e, d')"
      by (auto simp: put_at_def store_put_def is_ok_def split: prod.splits sum.splits)
    then show ?thesis by (rule contents_put_fail)
  qed
qed

subsection \<open>Pruning and enumeration\<close>

lemma prune_entries_eq:
  "prune_entries x c retain fs n =
     (n + length (filter (prunable x c retain) fs), filter (\<lambda>f. \<not> prunable x c retain f) fs)"
  by (induction fs arbitrary: n) auto

lemma prunable_record:
  "prunable x c retain f \<Longrightarrow> \<exists>r. c_decode c (f_bytes f) = Inr r \<and> safe_to_prune x r"
  by (auto simp: prunable_def split: if_splits sum.splits)

lemma safe_to_prune_terminal: "safe_to_prune x r \<Longrightarrow> is_terminal (r_state r)"
  by (auto simp: safe_to_prune_def split: if_splits swap_state.splits)

lemma load_active_prune: "load_active c (filter (\<lambda>f. \<not> prunable x c retain f) d) = load_active c d"
proof (induction d)
  case (Cons f d)
  show ?case
  proof (cases "prunable x c retain f")
    case True
    then obtain r where "c_decode c (f_bytes f) = Inr r" and "is_terminal (r_state r)"
      using prunable_record safe_to_prune_terminal by blast
    with True Cons show ?thesis by (simp add: load_active_def load_all_def)
  next
    case False
    with Cons show ?thesis by (simp add: load_active_def load_all_def split: sum.split)
  qed
qed simp

lemma load_all_checked_Inr:
  "load_all_checked c d = Inr rs \<Longrightarrow> rs = load_all c d \<and>
     (\<forall>f\<in>set d. has_json_extension (f_name f) \<longrightarrow> f_readable f \<and> is_ok (c_decode c (f_bytes f)))"
proof (induction d arbitrary: rs)
  case (Cons f d)
  then show ?case
    by (cases "c_decode c (f_bytes f)")
      (auto simp: load_all_def try_bind_def map_err_def split: if_splits sum.splits)
qed (simp add: load_all_def)

lemma load_all_checked_complete:
  "\<forall>f\<in>set d. has_json_extension (f_name f) \<longrightarrow> f_readable f \<and> is_ok (c_decode c (f_bytes f))
   \<Longrightarrow> load_all_checked c d = Inr (load_all c d)"
  by (induction d) (auto simp: load_all_def is_ok_iff)

subsection \<open>A concrete encoding\<close>

text \<open>
  Records that differ from a sample only in their funding intent, encoded by its height in unary:
  enough to show that the hypothesis about the encoding can hold.
\<close>

definition marked :: "u32 option \<Rightarrow> unit swap_record" where
  "marked h = new_progress\<lparr>r_created_at_unix := 5, r_cap_contract := Some (), r_funding_intent_at_height := h\<rparr>"

definition sample_codec :: "unit codec" where
  "sample_codec =
     \<lparr>c_encode = (\<lambda>r. if r = marked (r_funding_intent_at_height r)
                     then Inr (case r_funding_intent_at_height r of None \<Rightarrow> [] | Some h \<Rightarrow> replicate (Suc (unat h)) 1)
                     else Inl ''not a sample''),
      c_decode = (\<lambda>b. Inr (marked (if b = [] then None else Some (word_of_nat (length b - 1)))))\<rparr>"

lemma sample_codec_ok: "codec_ok sample_ext sample_codec"
proof -
  have "c_decode sample_codec b = Inr r" if "c_encode sample_codec r = Inr b" for r b
    using that by (cases "r_funding_intent_at_height r") (auto simp: sample_codec_def split: if_splits)
  then show ?thesis by (simp add: codec_ok_def sample_ext_def inj_show_u)
qed

definition calm :: circumstances where
  "calm = \<lparr>at_unix = 9, at_pid = 1, at_seq = 0, at_fault = NoFault\<rparr>"

lemmas sample_store_defs = marked_def sample_codec_def calm_def new_progress_def RECORD_VERSION_def
  stamp_def store_put_def store_mutate_def persist_record_def

subsection \<open>Properties\<close>



text \<open>A write is atomic: wherever it stops (the temporary file cannot be opened, is written only in
  part, cannot be synced or renamed, or the record does not serialise) every record reads exactly as
  before and the set of records a restart resumes is the same; it reports success only when no step
  failed.\<close>

theorem failed_put_changes_no_record:
  "case store_put x c t pid n fault r d of
     (Inl _, d') \<Rightarrow> (\<forall>j. store_get x c j d' = store_get x c j d) \<and> load_all c d' = load_all c d
       \<and> load_active c d' = load_active c d
   | (Inr _, _) \<Rightarrow> fault = NoFault"
proof (cases "store_put x c t pid n fault r d")
  case (Pair res d')
  show ?thesis
  proof (cases res)
    case (Inl e)
    then have p: "persist_record x c t pid n fault r d = (Inl e, d')"
      using Pair by (simp add: store_put_def)
    show ?thesis
      using Pair Inl persist_failed(1) [OF p] persist_failed(2) [OF p] by (simp add: load_active_def)
  next
    case (Inr u)
    then show ?thesis
      using Pair by (auto simp: store_put_def persist_record_def Let_def split: sum.splits write_fault.splits)
  qed
qed

text \<open>A read-modify-write applies its function to the record that is on disk at that moment, not to
  the caller's copy, writes nothing when the record is gone, and leaves every other swap alone.\<close>

theorem mutate_applies_to_stored_record:
  assumes "codec_ok x c" and "\<And>r. r_swap_id (f r) = r_swap_id r"
    and "store_mutate x c t pid n fault i f d = (Inr found, d')"
    and "case contents x c d i of None \<Rightarrow> True | Some r \<Rightarrow> r_swap_id r = i"
  shows "contents x c d' =
    (case contents x c d i of None \<Rightarrow> contents x c d
     | Some r \<Rightarrow> (contents x c d)(i \<mapsto> stamp (Some r) t (f r)))
    \<and> found = (contents x c d i \<noteq> None)"
proof (cases "store_get x c i d")
  case (Inl e)
  with assms(3) show ?thesis by (simp add: store_mutate_def)
next
  case (Inr s)
  then have here: "contents x c d i = s" by (simp add: contents_def existing_record_def)
  show ?thesis
  proof (cases s)
    case None
    with assms(3) Inr here show ?thesis by (simp add: store_mutate_def)
  next
    case (Some r)
    then have "r_swap_id (f r) = i" using assms(2,4) here by simp
    moreover obtain u where "persist_record x c t pid n fault (f r) d = (Inr u, d')" and "found"
      using assms(3) Inr Some by (auto simp: store_mutate_def split: prod.splits sum.splits)
    ultimately show ?thesis
      using contents_put_ok [OF assms(1), of t pid n fault "f r" d u d'] here Some by simp
  qed
qed

theorem mutate_applies_to_stored_record_witness:
  "contents sample_ext sample_codec
     (snd (store_mutate sample_ext sample_codec 9 1 0 NoFault 0 (\<lambda>r. r\<lparr>r_funding_intent_at_height := Some 4\<rparr>)
       (snd (store_put sample_ext sample_codec 9 1 0 NoFault (marked (Some 3)) [])))) 0
   = Some (marked (Some 4))"
proof -
  let ?d = "snd (store_put sample_ext sample_codec 9 1 0 NoFault (marked (Some 3)) [])"
  let ?f = "\<lambda>r. r\<lparr>r_funding_intent_at_height := Some (4 :: u32)\<rparr> :: unit swap_record"
  have d: "contents sample_ext sample_codec ?d 0 = Some (marked (Some 3))"
    by (simp add: sample_store_defs contents_def existing_record_def store_get_def path_for_def
        tmp_path_for_def write_file_def remove_file_def lookup_file_def)
  have m: "store_mutate sample_ext sample_codec 9 1 0 NoFault 0 ?f ?d
      = (Inr True, snd (store_mutate sample_ext sample_codec 9 1 0 NoFault 0 ?f ?d))"
    by (simp add: sample_store_defs store_get_def path_for_def
        tmp_path_for_def write_file_def remove_file_def lookup_file_def)
  have "contents sample_ext sample_codec (snd (store_mutate sample_ext sample_codec 9 1 0 NoFault 0 ?f ?d)) =
      (contents sample_ext sample_codec ?d)(0 \<mapsto> stamp (Some (marked (Some 3))) 9 (?f (marked (Some 3))))"
    using mutate_applies_to_stored_record [OF sample_codec_ok _ m] d
    by (simp add: marked_def new_progress_def)
  then show ?thesis by (simp add: sample_store_defs)
qed

text \<open>Pruning only removes records whose outcome is settled: what it removes was claimed, refunded
  or expired with no funds at risk, has no hold invoice still being created and is old enough; an
  unreadable or unparsable file stays; the count it returns is the number of files removed; and the
  swaps a restart would resume are unchanged.\<close>

theorem prune_removes_only_settled_records:
  "case prune_terminal x c retain d of (n, d') \<Rightarrow>
     n + length d' = length d \<and> load_active c d' = load_active c d
     \<and> d' = filter (\<lambda>f. \<not> (case c_decode c (f_bytes f) of Inl _ \<Rightarrow> False
            | Inr r \<Rightarrow> has_json_extension (f_name f) \<and> f_readable f \<and> f_removable f
                \<and> (\<exists>a\<ge>retain. f_age f = Some a)
                \<and> r_updated_at_unix r \<noteq> 0 \<and> r_pending_hold_invoice r = None
                \<and> (r_state r = Claimed \<or> r_state r = Refunded \<or> r_state r = Expired \<and> \<not> funds_at_risk x r))) d"
proof -
  have e: "(\<lambda>f. \<not> prunable x c retain f) = (\<lambda>f. \<not> (case c_decode c (f_bytes f) of Inl _ \<Rightarrow> False
            | Inr r \<Rightarrow> has_json_extension (f_name f) \<and> f_readable f \<and> f_removable f
                \<and> (\<exists>a\<ge>retain. f_age f = Some a)
                \<and> r_updated_at_unix r \<noteq> 0 \<and> r_pending_hold_invoice r = None
                \<and> (r_state r = Claimed \<or> r_state r = Refunded \<or> r_state r = Expired \<and> \<not> funds_at_risk x r)))"
    by (rule ext)
      (auto simp: prunable_def safe_to_prune_def split: sum.splits option.splits swap_state.splits)
  show ?thesis
    unfolding e [symmetric] prune_terminal_def prune_entries_eq
    by (simp add: load_active_prune sum_length_filter_compl)
qed

text \<open>The enumeration used before admitting a swap is complete or an error: it succeeds exactly
  when every record file can be read and parsed, and then returns what the tolerant enumeration
  returns with nothing skipped.\<close>

theorem checked_enumeration_is_complete:
  "case load_all_checked c d of
     Inr rs \<Rightarrow> rs = load_all c d \<and> length rs = length (filter (has_json_extension \<circ> f_name) d)
   | Inl _ \<Rightarrow> (\<exists>f. f \<in> set d \<and> has_json_extension (f_name f)
                  \<and> (f_readable f = False \<or> is_ok (c_decode c (f_bytes f)) = False))"
proof (cases "load_all_checked c d")
  case (Inl e)
  then show ?thesis using load_all_checked_complete [of d c] by fastforce
next
  case (Inr rs)
  have "length (load_all c d) = length (filter (has_json_extension \<circ> f_name) d)"
    if "\<forall>f\<in>set d. has_json_extension (f_name f) \<longrightarrow> f_readable f \<and> is_ok (c_decode c (f_bytes f))" for d
    using that by (induction d) (auto simp: load_all_def is_ok_iff)
  then show ?thesis using load_all_checked_Inr [OF Inr] Inr by simp
qed

text \<open>The list of our own claims and refunds stays bounded and without repeats, whatever is noted:
  the newest is always recognised afterwards, only the oldest is ever dropped, and only when the list
  is full.\<close>

theorem noted_spend_is_recognised:
  assumes "length (r_our_spend_txids r) \<le> MAX_TRACKED_OUR_SPENDS" and "distinct (r_our_spend_txids r)"
    and "x_txid_parse x (x_txid_str x t) = Some t"
  shows "length (r_our_spend_txids (note_our_spend x t r)) \<le> MAX_TRACKED_OUR_SPENDS
    \<and> distinct (r_our_spend_txids (note_our_spend x t r))
    \<and> t \<in> set (our_spends x (note_our_spend x t r))
    \<and> set (r_our_spend_txids r) \<subseteq> set (r_our_spend_txids (note_our_spend x t r))
        \<union> (if length (r_our_spend_txids r) = MAX_TRACKED_OUR_SPENDS then {hd (r_our_spend_txids r)} else {})
    \<and> funds_at_risk x (note_our_spend x t r)"
proof -
  have "t \<in> set (our_spends x (note_our_spend x t r))"
    using assms(3) by (auto simp: our_spends_def note_our_spend_def Let_def List.map_filter_def)
  moreover have "funds_at_risk x (note_our_spend x t r)"
    by (simp add: funds_at_risk_def note_our_spend_def Let_def)
  moreover have "r_our_spend_txids r \<noteq> []" if "length (r_our_spend_txids r) = 16"
    using that by auto
  ultimately show ?thesis
    using assms(1,2)
    by (cases "r_our_spend_txids r") (auto simp: note_our_spend_def Let_def MAX_TRACKED_OUR_SPENDS_def)
qed

theorem noted_spend_is_recognised_witness:
  "6 \<in> set (our_spends (sample_ext\<lparr>x_txid_parse := (\<lambda>_. Some 6)\<rparr>)
              (note_our_spend (sample_ext\<lparr>x_txid_parse := (\<lambda>_. Some 6)\<rparr>) 6 (marked None)))"
  using noted_spend_is_recognised [of "marked None" "sample_ext\<lparr>x_txid_parse := (\<lambda>_. Some 6)\<rparr>" 6]
  by (simp add: marked_def new_progress_def)

end
