(* ===== verification/Refusals.thy ===== *)
theory Refusals
  imports Messages Effects
begin

text \<open>
  How the provider's handlers fail (\<open>Refusal\<close>, \<open>SwapLookupError\<close>, \<open>ReplyNotSent\<close> of
  \<open>swap-provider/src/lib.rs\<close>): a refusal carries the code the client is told, a lookup says why it
  found nothing, a reply may be lost on its way, anything else is the provider's own failure.
\<close>

datatype lookup_error = LookupNotFound | LookupPending

fun show_lookup_error :: "lookup_error \<Rightarrow> string" where
  "show_lookup_error LookupNotFound = ''unknown swap''"
| "show_lookup_error LookupPending = ''swap admission is persisted; invoice creation is pending''"

datatype handler_error =
    Refusal reject_code string
  | Lookup lookup_error
  | ReplyNotSent string
  | Internal any_error

definition refusal_code :: "handler_error \<Rightarrow> reject_code" where
  "refusal_code e = (case e of Refusal code _ \<Rightarrow> code | _ \<Rightarrow> RcInternalError)"

fun show_handler_error :: "handler_error \<Rightarrow> string" where
  "show_handler_error (Refusal code reason) = reason"
| "show_handler_error (Lookup e) = show_lookup_error e"
| "show_handler_error (ReplyNotSent e) = ''reply not sent: '' @ e"
| "show_handler_error (Internal e) = show_any_error e"

definition is_reply_not_sent :: "handler_error \<Rightarrow> bool" where
  "is_reply_not_sent e = (case e of ReplyNotSent _ \<Rightarrow> True | _ \<Rightarrow> False)"

end
