(* ===== verification/Reorg.thy ===== *)
theory Reorg
  imports Effects
begin

text \<open>
  Reorganisation detection and finality: \<open>swap-common/src/reorg.rs\<close>. The monitor's
  \<open>BTreeMap\<close> is the list of its entries in key order.
\<close>

definition FINALITY_DEPTH :: u32 where "FINALITY_DEPTH = 2"
definition WATCHED_DEPTH :: u16 where "WATCHED_DEPTH = 24"

type_synonym checkpoints = "(u32 \<times> block_hash) list"

fun bt_insert :: "u32 \<Rightarrow> block_hash \<Rightarrow> checkpoints \<Rightarrow> checkpoints" where
  "bt_insert k v [] = [(k, v)]"
| "bt_insert k v ((k', v') # m) =
     (if k < k' then (k, v) # (k', v') # m
      else if k = k' then (k, v) # m
      else (k', v') # bt_insert k v m)"

definition bt_extend :: "checkpoints \<Rightarrow> checkpoints \<Rightarrow> checkpoints" where
  "bt_extend m entries = foldl (\<lambda>m (k, v). bt_insert k v m) m entries"

record reorg_monitor =
  rm_checkpoints :: checkpoints
  rm_max_checkpoints :: nat

definition monitor_new :: "nat \<Rightarrow> reorg_monitor" where
  "monitor_new max_checkpoints = \<lparr>rm_checkpoints = [], rm_max_checkpoints = max max_checkpoints 1\<rparr>"

definition window_start :: "u32 \<Rightarrow> u32" where
  "window_start tip = saturating_sub tip (saturating_sub (ucast WATCHED_DEPTH) 1)"

fun number_from :: "u32 \<Rightarrow> nat \<Rightarrow> block_hash list \<Rightarrow> checkpoints" where
  "number_from start i [] = []"
| "number_from start i (h # hs) = (saturating_add start (word_of_nat i), h) # number_from start (Suc i) hs"

definition observed_at :: "u32 \<Rightarrow> block_hash list \<Rightarrow> checkpoints" where
  "observed_at start hashes = bt_extend [] (number_from start 0 hashes)"

text \<open>One checkpoint against the sample: \<open>fork\<close> is the lowest mismatch so far.\<close>

definition compare_checkpoint :: "u32 \<Rightarrow> checkpoints \<Rightarrow> u32 option \<Rightarrow> u32 \<times> block_hash \<Rightarrow> u32 option" where
  "compare_checkpoint tip observed fork entry = (case entry of (height, old_hash) \<Rightarrow>
     let lower = Some (case fork of None \<Rightarrow> height | Some f \<Rightarrow> min f height)
     in if height > tip then lower
        else case map_of observed height of
               Some current \<Rightarrow> if current \<noteq> old_hash then lower else fork
             | None \<Rightarrow> fork)"

definition detect_fork :: "u32 \<Rightarrow> checkpoints \<Rightarrow> checkpoints \<Rightarrow> u32 option" where
  "detect_fork tip observed m = foldl (compare_checkpoint tip observed) None m"

fun trim_lowest :: "nat \<Rightarrow> checkpoints \<Rightarrow> checkpoints" where
  "trim_lowest n [] = []"
| "trim_lowest n (e # m) = (if length (e # m) > n then trim_lowest n m else e # m)"

text \<open>What a sample does to the monitor.\<close>

definition record_sample :: "u32 \<Rightarrow> checkpoints \<Rightarrow> reorg_monitor \<Rightarrow> u32 option \<times> reorg_monitor" where
  "record_sample tip observed m =
     (let fork = detect_fork tip observed (rm_checkpoints m);
          kept = (case fork of None \<Rightarrow> rm_checkpoints m
                  | Some f \<Rightarrow> filter (\<lambda>(h, _). h < f) (rm_checkpoints m))
      in (fork, m\<lparr>rm_checkpoints := trim_lowest (rm_max_checkpoints m) (bt_extend kept observed)\<rparr>))"

definition observe ::
  "'e chain_watcher \<Rightarrow> reorg_monitor \<Rightarrow> ('e, swap_error + (u32 option \<times> reorg_monitor)) act" where
  "observe ch m =
     tryb (tip_height ch) (\<lambda>tip.
     let start = window_start tip in
     tryb (block_hashes_from ch start WATCHED_DEPTH) (\<lambda>hashes.
     ret (Inr (record_sample tip (observed_at start hashes) m))))"

definition checkpoint_count :: "reorg_monitor \<Rightarrow> nat" where
  "checkpoint_count m = length (rm_checkpoints m)"

subsection \<open>The map\<close>

definition bt_ok :: "checkpoints \<Rightarrow> bool" where
  "bt_ok m \<longleftrightarrow> sorted_wrt (<) (map fst m)"

lemma bt_ok_Nil [simp]: "bt_ok []"
  by (simp add: bt_ok_def)

lemma bt_ok_Cons [simp]: "bt_ok (e # m) \<longleftrightarrow> (\<forall>y\<in>fst ` set m. fst e < y) \<and> bt_ok m"
  by (auto simp: bt_ok_def)

lemma set_bt_insert [simp]: "fst ` set (bt_insert k v m) = insert k (fst ` set m)"
  by (induction k v m rule: bt_insert.induct) (simp_all add: insert_commute)

lemma bt_ok_insert: "bt_ok m \<Longrightarrow> bt_ok (bt_insert k v m)"
  by (induction k v m rule: bt_insert.induct) (simp_all, force)

lemma map_of_bt_insert: "bt_ok m \<Longrightarrow> map_of (bt_insert k v m) = (map_of m)(k \<mapsto> v)"
  by (induction k v m rule: bt_insert.induct) (auto simp: fun_eq_iff map_of_eq_None_iff)

lemma bt_extend_ok: "bt_ok m \<Longrightarrow> bt_ok (bt_extend m q)"
  unfolding bt_extend_def by (induction q arbitrary: m) (auto simp: bt_ok_insert)

lemma map_of_bt_extend: "bt_ok m \<Longrightarrow> map_of (bt_extend m q) = map_of m ++ map_of (rev q)"
proof (induction q arbitrary: m)
  case (Cons e q)
  then show ?case
    by (cases e) (auto simp: bt_extend_def bt_ok_insert map_of_bt_insert map_add_def fun_eq_iff split: option.splits)
qed (simp add: bt_extend_def)

lemma bt_ok_filter: "bt_ok m \<Longrightarrow> bt_ok (filter P m)"
  by (induction m) auto

lemma bt_ok_distinct: "bt_ok m \<Longrightarrow> distinct (map fst m)"
  unfolding bt_ok_def using strict_sorted_iff by blast

lemma map_of_rev_ok: "bt_ok m \<Longrightarrow> map_of (rev m) = map_of m"
  by (simp add: map_of_inject_set bt_ok_distinct rev_map [symmetric])

lemma trim_lowest_eq: "trim_lowest n m = drop (length m - n) m"
  by (induction m) (auto simp: Suc_diff_le)

lemma bt_ok_drop: "bt_ok m \<Longrightarrow> bt_ok (drop n m)"
  by (simp add: bt_ok_def drop_map [symmetric] sorted_wrt_drop)

subsection \<open>Detection\<close>

text \<open>A checkpoint contradicts a sample when the chain has become shorter than it, or shows a
  different block there.\<close>

definition contradicts :: "u32 \<Rightarrow> checkpoints \<Rightarrow> u32 \<times> block_hash \<Rightarrow> bool" where
  "contradicts tip observed e \<longleftrightarrow>
     tip < fst e \<or> (\<exists>c. map_of observed (fst e) = Some c \<and> c \<noteq> snd e)"

lemma compare_checkpoint_alt:
  "compare_checkpoint tip observed fork e =
     (if contradicts tip observed e then Some (case fork of None \<Rightarrow> fst e | Some f \<Rightarrow> min f (fst e)) else fork)"
  by (cases e) (auto simp: compare_checkpoint_def contradicts_def Let_def split: option.splits)

lemma detect_fork_from:
  "foldl (compare_checkpoint tip observed) fork m =
     min_opt ((case fork of None \<Rightarrow> [] | Some f \<Rightarrow> [f]) @ map fst (filter (contradicts tip observed) m))"
  by (induction m arbitrary: fork)
    (auto simp: compare_checkpoint_alt min.assoc split: option.splits)

lemma detect_fork_eq:
  "detect_fork tip observed m = min_opt (map fst (filter (contradicts tip observed) m))"
  by (simp add: detect_fork_def detect_fork_from)

lemma min_opt_eq_None: "min_opt (map f (filter P xs)) = None \<longleftrightarrow> filter P xs = []"
  by simp

lemma no_fork_iff:
  "fst (record_sample tip obs m) = None \<longleftrightarrow> filter (contradicts tip obs) (rm_checkpoints m) = []"
  by (simp add: record_sample_def Let_def detect_fork_eq)

lemma fork_below:
  assumes "detect_fork tip obs m = Some f" and "e \<in> set m" and "contradicts tip obs e"
  shows "f \<le> fst e"
proof -
  from assms(1) have "\<forall>v\<in>set (map fst (filter (contradicts tip obs) m)). f \<le> v"
    unfolding detect_fork_eq by (blast dest: min_opt_Some)
  with assms(2,3) show ?thesis by (cases e) auto
qed

definition kept_by :: "u32 \<Rightarrow> checkpoints \<Rightarrow> checkpoints \<Rightarrow> checkpoints" where
  "kept_by tip obs m = (case detect_fork tip obs m of None \<Rightarrow> m | Some f \<Rightarrow> filter (\<lambda>(h, _). h < f) m)"

lemma record_sample_checkpoints:
  "rm_checkpoints (snd (record_sample tip obs m)) =
     trim_lowest (rm_max_checkpoints m) (bt_extend (kept_by tip obs (rm_checkpoints m)) obs)"
  by (simp add: record_sample_def kept_by_def Let_def)

lemma kept_by_ok: "bt_ok m \<Longrightarrow> bt_ok (kept_by tip obs m)"
  by (simp add: kept_by_def bt_ok_filter split: option.split)

lemma kept_agrees: "e \<in> set (kept_by tip obs m) \<Longrightarrow> \<not> contradicts tip obs e"
  by (cases e) (auto simp: kept_by_def detect_fork_eq filter_empty_conv split: option.splits
      dest: fork_below [unfolded detect_fork_eq])

lemma kept_le_tip: "e \<in> set (kept_by tip obs m) \<Longrightarrow> fst e \<le> tip"
  using kept_agrees by (fastforce simp: contradicts_def)

lemma bt_ok_extend_sample: "bt_ok m \<Longrightarrow> bt_ok (bt_extend (kept_by tip obs m) obs)"
  by (intro bt_extend_ok kept_by_ok)

text \<open>What the monitor holds after a sample is the sample laid over what the sample did not
  contradict.\<close>

lemma map_of_merged:
  "bt_ok m \<Longrightarrow> bt_ok obs \<Longrightarrow>
     map_of (bt_extend (kept_by tip obs m) obs) = map_of (kept_by tip obs m) ++ map_of obs"
  by (simp add: map_of_bt_extend kept_by_ok map_of_rev_ok)

lemma merged_entry:
  assumes "bt_ok m" and "bt_ok obs" and "e \<in> set (bt_extend (kept_by tip obs m) obs)"
  shows "e \<in> set obs \<or> e \<in> set (kept_by tip obs m)"
proof -
  have "map_of (bt_extend (kept_by tip obs m) obs) (fst e) = Some (snd e)"
    using assms by (simp add: bt_ok_distinct bt_ok_extend_sample)
  then show ?thesis
    by (auto simp: map_of_merged assms(1,2) map_add_Some_iff dest: map_of_SomeD)
qed

lemma obs_agrees_with_itself:
  "bt_ok obs \<Longrightarrow> e \<in> set obs \<Longrightarrow> fst e \<le> tip \<Longrightarrow> \<not> contradicts tip obs e"
  by (cases e) (auto simp: contradicts_def bt_ok_distinct)

subsection \<open>The sampled window\<close>

lemma window_start_le: "window_start tip \<le> tip"
  by (simp add: window_start_def WATCHED_DEPTH_def word_le_nat_alt unat_saturating_sub)

lemma window_width: "unat tip - unat (window_start tip) \<le> 23"
  by (simp add: window_start_def WATCHED_DEPTH_def unat_saturating_sub)

text \<open>A server that answers with no block above the tip it reported.\<close>

definition within_tip :: "u32 \<Rightarrow> block_hash list \<Rightarrow> bool" where
  "within_tip tip hashes \<longleftrightarrow> length hashes \<le> Suc (unat tip - unat (window_start tip))"

lemma number_from_le:
  "e \<in> set (number_from start i hs) \<Longrightarrow> unat start + i + length hs \<le> Suc (unat tip)
   \<Longrightarrow> start \<le> fst e \<and> fst e \<le> tip"
proof (induction start i hs rule: number_from.induct)
  case (2 start i h hs)
  have i: "unat (word_of_nat i :: u32) = i"
    using 2(3) unat_u32_bound [of tip] by (simp add: unat_of_nat)
  have "start \<le> saturating_add start (word_of_nat i)" "saturating_add start (word_of_nat i) \<le> tip"
    using 2(3) unat_u32_bound [of tip] by (simp_all add: word_le_nat_alt unat_saturating_add i)
  with 2 show ?case by auto
qed simp

lemma observed_at_ok: "bt_ok (observed_at start hashes)"
  by (simp add: observed_at_def bt_extend_ok)

lemma observed_in_window:
  assumes "within_tip tip hashes" and "e \<in> set (observed_at (window_start tip) hashes)"
  shows "window_start tip \<le> fst e \<and> fst e \<le> tip"
proof -
  have "map_of (observed_at (window_start tip) hashes) (fst e) = Some (snd e)"
    using assms(2) by (simp add: observed_at_ok bt_ok_distinct)
  then have "e \<in> set (number_from (window_start tip) 0 hashes)"
    by (auto simp: observed_at_def map_of_bt_extend dest: map_of_SomeD)
  then show ?thesis
    using assms(1) window_start_le [of tip]
    by (intro number_from_le) (auto simp: within_tip_def word_le_nat_alt)
qed

text \<open>The entries at or above a key of a map bounded by the tip are few.\<close>

lemma few_above:
  assumes "bt_ok m" and "i < length m" and "\<forall>e\<in>set m. fst e \<le> tip"
  shows "length m - i \<le> Suc (unat tip - unat (fst (m ! i)))"
proof -
  let ?q = "map (unat \<circ> fst) (drop i m)"
  have sorted: "sorted_wrt (<) (map fst (drop i m))"
    using assms(1) bt_ok_drop [of m i] by (simp add: bt_ok_def)
  have "distinct (map fst (drop i m))"
    using assms(1) by (intro bt_ok_distinct bt_ok_drop)
  then have d: "distinct ?q"
    by (simp add: distinct_map inj_on_def comp_def) (metis word_unat_eq_iff)
  have split: "drop i m = m ! i # drop (Suc i) m"
    using assms(2) by (rule Cons_nth_drop_Suc [symmetric])
  have "set ?q \<subseteq> {unat (fst (m ! i))..unat tip}"
  proof
    fix y assume "y \<in> set ?q"
    then obtain e where e: "e \<in> set (drop i m)" "y = unat (fst e)" by auto
    moreover have "fst (m ! i) \<le> fst e"
      using sorted e(1) by (auto simp: split)
    moreover have "fst e \<le> tip" using assms(3) e(1) by (meson in_set_dropD)
    ultimately show "y \<in> {unat (fst (m ! i))..unat tip}" by (simp add: word_le_nat_alt)
  qed
  then have "card (set ?q) \<le> card {unat (fst (m ! i))..unat tip}" by (rule card_mono [rotated]) simp
  moreover have "card (set ?q) = length m - i" using distinct_card [OF d] by simp
  ultimately show ?thesis by simp
qed

lemma sample_survives_trim:
  assumes "bt_ok m" and "\<forall>e\<in>set m. fst e \<le> tip" and "e \<in> set m" and "window_start tip \<le> fst e"
    and "24 \<le> n"
  shows "e \<in> set (trim_lowest n m)"
proof -
  obtain i where i: "i < length m" "m ! i = e" using assms(3) by (auto simp: in_set_conv_nth)
  have "length m - i \<le> Suc (unat tip - unat (fst e))" using few_above [OF assms(1) i(1) assms(2)] i(2) by simp
  moreover have "unat tip - unat (fst e) \<le> 23"
    using window_width [of tip] assms(4) by (simp add: word_le_nat_alt)
  ultimately have "length m - n \<le> i" using assms(5) by linarith
  with i show ?thesis
    unfolding trim_lowest_eq in_set_conv_nth by (intro exI [of _ "i - (length m - n)"]) auto
qed

subsection \<open>Properties\<close>

definition monitor_ok :: "reorg_monitor \<Rightarrow> bool" where
  "monitor_ok m \<longleftrightarrow> bt_ok (rm_checkpoints m) \<and> length (rm_checkpoints m) \<le> rm_max_checkpoints m"

lemma monitor_new_ok: "monitor_ok (monitor_new n)"
  by (simp add: monitor_ok_def monitor_new_def)

lemma record_sample_ok: "bt_ok (rm_checkpoints m) \<Longrightarrow> monitor_ok (snd (record_sample tip obs m))"
proof -
  assume "bt_ok (rm_checkpoints m)"
  then have "bt_ok (rm_checkpoints (snd (record_sample tip obs m)))"
    by (simp add: record_sample_checkpoints trim_lowest_eq bt_ok_drop bt_ok_extend_sample)
  moreover have "rm_max_checkpoints (snd (record_sample tip obs m)) = rm_max_checkpoints m"
    by (simp add: record_sample_def Let_def)
  ultimately show ?thesis by (simp add: monitor_ok_def record_sample_checkpoints trim_lowest_eq)
qed

lemma sampled_entries:
  assumes "bt_ok (rm_checkpoints m)" and "bt_ok obs"
    and "e \<in> set (rm_checkpoints (snd (record_sample tip obs m)))"
  shows "e \<in> set obs \<or> e \<in> set (kept_by tip obs (rm_checkpoints m))"
proof -
  have "e \<in> set (bt_extend (kept_by tip obs (rm_checkpoints m)) obs)"
    using assms(3) by (simp add: record_sample_checkpoints trim_lowest_eq) (rule in_set_dropD)
  with merged_entry [OF assms(1,2)] show ?thesis by blast
qed

lemma sampled_block_is_kept:
  assumes "bt_ok (rm_checkpoints m)" and "24 \<le> rm_max_checkpoints m" and "within_tip tip hashes"
    and "map_of (observed_at (window_start tip) hashes) h = Some b"
  shows "(h, b) \<in> set (rm_checkpoints (snd (record_sample tip (observed_at (window_start tip) hashes) m)))"
proof -
  let ?obs = "observed_at (window_start tip) hashes"
  let ?m = "bt_extend (kept_by tip ?obs (rm_checkpoints m)) ?obs"
  have "map_of ?m h = Some b"
    using assms(1,4) by (simp add: map_of_merged observed_at_ok)
  moreover have "e \<in> set ?m \<Longrightarrow> fst e \<le> tip" for e
    using merged_entry [OF assms(1) observed_at_ok] observed_in_window [OF assms(3)] kept_le_tip by blast
  moreover have "window_start tip \<le> h"
    using observed_in_window [OF assms(3), of "(h, b)"] map_of_SomeD [OF assms(4)] by simp
  ultimately show ?thesis
    unfolding record_sample_checkpoints
    by (intro sample_survives_trim [where tip = tip])
       (use assms(1,2) in \<open>auto simp: bt_ok_extend_sample dest: map_of_SomeD\<close>)
qed

text \<open>A reorganisation inside the watched window is never missed: if a sample reports nothing, then
  every block the previous sample saw is still on the chain - the tip has not fallen below it, and
  wherever the new sample covers its height it shows the same block.\<close>

theorem silent_sample_means_no_reorg:
  assumes "bt_ok (rm_checkpoints m)" and "24 \<le> rm_max_checkpoints m" and "within_tip tip1 hashes1"
    and "fst (record_sample tip2 (observed_at (window_start tip2) hashes2)
          (snd (record_sample tip1 (observed_at (window_start tip1) hashes1) m))) = None"
    and "map_of (observed_at (window_start tip1) hashes1) h = Some b"
  shows "h \<le> tip2 \<and> (case map_of (observed_at (window_start tip2) hashes2) h of None \<Rightarrow> True | Some b' \<Rightarrow> b' = b)"
proof -
  have "\<not> contradicts tip2 (observed_at (window_start tip2) hashes2) (h, b)"
    using sampled_block_is_kept [OF assms(1-3,5)] assms(4) by (auto simp: no_fork_iff filter_empty_conv)
  then show ?thesis by (auto simp: contradicts_def split: option.split)
qed

definition sampled_once :: reorg_monitor where
  "sampled_once = snd (record_sample 2 (observed_at 0 [7, 8, 9]) (monitor_new 100))"

lemmas sample_monitor_defs = monitor_new_def record_sample_def observed_at_def bt_extend_def
  detect_fork_def compare_checkpoint_def saturating_add_def window_start_def saturating_sub_def
  WATCHED_DEPTH_def word_le_nat_alt word_less_nat_alt within_tip_def Let_def

theorem silent_sample_means_no_reorg_witness:
  "map_of (observed_at (window_start 3) [7, 8, 9, 10]) 1 = Some (8 :: block_hash)"
proof -
  have "(1 :: u32) \<le> 3 \<and> (case map_of (observed_at (window_start 3) [7, 8, 9, 10]) 1 of None \<Rightarrow> True | Some b' \<Rightarrow> b' = (8 :: block_hash))"
    by (rule silent_sample_means_no_reorg [where m = "monitor_new 100" and ?tip1.0 = 2 and ?hashes1.0 = "[7, 8, 9]"])
      (simp_all add: sample_monitor_defs)
  then show ?thesis by (simp add: sample_monitor_defs)
qed

text \<open>A reorganisation is reported at its lowest height and only once: the height reported is the
  lowest checkpoint the new sample contradicts, and taking the same sample again reports nothing.
  The monitor stays sorted and within its bound throughout.\<close>

theorem fork_reported_lowest_and_once:
  assumes "monitor_ok m" and "within_tip tip hashes"
  shows "case record_sample tip (observed_at (window_start tip) hashes) m of (fork, m') \<Rightarrow>
     fork = min_opt (map fst (filter (contradicts tip (observed_at (window_start tip) hashes)) (rm_checkpoints m)))
     \<and> monitor_ok m'
     \<and> fst (record_sample tip (observed_at (window_start tip) hashes) m') = None"
proof -
  let ?obs = "observed_at (window_start tip) hashes"
  have ok: "bt_ok (rm_checkpoints m)" using assms(1) by (simp add: monitor_ok_def)
  have "\<not> contradicts tip ?obs e" if "e \<in> set (rm_checkpoints (snd (record_sample tip ?obs m)))" for e
    using sampled_entries [OF ok observed_at_ok that] kept_agrees
      obs_agrees_with_itself [OF observed_at_ok] observed_in_window [OF assms(2)] by blast
  then have "fst (record_sample tip ?obs (snd (record_sample tip ?obs m))) = None"
    by (simp add: no_fork_iff filter_empty_conv)
  moreover have "fst (record_sample tip ?obs m) = min_opt (map fst (filter (contradicts tip ?obs) (rm_checkpoints m)))"
    by (simp add: record_sample_def Let_def detect_fork_eq)
  ultimately show ?thesis
    using record_sample_ok [OF ok, of tip ?obs] by (cases "record_sample tip ?obs m") simp
qed

theorem fork_reported_lowest_and_once_witness:
  "fst (record_sample 2 (observed_at (window_start 2) [7, 5, 9]) sampled_once) = Some 1"
proof -
  have "case record_sample 2 (observed_at (window_start 2) [7, 5, 9]) sampled_once of (fork, m') \<Rightarrow>
     fork = min_opt (map fst (filter (contradicts 2 (observed_at (window_start 2) [7, 5, 9])) (rm_checkpoints sampled_once)))
     \<and> monitor_ok m' \<and> fst (record_sample 2 (observed_at (window_start 2) [7, 5, 9]) m') = None"
    by (rule fork_reported_lowest_and_once)
      (simp_all add: sampled_once_def record_sample_ok monitor_new_def within_tip_def window_start_def saturating_sub_def WATCHED_DEPTH_def)
  then show ?thesis
    by (simp add: sampled_once_def sample_monitor_defs contradicts_def)
qed

end
