(* ===== verification/Funding.thy ===== *)
theory Funding
  imports Store Reorg Fee_Bump
begin

text \<open>
  Putting a reverse swap's coins into its HTLC exactly once: the funding half of
  \<open>swap-provider/src/reverse.rs\<close> (\<open>establish_funding\<close>, \<open>await_recorded_funding\<close>) and the choice
  between historical outputs of \<open>swap-common/src/chain.rs\<close>.
\<close>

record reverse_swap =
  rv_payment_hash :: payment_hash
  rv_onchain_amount_sat :: u64
  rv_fee_rate_sat_vb :: u64
  rv_htlc_script :: script
  rv_htlc_spk :: script
  rv_taproot :: "taproot_swap option"
  rv_timeout_height :: u32
  rv_refund_key :: secret_key
  rv_invoice :: string
  rv_timelock :: timelock_params

datatype funding_outcome = Funded outpoint | Refused swap_state

subsection \<open>Creating the swap\<close>

definition reverse_invoice_request ::
  "payment_hash \<Rightarrow> u64 \<Rightarrow> u64 \<Rightarrow> u64 \<Rightarrow> timelock_params \<Rightarrow> any_error + hold_invoice_request" where
  "reverse_invoice_request h onchain_amount_sat provider_fee_sat invoice_expiry_secs p =
     try_bind (ok_or (AnyMsg (''invoice amount overflows: '' @ show_u onchain_amount_sat @ '' + ''
                 @ show_u provider_fee_sat @ '' sat''))
         (Option.bind (checked_add onchain_amount_sat provider_fee_sat) (\<lambda>sat. checked_mul sat 1000)))
       (\<lambda>invoice_amount_msat.
     try_bind (map_err (\<lambda>e. AnyMsg (''hold invoice CLTV delta: '' @ show_violation e))
         (reverse_invoice_cltv_delta p))
       (\<lambda>cltv_expiry_delta.
     Inr \<lparr>hr_payment_hash = h, hr_amount_msat = invoice_amount_msat,
          hr_expiry_secs = max invoice_expiry_secs
             (reverse_invoice_min_expiry_secs (tl_required_confirmations p)),
          hr_cltv_expiry_delta = cltv_expiry_delta, hr_memo = ''pubky-swap reverse''\<rparr>))"

definition init_reverse_swap ::
  "ext \<Rightarrow> 'e lightning_backend \<Rightarrow> pubkey \<Rightarrow> secret_key \<Rightarrow> pubkey \<Rightarrow> payment_hash \<Rightarrow> u64 \<Rightarrow> u64 \<Rightarrow> u64
   \<Rightarrow> u32 \<Rightarrow> u64 \<Rightarrow> bitcoin_network \<Rightarrow> timelock_params \<Rightarrow> ('e, any_error + reverse_swap) act" where
  "init_reverse_swap x ln client_claim_pubkey refund_key provider_refund_pubkey h onchain_amount_sat
     provider_fee_sat fee_rate_sat_vb timeout_height invoice_expiry_secs network p =
     (let htlc_script = build_htlc_script x h client_claim_pubkey provider_refund_pubkey timeout_height;
          htlc_spk = x_address_spk x (htlc_p2wsh_address x htlc_script network)
      in case reverse_invoice_request h onchain_amount_sat provider_fee_sat invoice_expiry_secs p of
           Inl e \<Rightarrow> ret (Inl e)
         | Inr req \<Rightarrow>
             trym (\<lambda>e. AnyMsg (''create hold invoice: '' @ show_lightning_error e))
               (create_hold_invoice ln req) (\<lambda>hold.
             ret (Inr \<lparr>rv_payment_hash = h, rv_onchain_amount_sat = onchain_amount_sat,
                  rv_fee_rate_sat_vb = fee_rate_sat_vb, rv_htlc_script = htlc_script,
                  rv_htlc_spk = htlc_spk, rv_taproot = None, rv_timeout_height = timeout_height,
                  rv_refund_key = refund_key, rv_invoice = hi_bolt11 hold, rv_timelock = p\<rparr>)))"

subsection \<open>Choosing among historical outputs\<close>

text \<open>The first candidate whose spend reveals the preimage.\<close>

fun first_revealing ::
  "ext \<Rightarrow> 'e chain_watcher \<Rightarrow> script \<Rightarrow> payment_hash \<Rightarrow> historical_output list
   \<Rightarrow> ('e, swap_error + outpoint option) act" where
  "first_revealing x ch spk h [] = ret (Inr None)"
| "first_revealing x ch spk h (c # cs) =
     tryb (find_spend ch spk (ho_outpoint c)) (\<lambda>spend. case spend of
         None \<Rightarrow> first_revealing x ch spk h cs
       | Some t \<Rightarrow> if extract_preimage x t (ho_outpoint c) h \<noteq> None then ret (Inr (Some (ho_outpoint c)))
                  else first_revealing x ch spk h cs)"

definition select_recorded_funding ::
  "ext \<Rightarrow> 'e chain_watcher \<Rightarrow> script \<Rightarrow> payment_hash \<Rightarrow> u64 \<Rightarrow> historical_output list
   \<Rightarrow> ('e, swap_error + outpoint option) act" where
  "select_recorded_funding x ch spk h expected_sat history =
     (let candidates = funding_candidates expected_sat history
      in case candidates of
           [] \<Rightarrow> ret (Inr None)
         | c # _ \<Rightarrow>
             if length candidates > 1
             then tryb (first_revealing x ch spk h candidates) (\<lambda>found. case found of
                 Some op \<Rightarrow> ret (Inr (Some op))
               | None \<Rightarrow> ret (Inr (Some (ho_outpoint c))))
             else ret (Inr (Some (ho_outpoint c))))"

subsection \<open>Funding once\<close>

text \<open>A failing cancel is only logged.\<close>

definition cancel_hold_invoice :: "'e lightning_backend \<Rightarrow> payment_hash \<Rightarrow> ('e, unit) act" where
  "cancel_hold_invoice ln h = bnd (ln_cancel ln h) (\<lambda>_. ret ())"

definition watch_poll :: "nat \<Rightarrow> nat" where
  "watch_poll poll = (if poll = 0 then poll else max poll 30000)"

fun await_recorded_funding ::
  "nat \<Rightarrow> ext \<Rightarrow> 'e lightning_backend \<Rightarrow> 'e chain_watcher \<Rightarrow> 'e clock \<Rightarrow> reverse_swap \<Rightarrow> nat
   \<Rightarrow> 'e progress_sink \<Rightarrow> ('e, any_error + funding_outcome) act" where
  "await_recorded_funding 0 x ln ch ck swap poll pg = out_of_fuel"
| "await_recorded_funding (Suc n) x ln ch ck swap poll pg =
     trym AnySwap (find_funding ch (rv_htlc_spk swap) (rv_onchain_amount_sat swap)) (\<lambda>found. case found of
       Some u \<Rightarrow> bnd (funded pg (fu_outpoint u)) (\<lambda>_. ret (Inr (Funded (fu_outpoint u))))
     | None \<Rightarrow>
     trym AnySwap (find_historical_outputs ch (rv_htlc_spk swap)) (\<lambda>history.
     trym AnySwap (select_recorded_funding x ch (rv_htlc_spk swap) (rv_payment_hash swap)
         (rv_onchain_amount_sat swap) history) (\<lambda>selected. case selected of
       Some op \<Rightarrow> bnd (funded pg op) (\<lambda>_. ret (Inr (Funded op)))
     | None \<Rightarrow>
     trym AnySwap (tip_height ch) (\<lambda>tip.
       if tip \<ge> rv_timeout_height swap
       then bnd (cancel_hold_invoice ln (rv_payment_hash swap)) (\<lambda>_. ret (Inr (Refused Expired)))
       else bnd (sleep_for ck (watch_poll poll)) (\<lambda>_.
         await_recorded_funding n x ln ch ck swap poll pg)))))"

text \<open>The half of \<open>establish_funding\<close> that commits new funds, once nothing is known to be out.\<close>

definition fund_new ::
  "nat \<Rightarrow> ext \<Rightarrow> 'e lightning_backend \<Rightarrow> 'e chain_watcher \<Rightarrow> 'e onchain_wallet \<Rightarrow> 'e clock \<Rightarrow> reverse_swap
   \<Rightarrow> nat \<Rightarrow> 'e progress_sink \<Rightarrow> ('e, any_error + funding_outcome) act" where
  "fund_new n x ln ch wl ck swap poll pg =
     (let refuse = (\<lambda>reason. bnd (cancel_hold_invoice ln (rv_payment_hash swap))
                      (\<lambda>_. ret (Inr (Refused (Failed reason)))))
      in trym (\<lambda>e. AnyMsg (''invoice status: '' @ show_lightning_error e))
           (invoice_status ln (rv_payment_hash swap)) (\<lambda>status.
         case earliest_htlc_expiry status of
           None \<Rightarrow> refuse ''no held HTLC on an accepted invoice''
         | Some ln_expiry \<Rightarrow>
         trym AnySwap (tip_height ch) (\<lambda>tip.
         case check_reverse_before_fund tip (rv_timeout_height swap) ln_expiry (rv_timelock swap) of
           Inl violation \<Rightarrow> refuse (''timelock violation: '' @ show_violation violation)
         | Inr _ \<Rightarrow>
         bnd (funding_intent pg tip) (\<lambda>intent. case intent of
           Inl e \<Rightarrow> refuse (''could not record the funding intent: '' @ show_any_error e)
         | Inr _ \<Rightarrow>
         bnd (fund_htlc wl (rv_htlc_spk swap) (rv_onchain_amount_sat swap)) (\<lambda>sent. case sent of
           Inr op \<Rightarrow> bnd (funded pg op) (\<lambda>_. ret (Inr (Funded op)))
         | Inl _ \<Rightarrow> await_recorded_funding n x ln ch ck swap poll pg)))))"

definition establish_funding ::
  "nat \<Rightarrow> ext \<Rightarrow> 'e lightning_backend \<Rightarrow> 'e chain_watcher \<Rightarrow> 'e onchain_wallet \<Rightarrow> 'e clock \<Rightarrow> reverse_swap
   \<Rightarrow> resume \<Rightarrow> u32 \<Rightarrow> nat \<Rightarrow> 'e progress_sink \<Rightarrow> ('e, any_error + funding_outcome) act" where
  "establish_funding n x ln ch wl ck swap resume required_confirmations poll pg =
     (case rz_funding resume of
        Some op \<Rightarrow>
          (case rz_reorg_seen_at_height resume of
             None \<Rightarrow> ret (Inr (Funded op))
           | Some fork \<Rightarrow>
               trym AnySwap (find_outputs ch (rv_htlc_spk swap)) (\<lambda>outputs.
               if list_ex (\<lambda>u. fu_outpoint u = op \<and> fu_confirmations u \<ge> required_confirmations) outputs
               then ret (Inr (Funded op))
               else await_recorded_funding n x ln ch ck swap poll pg))
      | None \<Rightarrow>
          trym AnySwap (find_funding ch (rv_htlc_spk swap) (rv_onchain_amount_sat swap)) (\<lambda>found.
          case found of
            Some u \<Rightarrow> bnd (funded pg (fu_outpoint u)) (\<lambda>_. ret (Inr (Funded (fu_outpoint u))))
          | None \<Rightarrow>
              if rz_funding_intent_at_height resume \<noteq> None
              then await_recorded_funding n x ln ch ck swap poll pg
              else fund_new n x ln ch wl ck swap poll pg))"

end
