(* ===== verification/Reverse_Driver.thy ===== *)
theory Reverse_Driver
  imports Funding
begin

text \<open>
  The provider's driver of a reverse swap: \<open>drive_reverse_swap\<close> of
  \<open>swap-provider/src/reverse.rs\<close>, from the hold invoice to a buried claim or a buried refund.
  Its loops are unbounded in the source; each takes the same fuel here.
\<close>

subsection \<open>Waiting for the payment\<close>

text \<open>\<open>None\<close>: the invoice was accepted; \<open>Some\<close>: the swap is over.\<close>

fun await_accepted ::
  "nat \<Rightarrow> 'e lightning_backend \<Rightarrow> 'e chain_watcher \<Rightarrow> 'e clock \<Rightarrow> reverse_swap \<Rightarrow> nat
   \<Rightarrow> ('e, any_error + swap_state option) act" where
  "await_accepted 0 ln ch ck swap poll = out_of_fuel"
| "await_accepted (Suc n) ln ch ck swap poll =
     trym (\<lambda>e. AnyMsg (''invoice state: '' @ show_lightning_error e))
       (invoice_state ln (rv_payment_hash swap)) (\<lambda>state.
       if state = InvAccepted then ret (Inr None)
       else if state = InvSettled then ret (Inr (Some Claimed))
       else if state = InvCancelled then ret (Inr (Some (Failed ''hold invoice cancelled'')))
       else trym AnySwap (tip_height ch) (\<lambda>tip.
         if tip \<ge> rv_timeout_height swap
         then bnd (ln_cancel ln (rv_payment_hash swap)) (\<lambda>_. ret (Inr (Some Expired)))
         else bnd (sleep_for ck poll) (\<lambda>_. await_accepted n ln ch ck swap poll)))"

subsection \<open>The refund\<close>

definition refund_vsize :: "ext \<Rightarrow> reverse_swap \<Rightarrow> script \<Rightarrow> u64" where
  "refund_vsize x swap dest =
     (case rv_taproot swap of
        None \<Rightarrow> spend_vsize (rv_htlc_script swap) dest False
      | Some contract \<Rightarrow> taproot_spend_vsize x contract dest False)"

definition refund_builder ::
  "ext \<Rightarrow> reverse_swap \<Rightarrow> outpoint \<Rightarrow> script \<Rightarrow> u64 \<Rightarrow> swap_error + transaction" where
  "refund_builder x swap op dest rate =
     (case rv_taproot swap of
        Some contract \<Rightarrow> taproot_refund_tx x contract op (rv_onchain_amount_sat swap) dest
          (estimate_spend_fee rate (refund_vsize x swap dest)) (rv_refund_key swap)
      | None \<Rightarrow> build_refund_tx x op (rv_onchain_amount_sat swap) (rv_htlc_script swap) dest
          (estimate_spend_fee rate (refund_vsize x swap dest)) (rv_timeout_height swap) (rv_refund_key swap))"

definition refund_watch :: "ext \<Rightarrow> reverse_swap \<Rightarrow> resume \<Rightarrow> nat \<Rightarrow> script \<Rightarrow> spend_watch_config" where
  "refund_watch x swap resume poll dest =
     with_known_ours
       (refund_config REFUND_FEE_TARGET_BLOCKS (rv_fee_rate_sat_vb swap)
          (fee_rate_cap (rv_onchain_amount_sat swap) (refund_vsize x swap dest) DEFAULT_MAX_FEE_BPS
             ABSOLUTE_MAX_FEE_RATE_SAT_VB (rv_fee_rate_sat_vb swap))
          poll FINALITY_DEPTH)
       (rz_our_spends resume)"

subsection \<open>One pass over a funded HTLC\<close>

text \<open>The claimable hint: asked for and not yet given, it is given once the funding is deep.\<close>

definition hint_step ::
  "'e chain_watcher \<Rightarrow> 'e progress_sink \<Rightarrow> reverse_swap \<Rightarrow> u32 \<Rightarrow> outpoint \<Rightarrow> transaction option \<Rightarrow> bool
   \<Rightarrow> ('e, bool) act" where
  "hint_step ch pg swap required_confirmations op spend hint_due =
     (if hint_due \<and> spend = None
      then bnd (tx_confirmations ch (rv_htlc_spk swap) (op_txid op)) (\<lambda>confs. case confs of
          Inl _ \<Rightarrow> ret hint_due
        | Inr None \<Rightarrow> ret hint_due
        | Inr (Some c) \<Rightarrow>
            if c \<ge> max required_confirmations 1
            then bnd (claimable pg op) (\<lambda>_. ret False)
            else ret hint_due)
      else ret (if spend \<noteq> None then False else hint_due))"

text \<open>A visible claim: settle the invoice from it, and finish once it is buried.\<close>

definition settle_from ::
  "ext \<Rightarrow> 'e lightning_backend \<Rightarrow> 'e progress_sink \<Rightarrow> transaction \<Rightarrow> preimage \<Rightarrow> bool \<Rightarrow> ('e, bool) act" where
  "settle_from x ln pg t preimage settled =
     (if settled then ret True
      else bnd (claim_observed pg (x_txid x t)) (\<lambda>_.
           bnd (settle_hold_invoice ln preimage) (\<lambda>r. case r of Inr _ \<Rightarrow> ret True | Inl _ \<Rightarrow> ret False)))"

definition claim_step ::
  "ext \<Rightarrow> 'e lightning_backend \<Rightarrow> 'e chain_watcher \<Rightarrow> 'e progress_sink \<Rightarrow> reverse_swap \<Rightarrow> outpoint
   \<Rightarrow> transaction option \<Rightarrow> bool \<Rightarrow> ('e, any_error + bool \<times> bool) act" where
  "claim_step x ln ch pg swap op spend settled =
     (case spend of
        None \<Rightarrow> ret (Inr (settled, False))
      | Some t \<Rightarrow>
          (case extract_preimage x t op (rv_payment_hash swap) of
             None \<Rightarrow> ret (Inr (settled, False))
           | Some preimage \<Rightarrow>
               bnd (settle_from x ln pg t preimage settled) (\<lambda>settled.
               if settled
               then trym AnySwap (tx_confirmations ch (rv_htlc_spk swap) (x_txid x t)) (\<lambda>confs.
                      ret (Inr (settled, case confs of None \<Rightarrow> False | Some c \<Rightarrow> c \<ge> FINALITY_DEPTH)))
               else ret (Inr (settled, False)))))"

text \<open>The timeout is here and nobody claimed: refund. True once the refund is buried.\<close>

definition refund_step ::
  "nat \<Rightarrow> ext \<Rightarrow> 'e lightning_backend \<Rightarrow> 'e chain_watcher \<Rightarrow> 'e onchain_wallet \<Rightarrow> 'e clock \<Rightarrow> 'e progress_sink
   \<Rightarrow> reverse_swap \<Rightarrow> resume \<Rightarrow> nat \<Rightarrow> outpoint \<Rightarrow> script \<Rightarrow> ('e, any_error + bool) act" where
  "refund_step n x ln ch wl ck pg swap resume poll op dest =
     trym (\<lambda>e. AnyMsg (''refund broadcast/bump: '' @ show_swap_error e))
       (confirm_or_bump n x ch ck (rv_htlc_spk swap) op (refund_watch x swap resume poll dest)
          (Some (cpfp_child wl)) (spend_broadcast pg) (refund_builder x swap op dest))
       (\<lambda>outcome. case outcome of
          Confirmed _ \<Rightarrow> bnd (ln_cancel ln (rv_payment_hash swap)) (\<lambda>_. ret (Inr True))
        | ConflictingSpend _ \<Rightarrow> bnd (sleep_for ck poll) (\<lambda>_. ret (Inr False))
        | DeadlineExceeded _ _ \<Rightarrow> bnd (sleep_for ck poll) (\<lambda>_. ret (Inr False)))"

fun watch_htlc ::
  "nat \<Rightarrow> nat \<Rightarrow> ext \<Rightarrow> 'e lightning_backend \<Rightarrow> 'e chain_watcher \<Rightarrow> 'e onchain_wallet \<Rightarrow> 'e clock
   \<Rightarrow> 'e progress_sink \<Rightarrow> reverse_swap \<Rightarrow> resume \<Rightarrow> u32 \<Rightarrow> nat \<Rightarrow> outpoint \<Rightarrow> script \<Rightarrow> bool \<Rightarrow> bool
   \<Rightarrow> ('e, any_error + swap_state) act" where
  "watch_htlc 0 fuel x ln ch wl ck pg swap resume required_confirmations poll op dest settled hint_due = out_of_fuel"
| "watch_htlc (Suc n) fuel x ln ch wl ck pg swap resume required_confirmations poll op dest settled hint_due =
     trym AnySwap (find_spend ch (rv_htlc_spk swap) op) (\<lambda>spend.
     bnd (hint_step ch pg swap required_confirmations op spend hint_due) (\<lambda>hint_due.
     tryb (claim_step x ln ch pg swap op spend settled) (\<lambda>(settled, buried).
     if buried then ret (Inr Claimed)
     else trym AnySwap (tip_height ch) (\<lambda>tip.
       if tip \<ge> rv_timeout_height swap \<and> \<not> settled
       then tryb (refund_step fuel x ln ch wl ck pg swap resume poll op dest) (\<lambda>refunded.
              if refunded then ret (Inr Refunded)
              else watch_htlc n fuel x ln ch wl ck pg swap resume required_confirmations poll op dest settled hint_due)
       else bnd (sleep_for ck poll) (\<lambda>_.
              watch_htlc n fuel x ln ch wl ck pg swap resume required_confirmations poll op dest settled hint_due)))))"

subsection \<open>The driver\<close>

definition may_have_funded :: "resume \<Rightarrow> bool" where
  "may_have_funded resume \<longleftrightarrow> rz_funding resume \<noteq> None \<or> rz_funding_intent_at_height resume \<noteq> None"

text \<open>From the funded outpoint on.\<close>

definition watch_funded ::
  "nat \<Rightarrow> ext \<Rightarrow> 'e lightning_backend \<Rightarrow> 'e chain_watcher \<Rightarrow> 'e onchain_wallet \<Rightarrow> 'e clock \<Rightarrow> reverse_swap
   \<Rightarrow> u32 \<Rightarrow> nat \<Rightarrow> resume \<Rightarrow> 'e progress_sink \<Rightarrow> outpoint \<Rightarrow> ('e, any_error + swap_state) act" where
  "watch_funded fuel x ln ch wl ck swap required_confirmations poll resume pg op =
     bnd (wants_claimable pg) (\<lambda>hint_due.
     bnd (receive_destination wl) (\<lambda>dest.
     watch_htlc fuel fuel x ln ch wl ck pg swap resume required_confirmations poll op dest False hint_due))"

definition drive_reverse_swap ::
  "nat \<Rightarrow> ext \<Rightarrow> 'e lightning_backend \<Rightarrow> 'e chain_watcher \<Rightarrow> 'e onchain_wallet \<Rightarrow> 'e clock \<Rightarrow> reverse_swap
   \<Rightarrow> u32 \<Rightarrow> nat \<Rightarrow> resume \<Rightarrow> 'e progress_sink \<Rightarrow> ('e, any_error + swap_state) act" where
  "drive_reverse_swap fuel x ln ch wl ck swap required_confirmations poll resume pg =
     tryb (if may_have_funded resume then ret (Inr None) else await_accepted fuel ln ch ck swap poll)
       (\<lambda>over. case over of
          Some state \<Rightarrow> ret (Inr state)
        | None \<Rightarrow>
            tryb (establish_funding fuel x ln ch wl ck swap resume required_confirmations poll pg)
              (\<lambda>outcome. case outcome of
                 Refused state \<Rightarrow> ret (Inr state)
               | Funded op \<Rightarrow> watch_funded fuel x ln ch wl ck swap required_confirmations poll resume pg op))"

end
