(* ===== verification/Reverse_Safety.thy ===== *)
theory Reverse_Safety
  imports Reverse_Driver Spend_Safety
begin

text \<open>
  What the reverse driver never does, whatever its backends answer: fund twice or without the
  gates, settle without the preimage of an observed claim, refund before the timeout or after
  settling, cancel an invoice whose HTLC may still be claimed. Each is a condition on the
  events of its conversation, proved for all of its parts.
\<close>

subsection \<open>Conditions on events\<close>

definition settled_in :: "event list \<Rightarrow> bool" where
  "settled_in l \<longleftrightarrow> (\<exists>pre. LnSettle pre (Inr ()) \<in> set l)"

definition known_funding :: "resume \<Rightarrow> outpoint \<Rightarrow> event list \<Rightarrow> bool" where
  "known_funding z op l \<longleftrightarrow> rz_funding z = Some op \<or> PFunded op \<in> set l"

definition timed_out :: "reverse_swap \<Rightarrow> event list \<Rightarrow> bool" where
  "timed_out s l \<longleftrightarrow> (\<exists>tip. ChTip (Inr tip) \<in> set l \<and> rv_timeout_height s \<le> tip)"

definition no_funding_call :: "event list \<Rightarrow> bool" where
  "no_funding_call l \<longleftrightarrow> (\<forall>spk v r. WFundHtlc spk v r \<notin> set l)"

text \<open>Funding: only on a fresh swap, once, right after the intent was recorded at the tip that
  passed the timelock gate against the Lightning expiry just read.\<close>

definition fund_guard :: "reverse_swap \<Rightarrow> resume \<Rightarrow> event list \<Rightarrow> event \<Rightarrow> bool" where
  "fund_guard s z p e = (case e of
     WFundHtlc spk v _ \<Rightarrow>
       \<not> may_have_funded z \<and> spk = rv_htlc_spk s \<and> v = rv_onchain_amount_sat s \<and> no_funding_call p
       \<and> LnInvoiceState (rv_payment_hash s) (Inr InvAccepted) \<in> set p
       \<and> (\<exists>p0 st le tip. p = p0 @ [LnInvoiceStatus (rv_payment_hash s) (Inr st), ChTip (Inr tip), PFundingIntent tip (Inr ())]
            \<and> earliest_htlc_expiry st = Some le
            \<and> check_reverse_before_fund tip (rv_timeout_height s) le (rv_timelock s) = Inr ())
   | _ \<Rightarrow> True)"

definition settle_guard :: "ext \<Rightarrow> reverse_swap \<Rightarrow> resume \<Rightarrow> event list \<Rightarrow> event \<Rightarrow> bool" where
  "settle_guard x s z p e = (case e of
     LnSettle pre _ \<Rightarrow> \<not> settled_in p
       \<and> (\<exists>op t. known_funding z op p \<and> ChFindSpend op (Inr (Some t)) \<in> set p
            \<and> extract_preimage x t op (rv_payment_hash s) = Some pre
            \<and> p \<noteq> [] \<and> last p = PClaimObserved (x_txid x t))
   | _ \<Rightarrow> True)"

definition refund_guard :: "ext \<Rightarrow> reverse_swap \<Rightarrow> resume \<Rightarrow> event list \<Rightarrow> event \<Rightarrow> bool" where
  "refund_guard x s z p e = (case e of
     ChBroadcast t _ \<Rightarrow> timed_out s p \<and> \<not> settled_in p \<and> p \<noteq> [] \<and> last p = PSpendBroadcast (x_txid x t)
       \<and> (\<exists>op i. known_funding z op p \<and> tx_input t = [i] \<and> in_previous_output i = op)
   | _ \<Rightarrow> True)"

definition cancel_guard :: "reverse_swap \<Rightarrow> resume \<Rightarrow> event list \<Rightarrow> event \<Rightarrow> bool" where
  "cancel_guard s z p e = (case e of
     LnCancel h _ \<Rightarrow> h = rv_payment_hash s \<and> \<not> settled_in p \<and>
       ((\<exists>i c. p \<noteq> [] \<and> last p = ChConfirmations i (Inr (Some c)) \<and> FINALITY_DEPTH \<le> c)
        \<or> (\<forall>op. PFunded op \<notin> set p) \<and> (\<forall>spk v op. WFundHtlc spk v (Inr op) \<notin> set p)
          \<and> (\<not> may_have_funded z \<and> no_funding_call p \<or> timed_out s p))
   | _ \<Rightarrow> True)"

definition reverse_guard :: "ext \<Rightarrow> reverse_swap \<Rightarrow> resume \<Rightarrow> event list \<Rightarrow> event \<Rightarrow> bool" where
  "reverse_guard x s z p e \<longleftrightarrow>
     fund_guard s z p e \<and> settle_guard x s z p e \<and> refund_guard x s z p e \<and> cancel_guard s z p e"

lemmas guard_defs = reverse_guard_def fund_guard_def settle_guard_def refund_guard_def cancel_guard_def

text \<open>What a result is worth.\<close>

definition reverse_outcome :: "reverse_swap \<Rightarrow> resume \<Rightarrow> any_error + swap_state \<Rightarrow> event list \<Rightarrow> bool" where
  "reverse_outcome s z r l = (case r of
     Inl _ \<Rightarrow> True
   | Inr Claimed \<Rightarrow> LnInvoiceState (rv_payment_hash s) (Inr InvSettled) \<in> set l \<and> \<not> may_have_funded z \<and> no_funding_call l
       \<or> settled_in l \<and> (\<exists>i c. l \<noteq> [] \<and> last l = ChConfirmations i (Inr (Some c)) \<and> FINALITY_DEPTH \<le> c)
   | Inr Refunded \<Rightarrow> \<not> settled_in l \<and> timed_out s l
       \<and> (\<exists>l0 i c a. l = l0 @ [ChConfirmations i (Inr (Some c)), LnCancel (rv_payment_hash s) a] \<and> FINALITY_DEPTH \<le> c)
   | Inr st \<Rightarrow> (st = Expired \<or> (\<exists>m. st = Failed m)) \<and> \<not> settled_in l
       \<and> (\<forall>op. PFunded op \<notin> set l) \<and> (\<forall>spk v op. WFundHtlc spk v (Inr op) \<notin> set l)
       \<and> (\<not> may_have_funded z \<and> no_funding_call l \<or> timed_out s l))"

text \<open>Events no condition speaks about.\<close>

fun plain :: "event \<Rightarrow> bool" where
  "plain (WFundHtlc _ _ _) = False"
| "plain (LnSettle _ _) = False"
| "plain (ChBroadcast _ _) = False"
| "plain (LnCancel _ _) = False"
| "plain (PFunded _) = False"
| "plain _ = True"

text \<open>Nothing committed, adopted or settled yet: no such event in the log.\<close>

definition uncommitted :: "event list \<Rightarrow> bool" where
  "uncommitted l \<longleftrightarrow> \<not> settled_in l \<and> (\<forall>op. PFunded op \<notin> set l)
     \<and> (\<forall>spk v op. WFundHtlc spk v (Inr op) \<notin> set l) \<and> (\<forall>t r. ChBroadcast t r \<notin> set l)"

definition no_broadcast :: "event list \<Rightarrow> bool" where
  "no_broadcast l \<longleftrightarrow> (\<forall>t r. ChBroadcast t r \<notin> set l)"

lemma plain_guard: "plain e \<Longrightarrow> reverse_guard x s z p e"
  by (cases e) (simp_all add: guard_defs)

lemma guard_simps [simp]:
  "reverse_guard x s z p (PFunded op)"
  "plain e \<Longrightarrow> reverse_guard x s z p e"
  "reverse_guard x s z p (WFundHtlc spk v r) = fund_guard s z p (WFundHtlc spk v r)"
  "reverse_guard x s z p (LnSettle pre a) = settle_guard x s z p (LnSettle pre a)"
  "reverse_guard x s z p (ChBroadcast t b) = refund_guard x s z p (ChBroadcast t b)"
  "reverse_guard x s z p (LnCancel h a) = cancel_guard s z p (LnCancel h a)"
  by (simp_all add: plain_guard) (simp_all add: guard_defs)

lemmas log_defs = reverse_outcome_def uncommitted_def settled_in_def no_funding_call_def timed_out_def
  known_funding_def no_broadcast_def fund_guard_def settle_guard_def cancel_guard_def refund_guard_def

lemma plain_log:
  assumes "list_all plain q"
  shows "settled_in (l @ q) \<longleftrightarrow> settled_in l" "no_funding_call (l @ q) \<longleftrightarrow> no_funding_call l"
    "uncommitted (l @ q) \<longleftrightarrow> uncommitted l" "PFunded op \<in> set (l @ q) \<longleftrightarrow> PFunded op \<in> set l"
    "always (reverse_guard x s z) (l @ q) \<longleftrightarrow> always (reverse_guard x s z) l"
proof -
  have no: "LnSettle a b \<notin> set q" "WFundHtlc c d e \<notin> set q" "PFunded op \<notin> set q" "ChBroadcast t r \<notin> set q"
    for a b c d e op t r
    using assms by (auto simp: list_all_iff)
  show "settled_in (l @ q) \<longleftrightarrow> settled_in l" "no_funding_call (l @ q) \<longleftrightarrow> no_funding_call l"
    "uncommitted (l @ q) \<longleftrightarrow> uncommitted l" "PFunded op \<in> set (l @ q) \<longleftrightarrow> PFunded op \<in> set l"
    using no by (auto simp: settled_in_def no_funding_call_def uncommitted_def)
  show "always (reverse_guard x s z) (l @ q) \<longleftrightarrow> always (reverse_guard x s z) l"
    using always_from_free [OF assms plain_guard] by simp
qed

lemma log_mono:
  "known_funding z op l \<Longrightarrow> known_funding z op (l @ q)" "timed_out s l \<Longrightarrow> timed_out s (l @ q)"
  by (auto simp: known_funding_def timed_out_def)

subsection \<open>Waiting for the payment\<close>

lemma await_accepted_wp:
  assumes "always (reverse_guard x s z) l" and "uncommitted l" and "no_funding_call l"
    and "\<not> may_have_funded z"
  shows "wpl (await_accepted n ln ch ck s poll)
    (\<lambda>r l'. always (reverse_guard x s z) l' \<and>
      (case r of Inl _ \<Rightarrow> True
       | Inr None \<Rightarrow> uncommitted l' \<and> no_funding_call l' \<and> LnInvoiceState (rv_payment_hash s) (Inr InvAccepted) \<in> set l'
       | Inr (Some st) \<Rightarrow> reverse_outcome s z (Inr st) l'))
    (\<lambda>l'. always (reverse_guard x s z) l') l"
  using assms(1-3)
proof (induction n arbitrary: l)
  case 0
  then show ?case by (auto intro: wp)
next
  case (Suc n)
  note pre = Suc.prems assms(4)
  show ?case unfolding await_accepted.simps call_defs
    by (intro wp Suc.IH)
      (use pre in \<open>auto simp: log_defs\<close>)
qed

lemma wp_bnd_emits:
  assumes "emits E m" and "\<And>q. list_all E q \<Longrightarrow> R (l @ q)" and "\<And>a q. list_all E q \<Longrightarrow> wpl (f a) Q R (l @ q)"
  shows "wpl (bnd m f) Q R l"
  by (rule wp_bnd [OF wp_conseq [OF emits_wpl [OF assms(1)],
        where Q' = "\<lambda>_ l'. \<exists>q. l' = l @ q \<and> list_all E q"]]) (auto intro: assms(2,3))

subsection \<open>Establishing the funding\<close>

lemma emits_first_revealing: "emits plain (first_revealing x ch spk h cs)"
  by (induction cs) (auto simp: call_defs intro!: em)

lemma emits_select_recorded: "emits plain (select_recorded_funding x ch spk h v history)"
  unfolding select_recorded_funding_def Let_def
  by (auto intro!: em emits_first_revealing split: list.split simp del: first_revealing.simps)

lemma cancel_wp:
  "(\<And>a. wpl (f ()) Q R (l @ [LnCancel h a])) \<Longrightarrow> wpl (bnd (cancel_hold_invoice ln h) f) Q R l"
  unfolding cancel_hold_invoice_def call_defs
  by (rule wp_bnd [where Q' = "\<lambda>_ l'. \<exists>a. l' = l @ [LnCancel h a]"]) (auto intro!: wp)

definition established :: "ext \<Rightarrow> reverse_swap \<Rightarrow> resume \<Rightarrow> any_error + funding_outcome \<Rightarrow> event list \<Rightarrow> bool" where
  "established x s z r l \<longleftrightarrow> always (reverse_guard x s z) l \<and>
     (case r of Inl _ \<Rightarrow> True
      | Inr (Refused st) \<Rightarrow> reverse_outcome s z (Inr st) l
      | Inr (Funded op) \<Rightarrow> known_funding z op l \<and> \<not> settled_in l \<and> no_broadcast l)"

lemma uncommittedD:
  "uncommitted l \<Longrightarrow> \<not> settled_in l" "uncommitted l \<Longrightarrow> no_broadcast l"
  "uncommitted l \<Longrightarrow> PFunded op \<notin> set l" "uncommitted l \<Longrightarrow> WFundHtlc spk v (Inr op) \<notin> set l"
  by (auto simp: uncommitted_def no_broadcast_def)

lemma select_wp:
  assumes "always (reverse_guard x s z) l" and "uncommitted l"
  shows "wpl (select_recorded_funding x ch spk h v history)
    (\<lambda>_ l'. always (reverse_guard x s z) l' \<and> uncommitted l') (always (reverse_guard x s z)) l"
  by (rule wp_conseq [OF emits_wpl [OF emits_select_recorded]])
    (use assms in \<open>auto simp: plain_log simp del: always_append\<close>)

lemma await_recorded_wp:
  assumes "always (reverse_guard x s z) l" and "uncommitted l"
  shows "wpl (await_recorded_funding n x ln ch ck s poll pg) (established x s z)
    (always (reverse_guard x s z)) l"
  using assms
proof (induction n arbitrary: l)
  case 0
  then show ?case by (auto intro: wp)
next
  case (Suc n)
  have tail: "wpl (trym AnySwap (tip_height ch) (\<lambda>tip.
       if tip \<ge> rv_timeout_height s
       then bnd (cancel_hold_invoice ln (rv_payment_hash s)) (\<lambda>_. ret (Inr (Refused Expired)))
       else bnd (sleep_for ck (watch_poll poll)) (\<lambda>_.
         await_recorded_funding n x ln ch ck s poll pg)))
      (established x s z) (always (reverse_guard x s z)) l'"
    if "always (reverse_guard x s z) l'" "uncommitted l'" for l'
    unfolding tip_height_def sleep_for_def
    by (intro wp cancel_wp Suc.IH) (use that in \<open>auto simp: established_def log_defs\<close>)
  have select: "wpl (trym AnySwap (select_recorded_funding x ch (rv_htlc_spk s) (rv_payment_hash s)
         (rv_onchain_amount_sat s) history) (\<lambda>selected. case selected of
       Some op \<Rightarrow> bnd (funded pg op) (\<lambda>_. ret (Inr (Funded op)))
     | None \<Rightarrow> trym AnySwap (tip_height ch) (\<lambda>tip.
       if tip \<ge> rv_timeout_height s
       then bnd (cancel_hold_invoice ln (rv_payment_hash s)) (\<lambda>_. ret (Inr (Refused Expired)))
       else bnd (sleep_for ck (watch_poll poll)) (\<lambda>_.
         await_recorded_funding n x ln ch ck s poll pg))))
      (established x s z) (always (reverse_guard x s z)) l'"
    if "always (reverse_guard x s z) l'" "uncommitted l'" for l' history
  proof (rule wp_trym [OF select_wp [OF that]], goal_cases)
    case (2 v l'')
    then show ?case unfolding funded_def
      by (intro wp tail) (auto simp: established_def log_defs)
  qed (simp add: established_def)
  show ?case unfolding await_recorded_funding.simps find_funding_def find_historical_outputs_def
    by (intro wp select)
      (use Suc.prems in \<open>auto simp: established_def log_defs funded_def intro!: wp\<close>)
qed

lemma fund_new_wp:
  assumes "always (reverse_guard x s z) l" and "uncommitted l" and "no_funding_call l"
    and "\<not> may_have_funded z" and "LnInvoiceState (rv_payment_hash s) (Inr InvAccepted) \<in> set l"
  shows "wpl (fund_new n x ln ch wl ck s poll pg) (established x s z) (always (reverse_guard x s z)) l"
  unfolding fund_new_def Let_def invoice_status_def tip_height_def funding_intent_def fund_htlc_def
  by (intro wp cancel_wp await_recorded_wp)
    (use assms in \<open>auto simp: established_def log_defs funded_def intro!: wp\<close>)

lemma establish_funding_wp:
  assumes "always (reverse_guard x s z) l" and "uncommitted l"
    and "\<not> may_have_funded z \<Longrightarrow> no_funding_call l \<and> LnInvoiceState (rv_payment_hash s) (Inr InvAccepted) \<in> set l"
  shows "wpl (establish_funding n x ln ch wl ck s z req poll pg) (established x s z)
    (always (reverse_guard x s z)) l"
  unfolding establish_funding_def find_outputs_def find_funding_def
  by (intro wp await_recorded_wp fund_new_wp)
    (use assms in \<open>auto simp: established_def log_defs may_have_funded_def funded_def intro!: wp\<close>)

subsection \<open>Watching the funded HTLC\<close>

lemma refund_builder_spends:
  "refund_builder x s op dest rate = Inr t \<Longrightarrow> \<exists>i. tx_input t = [i] \<and> in_previous_output i = op"
  by (auto simp: refund_builder_def build_refund_tx_def taproot_refund_tx_def set_witness_def unsigned_spend_def
      split: option.splits dest!: build_htlc_spend_Inr(4) spend_tx_Inr(2))

text \<open>What the loop keeps true.\<close>

definition watch_inv ::
  "ext \<Rightarrow> reverse_swap \<Rightarrow> resume \<Rightarrow> outpoint \<Rightarrow> bool \<Rightarrow> event list \<Rightarrow> bool" where
  "watch_inv x s z op settled l \<longleftrightarrow>
     always (reverse_guard x s z) l \<and> known_funding z op l \<and> settled = settled_in l"

lemma watch_inv_plain:
  "list_all plain q \<Longrightarrow> watch_inv x s z op settled l \<Longrightarrow> watch_inv x s z op settled (l @ q)"
  by (simp add: watch_inv_def plain_log log_mono always_from_free [OF _ plain_guard] del: always_append add: always_append)

lemma bump_allowed:
  assumes "timed_out s p \<and> known_funding z op p \<and> \<not> settled_in p"
    and "announced_spend x (refund_builder x s op dest) cfg p e" and "bump_event e"
  shows "reverse_guard x s z p e"
proof (cases "plain e")
  case False
  with assms(3) obtain t r where t: "e = ChBroadcast t r" by (cases e) auto
  with assms(2) obtain rate where "p \<noteq> []" "last p = PSpendBroadcast (x_txid x t)"
    "refund_builder x s op dest rate = Inr t"
    by (auto simp: announced_spend_def)
  moreover from this(3) have "\<exists>i. tx_input t = [i] \<and> in_previous_output i = op" by (rule refund_builder_spends)
  ultimately show ?thesis using t assms(1) by (auto simp: refund_guard_def)
qed simp

lemma bump_keeps:
  "timed_out s p \<and> known_funding z op p \<and> \<not> settled_in p \<Longrightarrow> bump_event e \<Longrightarrow>
     timed_out s (p @ [e]) \<and> known_funding z op (p @ [e]) \<and> \<not> settled_in (p @ [e])"
  by (cases e) (auto simp: timed_out_def known_funding_def settled_in_def)

lemma hint_step_emits: "emits plain (hint_step ch pg s req op spend due)"
  unfolding hint_step_def call_defs by (intro em) simp_all

lemma claim_step_wp:
  assumes "watch_inv x s z op settled l" and "ChFindSpend op (Inr spend) \<in> set l"
  shows "wpl (claim_step x ln ch pg s op spend settled)
    (\<lambda>r l'. always (reverse_guard x s z) l' \<and> (case r of Inl _ \<Rightarrow> True | Inr (settled', buried) \<Rightarrow>
       watch_inv x s z op settled' l' \<and>
       (buried \<longrightarrow> settled' \<and> (\<exists>i c. l' \<noteq> [] \<and> last l' = ChConfirmations i (Inr (Some c)) \<and> FINALITY_DEPTH \<le> c))))
    (always (reverse_guard x s z)) l"
proof -
  have settle: "wpl (settle_from x ln pg t pre settled)
      (\<lambda>settled' l'. watch_inv x s z op settled' l') (\<lambda>_. False) l"
    if "spend = Some t" "extract_preimage x t op (rv_payment_hash s) = Some pre" for t pre
    unfolding settle_from_def claim_observed_def settle_hold_invoice_def
    by (intro wp) (use assms that in \<open>auto simp: watch_inv_def settle_guard_def settled_in_def known_funding_def\<close>)
  show ?thesis unfolding claim_step_def tx_confirmations_def
  proof (intro wp, goal_cases)
    case (3 t pre)
    show ?case
      by (rule wp_bnd [OF wp_total [OF settle [OF 3]]], intro wp)
        (use assms in \<open>auto simp: watch_inv_def settled_in_def known_funding_def split: option.splits\<close>)
  qed (use assms in \<open>auto simp: watch_inv_def\<close>)
qed

text \<open>The refund builder is a spender of the funding outpoint.\<close>

interpretation refund: htlc_spender "spend_broadcast pg" "refund_builder x s op dest" op "Some (cpfp_child wl)"
  for pg x s op dest wl
  by (rule standard_spender) (rule refund_builder_spends)

lemma refund_bump_wp:
  assumes "watch_inv x s z op False l" and "timed_out s l"
  shows "wpl (confirm_or_bump n x ch ck (rv_htlc_spk s) op (refund_watch x s z poll dest)
      (Some (cpfp_child wl)) (spend_broadcast pg) (refund_builder x s op dest))
    (\<lambda>r l'. watch_inv x s z op False l' \<and> timed_out s l' \<and>
       (case r of Inr (Confirmed i) \<Rightarrow> \<exists>p c. l' = p @ [ChConfirmations i (Inr (Some c))] \<and> FINALITY_DEPTH \<le> c
        | _ \<Rightarrow> True))
    (always (reverse_guard x s z)) l"
proof -
  have conf: "sw_min_confirmations (refund_watch x s z poll dest) = FINALITY_DEPTH"
    by (simp add: refund_watch_def with_known_ours_def refund_config_def)
  show ?thesis
    by (rule wp_conseq [OF refund.drive_wp [where G = "reverse_guard x s z"
            and K = "\<lambda>l. timed_out s l \<and> known_funding z op l \<and> \<not> settled_in l", OF _ _ bump_keeps bump_allowed]])
      (use assms in \<open>auto simp: watch_inv_def spend_over_def conf split: sum.splits spend_outcome.splits\<close>)
qed

lemma refund_step_wp:
  assumes "watch_inv x s z op False l" and "timed_out s l"
  shows "wpl (refund_step n x ln ch wl ck pg s z poll op dest)
    (\<lambda>r l'. always (reverse_guard x s z) l' \<and> (case r of Inl _ \<Rightarrow> True
       | Inr refunded \<Rightarrow> if refunded then reverse_outcome s z (Inr Refunded) l'
                        else watch_inv x s z op False l'))
    (always (reverse_guard x s z)) l"
  unfolding refund_step_def
proof (rule wp_trym [OF refund_bump_wp [OF assms]], goal_cases)
  case (2 v l')
  then have inv: "watch_inv x s z op False l'" "timed_out s l'" by blast+
  show ?case
  proof (cases v)
    case (Confirmed i)
    with 2 obtain p c where c: "l' = p @ [ChConfirmations i (Inr (Some c))]" "FINALITY_DEPTH \<le> c" by auto
    show ?thesis unfolding Confirmed spend_outcome.case ln_cancel_def
      by (intro wp) (use inv c in \<open>auto simp: watch_inv_def log_defs\<close>)
  next
    case (ConflictingSpend t)
    then show ?thesis unfolding ConflictingSpend spend_outcome.case sleep_for_def
      by (intro wp) (use inv watch_inv_plain [OF _ inv(1)] in \<open>auto simp: watch_inv_def\<close>)
  next
    case (DeadlineExceeded i t)
    then show ?thesis unfolding DeadlineExceeded spend_outcome.case sleep_for_def
      by (intro wp) (use inv watch_inv_plain [OF _ inv(1)] in \<open>auto simp: watch_inv_def\<close>)
  qed
qed (simp add: watch_inv_def)

definition reverse_post :: "ext \<Rightarrow> reverse_swap \<Rightarrow> resume \<Rightarrow> any_error + swap_state \<Rightarrow> event list \<Rightarrow> bool" where
  "reverse_post x s z r l \<longleftrightarrow> always (reverse_guard x s z) l \<and> reverse_outcome s z r l"

lemma watch_htlc_wp:
  assumes "watch_inv x s z op settled l"
  shows "wpl (watch_htlc n fuel x ln ch wl ck pg s z req poll op dest settled due)
    (reverse_post x s z) (always (reverse_guard x s z)) l"
  using assms
proof (induction n arbitrary: l settled due)
  case 0
  then show ?case by (auto intro: wp simp: watch_inv_def)
next
  case (Suc n)
  have al: "watch_inv x s z op b l' \<Longrightarrow> always (reverse_guard x s z) l'" for b l'
    by (simp add: watch_inv_def)
  have tail: "wpl (if buried then ret (Inr Claimed)
     else trym AnySwap (tip_height ch) (\<lambda>tip.
       if tip \<ge> rv_timeout_height s \<and> \<not> settled
       then tryb (refund_step fuel x ln ch wl ck pg s z poll op dest) (\<lambda>refunded.
              if refunded then ret (Inr Refunded)
              else watch_htlc n fuel x ln ch wl ck pg s z req poll op dest settled due)
       else bnd (sleep_for ck poll) (\<lambda>_.
              watch_htlc n fuel x ln ch wl ck pg s z req poll op dest settled due)))
      (reverse_post x s z) (always (reverse_guard x s z)) l'"
    if inv: "watch_inv x s z op settled l'"
      and b: "buried \<longrightarrow> settled \<and> (\<exists>i c. l' \<noteq> [] \<and> last l' = ChConfirmations i (Inr (Some c)) \<and> FINALITY_DEPTH \<le> c)"
    for buried settled l' due
    unfolding tip_height_def sleep_for_def
  proof (intro wp, goal_cases)
    case 1
    then show ?case using inv b by (auto simp: reverse_post_def reverse_outcome_def watch_inv_def)
  next
    case (2 e)
    then show ?case using inv by (simp add: reverse_post_def reverse_outcome_def watch_inv_def)
  next
    case (3 tip)
    have i: "watch_inv x s z op False (l' @ [ChTip (Inr tip)])"
      using watch_inv_plain [OF _ inv, of "[ChTip (Inr tip)]"] 3 by simp
    have t: "timed_out s (l' @ [ChTip (Inr tip)])" using 3 by (auto simp: timed_out_def)
    show ?case
      by (rule wp_tryb [OF refund_step_wp [OF i t]])
        (use 3 in \<open>auto simp: reverse_post_def reverse_outcome_def [of _ _ "Inl _"] intro!: wp Suc.IH split: if_splits\<close>)
  next
    case (4 tip r)
    show ?case
      by (rule Suc.IH) (use watch_inv_plain [OF _ inv, of "[ChTip (Inr tip), Slept poll]"] in simp)
  qed
  show ?case unfolding watch_htlc.simps find_spend_def
  proof (intro wp, goal_cases)
    case (1 e)
    then show ?case using Suc.prems by (simp add: reverse_post_def reverse_outcome_def watch_inv_def)
  next
    case (2 spend)
    let ?l = "l @ [ChFindSpend op (Inr spend)]"
    have inv: "watch_inv x s z op settled ?l"
      using watch_inv_plain [OF _ Suc.prems, of "[ChFindSpend op (Inr spend)]"] by simp
    show ?case
    proof (rule wp_bnd_emits [OF hint_step_emits])
      fix q assume "list_all plain q"
      from al [OF watch_inv_plain [OF this inv]] show "always (reverse_guard x s z) (?l @ q)" .
    next
      fix due' q assume q: "list_all plain q"
      let ?l' = "?l @ q"
      have inv': "watch_inv x s z op settled ?l'" by (rule watch_inv_plain [OF q inv])
      show "wpl (tryb (claim_step x ln ch pg s op spend settled) (\<lambda>(settled, buried).
         if buried then ret (Inr Claimed)
         else trym AnySwap (tip_height ch) (\<lambda>tip.
           if tip \<ge> rv_timeout_height s \<and> \<not> settled
           then tryb (refund_step fuel x ln ch wl ck pg s z poll op dest) (\<lambda>refunded.
                  if refunded then ret (Inr Refunded)
                  else watch_htlc n fuel x ln ch wl ck pg s z req poll op dest settled due')
           else bnd (sleep_for ck poll) (\<lambda>_.
                  watch_htlc n fuel x ln ch wl ck pg s z req poll op dest settled due'))))
        (reverse_post x s z) (always (reverse_guard x s z)) ?l'"
        by (rule wp_tryb [OF claim_step_wp [OF inv']])
          (auto simp: reverse_post_def reverse_outcome_def [of _ _ "Inl _"] intro!: tail)
    qed
  qed
qed

subsection \<open>The whole driver\<close>

lemma established_watch:
  "known_funding z op l \<Longrightarrow> \<not> settled_in l \<Longrightarrow> always (reverse_guard x s z) l
   \<Longrightarrow> watch_inv x s z op False l"
  by (simp add: watch_inv_def)

lemma watch_funded_wp:
  assumes "known_funding z op l" and "\<not> settled_in l" and "always (reverse_guard x s z) l"
  shows "wpl (watch_funded fuel x ln ch wl ck s req poll z pg op) (reverse_post x s z) (always (reverse_guard x s z)) l"
  unfolding watch_funded_def wants_claimable_def receive_destination_def
proof (intro wp watch_htlc_wp, goal_cases)
  case (1 due dest)
  show ?case
    using watch_inv_plain [OF _ established_watch [OF assms], of "[PWantsClaimable due, WReceive dest]"]
    by simp
qed

lemma drive_reverse_wp:
  "wpl (drive_reverse_swap fuel x ln ch wl ck s req poll z pg) (reverse_post x s z)
     (always (reverse_guard x s z)) []"
proof -
  have start: "always (reverse_guard x s z) []" "uncommitted []" "no_funding_call []"
    by (simp_all add: log_defs)
  have fund: "wpl (tryb (establish_funding fuel x ln ch wl ck s z req poll pg)
              (\<lambda>outcome. case outcome of
                 Refused state \<Rightarrow> ret (Inr state)
               | Funded op \<Rightarrow> watch_funded fuel x ln ch wl ck s req poll z pg op))
      (reverse_post x s z) (always (reverse_guard x s z)) l"
    if "always (reverse_guard x s z) l" "uncommitted l"
      "\<not> may_have_funded z \<Longrightarrow> no_funding_call l \<and> LnInvoiceState (rv_payment_hash s) (Inr InvAccepted) \<in> set l" for l
  proof (rule wp_tryb [OF establish_funding_wp [OF that]], goal_cases)
    case (3 outcome l')
    then show ?case
      by (cases outcome) (auto simp: established_def reverse_post_def intro!: wp watch_funded_wp)
  qed (auto simp: established_def reverse_post_def reverse_outcome_def)
  show ?thesis
  proof (cases "may_have_funded z")
    case True
    have "wpl (tryb (ret (Inr None)) (\<lambda>over. case over of
          Some state \<Rightarrow> ret (Inr state)
        | None \<Rightarrow> tryb (establish_funding fuel x ln ch wl ck s z req poll pg)
              (\<lambda>outcome. case outcome of
                 Refused state \<Rightarrow> ret (Inr state)
               | Funded op \<Rightarrow> watch_funded fuel x ln ch wl ck s req poll z pg op)))
      (reverse_post x s z) (always (reverse_guard x s z)) []"
      by (rule wp_tryb [where Q' = "\<lambda>r l'. r = Inr None \<and> l' = []"]) (use True start in \<open>auto intro!: wp fund\<close>)
    with True show ?thesis by (simp add: drive_reverse_swap_def)
  next
    case False
    show ?thesis unfolding drive_reverse_swap_def using False
      by (simp, intro wp_tryb [OF await_accepted_wp [OF start False]])
        (auto simp: reverse_post_def reverse_outcome_def [of _ _ "Inl _"] intro!: wp fund split: option.splits)
  qed
qed

lemma reverse_run:
  assumes "w_log w = []" and "drive_reverse_swap fuel x ln ch wl ck s req poll z pg w = (res, w')"
  shows "always (reverse_guard x s z) (w_log w')"
    and "res = Some r \<Longrightarrow> reverse_outcome s z r (w_log w')"
proof -
  have c: "wpl (drive_reverse_swap fuel x ln ch wl ck s req poll z pg) (reverse_post x s z)
     (always (reverse_guard x s z)) (w_log w)"
    using assms(1) drive_reverse_wp by simp
  show "always (reverse_guard x s z) (w_log w')"
    using wpl_Some [OF c] wpl_None [OF c] assms(2) by (cases res) (auto simp: reverse_post_def)
  show "res = Some r \<Longrightarrow> reverse_outcome s z r (w_log w')"
    using wpl_Some [OF c] assms(2) by (auto simp: reverse_post_def)
qed

lemma reverse_event:
  assumes "w_log w = []" and "drive_reverse_swap fuel x ln ch wl ck s req poll z pg w = (res, w')"
    and "w_log w' = before @ e # after"
  shows "reverse_guard x s z before e"
  using reverse_run(1) [OF assms(1,2)] unfolding assms(3) by (rule alwaysD)

end
