(* ===== verification/Reverse_Properties.thy ===== *)
theory Reverse_Properties
  imports Reverse_Safety
begin

text \<open>
  The properties of the reverse driver, read off the conditions of \<open>Reverse_Safety\<close>, with a
  complete run over the scripted chain as their witness.
\<close>

subsection \<open>A complete run\<close>

definition sample_reverse :: reverse_swap where
  "sample_reverse =
     \<lparr>rv_payment_hash = replicate 32 7, rv_onchain_amount_sat = 50000, rv_fee_rate_sat_vb = 2,
      rv_htlc_script = [1], rv_htlc_spk = [1], rv_taproot = None, rv_timeout_height = 200,
      rv_refund_key = [], rv_invoice = [], rv_timelock = default_params\<rparr>"

text \<open>A node holding one HTLC for the invoice, until height 300.\<close>

definition held_status :: invoice_status where
  "held_status = \<lparr>is_state = InvAccepted, is_amount_paid_msat = 51000000,
     is_htlcs = [\<lparr>ah_amount_msat = 51000000, ah_expiry_height = 300\<rparr>]\<rparr>"

definition paid_node :: "'e lightning_backend" where
  "paid_node =
     \<lparr>ln_invoice_status = (\<lambda>_ e. (Inr held_status, e)), ln_settle_hold_invoice = (\<lambda>_ e. (Inr (), e)),
      ln_cancel_hold_invoice = (\<lambda>_ e. (Inr (), e)),
      ln_pay_invoice = (\<lambda>_ _ _ e. (Inl (NotImplemented []), e)),
      ln_payment_status = (\<lambda>_ e. (Inr PayNotFound, e)),
      ln_create_hold_invoice = (\<lambda>_ e. (Inl (NotImplemented []), e)),
      ln_lookup_hold_invoice = (\<lambda>_ e. (Inr None, e)),
      ln_decode_invoice = (\<lambda>_ e. (Inl (NotImplemented []), e))\<rparr>"

definition sample_claim :: transaction where
  "sample_claim =
     \<lparr>tx_version = 2, tx_lock_time = 0,
      tx_input = [\<lparr>in_previous_output = sample_op, in_script_sig = [], in_sequence = 0xFFFFFFFD,
                   in_witness = [replicate 32 7]\<rparr>],
      tx_output = []\<rparr>"

definition claimed_mock :: mock_chain where
  "claimed_mock = mock_new\<lparr>mc_tip := 100, mc_spend := Some sample_claim, mc_confirmations := [Some 2]\<rparr>"

definition reverse_start :: "mock_chain \<Rightarrow> resume \<Rightarrow> (any_error + swap_state) option \<times> mock_chain world" where
  "reverse_start m z =
     drive_reverse_swap (Suc 0) sample_ext paid_node (mock_watcher sample_ext) sample_wallet frozen_clock
       sample_reverse 1 1000 z null_progress \<lparr>w_env = m, w_log = []\<rparr>"

lemmas reverse_run_defs = reverse_start_def drive_reverse_swap_def may_have_funded_def default_resume_def
  establish_funding_def fund_new_def watch_funded_def hint_step_def claim_step_def settle_from_def
  cancel_hold_invoice_def refund_step_def
  paid_node_def held_status_def sample_reverse_def default_params_def timelock_consts sample_claim_def
  earliest_htlc_expiry_def check_reverse_before_fund_def required_ln_expiry_def checked_add_def
  saturating_sub_def extract_preimage_def

lemma reverse_sample_run:
  "map_prod id w_log (reverse_start claimed_mock default_resume) =
     (Some (Inr Claimed),
      [LnInvoiceState (replicate 32 7) (Inr InvAccepted), ChFindFunding (Inr None),
       LnInvoiceStatus (replicate 32 7) (Inr held_status), ChTip (Inr 100), PFundingIntent 100 (Inr ()),
       WFundHtlc [1] 50000 (Inr sample_op), PFunded sample_op, PWantsClaimable False, WReceive [8],
       ChFindSpend sample_op (Inr (Some sample_claim)), PClaimObserved 1,
       LnSettle (replicate 32 7) (Inr ()), ChConfirmations 1 (Inr (Some 2))])"
  by (simp add: reverse_run_defs run_defs mock_defs claimed_mock_def Let_def sample_ext_def sample_op_def
      FINALITY_DEPTH_def word_le_nat_alt word_less_nat_alt cong: run_congs)

lemma reverse_sample_eq:
  "drive_reverse_swap (Suc 0) sample_ext paid_node (mock_watcher sample_ext) sample_wallet frozen_clock
     sample_reverse 1 1000 default_resume null_progress \<lparr>w_env = claimed_mock, w_log = []\<rparr>
   = (Some (Inr Claimed), snd (reverse_start claimed_mock default_resume))"
  using reverse_sample_run by (cases "reverse_start claimed_mock default_resume") (simp add: reverse_start_def)

lemma reverse_sample_log:
  "w_log (snd (reverse_start claimed_mock default_resume)) =
     [LnInvoiceState (replicate 32 7) (Inr InvAccepted), ChFindFunding (Inr None),
       LnInvoiceStatus (replicate 32 7) (Inr held_status), ChTip (Inr 100), PFundingIntent 100 (Inr ())]
     @ WFundHtlc [1] 50000 (Inr sample_op)
     # [PFunded sample_op, PWantsClaimable False, WReceive [8],
       ChFindSpend sample_op (Inr (Some sample_claim)), PClaimObserved 1]
     @ LnSettle (replicate 32 7) (Inr ()) # [ChConfirmations 1 (Inr (Some 2))]"
  using reverse_sample_run by (cases "reverse_start claimed_mock default_resume") simp

subsection \<open>Funding\<close>

text \<open>C3: A reverse swap is funded at most once and never on the strength of an old observation: in every
  conversation of the driver, whatever its backends answer, a funding call is only made when the
  record shows neither a funding nor a funding intent, pays exactly the HTLC and the amount, comes
  after the invoice was seen accepted, directly follows the successful recording of the intent, and
  that at a tip which, with the Lightning expiry read just before it, passes the timelock gate; and
  no other funding call occurs before or after it.\<close>

theorem reverse_funds_once_behind_the_gate:
  assumes "w_log w = []" and "drive_reverse_swap fuel x ln ch wl ck s req poll z pg w = (res, w')"
    and "w_log w' = before @ WFundHtlc spk v r # after"
  shows "\<not> may_have_funded z \<and> spk = rv_htlc_spk s \<and> v = rv_onchain_amount_sat s
    \<and> (\<exists>prior st le tip. before = prior @ [LnInvoiceStatus (rv_payment_hash s) (Inr st), ChTip (Inr tip), PFundingIntent tip (Inr ())]
         \<and> LnInvoiceState (rv_payment_hash s) (Inr InvAccepted) \<in> set prior
         \<and> earliest_htlc_expiry st = Some le
         \<and> check_reverse_before_fund tip (rv_timeout_height s) le (rv_timelock s) = Inr ())
    \<and> no_funding_call before \<and> no_funding_call after"
proof -
  have g: "fund_guard s z before (WFundHtlc spk v r)"
    using reverse_event [OF assms] by simp
  have "no_funding_call after"
    unfolding no_funding_call_def
  proof (intro allI notI)
    fix spk' v' r' assume "WFundHtlc spk' v' r' \<in> set after"
    then obtain a b where "after = a @ WFundHtlc spk' v' r' # b" by (auto simp: in_set_conv_decomp)
    then have l: "w_log w' = (before @ WFundHtlc spk v r # a) @ WFundHtlc spk' v' r' # b" using assms(3) by simp
    have "fund_guard s z (before @ WFundHtlc spk v r # a) (WFundHtlc spk' v' r')"
      using reverse_event [OF assms(1,2) l] by simp
    then show False by (auto simp: fund_guard_def no_funding_call_def)
  qed
  with g show ?thesis by (fastforce simp: fund_guard_def)
qed

theorem reverse_funds_once_behind_the_gate_witness:
  "check_reverse_before_fund 100 200 300 default_params = Inr ()
    \<and> no_funding_call [PFunded sample_op, PWantsClaimable False, WReceive [8],
       ChFindSpend sample_op (Inr (Some sample_claim)), PClaimObserved 1,
       LnSettle (replicate 32 7) (Inr ()), ChConfirmations 1 (Inr (Some 2))]"
  using reverse_funds_once_behind_the_gate [OF _ reverse_sample_eq reverse_sample_log]
  by (auto simp: sample_reverse_def held_status_def earliest_htlc_expiry_def)

subsection \<open>Settling\<close>

text \<open>C5: The hold invoice is only settled with a preimage of its payment hash that a spend of the funded
  HTLC, shown by the chain, reveals; the claim is recorded immediately before; and once a settle has
  succeeded the driver never settles again.\<close>

theorem reverse_settles_only_from_an_observed_claim:
  assumes "w_log w = []" and "drive_reverse_swap fuel x ln ch wl ck s req poll z pg w = (res, w')"
    and "w_log w' = before @ LnSettle pre r # after"
  shows "length pre = 32 \<and> payment_hash x pre = rv_payment_hash s
    \<and> (\<exists>op t. known_funding z op before \<and> ChFindSpend op (Inr (Some t)) \<in> set before
         \<and> (\<exists>i\<in>set (tx_input t). in_previous_output i = op \<and> pre \<in> set (in_witness i))
         \<and> before \<noteq> [] \<and> last before = PClaimObserved (x_txid x t))
    \<and> \<not> settled_in before"
proof -
  have g: "settle_guard x s z before (LnSettle pre r)"
    using reverse_event [OF assms] by simp
  then obtain op t where e: "extract_preimage x t op (rv_payment_hash s) = Some pre"
    and o: "known_funding z op before" "ChFindSpend op (Inr (Some t)) \<in> set before" "before \<noteq> []"
      "last before = PClaimObserved (x_txid x t)" "\<not> settled_in before"
    by (auto simp: settle_guard_def)
  from extract_preimage_sound [OF e] o show ?thesis unfolding payment_hash_def by blast
qed

theorem reverse_settles_only_from_an_observed_claim_witness:
  "payment_hash sample_ext (replicate 32 7) = rv_payment_hash sample_reverse"
  using reverse_settles_only_from_an_observed_claim [OF _ reverse_sample_eq,
      of "take 11 (w_log (snd (reverse_start claimed_mock default_resume)))" "replicate 32 7" "Inr ()"
         "[ChConfirmations 1 (Inr (Some 2))]"]
  by (simp add: reverse_sample_log)

subsection \<open>Refunding and cancelling\<close>

definition sample_refund :: transaction where
  "sample_refund =
     (case refund_builder sample_ext sample_reverse sample_op [8] 2 of Inr t \<Rightarrow> t | Inl _ \<Rightarrow> sample_claim)"

definition unclaimed_mock :: mock_chain where
  "unclaimed_mock = mock_new\<lparr>mc_tip := 200, mc_confirmations := [Some 2]\<rparr>"

definition resumed :: resume where
  "resumed = default_resume\<lparr>rz_funding := Some sample_op\<rparr>"

lemmas refund_run_defs = refund_builder_def refund_vsize_def refund_watch_def with_known_ours_def
  refund_config_def build_refund_tx_def build_htlc_spend_def spend_vsize_def varint_len_def div_ceil_def
  estimate_spend_fee_def saturating_mul_def fee_rate_cap_def mul_div_u64_def resolve_fee_rate_def DUST_THRESHOLD_def
  DEFAULT_MAX_FEE_BPS_def ABSOLUTE_MAX_FEE_RATE_SAT_VB_def REFUND_FEE_TARGET_BLOCKS_def
  confirm_or_bump_def estimate_def adopt_live_def past_deadline_def FINALITY_DEPTH_def

lemma refund_sample_run:
  "map_prod id w_log (reverse_start unclaimed_mock resumed) =
     (Some (Inr Refunded),
      [PWantsClaimable False, WReceive [8], ChFindSpend sample_op (Inr None), ChTip (Inr 200),
       ChEstimate 6 (Inr None), PSpendBroadcast 201, ChBroadcast sample_refund (Inr 201), ChTip (Inr 200),
       ChFindSpend sample_op (Inr None), ChConfirmations 201 (Inr (Some 2)), LnCancel (replicate 32 7) (Inr ())])"
  by (simp add: reverse_run_defs refund_run_defs sample_refund_def resumed_def run_defs mock_defs unclaimed_mock_def
      Let_def sample_ext_def sample_op_def word_le_nat_alt word_less_nat_alt cong: run_congs)

lemma refund_sample_eq:
  "drive_reverse_swap (Suc 0) sample_ext paid_node (mock_watcher sample_ext) sample_wallet frozen_clock
     sample_reverse 1 1000 resumed null_progress \<lparr>w_env = unclaimed_mock, w_log = []\<rparr>
   = (Some (Inr Refunded), snd (reverse_start unclaimed_mock resumed))"
  using refund_sample_run by (cases "reverse_start unclaimed_mock resumed") (simp add: reverse_start_def)

lemma refund_sample_log:
  "w_log (snd (reverse_start unclaimed_mock resumed)) =
     [PWantsClaimable False, WReceive [8], ChFindSpend sample_op (Inr None), ChTip (Inr 200),
       ChEstimate 6 (Inr None), PSpendBroadcast 201, ChBroadcast sample_refund (Inr 201), ChTip (Inr 200),
       ChFindSpend sample_op (Inr None), ChConfirmations 201 (Inr (Some 2)), LnCancel (replicate 32 7) (Inr ())]"
  using refund_sample_run by (cases "reverse_start unclaimed_mock resumed") simp





text \<open>What the driver's answer is worth: \<open>Claimed\<close> is only returned when the invoice was found
  settled before anything was funded, or after a successful settle, with the claim just shown at the
  depth treated as final; \<open>Refunded\<close> only without a settle, after the timeout, with the refund just
  shown at that depth and the invoice then cancelled; \<open>Expired\<close> and \<open>Failed\<close> only when this run
  neither settled nor made nor adopted a funding, and - when an earlier run may have funded, or this
  one tried to - only after the timeout; no other state is ever returned.\<close>

theorem reverse_outcome_means:
  assumes "w_log w = []" and "drive_reverse_swap fuel x ln ch wl ck s req poll z pg w = (Some (Inr st), w')"
  shows "is_terminal st \<and> (case st of
     Claimed \<Rightarrow> LnInvoiceState (rv_payment_hash s) (Inr InvSettled) \<in> set (w_log w')
                  \<and> \<not> may_have_funded z \<and> no_funding_call (w_log w')
       \<or> settled_in (w_log w') \<and> (\<exists>p i c. w_log w' = p @ [ChConfirmations i (Inr (Some c))] \<and> FINALITY_DEPTH \<le> c)
   | Refunded \<Rightarrow> \<not> settled_in (w_log w') \<and> timed_out s (w_log w')
       \<and> (\<exists>p i c a. w_log w' = p @ [ChConfirmations i (Inr (Some c)), LnCancel (rv_payment_hash s) a] \<and> FINALITY_DEPTH \<le> c)
   | _ \<Rightarrow> \<not> settled_in (w_log w') \<and> (\<forall>op. PFunded op \<notin> set (w_log w'))
       \<and> (\<forall>spk v op. WFundHtlc spk v (Inr op) \<notin> set (w_log w'))
       \<and> (\<not> may_have_funded z \<and> no_funding_call (w_log w') \<or> timed_out s (w_log w')))"
proof -
  have o: "reverse_outcome s z (Inr st) (w_log w')" using reverse_run(2) [OF assms refl] .
  have last: "\<exists>p. l = p @ [e]" if "l \<noteq> []" "last l = e" for l :: "event list" and e
    using that by (metis append_butlast_last_id)
  show ?thesis
  proof (cases st)
    case Claimed
    with o show ?thesis by (auto simp: reverse_outcome_def dest!: last)
  qed (use o in \<open>auto simp: reverse_outcome_def\<close>)
qed

theorem reverse_outcome_means_witness:
  "settled_in (w_log (snd (reverse_start claimed_mock default_resume)))"
  using reverse_outcome_means [OF _ reverse_sample_eq]
  by (simp add: no_funding_call_def reverse_sample_log)

subsection \<open>A settle that keeps failing\<close>

lemma call_pair: "\<exists>w'. call ev operation w = (Some (fst (operation (w_env w))), w')"
  by (simp add: call_def split: prod.split)

lemma hint_returns: "\<exists>w'. hint_step ch pg s req op (Some t) due w = (Some False, w')"
  by (simp add: hint_step_def ret_def)

lemma settle_fails:
  assumes "\<And>e. \<exists>m. fst (ln_settle_hold_invoice ln pre e) = Inl m"
  shows "\<exists>w'. settle_from x ln pg t pre False w = (Some False, w')"
proof -
  obtain w1 where 1: "claim_observed pg (x_txid x t) w = (Some (), w1)"
    unfolding claim_observed_def using call_pair by (metis (full_types) old.unit.exhaust)
  obtain m where "fst (ln_settle_hold_invoice ln pre (w_env w1)) = Inl m" using assms by blast
  then obtain w2 where 2: "settle_hold_invoice ln pre w1 = (Some (Inl m), w2)"
    unfolding settle_hold_invoice_def by (metis call_pair)
  show ?thesis using 1 2 by (simp add: settle_from_def bnd_def ret_def)
qed

lemma watch_never_returns:
  assumes "\<And>e. fst (ch_find_spend ch (rv_htlc_spk s) op e) = Inr (Some t)"
    and "extract_preimage x t op (rv_payment_hash s) = Some pre"
    and settle: "\<And>e. \<exists>m. fst (ln_settle_hold_invoice ln pre e) = Inl m"
    and "\<And>e. \<exists>tip. fst (ch_tip_height ch e) = Inr tip \<and> tip < rv_timeout_height s"
  shows "fst (watch_htlc n fuel x ln ch wl ck pg s z req poll op dest False due w) = None"
proof (induction n arbitrary: due w)
  case 0
  then show ?case by (simp add: out_of_fuel_def)
next
  case (Suc n)
  obtain w1 where 1: "find_spend ch (rv_htlc_spk s) op w = (Some (Inr (Some t)), w1)"
    unfolding find_spend_def by (metis call_pair assms(1))
  obtain w2 where 2: "hint_step ch pg s req op (Some t) due w1 = (Some False, w2)"
    using hint_returns by blast
  obtain w3 where 3: "settle_from x ln pg t pre False w2 = (Some False, w3)"
    using settle_fails [OF settle] by blast
  obtain tip where tip: "fst (ch_tip_height ch (w_env w3)) = Inr tip" "tip < rv_timeout_height s"
    using assms(4) by blast
  then obtain w4 where 4: "tip_height ch w3 = (Some (Inr tip), w4)"
    unfolding tip_height_def by (metis call_pair)
  obtain w5 where 5: "sleep_for ck poll w4 = (Some (), w5)"
    unfolding sleep_for_def using call_pair by (metis (full_types) old.unit.exhaust)
  show ?case
    using 1 2 3 4 5 tip(2) assms(2) Suc.IH [of False w5]
    by (auto simp: trym_def tryb_def bnd_def ret_def claim_step_def)
qed

text \<open>The preimage can be public and the invoice still keep the driver waiting: while every settle
  call answers with an error - which is what a node may answer for an invoice it has already
  settled, so that this is where a driver resumed after its settle stands - and the timeout has not
  been reached, no amount of running makes the driver return, although the claim is on chain.\<close>

theorem settle_error_is_retried_for_ever:
  assumes "rz_funding z = Some op" and "rz_reorg_seen_at_height z = None"
    and "\<And>e. fst (ch_find_spend ch (rv_htlc_spk s) op e) = Inr (Some t)"
    and "extract_preimage x t op (rv_payment_hash s) = Some pre"
    and "\<And>e. \<exists>m. fst (ln_settle_hold_invoice ln pre e) = Inl m"
    and "\<And>e. \<exists>tip. fst (ch_tip_height ch e) = Inr tip \<and> tip < rv_timeout_height s"
  shows "fst (drive_reverse_swap fuel x ln ch wl ck s req poll z pg w) = None"
proof -
  have "fst (watch_funded fuel x ln ch wl ck s req poll z pg op w) = None" for w
  proof -
    obtain b w1 where 1: "wants_claimable pg w = (Some b, w1)"
      unfolding wants_claimable_def using call_pair by metis
    obtain d w2 where 2: "receive_destination wl w1 = (Some d, w2)"
      unfolding receive_destination_def using call_pair by metis
    show ?thesis
      using 1 2 watch_never_returns [OF assms(3-6), where w = w2]
      by (simp add: watch_funded_def bnd_def)
  qed
  then show ?thesis
    using assms(1,2)
    by (simp add: drive_reverse_swap_def may_have_funded_def establish_funding_def tryb_def bnd_def ret_def)
qed

definition settled_node :: "'e lightning_backend" where
  "settled_node = paid_node\<lparr>ln_settle_hold_invoice := (\<lambda>_ e. (Inl (LnBackend ''invoice already settled''), e))\<rparr>"

definition pinned_watcher :: "mock_chain chain_watcher" where
  "pinned_watcher = (mock_watcher sample_ext)
     \<lparr>ch_find_spend := (\<lambda>_ _ e. (Inr (Some sample_claim), e)), ch_tip_height := (\<lambda>e. (Inr 100, e))\<rparr>"

theorem settle_error_is_retried_for_ever_witness:
  "fst (drive_reverse_swap 5 sample_ext settled_node pinned_watcher sample_wallet frozen_clock sample_reverse 1 1000
     resumed null_progress \<lparr>w_env = claimed_mock, w_log = []\<rparr>) = None"
  by (rule settle_error_is_retried_for_ever [where op = sample_op and t = sample_claim and pre = "replicate 32 7"])
    (simp_all add: resumed_def default_resume_def pinned_watcher_def settled_node_def sample_claim_def
      sample_reverse_def extract_preimage_def sample_ext_def)

end
