(* ===== verification/Submarine_Driver.thy ===== *)
theory Submarine_Driver
  imports Refusals Store Reorg Fee_Bump
begin

text \<open>
  The provider's driver of a submarine swap: \<open>swap-provider/src/submarine.rs\<close>, from the
  client's invoice to the claim of the HTLC that pays for it. Waiting for the funding and
  driving the claim are unbounded in the source and take fuel here; asking about the payment is
  bounded by the source's own count.
\<close>

record submarine_swap =
  sb_payment_hash :: payment_hash
  sb_onchain_amount_sat :: u64
  sb_fee_rate_sat_vb :: u64
  sb_htlc_script :: script
  sb_htlc_spk :: script
  sb_taproot :: "taproot_swap option"
  sb_timeout_height :: u32
  sb_claim_key :: secret_key
  sb_invoice :: string
  sb_max_routing_fee_msat :: u64
  sb_timelock :: timelock_params

subsection \<open>Creating the swap\<close>

text \<open>The swap a decoded invoice makes, and the call that decodes it.\<close>

definition submarine_for_invoice ::
  "ext \<Rightarrow> lightning_error + decoded_invoice \<Rightarrow> string \<Rightarrow> pubkey \<Rightarrow> secret_key \<Rightarrow> pubkey \<Rightarrow> u64 \<Rightarrow> u64 \<Rightarrow> u64 \<Rightarrow> u64
   \<Rightarrow> u32 \<Rightarrow> u32 \<Rightarrow> bitcoin_network \<Rightarrow> timelock_params \<Rightarrow> handler_error + submarine_swap" where
  "submarine_for_invoice x answer invoice client_refund_pubkey claim_key provider_claim_pubkey quoted_amount_sat
     provider_fee_sat fee_rate_sat_vb max_routing_fee_msat tip timeout_height network p =
     try_bind (map_err (\<lambda>e. Internal (AnyMsg (''decode invoice: '' @ show_lightning_error e))) answer) (\<lambda>decoded.
       let invoice_amount_sat = di_amount_msat decoded div 1000
       in if \<not> di_amount_is_explicit decoded
          then Inl (Refusal RcInvalidDestination
                 ''the client's invoice carries no amount; a swap needs an amount-bearing invoice'')
          else if di_amount_msat decoded mod 1000 \<noteq> 0
          then Inl (Refusal RcInvalidDestination (''invoice amount '' @ show_u (di_amount_msat decoded)
                 @ '' msat is not a whole number of satoshis''))
          else if invoice_amount_sat \<noteq> quoted_amount_sat
          then Inl (Refusal RcInvalidDestination (''the client's invoice is for '' @ show_u invoice_amount_sat
                 @ '' sat but the quote is for '' @ show_u quoted_amount_sat @ '' sat''))
          else try_bind (map_err (\<lambda>violation. Refusal RcInvalidDestination
                   (''the client's invoice demands too much final CLTV: '' @ show_violation violation))
                 (check_submarine_invoice_cltv tip timeout_height (di_min_final_cltv_expiry decoded) p)) (\<lambda>_.
               try_bind (ok_or (Internal (AnyMsg (''on-chain amount overflows: '' @ show_u invoice_amount_sat @ '' + ''
                   @ show_u provider_fee_sat @ '' sat''))) (checked_add invoice_amount_sat provider_fee_sat)) (\<lambda>onchain_amount_sat.
               let htlc_script = build_htlc_script x (di_payment_hash decoded) provider_claim_pubkey
                     client_refund_pubkey timeout_height
               in Inr \<lparr>sb_payment_hash = di_payment_hash decoded,
                    sb_onchain_amount_sat = onchain_amount_sat, sb_fee_rate_sat_vb = fee_rate_sat_vb,
                    sb_htlc_script = htlc_script,
                    sb_htlc_spk = x_address_spk x (htlc_p2wsh_address x htlc_script network),
                    sb_taproot = None, sb_timeout_height = timeout_height, sb_claim_key = claim_key,
                    sb_invoice = invoice, sb_max_routing_fee_msat = max_routing_fee_msat,
                    sb_timelock = p\<rparr>)))"

definition init_submarine_swap ::
  "ext \<Rightarrow> 'e lightning_backend \<Rightarrow> string \<Rightarrow> pubkey \<Rightarrow> secret_key \<Rightarrow> pubkey \<Rightarrow> u64 \<Rightarrow> u64 \<Rightarrow> u64 \<Rightarrow> u64
   \<Rightarrow> u32 \<Rightarrow> u32 \<Rightarrow> bitcoin_network \<Rightarrow> timelock_params \<Rightarrow> ('e, handler_error + submarine_swap) act" where
  "init_submarine_swap x ln invoice client_refund_pubkey claim_key provider_claim_pubkey quoted_amount_sat
     provider_fee_sat fee_rate_sat_vb max_routing_fee_msat tip timeout_height network p =
     bnd (decode_invoice ln invoice) (\<lambda>answer. ret (submarine_for_invoice x answer invoice client_refund_pubkey claim_key
       provider_claim_pubkey quoted_amount_sat provider_fee_sat fee_rate_sat_vb max_routing_fee_msat tip timeout_height
       network p))"

subsection \<open>The funding\<close>

definition PAYMENT_POLL_ITERATIONS :: nat where "PAYMENT_POLL_ITERATIONS = 30"

text \<open>A result that ends the run (\<open>Inl\<close>) or the value to go on with (\<open>Inr\<close>).\<close>

type_synonym 'a step_result = "any_error + (swap_state + 'a)"

fun await_funding ::
  "nat \<Rightarrow> 'e chain_watcher \<Rightarrow> 'e clock \<Rightarrow> 'e progress_sink \<Rightarrow> submarine_swap \<Rightarrow> u32 \<Rightarrow> nat
   \<Rightarrow> ('e, outpoint step_result) act" where
  "await_funding 0 ch ck pg swap required_confirmations poll = out_of_fuel"
| "await_funding (Suc n) ch ck pg swap required_confirmations poll =
     trym AnySwap (find_outputs ch (sb_htlc_spk swap)) (\<lambda>outputs.
     let wait = trym AnySwap (tip_height ch) (\<lambda>tip.
           if tip \<ge> sb_timeout_height swap then ret (Inr (Inl Expired))
           else bnd (sleep_for ck poll) (\<lambda>_. await_funding n ch ck pg swap required_confirmations poll));
         adopt = (\<lambda>utxo. if fu_confirmations utxo \<ge> required_confirmations
           then bnd (funded pg (fu_outpoint utxo)) (\<lambda>_. ret (Inr (Inr (fu_outpoint utxo))))
           else wait)
     in case select_funding outputs (sb_onchain_amount_sat swap) DEFAULT_MAX_OVERPAY_SAT of
          Exact utxo \<Rightarrow> adopt utxo
        | Overpaid utxo excess_sat \<Rightarrow> adopt utxo
        | Underpaid got_sat \<Rightarrow> ret (Inr (Inl (Failed (''funding is short: '' @ show_u got_sat @ '' of ''
             @ show_u (sb_onchain_amount_sat swap) @ '' sat''))))
        | ExcessiveOverpay got_sat \<Rightarrow> ret (Inr (Inl (Failed (''funding of '' @ show_u got_sat
             @ '' sat is implausible for a '' @ show_u (sb_onchain_amount_sat swap) @ '' sat swap''))))
        | Multiple utxos \<Rightarrow> ret (Inr (Inl (Failed ''several outputs pay the HTLC address'')))
        | NoFunding \<Rightarrow> wait)"

definition locate_funding ::
  "nat \<Rightarrow> ext \<Rightarrow> 'e chain_watcher \<Rightarrow> 'e clock \<Rightarrow> 'e progress_sink \<Rightarrow> submarine_swap \<Rightarrow> u32 \<Rightarrow> nat \<Rightarrow> resume
   \<Rightarrow> ('e, outpoint step_result) act" where
  "locate_funding n x ch ck pg swap required_confirmations poll resume =
     (case rz_funding resume of
        Some op \<Rightarrow>
          trym AnySwap (find_spend ch (sb_htlc_spk swap) op) (\<lambda>spend.
          ret (Inr (case spend of
              None \<Rightarrow> Inr op
            | Some t \<Rightarrow> if extract_preimage x t op (sb_payment_hash swap) \<noteq> None then Inl Claimed else Inr op)))
      | None \<Rightarrow> await_funding n ch ck pg swap required_confirmations poll)"

text \<open>The reorg guard right before the payment, and the value the claim is signed over.\<close>

definition funding_value ::
  "'e lightning_backend \<Rightarrow> 'e chain_watcher \<Rightarrow> 'e clock \<Rightarrow> submarine_swap \<Rightarrow> u32 \<Rightarrow> nat \<Rightarrow> bool \<Rightarrow> outpoint
   \<Rightarrow> ('e, u64 step_result) act" where
  "funding_value ln ch ck swap required_confirmations poll attempted op =
     trym AnySwap (outpoint_status ch (sb_htlc_spk swap) op) (\<lambda>utxo.
     let gone =
       trym AnySwap (find_spend ch (sb_htlc_spk swap) op) (\<lambda>spend.
         if spend \<noteq> None then ret (Inr (Inl Claimed))
         else if attempted then
           trym (\<lambda>e. AnyMsg (''payment status: '' @ show_lightning_error e))
             (payment_status ln (sb_payment_hash swap)) (\<lambda>status. case status of
               PayFailed reason \<Rightarrow> ret (Inr (Inl (Failed (''invoice payment failed: '' @ reason))))
             | _ \<Rightarrow> bnd (sleep_for ck poll) (\<lambda>_. ret (Inr (Inl InvoicePending))))
         else ret (Inr (Inl (Failed ''funding reorged below required confirmations before payment''))))
     in case utxo of
          Some u \<Rightarrow>
            if fu_confirmations u \<ge> required_confirmations then ret (Inr (Inr (fu_value_sat u)))
            else if attempted then ret (Inr (Inr (fu_value_sat u)))
            else gone
        | None \<Rightarrow> gone)"

subsection \<open>The payment\<close>

text \<open>The half of the loop that pays: gated by the claim window and the CLTV budget, announced
  before the call. \<open>None\<close> never occurs here; the type is the loop's.\<close>

definition pay_now ::
  "'e lightning_backend \<Rightarrow> 'e chain_watcher \<Rightarrow> 'e progress_sink \<Rightarrow> submarine_swap
   \<Rightarrow> ('e, payment_result option step_result) act" where
  "pay_now ln ch pg swap =
     trym AnySwap (tip_height ch) (\<lambda>tip.
     case check_submarine_before_pay tip (sb_timeout_height swap) (sb_timelock swap) of
       Inl violation \<Rightarrow> ret (Inr (Inl (Failed (''insufficient claim window: '' @ show_violation violation))))
     | Inr _ \<Rightarrow>
       (case submarine_cltv_budget tip (sb_timeout_height swap) (sb_timelock swap) of
          None \<Rightarrow> ret (Inr (Inl (Failed ''no CLTV budget left to pay the invoice safely'')))
        | Some cltv_limit \<Rightarrow>
            tryb (invoice_pay_started pg) (\<lambda>_.
            bnd (pay_invoice ln (sb_invoice swap) (sb_max_routing_fee_msat swap) (Some cltv_limit)) (\<lambda>r. case r of
              Inr p \<Rightarrow> bnd (invoice_paid pg) (\<lambda>_. ret (Inr (Inr (Some p))))
            | Inl (PaymentFailed m) \<Rightarrow>
                ret (Inr (Inl (Failed (''invoice payment failed: '' @ show_lightning_error (PaymentFailed m)))))
            | Inl (NotImplemented m) \<Rightarrow>
                ret (Inr (Inl (Failed (''invoice payment failed: '' @ show_lightning_error (NotImplemented m)))))
            | Inl _ \<Rightarrow> ret (Inr (Inl InvoicePending))))))"

text \<open>One turn of the payment loop per unit: \<open>None\<close> when the budget of turns is spent.\<close>

fun pay_loop ::
  "nat \<Rightarrow> 'e lightning_backend \<Rightarrow> 'e chain_watcher \<Rightarrow> 'e clock \<Rightarrow> 'e progress_sink \<Rightarrow> submarine_swap \<Rightarrow> nat
   \<Rightarrow> resume \<Rightarrow> bool \<Rightarrow> ('e, payment_result option step_result) act" where
  "pay_loop 0 ln ch ck pg swap poll resume attempted = ret (Inr (Inr None))"
| "pay_loop (Suc n) ln ch ck pg swap poll resume attempted =
     trym (\<lambda>e. AnyMsg (''payment status: '' @ show_lightning_error e))
       (payment_status ln (sb_payment_hash swap)) (\<lambda>status.
       let again = bnd (sleep_for ck poll) (\<lambda>_. pay_loop n ln ch ck pg swap poll resume attempted);
           unknown = (if rz_funding resume \<noteq> None \<and> attempted then again else pay_now ln ch pg swap)
       in case status of
            PaySucceeded p \<Rightarrow> bnd (invoice_paid pg) (\<lambda>_. ret (Inr (Inr (Some p))))
          | PayInFlight \<Rightarrow> again
          | PayFailed reason \<Rightarrow> ret (Inr (Inl (Failed (''invoice payment failed: '' @ reason))))
          | PayUnknown \<Rightarrow> unknown
          | PayNotFound \<Rightarrow> unknown)"

subsection \<open>The claim\<close>

definition claim_vsize :: "ext \<Rightarrow> submarine_swap \<Rightarrow> script \<Rightarrow> u64" where
  "claim_vsize x swap dest =
     (case sb_taproot swap of
        None \<Rightarrow> spend_vsize (sb_htlc_script swap) dest True
      | Some contract \<Rightarrow> taproot_spend_vsize x contract dest True)"

definition claim_builder ::
  "ext \<Rightarrow> submarine_swap \<Rightarrow> outpoint \<Rightarrow> u64 \<Rightarrow> script \<Rightarrow> preimage \<Rightarrow> u64 \<Rightarrow> swap_error + transaction" where
  "claim_builder x swap op value_sat dest pre rate =
     (case sb_taproot swap of
        Some contract \<Rightarrow> taproot_claim_tx x contract op value_sat dest
          (estimate_spend_fee rate (claim_vsize x swap dest)) pre (sb_claim_key swap)
      | None \<Rightarrow> build_claim_tx x op value_sat (sb_htlc_script swap) dest
          (estimate_spend_fee rate (claim_vsize x swap dest)) pre (sb_claim_key swap))"

definition claim_watch :: "ext \<Rightarrow> submarine_swap \<Rightarrow> nat \<Rightarrow> script \<Rightarrow> txid list \<Rightarrow> spend_watch_config" where
  "claim_watch x swap poll dest ours =
     with_known_ours
       (claim_config CLAIM_FEE_TARGET_BLOCKS (sb_fee_rate_sat_vb swap)
          (fee_rate_cap (sb_onchain_amount_sat swap) (claim_vsize x swap dest) DEFAULT_MAX_FEE_BPS
             ABSOLUTE_MAX_FEE_RATE_SAT_VB (sb_fee_rate_sat_vb swap))
          poll FINALITY_DEPTH (saturating_sub (sb_timeout_height swap) CLAIM_ABORT_MARGIN))
       ours"

text \<open>
  The spends announced so far. The source's closure pushes each announced txid onto a list it
  reads back before every pass; the same txids are in the log, from the mark set when the claim
  began.
\<close>

fun announced_id :: "event \<Rightarrow> txid list" where
  "announced_id (PSpendBroadcast t) = [t]"
| "announced_id _ = []"

definition log_mark :: "('e, nat) act" where
  "log_mark w = (Some (length (w_log w)), w)"

definition announced_since :: "nat \<Rightarrow> ('e, txid list) act" where
  "announced_since mark w = (Some (concat (map announced_id (drop mark (w_log w)))), w)"

fun claim_loop ::
  "nat \<Rightarrow> nat \<Rightarrow> ext \<Rightarrow> 'e chain_watcher \<Rightarrow> 'e onchain_wallet \<Rightarrow> 'e clock \<Rightarrow> 'e progress_sink
   \<Rightarrow> submarine_swap \<Rightarrow> nat \<Rightarrow> resume \<Rightarrow> nat \<Rightarrow> outpoint \<Rightarrow> u64 \<Rightarrow> script \<Rightarrow> preimage
   \<Rightarrow> ('e, any_error + swap_state) act" where
  "claim_loop 0 fuel x ch wl ck pg swap poll resume mark op value_sat dest pre = out_of_fuel"
| "claim_loop (Suc n) fuel x ch wl ck pg swap poll resume mark op value_sat dest pre =
     bnd (announced_since mark) (\<lambda>mine.
     trym (\<lambda>e. AnyMsg (''claim broadcast/bump: '' @ show_swap_error e))
       (confirm_or_bump fuel x ch ck (sb_htlc_spk swap) op
          (claim_watch x swap poll dest (rz_our_spends resume @ mine)) (Some (cpfp_child wl))
          (spend_broadcast pg) (claim_builder x swap op value_sat dest pre))
       (\<lambda>outcome. case outcome of
          Confirmed _ \<Rightarrow> ret (Inr Claimed)
        | ConflictingSpend _ \<Rightarrow>
            ret (Inr (Failed ''the client's refund won the claim race after the invoice was paid''))
        | DeadlineExceeded _ _ \<Rightarrow> bnd (sleep_for ck poll) (\<lambda>_.
            claim_loop n fuel x ch wl ck pg swap poll resume mark op value_sat dest pre)))"

subsection \<open>The driver\<close>

text \<open>Continue with the value of a step, or end the run in its state.\<close>

definition step_bind ::
  "('e, 'a step_result) act \<Rightarrow> ('a \<Rightarrow> ('e, any_error + swap_state) act) \<Rightarrow> ('e, any_error + swap_state) act" where
  "step_bind m f = tryb m (\<lambda>r. case r of Inl st \<Rightarrow> ret (Inr st) | Inr v \<Rightarrow> f v)"

definition claim_paid ::
  "nat \<Rightarrow> ext \<Rightarrow> 'e chain_watcher \<Rightarrow> 'e onchain_wallet \<Rightarrow> 'e clock \<Rightarrow> 'e progress_sink \<Rightarrow> submarine_swap
   \<Rightarrow> nat \<Rightarrow> resume \<Rightarrow> outpoint \<Rightarrow> u64 \<Rightarrow> payment_result \<Rightarrow> ('e, any_error + swap_state) act" where
  "claim_paid fuel x ch wl ck pg swap poll resume op value_sat payment =
     (if payment_hash x (pr_preimage payment) \<noteq> sb_payment_hash swap
      then ret (Inr (Failed ''paid invoice preimage does not match HTLC hashlock''))
      else bnd (receive_destination wl) (\<lambda>dest.
           bnd log_mark (\<lambda>mark.
           claim_loop fuel fuel x ch wl ck pg swap poll resume mark op value_sat dest (pr_preimage payment))))"

definition drive_submarine_swap ::
  "nat \<Rightarrow> ext \<Rightarrow> 'e lightning_backend \<Rightarrow> 'e chain_watcher \<Rightarrow> 'e onchain_wallet \<Rightarrow> 'e clock \<Rightarrow> submarine_swap
   \<Rightarrow> u32 \<Rightarrow> nat \<Rightarrow> resume \<Rightarrow> bool \<Rightarrow> 'e progress_sink \<Rightarrow> ('e, any_error + swap_state) act" where
  "drive_submarine_swap fuel x ln ch wl ck swap required_confirmations poll resume attempted pg =
     step_bind (locate_funding fuel x ch ck pg swap required_confirmations poll resume) (\<lambda>op.
     step_bind (funding_value ln ch ck swap required_confirmations poll attempted op) (\<lambda>value_sat.
     step_bind (pay_loop PAYMENT_POLL_ITERATIONS ln ch ck pg swap poll resume attempted) (\<lambda>payment.
       case payment of
         None \<Rightarrow> ret (Inr InvoicePending)
       | Some p \<Rightarrow> claim_paid fuel x ch wl ck pg swap poll resume op value_sat p)))"

end
