(* ===== verification/Submarine_Safety.thy ===== *)
theory Submarine_Safety
  imports Submarine_Driver Reverse_Safety
begin

text \<open>
  What the submarine driver never does, whatever its backends answer: pay the invoice twice,
  without the gates or against a funding that is not there, claim with anything but the preimage
  the payment bought, or give up while a payment may be out.
\<close>

subsection \<open>Conditions on events\<close>

definition no_pay :: "event list \<Rightarrow> bool" where
  "no_pay l \<longleftrightarrow> (\<forall>i f c r. LnPay i f c r \<notin> set l)"

definition paid_with :: "payment_hash \<Rightarrow> preimage \<Rightarrow> event list \<Rightarrow> bool" where
  "paid_with h pre l \<longleftrightarrow> (\<exists>p. pr_preimage p = pre \<and>
     (LnPaymentStatus h (Inr (PaySucceeded p)) \<in> set l \<or> (\<exists>i f c. LnPay i f c (Inr p) \<in> set l)))"

text \<open>The funding the swap acts on, as the chain showed it.\<close>

definition seen_funding :: "resume \<Rightarrow> bool \<Rightarrow> u32 \<Rightarrow> outpoint \<Rightarrow> u64 \<Rightarrow> event list \<Rightarrow> bool" where
  "seen_funding z att req op v l \<longleftrightarrow> known_funding z op l \<and>
     (\<exists>u. ChOutpointStatus op (Inr (Some u)) \<in> set l \<and> fu_value_sat u = v \<and> (att \<or> req \<le> fu_confirmations u))"

definition pay_guard :: "submarine_swap \<Rightarrow> resume \<Rightarrow> bool \<Rightarrow> u32 \<Rightarrow> event list \<Rightarrow> event \<Rightarrow> bool" where
  "pay_guard s z att req p e = (case e of
     LnPay invoice fee cltv _ \<Rightarrow>
       \<not> (rz_funding z \<noteq> None \<and> att) \<and> invoice = sb_invoice s \<and> fee = sb_max_routing_fee_msat s \<and> no_pay p
       \<and> (\<exists>op v. seen_funding z att req op v p)
       \<and> (\<exists>p0 st tip limit. p = p0 @ [LnPaymentStatus (sb_payment_hash s) (Inr st), ChTip (Inr tip), PPayStarted (Inr ())]
            \<and> (st = PayUnknown \<or> st = PayNotFound)
            \<and> check_submarine_before_pay tip (sb_timeout_height s) (sb_timelock s) = Inr ()
            \<and> submarine_cltv_budget tip (sb_timeout_height s) (sb_timelock s) = Some limit \<and> cltv = Some limit)
   | _ \<Rightarrow> True)"

definition claim_guard :: "ext \<Rightarrow> submarine_swap \<Rightarrow> resume \<Rightarrow> bool \<Rightarrow> u32 \<Rightarrow> event list \<Rightarrow> event \<Rightarrow> bool" where
  "claim_guard x s z att req p e = (case e of
     ChBroadcast t _ \<Rightarrow> p \<noteq> [] \<and> last p = PSpendBroadcast (x_txid x t) \<and>
       (\<exists>op v dest pre rate. seen_funding z att req op v p \<and> paid_with (sb_payment_hash s) pre p
          \<and> payment_hash x pre = sb_payment_hash s \<and> claim_builder x s op v dest pre rate = Inr t)
   | _ \<Rightarrow> True)"

definition submarine_guard :: "ext \<Rightarrow> submarine_swap \<Rightarrow> resume \<Rightarrow> bool \<Rightarrow> u32 \<Rightarrow> event list \<Rightarrow> event \<Rightarrow> bool" where
  "submarine_guard x s z att req p e \<longleftrightarrow> pay_guard s z att req p e \<and> claim_guard x s z att req p e"

fun idle :: "event \<Rightarrow> bool" where
  "idle (LnPay _ _ _ _) = False"
| "idle (ChBroadcast _ _) = False"
| "idle _ = True"

lemma submarine_guard_simps [simp]:
  "idle e \<Longrightarrow> submarine_guard x s z att req p e"
  "submarine_guard x s z att req p (LnPay i f c r) = pay_guard s z att req p (LnPay i f c r)"
  "submarine_guard x s z att req p (ChBroadcast t b) = claim_guard x s z att req p (ChBroadcast t b)"
  by (cases e) (simp_all add: submarine_guard_def pay_guard_def claim_guard_def)

text \<open>What a result is worth.\<close>

definition payment_is_dead :: "submarine_swap \<Rightarrow> resume \<Rightarrow> bool \<Rightarrow> event list \<Rightarrow> bool" where
  "payment_is_dead s z att l \<longleftrightarrow>
     (\<exists>reason. LnPaymentStatus (sb_payment_hash s) (Inr (PayFailed reason)) \<in> set l)
     \<or> no_pay l \<and> \<not> (rz_funding z \<noteq> None \<and> att)
     \<or> (\<exists>i f c m. LnPay i f c (Inl (PaymentFailed m)) \<in> set l \<or> LnPay i f c (Inl (NotImplemented m)) \<in> set l)"

definition submarine_outcome ::
  "ext \<Rightarrow> submarine_swap \<Rightarrow> resume \<Rightarrow> bool \<Rightarrow> any_error + swap_state \<Rightarrow> event list \<Rightarrow> bool" where
  "submarine_outcome x s z att r l = (case r of
     Inl _ \<Rightarrow> True
   | Inr Claimed \<Rightarrow>
       no_pay l \<and> (\<exists>op t. known_funding z op l \<and> ChFindSpend op (Inr (Some t)) \<in> set l)
       \<or> (\<exists>pre i c. paid_with (sb_payment_hash s) pre l \<and> payment_hash x pre = sb_payment_hash s
            \<and> l \<noteq> [] \<and> last l = ChConfirmations i (Inr (Some c)) \<and> FINALITY_DEPTH \<le> c)
   | Inr Expired \<Rightarrow> no_pay l \<and> rz_funding z = None
       \<and> (\<exists>tip. ChTip (Inr tip) \<in> set l \<and> sb_timeout_height s \<le> tip)
   | Inr (Failed m) \<Rightarrow> payment_is_dead s z att l
       \<or> (\<exists>pre. paid_with (sb_payment_hash s) pre l \<and>
            (payment_hash x pre \<noteq> sb_payment_hash s
             \<or> (\<exists>op t. l \<noteq> [] \<and> last l = ChFindSpend op (Inr (Some t)) \<and> x_txid x t \<notin> set (rz_our_spends z))))
   | Inr st \<Rightarrow> st = InvoicePending)"

lemmas submarine_defs = no_pay_def paid_with_def seen_funding_def pay_guard_def claim_guard_def
  payment_is_dead_def submarine_outcome_def known_funding_def

subsection \<open>Before the payment\<close>

definition started :: "ext \<Rightarrow> submarine_swap \<Rightarrow> resume \<Rightarrow> bool \<Rightarrow> u32 \<Rightarrow> event list \<Rightarrow> bool" where
  "started x s z att req l \<longleftrightarrow> always (submarine_guard x s z att req) l \<and> no_pay l \<and> no_broadcast l"

lemma started_idle: "list_all idle q \<Longrightarrow> started x s z att req l \<Longrightarrow> started x s z att req (l @ q)"
  by (auto simp: started_def no_pay_def no_broadcast_def list_all_iff intro!: always_from_free [where E = idle])

definition step_post ::
  "ext \<Rightarrow> submarine_swap \<Rightarrow> resume \<Rightarrow> bool \<Rightarrow> u32 \<Rightarrow> ('a \<Rightarrow> event list \<Rightarrow> bool) \<Rightarrow> 'a step_result \<Rightarrow> event list \<Rightarrow> bool" where
  "step_post x s z att req Q r l \<longleftrightarrow> always (submarine_guard x s z att req) l \<and>
     (case r of Inl _ \<Rightarrow> True | Inr (Inl st) \<Rightarrow> submarine_outcome x s z att (Inr st) l | Inr (Inr v) \<Rightarrow> Q v l)"

lemma await_funding_wp:
  assumes "started x s z att req l" and "rz_funding z = None"
  shows "wpl (await_funding n ch ck pg s req poll)
    (step_post x s z att req (\<lambda>op l'. started x s z att req l' \<and> known_funding z op l'))
    (always (submarine_guard x s z att req)) l"
  using assms(1)
proof (induction n arbitrary: l)
  case 0
  then show ?case by (auto intro: wp simp: started_def)
next
  case (Suc n)
  have wait: "wpl (trym AnySwap (tip_height ch) (\<lambda>tip.
           if tip \<ge> sb_timeout_height s then ret (Inr (Inl Expired))
           else bnd (sleep_for ck poll) (\<lambda>_. await_funding n ch ck pg s req poll)))
      (step_post x s z att req (\<lambda>op l'. started x s z att req l' \<and> known_funding z op l'))
      (always (submarine_guard x s z att req)) l'"
    if "started x s z att req l'" for l'
    unfolding call_defs
    by (intro wp Suc.IH) (use that assms(2) in \<open>auto simp: started_def step_post_def submarine_defs no_broadcast_def\<close>)
  show ?case unfolding await_funding.simps Let_def find_outputs_def funded_def
    by (intro wp wait started_idle [OF _ Suc.prems])
      (use Suc.prems assms(2) in \<open>auto simp: started_def step_post_def submarine_defs no_broadcast_def\<close>)
qed

lemma locate_funding_wp:
  assumes "started x s z att req l"
  shows "wpl (locate_funding n x ch ck pg s req poll z)
    (step_post x s z att req (\<lambda>op l'. started x s z att req l' \<and> known_funding z op l'))
    (always (submarine_guard x s z att req)) l"
  unfolding locate_funding_def find_spend_def
  by (intro wp await_funding_wp)
    (use assms in \<open>auto simp: started_def step_post_def submarine_defs no_broadcast_def split: option.splits\<close>)

lemma funding_value_wp:
  assumes "started x s z att req l" and "known_funding z op l"
  shows "wpl (funding_value ln ch ck s req poll att op)
    (step_post x s z att req (\<lambda>v l'. started x s z att req l' \<and> seen_funding z att req op v l'))
    (always (submarine_guard x s z att req)) l"
  unfolding funding_value_def Let_def outpoint_status_def find_spend_def payment_status_def sleep_for_def
  by (intro wp) (use assms in \<open>auto simp: started_def step_post_def submarine_defs no_broadcast_def\<close>)

subsection \<open>The payment\<close>

definition bought ::
  "submarine_swap \<Rightarrow> resume \<Rightarrow> bool \<Rightarrow> u32 \<Rightarrow> outpoint \<Rightarrow> u64 \<Rightarrow> payment_result option \<Rightarrow> event list \<Rightarrow> bool" where
  "bought s z att req op v payment l \<longleftrightarrow> no_broadcast l \<and> seen_funding z att req op v l \<and>
     (case payment of None \<Rightarrow> True | Some p \<Rightarrow> paid_with (sb_payment_hash s) (pr_preimage p) l)"

lemma pay_now_wp:
  assumes "started x s z att req (l @ [LnPaymentStatus (sb_payment_hash s) (Inr st)])"
    and "seen_funding z att req op v l" and "st = PayUnknown \<or> st = PayNotFound"
    and "\<not> (rz_funding z \<noteq> None \<and> att)"
  shows "wpl (pay_now ln ch pg s) (step_post x s z att req (bought s z att req op v))
    (always (submarine_guard x s z att req)) (l @ [LnPaymentStatus (sb_payment_hash s) (Inr st)])"
proof -
  have seen: "seen_funding z att req op v (l @ q)" for q
    using assms(2) by (auto simp: seen_funding_def known_funding_def)
  show ?thesis
    unfolding pay_now_def tip_height_def invoice_pay_started_def pay_invoice_def invoice_paid_def
    by (intro wp)
      (use assms(1,3,4) seen in \<open>auto simp: started_def step_post_def submarine_outcome_def payment_is_dead_def bought_def
        pay_guard_def no_pay_def no_broadcast_def paid_with_def\<close>)
qed

lemma pay_loop_wp:
  assumes "started x s z att req l" and "seen_funding z att req op v l"
  shows "wpl (pay_loop n ln ch ck pg s poll z att) (step_post x s z att req (bought s z att req op v))
    (always (submarine_guard x s z att req)) l"
  using assms
proof (induction n arbitrary: l)
  case 0
  then show ?case by (auto intro!: wp simp: step_post_def bought_def started_def)
next
  case (Suc n)
  have more: "started x s z att req (l @ q) \<and> seen_funding z att req op v (l @ q)" if "list_all idle q" for q
    using that Suc.prems started_idle by (auto simp: seen_funding_def known_funding_def)
  show ?case unfolding pay_loop.simps Let_def payment_status_def sleep_for_def invoice_paid_def
    by (intro wp Suc.IH pay_now_wp)
      (use Suc.prems more in \<open>auto simp: step_post_def submarine_outcome_def payment_is_dead_def bought_def
        paid_with_def started_def no_broadcast_def\<close>)
qed

subsection \<open>The claim\<close>

lemma claim_builder_spends:
  "claim_builder x s op v dest pre rate = Inr t \<Longrightarrow> \<exists>i. tx_input t = [i] \<and> in_previous_output i = op"
  by (auto simp: claim_builder_def build_claim_tx_def taproot_claim_tx_def set_witness_def unsigned_spend_def
      split: option.splits if_splits dest!: build_htlc_spend_Inr(4) spend_tx_Inr(2))

interpretation claim: htlc_spender "spend_broadcast pg" "claim_builder x s op v dest pre" op "Some (cpfp_child wl)"
  for pg x s op v dest pre wl
  by (rule standard_spender) (rule claim_builder_spends)

definition claiming ::
  "ext \<Rightarrow> submarine_swap \<Rightarrow> resume \<Rightarrow> bool \<Rightarrow> u32 \<Rightarrow> outpoint \<Rightarrow> u64 \<Rightarrow> preimage \<Rightarrow> event list \<Rightarrow> bool" where
  "claiming x s z att req op v pre l \<longleftrightarrow> seen_funding z att req op v l \<and> paid_with (sb_payment_hash s) pre l
     \<and> payment_hash x pre = sb_payment_hash s"

lemma claiming_mono: "claiming x s z att req op v pre l \<Longrightarrow> claiming x s z att req op v pre (l @ q)"
  by (auto simp: claiming_def seen_funding_def known_funding_def paid_with_def)

lemma claim_bump_allowed:
  assumes "claiming x s z att req op v pre p"
    and "announced_spend x (claim_builder x s op v dest pre) cfg p e" and "bump_event e"
  shows "submarine_guard x s z att req p e"
proof (cases "idle e")
  case False
  with assms(3) obtain t r where t: "e = ChBroadcast t r" by (cases e) auto
  with assms show ?thesis by (clarsimp simp: announced_spend_def claim_guard_def claiming_def) blast
qed simp

definition submarine_post ::
  "ext \<Rightarrow> submarine_swap \<Rightarrow> resume \<Rightarrow> bool \<Rightarrow> u32 \<Rightarrow> any_error + swap_state \<Rightarrow> event list \<Rightarrow> bool" where
  "submarine_post x s z att req r l \<longleftrightarrow>
     always (submarine_guard x s z att req) l \<and> submarine_outcome x s z att r l"

lemma wp_announced_since:
  "wpl (f (concat (map announced_id (drop mark l)))) Q R l \<Longrightarrow> wpl (bnd (announced_since mark) f) Q R l"
  by (auto simp: wpl_def bnd_def announced_since_def)

lemma wp_log_mark: "wpl (f (length l)) Q R l \<Longrightarrow> wpl (bnd log_mark f) Q R l"
  by (auto simp: wpl_def bnd_def log_mark_def)

lemma claim_pass_wp:
  fixes s :: submarine_swap
  assumes "always (submarine_guard x s z att req) l" and "claiming x s z att req op v pre l"
  shows "wpl (confirm_or_bump fuel x ch ck (sb_htlc_spk s) op
      (claim_watch x s poll dest (rz_our_spends z @ mine)) (Some (cpfp_child wl))
      (spend_broadcast pg) (claim_builder x s op v dest pre))
    (\<lambda>r l'. always (submarine_guard x s z att req) l' \<and> claiming x s z att req op v pre l'
       \<and> (case r of Inr (Confirmed i) \<Rightarrow> \<exists>p c. l' = p @ [ChConfirmations i (Inr (Some c))] \<and> FINALITY_DEPTH \<le> c
          | Inr (ConflictingSpend t) \<Rightarrow> x_txid x t \<notin> set (rz_our_spends z)
              \<and> (\<exists>p. l' = p @ [ChFindSpend op (Inr (Some t))])
          | _ \<Rightarrow> True))
    (always (submarine_guard x s z att req)) l"
proof -
  let ?build = "claim_builder x s op v dest pre"
  let ?cfg = "claim_watch x s poll dest (rz_our_spends z @ mine)"
  have conf: "sw_min_confirmations ?cfg = FINALITY_DEPTH" "sw_known_ours ?cfg = rz_our_spends z @ mine"
    by (simp_all add: claim_watch_def with_known_ours_def claim_config_def)
  show ?thesis
    by (rule wp_conseq [OF claim.drive_wp [where G = "submarine_guard x s z att req"
            and K = "claiming x s z att req op v pre", OF assms(1,2) claiming_mono claim_bump_allowed]])
      (auto simp: spend_over_def conf split: sum.splits spend_outcome.splits)
qed

lemma claim_loop_wp:
  assumes "always (submarine_guard x s z att req) l" and "claiming x s z att req op v pre l"
  shows "wpl (claim_loop n fuel x ch wl ck pg s poll z mark op v dest pre) (submarine_post x s z att req)
    (always (submarine_guard x s z att req)) l"
  using assms
proof (induction n arbitrary: l)
  case 0
  then show ?case by (auto intro: wp)
next
  case (Suc n)
  show ?case unfolding claim_loop.simps
  proof (rule wp_announced_since, rule wp_trym [OF claim_pass_wp [OF Suc.prems]], goal_cases)
    case (2 outcome l')
    then have g: "always (submarine_guard x s z att req) l'" and c: "claiming x s z att req op v pre l'"
      by blast+
    show ?case
    proof (cases outcome)
      case (Confirmed i)
      with 2 obtain p d where "l' = p @ [ChConfirmations i (Inr (Some d))]" "FINALITY_DEPTH \<le> d" by auto
      then have "submarine_outcome x s z att (Inr Claimed) l'"
        using c unfolding submarine_outcome_def claiming_def by auto
      with g show ?thesis unfolding Confirmed by (auto simp: submarine_post_def intro!: wp)
    next
      case (ConflictingSpend t)
      with 2 obtain p where "l' = p @ [ChFindSpend op (Inr (Some t))]" "x_txid x t \<notin> set (rz_our_spends z)" by auto
      then have "submarine_outcome x s z att (Inr (Failed m)) l'" for m
        using c unfolding submarine_outcome_def claiming_def by auto
      with g show ?thesis unfolding ConflictingSpend by (auto simp: submarine_post_def intro!: wp)
    next
      case (DeadlineExceeded i tip)
      show ?thesis unfolding DeadlineExceeded spend_outcome.case sleep_for_def
        by (intro wp Suc.IH) (use g claiming_mono [OF c] in simp_all)
    qed
  qed (auto simp: submarine_post_def submarine_outcome_def)
qed

subsection \<open>The whole driver\<close>

lemma wp_step:
  assumes "wpl m (step_post x s z att req Q) (always (submarine_guard x s z att req)) l"
    and "\<And>v l'. always (submarine_guard x s z att req) l' \<Longrightarrow> Q v l' \<Longrightarrow>
      wpl (f v) (submarine_post x s z att req) (always (submarine_guard x s z att req)) l'"
  shows "wpl (step_bind m f) (submarine_post x s z att req) (always (submarine_guard x s z att req)) l"
  unfolding step_bind_def
  by (rule wp_tryb [OF assms(1)])
    (auto simp: step_post_def submarine_post_def submarine_outcome_def [of _ _ _ _ "Inl _"] intro!: wp assms(2)
      split: sum.splits)

lemma claim_paid_wp:
  assumes "always (submarine_guard x s z att req) l" and "bought s z att req op v (Some p) l"
  shows "wpl (claim_paid fuel x ch wl ck pg s poll z op v p) (submarine_post x s z att req)
    (always (submarine_guard x s z att req)) l"
proof (cases "payment_hash x (pr_preimage p) = sb_payment_hash s")
  case True
  have c: "claiming x s z att req op v (pr_preimage p) l"
    using assms(2) True by (simp add: bought_def claiming_def)
  show ?thesis unfolding claim_paid_def receive_destination_def
    using True claiming_mono [OF c] assms(1)
    by (auto intro!: wp wp_log_mark claim_loop_wp)
next
  case False
  then show ?thesis
    using assms by (auto simp: claim_paid_def submarine_post_def submarine_outcome_def bought_def intro!: wp)
qed

lemma drive_submarine_wp:
  "wpl (drive_submarine_swap fuel x ln ch wl ck s req poll z att pg) (submarine_post x s z att req)
     (always (submarine_guard x s z att req)) []"
  unfolding drive_submarine_swap_def
proof (rule wp_step [OF locate_funding_wp])
  show "started x s z att req []" by (simp add: started_def no_pay_def no_broadcast_def)
next
  fix op l assume l: "always (submarine_guard x s z att req) l" "started x s z att req l \<and> known_funding z op l"
  show "wpl (step_bind (funding_value ln ch ck s req poll att op) (\<lambda>value_sat.
     step_bind (pay_loop PAYMENT_POLL_ITERATIONS ln ch ck pg s poll z att) (\<lambda>payment.
       case payment of
         None \<Rightarrow> ret (Inr InvoicePending)
       | Some p \<Rightarrow> claim_paid fuel x ch wl ck pg s poll z op value_sat p)))
     (submarine_post x s z att req) (always (submarine_guard x s z att req)) l"
    by (rule wp_step [OF funding_value_wp], use l in blast, use l in blast, rule wp_step [OF pay_loop_wp])
      (auto simp: submarine_post_def submarine_outcome_def intro!: wp claim_paid_wp split: option.split)
qed

lemma submarine_run:
  assumes "w_log w = []" and "drive_submarine_swap fuel x ln ch wl ck s req poll z att pg w = (res, w')"
  shows "always (submarine_guard x s z att req) (w_log w')"
    and "res = Some r \<Longrightarrow> submarine_outcome x s z att r (w_log w')"
proof -
  have c: "wpl (drive_submarine_swap fuel x ln ch wl ck s req poll z att pg) (submarine_post x s z att req)
     (always (submarine_guard x s z att req)) (w_log w)"
    using assms(1) drive_submarine_wp by simp
  show "always (submarine_guard x s z att req) (w_log w')"
    using wpl_Some [OF c] wpl_None [OF c] assms(2) by (cases res) (auto simp: submarine_post_def)
  show "res = Some r \<Longrightarrow> submarine_outcome x s z att r (w_log w')"
    using wpl_Some [OF c] assms(2) by (auto simp: submarine_post_def)
qed

lemma submarine_event:
  assumes "w_log w = []" and "drive_submarine_swap fuel x ln ch wl ck s req poll z att pg w = (res, w')"
    and "w_log w' = before @ e # after"
  shows "submarine_guard x s z att req before e"
  using submarine_run(1) [OF assms(1,2)] unfolding assms(3) by (rule alwaysD)

end
