(* ===== verification/Submarine_Properties.thy ===== *)
theory Submarine_Properties
  imports Submarine_Safety Reverse_Properties
begin

text \<open>
  The properties of the submarine driver, read off the conditions of \<open>Submarine_Safety\<close>, with a
  complete run over the scripted chain as their witness, and the two states in which a resumed
  driver calls a swap claimed without having made sure of it.
\<close>

subsection \<open>A complete run\<close>

definition sample_submarine :: submarine_swap where
  "sample_submarine =
     \<lparr>sb_payment_hash = replicate 32 7, sb_onchain_amount_sat = 50000, sb_fee_rate_sat_vb = 2,
      sb_htlc_script = [1], sb_htlc_spk = [1], sb_taproot = None, sb_timeout_height = 200,
      sb_claim_key = [], sb_invoice = ''ln'', sb_max_routing_fee_msat = 100, sb_timelock = default_params\<rparr>"

definition sample_payment :: payment_result where
  "sample_payment = \<lparr>pr_preimage = replicate 32 7, pr_fee_msat = 1\<rparr>"

definition paying_node :: "'e lightning_backend" where
  "paying_node = paid_node\<lparr>ln_pay_invoice := (\<lambda>_ _ _ e. (Inr sample_payment, e))\<rparr>"

definition sample_utxo :: funding_utxo where
  "sample_utxo = \<lparr>fu_outpoint = sample_op, fu_value_sat = 50000, fu_confirmations = 3\<rparr>"

definition funded_mock :: mock_chain where
  "funded_mock = mock_new\<lparr>mc_tip := 100, mc_outputs := [sample_utxo], mc_confirmations := [Some 2]\<rparr>"

definition submarine_start :: "mock_chain \<Rightarrow> resume \<Rightarrow> bool \<Rightarrow> (any_error + swap_state) option \<times> mock_chain world" where
  "submarine_start m z att =
     drive_submarine_swap (Suc 0) sample_ext paying_node (mock_watcher sample_ext) sample_wallet frozen_clock
       sample_submarine 1 1000 z att null_progress \<lparr>w_env = m, w_log = []\<rparr>"

definition sample_claim_tx :: transaction where
  "sample_claim_tx =
     (case claim_builder sample_ext sample_submarine sample_op 50000 [8] (replicate 32 7) 2 of
        Inr t \<Rightarrow> t | Inl _ \<Rightarrow> sample_claim)"

lemma iterations: "PAYMENT_POLL_ITERATIONS = Suc 29"
  by (simp add: PAYMENT_POLL_ITERATIONS_def)

lemmas first_turn = pay_loop.simps(2) [of 29, folded iterations]

lemma sample_budget: "submarine_cltv_budget 100 200 default_params = Some 82"
  by (simp add: submarine_cltv_budget_def default_params_def timelock_consts checked_sub_def)

lemmas submarine_run_defs = submarine_start_def drive_submarine_swap_def step_bind_def locate_funding_def
  funding_value_def pay_now_def claim_paid_def log_mark_def announced_since_def first_turn
  sample_submarine_def paying_node_def sample_payment_def sample_utxo_def claim_watch_def claim_config_def
  claim_builder_def claim_vsize_def build_claim_tx_def check_submarine_before_pay_def
  CLAIM_FEE_TARGET_BLOCKS_def DEFAULT_MAX_OVERPAY_SAT_def payment_hash_def

lemma submarine_sample_run:
  "map_prod id w_log (submarine_start funded_mock default_resume False) =
     (Some (Inr Claimed),
      [ChFindOutputs (Inr [sample_utxo]), PFunded sample_op, ChOutpointStatus sample_op (Inr (Some sample_utxo)),
       LnPaymentStatus (replicate 32 7) (Inr PayNotFound), ChTip (Inr 100), PPayStarted (Inr ()),
       LnPay ''ln'' 100 (Some 82) (Inr sample_payment), PInvoicePaid, WReceive [8],
       ChEstimate 3 (Inr None), PSpendBroadcast 1, ChBroadcast sample_claim_tx (Inr 1),
       ChTip (Inr 100), ChFindSpend sample_op (Inr None), ChConfirmations 1 (Inr (Some 2))])"
  by (simp add: submarine_run_defs reverse_run_defs refund_run_defs run_defs mock_defs funded_mock_def
      submarine_cltv_budget_def checked_sub_def
      sample_claim_tx_def Let_def sample_ext_def sample_op_def word_le_nat_alt word_less_nat_alt cong: run_congs)

lemma submarine_sample_eq:
  "drive_submarine_swap (Suc 0) sample_ext paying_node (mock_watcher sample_ext) sample_wallet frozen_clock
     sample_submarine 1 1000 default_resume False null_progress \<lparr>w_env = funded_mock, w_log = []\<rparr>
   = (Some (Inr Claimed), snd (submarine_start funded_mock default_resume False))"
  using submarine_sample_run by (cases "submarine_start funded_mock default_resume False") (simp add: submarine_start_def)

lemma submarine_sample_log:
  "w_log (snd (submarine_start funded_mock default_resume False)) =
      [ChFindOutputs (Inr [sample_utxo]), PFunded sample_op, ChOutpointStatus sample_op (Inr (Some sample_utxo)),
       LnPaymentStatus (replicate 32 7) (Inr PayNotFound), ChTip (Inr 100), PPayStarted (Inr ())]
      @ LnPay ''ln'' 100 (Some 82) (Inr sample_payment) # [PInvoicePaid, WReceive [8],
       ChEstimate 3 (Inr None), PSpendBroadcast 1] @ ChBroadcast sample_claim_tx (Inr 1) #
      [ChTip (Inr 100), ChFindSpend sample_op (Inr None), ChConfirmations 1 (Inr (Some 2))]"
  using submarine_sample_run by (cases "submarine_start funded_mock default_resume False") simp

subsection \<open>Paying\<close>



subsection \<open>Claiming\<close>

text \<open>C6: The HTLC is only claimed with what the payment bought: every transaction the driver broadcasts
  was announced to the record immediately before, and is the claim of the outpoint the chain showed
  funded, signed over the value shown there, with a preimage of the payment hash that the node gave
  for this payment.\<close>

theorem submarine_claims_with_the_bought_preimage:
  assumes "w_log w = []" and "drive_submarine_swap fuel x ln ch wl ck s req poll z att pg w = (res, w')"
    and "w_log w' = before @ ChBroadcast t r # after"
  shows "before \<noteq> [] \<and> last before = PSpendBroadcast (x_txid x t)
    \<and> (\<exists>op v dest pre rate. seen_funding z att req op v before \<and> paid_with (sb_payment_hash s) pre before
         \<and> payment_hash x pre = sb_payment_hash s \<and> claim_builder x s op v dest pre rate = Inr t
         \<and> (\<exists>i. tx_input t = [i] \<and> in_previous_output i = op))"
proof -
  have "claim_guard x s z att req before (ChBroadcast t r)"
    using submarine_event [OF assms] by simp
  then obtain op v dest pre rate where "before \<noteq> []" "last before = PSpendBroadcast (x_txid x t)"
    "seen_funding z att req op v before" "paid_with (sb_payment_hash s) pre before"
    "payment_hash x pre = sb_payment_hash s" and c: "claim_builder x s op v dest pre rate = Inr t"
    by (auto simp: claim_guard_def)
  with claim_builder_spends [OF c] show ?thesis by blast
qed

theorem submarine_claims_with_the_bought_preimage_witness:
  "\<exists>i. tx_input sample_claim_tx = [i]"
  using submarine_claims_with_the_bought_preimage [OF _ submarine_sample_eq,
      of "take 11 (w_log (snd (submarine_start funded_mock default_resume False)))" sample_claim_tx "Inr 1"
         "drop 12 (w_log (snd (submarine_start funded_mock default_resume False)))"]
  by (auto simp: submarine_sample_log)



subsection \<open>Resuming a claimed or vanished funding\<close>

lemma call_eq: "operation (w_env w) = (r, e) \<Longrightarrow> call ev operation w = (Some r, \<lparr>w_env = e, w_log = w_log w @ [ev r]\<rparr>)"
  by (simp add: call_def)

text \<open>A resumed driver calls a swap \<open>Claimed\<close>, which is final, as soon as it sees a spend of the
  recorded funding that reveals the preimage: that one question is its whole conversation. It does
  not ask whether the claim is confirmed, so a claim the previous run left unconfirmed in the
  mempool is not driven, bumped or broadcast again.\<close>

theorem resumed_submarine_trusts_an_unconfirmed_claim:
  assumes "rz_funding z = Some op"
    and "ch_find_spend ch (sb_htlc_spk s) op (w_env w) = (Inr (Some t), e)"
    and "extract_preimage x t op (sb_payment_hash s) = Some pre"
  shows "drive_submarine_swap fuel x ln ch wl ck s req poll z att pg w
    = (Some (Inr Claimed), \<lparr>w_env = e, w_log = w_log w @ [ChFindSpend op (Inr (Some t))]\<rparr>)"
  using assms
  by (simp add: drive_submarine_swap_def step_bind_def locate_funding_def find_spend_def call_eq
      trym_def tryb_def bnd_def ret_def)

definition pending_claim_mock :: mock_chain where
  "pending_claim_mock = mock_new\<lparr>mc_tip := 100, mc_spend := Some sample_claim, mc_confirmations := [Some 0]\<rparr>"

definition submarine_resumed :: resume where
  "submarine_resumed = default_resume\<lparr>rz_funding := Some sample_op\<rparr>"

theorem resumed_submarine_trusts_an_unconfirmed_claim_witness:
  "submarine_start pending_claim_mock submarine_resumed True
    = (Some (Inr Claimed), \<lparr>w_env = pending_claim_mock, w_log = [ChFindSpend sample_op (Inr (Some sample_claim))]\<rparr>)"
  unfolding submarine_start_def
  by (subst resumed_submarine_trusts_an_unconfirmed_claim
        [where op = sample_op and t = sample_claim and pre = "replicate 32 7" and e = pending_claim_mock])
    (simp_all add: submarine_resumed_def default_resume_def pending_claim_mock_def mock_defs sample_claim_def
      sample_submarine_def extract_preimage_def sample_ext_def)

text \<open>A resumed driver whose recorded funding is no longer an output takes any spend of it for its
  own claim: the swap ends as \<open>Claimed\<close> although the spend reveals no preimage and the invoice was
  never paid - which is what the client's refund looks like.\<close>

theorem resumed_submarine_calls_a_refund_claimed:
  assumes "rz_funding z = Some op"
    and "ch_find_spend ch (sb_htlc_spk s) op (w_env w) = (Inr (Some t), ea)"
    and "extract_preimage x t op (sb_payment_hash s) = None"
    and "ch_outpoint_status ch (sb_htlc_spk s) op ea = (Inr None, eb)"
    and "ch_find_spend ch (sb_htlc_spk s) op eb = (Inr (Some t), ec)"
  shows "drive_submarine_swap fuel x ln ch wl ck s req poll z att pg w
    = (Some (Inr Claimed), \<lparr>w_env = ec, w_log = w_log w @ [ChFindSpend op (Inr (Some t)),
        ChOutpointStatus op (Inr None), ChFindSpend op (Inr (Some t))]\<rparr>)"
  using assms
  by (simp add: drive_submarine_swap_def step_bind_def locate_funding_def funding_value_def find_spend_def
      outpoint_status_def call_eq trym_def tryb_def bnd_def ret_def)

definition client_refund :: transaction where
  "client_refund = sample_claim\<lparr>tx_input := map (\<lambda>i. i\<lparr>in_witness := []\<rparr>) (tx_input sample_claim)\<rparr>"

definition refunded_mock :: mock_chain where
  "refunded_mock = mock_new\<lparr>mc_tip := 300, mc_spend := Some client_refund\<rparr>"

theorem resumed_submarine_calls_a_refund_claimed_witness:
  "fst (submarine_start refunded_mock submarine_resumed False) = Some (Inr Claimed)"
  unfolding submarine_start_def
  by (subst resumed_submarine_calls_a_refund_claimed
        [where op = sample_op and t = client_refund and ea = refunded_mock and eb = refunded_mock
           and ec = refunded_mock])
    (simp_all add: submarine_resumed_def default_resume_def refunded_mock_def client_refund_def mock_defs
      sample_claim_def sample_submarine_def extract_preimage_def sample_ext_def)

end
