(* ===== verification/Client_Reverse.thy ===== *)
theory Client_Reverse
  imports Submarine_Properties
begin

text \<open>
  The client of a reverse swap: \<open>swap-client/src/reverse.rs\<close>. It pays the hold invoice in a task
  of its own, waits for the provider's HTLC, and claims it with the preimage only it knows. The
  wait for the funding is unbounded in the source and takes fuel here; driving the claim has the
  bound of \<open>confirm_or_bump\<close>.
\<close>

record reverse_claim =
  rc_htlc_script :: script
  rc_htlc_spk :: script
  rc_onchain_amount_sat :: u64
  rc_timeout_height :: u32
  rc_invoice :: string
  rc_preimage :: preimage
  rc_claim_key :: secret_key
  rc_dest_spk :: script
  rc_fee_rate_sat_vb :: u64

definition rc_payment_hash :: "ext \<Rightarrow> reverse_claim \<Rightarrow> payment_hash" where
  "rc_payment_hash x claim = payment_hash x (rc_preimage claim)"

subsection \<open>The driver\<close>

text \<open>Whether an earlier run's payment may be out.\<close>

definition already_paying :: "ext \<Rightarrow> 'e lightning_backend \<Rightarrow> reverse_claim \<Rightarrow> resume \<Rightarrow> ('e, bool) act" where
  "already_paying x ln claim resume =
     bnd (payment_status ln (rc_payment_hash x claim)) (\<lambda>r. ret (case r of
        Inr (PaySucceeded _) \<Rightarrow> True
      | Inr PayInFlight \<Rightarrow> True
      | Inr PayNotFound \<Rightarrow> False
      | Inr (PayFailed _) \<Rightarrow> False
      | Inr PayUnknown \<Rightarrow> \<not> is_fresh resume
      | Inl _ \<Rightarrow> True))"

definition tip_error :: "swap_error \<Rightarrow> any_error" where
  "tip_error e = AnyMsg (''tip_height: '' @ show_swap_error e)"

text \<open>A payment that ends before the HTLC is there ends the swap; \<open>spawned\<close> is whether this run has
  a payment task to look at.\<close>

definition payment_over :: "'e pay_runtime \<Rightarrow> bool \<Rightarrow> ('e, any_error option) act" where
  "payment_over rt spawned =
     bnd (if spawned then pay_is_finished rt else ret False) (\<lambda>finished.
       if finished
       then bnd (pay_join rt) (\<lambda>res. ret (Some (case res of
           Inl e \<Rightarrow> AnyMsg (''pay task join: '' @ e)
         | Inr r \<Rightarrow> AnyMsg (''invoice payment ended before the HTLC was funded: ''
             @ (case r of Inr _ \<Rightarrow> ''the payment settled'' | Inl e \<Rightarrow> show_lightning_error e)))))
       else ret None)"

fun await_htlc ::
  "nat \<Rightarrow> 'e chain_watcher \<Rightarrow> 'e clock \<Rightarrow> 'e pay_runtime \<Rightarrow> reverse_claim \<Rightarrow> u32 \<Rightarrow> nat \<Rightarrow> bool
   \<Rightarrow> ('e, any_error + funding_utxo) act" where
  "await_htlc 0 ch ck rt claim required_confirmations poll spawned = out_of_fuel"
| "await_htlc (Suc n) ch ck rt claim required_confirmations poll spawned =
     trym (\<lambda>e. AnyMsg (''find_outputs: '' @ show_swap_error e)) (find_outputs ch (rc_htlc_spk claim)) (\<lambda>outputs.
     let wait = trym tip_error (tip_height ch) (\<lambda>tip.
           if \<not> claim_start_is_safe tip (rc_timeout_height claim)
           then ret (Inl (AnyMsg (''the provider's HTLC did not confirm in time: tip '' @ show_u tip
                  @ '' against a timeout at '' @ show_u (rc_timeout_height claim)
                  @ ''. The provider refunds its own funding; nothing of ours is locked on chain.'')))
           else bnd (payment_over rt spawned) (\<lambda>over. case over of
               Some e \<Rightarrow> ret (Inl e)
             | None \<Rightarrow> bnd (sleep_for ck poll) (\<lambda>_.
                 await_htlc n ch ck rt claim required_confirmations poll spawned)));
         adopt = (\<lambda>u. if fu_confirmations u \<ge> required_confirmations then ret (Inr u) else wait)
     in case select_funding outputs (rc_onchain_amount_sat claim) DEFAULT_MAX_OVERPAY_SAT of
          Exact u \<Rightarrow> adopt u
        | Overpaid u _ \<Rightarrow> adopt u
        | Underpaid got_sat \<Rightarrow> ret (Inl (AnyMsg (''the provider's HTLC holds '' @ show_u got_sat
             @ '' sat against the '' @ show_u (rc_onchain_amount_sat claim)
             @ '' the swap is priced on; not revealing the preimage for it'')))
        | ExcessiveOverpay got_sat \<Rightarrow> ret (Inl (AnyMsg (''the provider's HTLC holds '' @ show_u got_sat
             @ '' sat against an expected '' @ show_u (rc_onchain_amount_sat claim)
             @ '', far beyond tolerance; not claiming it'')))
        | Multiple utxos \<Rightarrow> ret (Inl (AnyMsg (show_nat (length utxos)
             @ '' separate outputs pay the HTLC address; the claim builder takes one input, so this is left alone'')))
        | NoFunding \<Rightarrow> wait)"

definition rc_claim_vsize :: "reverse_claim \<Rightarrow> u64" where
  "rc_claim_vsize claim = spend_vsize (rc_htlc_script claim) (rc_dest_spk claim) True"

definition rc_builder :: "ext \<Rightarrow> reverse_claim \<Rightarrow> funding_utxo \<Rightarrow> u64 \<Rightarrow> swap_error + transaction" where
  "rc_builder x claim u rate =
     build_claim_tx x (fu_outpoint u) (fu_value_sat u) (rc_htlc_script claim) (rc_dest_spk claim)
       (estimate_spend_fee rate (rc_claim_vsize claim)) (rc_preimage claim) (rc_claim_key claim)"

definition rc_watch :: "reverse_claim \<Rightarrow> nat \<Rightarrow> resume \<Rightarrow> spend_watch_config" where
  "rc_watch claim poll resume =
     with_known_ours
       (claim_config CLAIM_FEE_TARGET_BLOCKS (rc_fee_rate_sat_vb claim)
          (fee_rate_cap (rc_onchain_amount_sat claim) (rc_claim_vsize claim) DEFAULT_MAX_FEE_BPS
             ABSOLUTE_MAX_FEE_RATE_SAT_VB (rc_fee_rate_sat_vb claim))
          poll FINALITY_DEPTH (saturating_sub (rc_timeout_height claim) CLAIM_ABORT_MARGIN))
       (rz_our_spends resume)"

text \<open>After the claim is final, the payment this run started must come back too.\<close>

definition await_payment :: "'e pay_runtime \<Rightarrow> bool \<Rightarrow> txid \<Rightarrow> ('e, any_error + txid) act" where
  "await_payment rt spawned txid =
     (if spawned
      then trym (\<lambda>e. AnyMsg (''pay task join: '' @ e)) (pay_join rt) (\<lambda>r. case r of
             Inl e \<Rightarrow> ret (Inl (AnyMsg (''invoice payment failed: '' @ show_lightning_error e)))
           | Inr _ \<Rightarrow> ret (Inr txid))
      else ret (Inr txid))"

definition claim_htlc ::
  "nat \<Rightarrow> ext \<Rightarrow> 'e chain_watcher \<Rightarrow> 'e clock \<Rightarrow> 'e pay_runtime \<Rightarrow> reverse_claim \<Rightarrow> nat \<Rightarrow> resume
   \<Rightarrow> 'e claim_sink \<Rightarrow> bool \<Rightarrow> funding_utxo \<Rightarrow> ('e, any_error + txid) act" where
  "claim_htlc n x ch ck rt claim poll resume cs spawned u =
     trym tip_error (tip_height ch) (\<lambda>tip.
     if \<not> claim_start_is_safe tip (rc_timeout_height claim)
     then ret (Inl (AnyMsg (''the provider's HTLC confirmed too close to its refund at height ''
            @ show_u (rc_timeout_height claim) @ '' (tip '' @ show_u tip
            @ '') to claim safely, so the preimage stays secret. The provider refunds its own funding and the hold invoice expires unsettled.'')))
     else trym (\<lambda>e. AnyMsg (''claim broadcast/bump: '' @ show_swap_error e))
       (confirm_or_bump n x ch ck (rc_htlc_spk claim) (fu_outpoint u) (rc_watch claim poll resume) None
          (claim_broadcast cs) (rc_builder x claim u))
       (\<lambda>outcome. case outcome of
          Confirmed txid \<Rightarrow> await_payment rt spawned txid
        | ConflictingSpend t \<Rightarrow> ret (Inl (AnyMsg (''the provider refunded the HTLC ('' @ x_txid_str x (x_txid x t)
            @ '') before our claim confirmed; the hold invoice will be cancelled and the payment returned'')))
        | DeadlineExceeded last_txid tip \<Rightarrow> ret (Inl (AnyMsg (''claim '' @ x_txid_str x last_txid
            @ '' did not confirm by height '' @ show_u tip
            @ '', past the provider's refund window; not broadcasting further'')))))"

text \<open>The two halves after the payment was started, or found started.\<close>

definition fund_and_claim ::
  "nat \<Rightarrow> ext \<Rightarrow> 'e chain_watcher \<Rightarrow> 'e clock \<Rightarrow> 'e pay_runtime \<Rightarrow> reverse_claim \<Rightarrow> u32 \<Rightarrow> nat \<Rightarrow> resume
   \<Rightarrow> 'e claim_sink \<Rightarrow> bool \<Rightarrow> ('e, any_error + txid) act" where
  "fund_and_claim n x ch ck rt claim required_confirmations poll resume cs spawned =
     tryb (await_htlc n ch ck rt claim required_confirmations poll spawned)
       (claim_htlc n x ch ck rt claim poll resume cs spawned)"

text \<open>\<open>AbortPayment\<close> is dropped on every way out of a run that started a payment.\<close>

definition execute_reverse_swap ::
  "nat \<Rightarrow> ext \<Rightarrow> 'e lightning_backend \<Rightarrow> 'e chain_watcher \<Rightarrow> 'e clock \<Rightarrow> 'e pay_runtime \<Rightarrow> reverse_claim
   \<Rightarrow> u64 \<Rightarrow> u32 \<Rightarrow> nat \<Rightarrow> resume \<Rightarrow> 'e claim_sink \<Rightarrow> ('e, any_error + txid) act" where
  "execute_reverse_swap n x ln ch ck rt claim max_routing_fee_msat required_confirmations poll resume cs =
     bnd (already_paying x ln claim resume) (\<lambda>already.
       if already then fund_and_claim n x ch ck rt claim required_confirmations poll resume cs False
       else tryb (payment_started cs) (\<lambda>_.
         bnd (spawn_pay rt (rc_invoice claim) max_routing_fee_msat None) (\<lambda>_.
         bnd (fund_and_claim n x ch ck rt claim required_confirmations poll resume cs True) (\<lambda>r.
         bnd (pay_abort rt) (\<lambda>_. ret r)))))"

subsection \<open>Conditions on its conversation\<close>

definition not_spawned :: "event list \<Rightarrow> bool" where
  "not_spawned l \<longleftrightarrow> (\<forall>i f c. PaySpawned i f c \<notin> set l)"

text \<open>A payment: once, after the node showed no payment of ours that may be out, with the marker
  written directly before.\<close>

definition spawn_guard :: "ext \<Rightarrow> reverse_claim \<Rightarrow> u64 \<Rightarrow> resume \<Rightarrow> event list \<Rightarrow> event \<Rightarrow> bool" where
  "spawn_guard x c fee z p e = (case e of
     PaySpawned invoice f cltv \<Rightarrow> invoice = rc_invoice c \<and> f = fee \<and> cltv = None \<and>
       (\<exists>st. p = [LnPaymentStatus (rc_payment_hash x c) (Inr st), PPayStarted (Inr ())]
          \<and> (st = PayNotFound \<or> (\<exists>m. st = PayFailed m) \<or> st = PayUnknown \<and> is_fresh z))
   | _ \<Rightarrow> True)"

text \<open>The HTLC the claim spends, as the chain showed it, with a tip that leaves a claim window seen
  after it.\<close>

definition claimable_htlc :: "reverse_claim \<Rightarrow> u32 \<Rightarrow> funding_utxo \<Rightarrow> event list \<Rightarrow> bool" where
  "claimable_htlc c req u l \<longleftrightarrow>
     (\<exists>us tip p q. l = p @ [ChFindOutputs (Inr us), ChTip (Inr tip)] @ q
        \<and> selected_utxo (select_funding us (rc_onchain_amount_sat c) DEFAULT_MAX_OVERPAY_SAT) = Some u
        \<and> req \<le> fu_confirmations u \<and> claim_start_is_safe tip (rc_timeout_height c))"

definition reveal_guard :: "ext \<Rightarrow> reverse_claim \<Rightarrow> u32 \<Rightarrow> event list \<Rightarrow> event \<Rightarrow> bool" where
  "reveal_guard x c req p e = (case e of
     ChBroadcast t _ \<Rightarrow> p \<noteq> [] \<and> last p = PSpendBroadcast (x_txid x t)
       \<and> (\<exists>u rate. claimable_htlc c req u p \<and> rc_builder x c u rate = Inr t)
   | _ \<Rightarrow> True)"

definition client_guard :: "ext \<Rightarrow> reverse_claim \<Rightarrow> u64 \<Rightarrow> u32 \<Rightarrow> resume \<Rightarrow> event list \<Rightarrow> event \<Rightarrow> bool" where
  "client_guard x c fee req z p e \<longleftrightarrow> spawn_guard x c fee z p e \<and> reveal_guard x c req p e"

fun inert :: "event \<Rightarrow> bool" where
  "inert (PaySpawned _ _ _) = False"
| "inert (ChBroadcast _ _) = False"
| "inert _ = True"

lemma client_guard_simps [simp]:
  "inert e \<Longrightarrow> client_guard x c fee req z p e"
  "client_guard x c fee req z p (PaySpawned i f d) = spawn_guard x c fee z p (PaySpawned i f d)"
  "client_guard x c fee req z p (ChBroadcast t b) = reveal_guard x c req p (ChBroadcast t b)"
  by (cases e) (simp_all add: client_guard_def spawn_guard_def reveal_guard_def)

text \<open>What a claim that is reported done is worth.\<close>

definition client_outcome :: "ext \<Rightarrow> reverse_claim \<Rightarrow> u32 \<Rightarrow> bool \<Rightarrow> any_error + txid \<Rightarrow> event list \<Rightarrow> bool" where
  "client_outcome x c req spawned r l = (case r of Inl _ \<Rightarrow> True
   | Inr i \<Rightarrow> (\<exists>u. claimable_htlc c req u l)
       \<and> (\<exists>p n. FINALITY_DEPTH \<le> n \<and> (if spawned
            then (\<exists>pay. l = p @ [ChConfirmations i (Inr (Some n)), PayJoined (Inr (Inr pay))])
            else l = p @ [ChConfirmations i (Inr (Some n))])))"

subsection \<open>The conversation\<close>

lemmas client_defs = not_spawned_def no_broadcast_def spawn_guard_def client_outcome_def

lemma already_paying_wp:
  assumes "\<And>r. wpl (f (case r of Inr (PaySucceeded _) \<Rightarrow> True | Inr PayInFlight \<Rightarrow> True | Inr PayNotFound \<Rightarrow> False
      | Inr (PayFailed _) \<Rightarrow> False | Inr PayUnknown \<Rightarrow> \<not> is_fresh z | Inl _ \<Rightarrow> True)) Q R
      (l @ [LnPaymentStatus (rc_payment_hash x c) r])"
  shows "wpl (bnd (already_paying x ln c z) f) Q R l"
  unfolding already_paying_def payment_status_def
  by (rule wp_bnd [OF wp_bnd_call [where ev = "LnPaymentStatus (rc_payment_hash x c)"], rotated]) (auto intro: assms wp)

lemma payment_over_emits: "emits inert (payment_over rt spawned)"
  unfolding payment_over_def pay_is_finished_def pay_join_def by (intro em) (auto intro: em)

definition funded_at :: "ext \<Rightarrow> reverse_claim \<Rightarrow> u64 \<Rightarrow> u32 \<Rightarrow> resume \<Rightarrow> event list \<Rightarrow> bool" where
  "funded_at x c fee req z l \<longleftrightarrow> always (client_guard x c fee req z) l \<and> no_broadcast l"

lemma funded_at_inert: "list_all inert q \<Longrightarrow> funded_at x c fee req z l \<Longrightarrow> funded_at x c fee req z (l @ q)"
  by (auto simp: funded_at_def no_broadcast_def list_all_iff intro!: always_from_free [where E = inert])

lemma await_htlc_wp:
  assumes "funded_at x c fee req z l"
  shows "wpl (await_htlc n ch ck rt c req poll spawned)
    (\<lambda>r l'. funded_at x c fee req z l' \<and> (case r of Inl _ \<Rightarrow> True
       | Inr u \<Rightarrow> req \<le> fu_confirmations u \<and> (\<exists>us p. l' = p @ [ChFindOutputs (Inr us)]
           \<and> selected_utxo (select_funding us (rc_onchain_amount_sat c) DEFAULT_MAX_OVERPAY_SAT) = Some u)))
    (always (client_guard x c fee req z)) l"
  (is "wpl _ ?Q ?R l")
  using assms
proof (induction n arbitrary: l)
  case 0
  then show ?case by (auto intro: wp simp: funded_at_def)
next
  case (Suc n)
  have al: "always (client_guard x c fee req z) l'" if "funded_at x c fee req z l'" for l'
    using that by (simp add: funded_at_def)
  have wait: "wpl (trym tip_error (tip_height ch) (\<lambda>tip.
           if \<not> claim_start_is_safe tip (rc_timeout_height c)
           then ret (Inl (m tip))
           else bnd (payment_over rt spawned) (\<lambda>over. case over of
               Some e \<Rightarrow> ret (Inl e)
             | None \<Rightarrow> bnd (sleep_for ck poll) (\<lambda>_. await_htlc n ch ck rt c req poll spawned)))) ?Q ?R l'"
    if l': "funded_at x c fee req z l'" for l' m
    unfolding tip_height_def sleep_for_def
  proof (intro wp, goal_cases)
    case (3 tip)
    have t: "funded_at x c fee req z (l' @ [ChTip (Inr tip)])"
      using funded_at_inert [OF _ l', of "[ChTip (Inr tip)]"] by simp
    show ?case
      by (rule wp_bnd_emits [OF payment_over_emits], rule al, rule funded_at_inert [OF _ t], assumption)
        (intro wp Suc.IH, use funded_at_inert [OF _ funded_at_inert [OF _ t], of "[Slept poll]"] funded_at_inert [OF _ t] in simp_all)
  qed (use funded_at_inert [OF _ l'] in auto)
  show ?case unfolding await_htlc.simps Let_def find_outputs_def
    by (intro wp wait) (use funded_at_inert [OF _ Suc.prems] in auto)
qed

lemma rc_builder_spends:
  "rc_builder x c u rate = Inr t \<Longrightarrow> \<exists>i. tx_input t = [i] \<and> in_previous_output i = fu_outpoint u"
  by (auto simp: rc_builder_def build_claim_tx_def set_witness_def unsigned_spend_def
      split: option.splits if_splits dest!: build_htlc_spend_Inr(4))

lemma client_spender: "htlc_spender (claim_broadcast cs) (rc_builder x c u) (fu_outpoint u) None"
  by unfold_locales (auto simp: claim_broadcast_def intro!: wp_call rc_builder_spends ob)

interpretation reveal: htlc_spender "claim_broadcast cs" "rc_builder x c u" "fu_outpoint u" None
  for cs x c u
  by (rule client_spender)

lemma claimable_mono: "claimable_htlc c req u l \<Longrightarrow> claimable_htlc c req u (l @ q)"
  by (fastforce simp: claimable_htlc_def)

lemma reveal_allowed:
  assumes "claimable_htlc c req u p" and "announced_spend x (rc_builder x c u) cfg p e" and "bump_event e"
  shows "client_guard x c fee req z p e"
proof (cases "inert e")
  case False
  with assms(3) obtain t r where "e = ChBroadcast t r" by (cases e) auto
  with assms show ?thesis by (auto simp: announced_spend_def reveal_guard_def)
qed simp

definition client_post ::
  "ext \<Rightarrow> reverse_claim \<Rightarrow> u64 \<Rightarrow> u32 \<Rightarrow> resume \<Rightarrow> bool \<Rightarrow> any_error + txid \<Rightarrow> event list \<Rightarrow> bool" where
  "client_post x c fee req z spawned r l \<longleftrightarrow>
     always (client_guard x c fee req z) l \<and> client_outcome x c req spawned r l"

lemma claim_htlc_wp:
  assumes "funded_at x c fee req z l" and "req \<le> fu_confirmations u" and "l = p @ [ChFindOutputs (Inr us)]"
    and "selected_utxo (select_funding us (rc_onchain_amount_sat c) DEFAULT_MAX_OVERPAY_SAT) = Some u"
  shows "wpl (claim_htlc n x ch ck rt c poll z cs spawned u) (client_post x c fee req z spawned)
    (always (client_guard x c fee req z)) l"
  unfolding claim_htlc_def tip_height_def
proof (intro wp, goal_cases)
  case (3 tip)
  let ?l = "l @ [ChTip (Inr tip)]"
  have c: "claimable_htlc c req u ?l"
    using assms(2-4) 3 unfolding claimable_htlc_def by (intro exI [of _ us] exI [of _ tip]) auto
  have f: "funded_at x c fee req z ?l"
    using funded_at_inert [OF _ assms(1), of "[ChTip (Inr tip)]"] by simp
  have conf: "sw_min_confirmations (rc_watch c poll z) = FINALITY_DEPTH"
    by (simp add: rc_watch_def with_known_ours_def claim_config_def)
  have drive: "wpl (confirm_or_bump n x ch ck (rc_htlc_spk c) (fu_outpoint u) (rc_watch c poll z) None
       (claim_broadcast cs) (rc_builder x c u))
    (\<lambda>r l'. always (client_guard x c fee req z) l' \<and> claimable_htlc c req u l'
       \<and> spend_over x (rc_watch c poll z) (fu_outpoint u) r l')
    (always (client_guard x c fee req z)) ?l"
    by (rule reveal.drive_wp) (use f c in \<open>auto simp: funded_at_def intro: claimable_mono reveal_allowed\<close>)
  show ?case
  proof (rule wp_trym [OF drive], goal_cases)
    case (2 outcome l')
    then show ?case
    proof (cases outcome)
      case (Confirmed i)
      with 2 obtain p' d where l': "l' = p' @ [ChConfirmations i (Inr (Some d))]" "FINALITY_DEPTH \<le> d"
        by (auto simp: spend_over_def conf)
      from claimable_mono [of c req u l' "[PayJoined j]" for j] 2 have
        cj: "claimable_htlc c req u (l' @ [PayJoined j])" for j by blast
      show ?thesis unfolding Confirmed spend_outcome.case await_payment_def pay_join_def
        by (intro wp) (use 2 l' cj in \<open>auto simp: client_post_def client_outcome_def\<close>)
    qed (use 2 in \<open>auto simp: client_post_def client_outcome_def intro!: wp\<close>)
  qed (auto simp: client_post_def client_outcome_def)
qed (use assms(1) in \<open>auto simp: client_post_def client_outcome_def funded_at_def\<close>)

lemma fund_and_claim_wp:
  assumes "funded_at x c fee req z l"
  shows "wpl (fund_and_claim n x ch ck rt c req poll z cs spawned) (client_post x c fee req z spawned)
    (always (client_guard x c fee req z)) l"
  unfolding fund_and_claim_def
  by (rule wp_tryb [OF await_htlc_wp [OF assms]])
    (auto simp: client_post_def client_outcome_def [of _ _ _ _ "Inl _"] funded_at_def intro!: claim_htlc_wp)

text \<open>Whether a payment was started shows in the log: nothing after its start starts another.\<close>

fun beside_payment :: "event \<Rightarrow> bool" where
  "beside_payment (PaySpawned _ _ _) = False"
| "beside_payment _ = True"

lemma beside: "inert e \<Longrightarrow> beside_payment e" "bump_event e \<Longrightarrow> beside_payment e"
  by (cases e; simp)+

lemma await_htlc_emits: "emits beside_payment (await_htlc n ch ck rt c req poll spawned)"
proof (induction n)
  case (Suc n)
  show ?case unfolding await_htlc.simps Let_def find_outputs_def tip_height_def sleep_for_def
    by (intro em Suc.IH emits_mono [OF payment_over_emits] beside) simp_all
qed (simp add: em)

lemma fund_and_claim_emits: "emits beside_payment (fund_and_claim n x ch ck rt c req poll z cs spawned)"
  unfolding fund_and_claim_def claim_htlc_def await_payment_def tip_height_def pay_join_def
  by (intro em await_htlc_emits emits_mono [OF reveal.emits_confirm_or_bump] beside) simp_all

lemma beside_not_spawned: "list_all beside_payment q \<Longrightarrow> PaySpawned i f c \<notin> set q"
  by (auto simp: list_all_iff)

lemma fund_and_claim_run:
  assumes "funded_at x c fee req z l"
  shows "wpl (fund_and_claim n x ch ck rt c req poll z cs spawned)
    (\<lambda>r l'. client_post x c fee req z spawned r l' \<and> (\<exists>q. l' = l @ q \<and> list_all beside_payment q))
    (always (client_guard x c fee req z)) l"
  by (rule wp_conseq [OF wp_conj [OF fund_and_claim_wp [OF assms] emits_wpl [OF fund_and_claim_emits]]]) auto

definition executed :: "ext \<Rightarrow> reverse_claim \<Rightarrow> u64 \<Rightarrow> u32 \<Rightarrow> resume \<Rightarrow> any_error + txid \<Rightarrow> event list \<Rightarrow> bool" where
  "executed x c fee req z r l \<longleftrightarrow> always (client_guard x c fee req z) l \<and>
     (if not_spawned l then client_outcome x c req False r l
      else \<exists>l0. l = l0 @ [PayAborted] \<and> client_outcome x c req True r l0)"

lemma pay_abort_wp:
  assumes "client_post x c fee req z True r l" and "\<not> not_spawned l"
  shows "wpl (bnd (pay_abort rt) (\<lambda>_. ret r))
    (executed x c fee req z) R l"
  unfolding pay_abort_def by (intro wp) (use assms in \<open>auto simp: executed_def client_post_def not_spawned_def\<close>)

lemma execute_reverse_wp:
  "wpl (execute_reverse_swap n x ln ch ck rt c fee req poll z cs)
    (executed x c fee req z)
    (always (client_guard x c fee req z)) []"
  unfolding execute_reverse_swap_def
proof (rule already_paying_wp, intro wp, goal_cases)
  case (1 r)
  show ?case
    by (rule wp_conseq [OF fund_and_claim_run])
      (use 1 in \<open>auto simp: executed_def client_post_def funded_at_def no_broadcast_def not_spawned_def always_Cons
        dest: beside_not_spawned\<close>)
next
  case (2 r)
  let ?st = "LnPaymentStatus (rc_payment_hash x c) r"
  have sp: "always (client_guard x c fee req z) [?st, PPayStarted (Inr ()), PaySpawned (rc_invoice c) fee None]"
    using 2 by (auto simp: spawn_guard_def always_Cons split: sum.splits payment_status.splits)
  show ?case unfolding payment_started_def spawn_pay_def
  proof (intro wp, goal_cases)
    case (2 v u)
    show ?case
      by (rule wp_bnd [OF fund_and_claim_run], use sp in \<open>simp add: funded_at_def no_broadcast_def\<close>,
          elim conjE exE, rule pay_abort_wp) (auto simp: not_spawned_def)
  qed (auto simp: executed_def not_spawned_def client_outcome_def always_Cons)
qed


lemma client_run:
  assumes "w_log w = []" and "execute_reverse_swap n x ln ch ck rt c fee req poll z cs w = (res, w')"
  shows "always (client_guard x c fee req z) (w_log w')"
    and "res = Some r \<Longrightarrow> not_spawned (w_log w') \<Longrightarrow> client_outcome x c req False r (w_log w')"
    and "res = Some r \<Longrightarrow> \<not> not_spawned (w_log w') \<Longrightarrow>
      \<exists>l. w_log w' = l @ [PayAborted] \<and> client_outcome x c req True r l"
proof -
  have w: "wpl (execute_reverse_swap n x ln ch ck rt c fee req poll z cs)
    (executed x c fee req z)
    (always (client_guard x c fee req z)) (w_log w)"
    unfolding assms(1) by (rule execute_reverse_wp)
  show "always (client_guard x c fee req z) (w_log w')"
    using wpl_Some [OF w] wpl_None [OF w] assms(2) by (cases res) (auto simp: executed_def)
  show "res = Some r \<Longrightarrow> not_spawned (w_log w') \<Longrightarrow> client_outcome x c req False r (w_log w')"
    "res = Some r \<Longrightarrow> \<not> not_spawned (w_log w') \<Longrightarrow>
      \<exists>l. w_log w' = l @ [PayAborted] \<and> client_outcome x c req True r l"
    using wpl_Some [OF w] assms(2) by (auto simp: executed_def split: if_splits)
qed

lemma client_event:
  assumes "w_log w = []" and "execute_reverse_swap n x ln ch ck rt c fee req poll z cs w = (res, w')"
    and "w_log w' = before @ e # after"
  shows "client_guard x c fee req z before e"
  using client_run(1) [OF assms(1,2)] unfolding assms(3) by (rule alwaysD)

subsection \<open>A complete run\<close>

definition null_claim_sink :: "'e claim_sink" where
  "null_claim_sink = \<lparr>cs_payment_started = (\<lambda>e. (Inr (), e)), cs_spend_broadcast = (\<lambda>_ e. ((), e))\<rparr>"

text \<open>A payment that is held until it is awaited, and then settles.\<close>

definition held_payment :: "'e pay_runtime" where
  "held_payment =
     \<lparr>rt_spawn_pay = (\<lambda>_ _ _ e. ((), e)), rt_is_finished = (\<lambda>e. (False, e)),
      rt_join = (\<lambda>e. (Inr (Inr sample_payment), e)), rt_abort = (\<lambda>e. ((), e))\<rparr>"

definition sample_rc :: reverse_claim where
  "sample_rc =
     \<lparr>rc_htlc_script = [1], rc_htlc_spk = [1], rc_onchain_amount_sat = 50000, rc_timeout_height = 200,
      rc_invoice = ''ln'', rc_preimage = replicate 32 7, rc_claim_key = [], rc_dest_spk = [8],
      rc_fee_rate_sat_vb = 2\<rparr>"

definition client_start :: "mock_chain \<Rightarrow> resume \<Rightarrow> (any_error + txid) option \<times> mock_chain world" where
  "client_start m z =
     execute_reverse_swap (Suc 0) sample_ext paid_node (mock_watcher sample_ext) frozen_clock held_payment sample_rc
       100 1 1000 z null_claim_sink \<lparr>w_env = m, w_log = []\<rparr>"

definition client_claim_tx :: transaction where
  "client_claim_tx = (case rc_builder sample_ext sample_rc sample_utxo 2 of Inr t \<Rightarrow> t | Inl _ \<Rightarrow> sample_claim)"

lemmas client_run_defs = client_start_def execute_reverse_swap_def already_paying_def fund_and_claim_def
  await_htlc.simps(2) [of 0] claim_htlc_def await_payment_def payment_over_def rc_payment_hash_def payment_hash_def
  null_claim_sink_def held_payment_def sample_rc_def rc_watch_def claim_config_def rc_builder_def rc_claim_vsize_def
  build_claim_tx_def claim_start_is_safe_def sample_payment_def sample_utxo_def CLAIM_FEE_TARGET_BLOCKS_def
  DEFAULT_MAX_OVERPAY_SAT_def CLAIM_ABORT_MARGIN_def

lemma client_sample_run:
  "map_prod id w_log (client_start funded_mock default_resume) =
     (Some (Inr 1),
      [LnPaymentStatus (replicate 32 7) (Inr PayNotFound), PPayStarted (Inr ()), PaySpawned ''ln'' 100 None,
       ChFindOutputs (Inr [sample_utxo]), ChTip (Inr 100), ChEstimate 3 (Inr None), PSpendBroadcast 1,
       ChBroadcast client_claim_tx (Inr 1), ChTip (Inr 100), ChFindSpend sample_op (Inr None),
       ChConfirmations 1 (Inr (Some 2)), PayJoined (Inr (Inr sample_payment)), PayAborted])"
  by (simp add: client_run_defs paid_node_def reverse_run_defs refund_run_defs run_defs mock_defs funded_mock_def
      client_claim_tx_def Let_def sample_ext_def sample_op_def word_le_nat_alt word_less_nat_alt cong: run_congs)

lemma client_sample_eq:
  "execute_reverse_swap (Suc 0) sample_ext paid_node (mock_watcher sample_ext) frozen_clock held_payment sample_rc
     100 1 1000 default_resume null_claim_sink \<lparr>w_env = funded_mock, w_log = []\<rparr>
   = (Some (Inr 1), snd (client_start funded_mock default_resume))"
  using client_sample_run by (cases "client_start funded_mock default_resume") (simp add: client_start_def)

lemma client_sample_log:
  "w_log (snd (client_start funded_mock default_resume)) =
      [LnPaymentStatus (replicate 32 7) (Inr PayNotFound), PPayStarted (Inr ())] @ PaySpawned ''ln'' 100 None #
      [ChFindOutputs (Inr [sample_utxo]), ChTip (Inr 100), ChEstimate 3 (Inr None), PSpendBroadcast 1] @
      ChBroadcast client_claim_tx (Inr 1) # [ChTip (Inr 100), ChFindSpend sample_op (Inr None),
       ChConfirmations 1 (Inr (Some 2)), PayJoined (Inr (Inr sample_payment)), PayAborted]"
  using client_sample_run by (cases "client_start funded_mock default_resume") simp

subsection \<open>Properties\<close>

text \<open>C11: The client pays the hold invoice at most once per run and never on top of a payment that may
  be out: the payment task is only started when this run's first question to the node was
  answered with \<open>NotFound\<close>, a final failure, or \<open>Unknown\<close> for a swap with no recorded progress;
  the marker was recorded directly before; the invoice and the routing-fee cap are the swap's own.\<close>

theorem client_starts_one_payment:
  assumes "w_log w = []" and "execute_reverse_swap n x ln ch ck rt c fee req poll z cs w = (res, w')"
    and "w_log w' = before @ PaySpawned invoice f cltv # after"
  shows "invoice = rc_invoice c \<and> f = fee \<and> cltv = None
    \<and> (\<exists>st. before = [LnPaymentStatus (payment_hash x (rc_preimage c)) (Inr st), PPayStarted (Inr ())]
         \<and> (st = PayNotFound \<or> (\<exists>m. st = PayFailed m) \<or> st = PayUnknown \<and> is_fresh z))
    \<and> not_spawned after"
proof -
  have g: "spawn_guard x c fee z p (PaySpawned i d b)" if "w_log w' = p @ PaySpawned i d b # q" for p i d b q
    using client_event [OF assms(1,2) that] by simp
  have "not_spawned after"
    unfolding not_spawned_def
  proof (intro allI notI)
    fix i d b assume "PaySpawned i d b \<in> set after"
    then obtain p q where "after = p @ PaySpawned i d b # q" by (auto simp: in_set_conv_decomp)
    then have "w_log w' = (before @ PaySpawned invoice f cltv # p) @ PaySpawned i d b # q" using assms(3) by simp
    from g [OF this] g [OF assms(3)] show False by (auto simp: spawn_guard_def)
  qed
  with g [OF assms(3)] show ?thesis by (auto simp: spawn_guard_def rc_payment_hash_def)
qed

theorem client_starts_one_payment_witness:
  "not_spawned (drop 3 (w_log (snd (client_start funded_mock default_resume))))"
  using client_starts_one_payment [OF _ client_sample_eq client_sample_log] by (simp add: client_sample_log)

text \<open>C10: The preimage only becomes public for an HTLC worth it: every transaction the client
  broadcasts was announced to its record immediately before, and claims an output the chain
  showed as the only one paying the script, worth at least the agreed amount and at most the
  tolerance above it, at the required depth, and was followed by a tip that leaves more than the
  abort margin before the provider's refund; the claim is signed over the value the chain showed.\<close>

theorem preimage_revealed_for_confirmed_htlc:
  assumes "w_log w = []" and "execute_reverse_swap n x ln ch ck rt c fee req poll z cs w = (res, w')"
    and "w_log w' = before @ ChBroadcast t answer # after"
  shows "before \<noteq> [] \<and> last before = PSpendBroadcast (x_txid x t)
    \<and> (\<exists>u tip p q rate. before = p @ [ChFindOutputs (Inr [u]), ChTip (Inr tip)] @ q
         \<and> rc_onchain_amount_sat c \<le> fu_value_sat u
         \<and> unat (fu_value_sat u) \<le> unat (rc_onchain_amount_sat c) + unat DEFAULT_MAX_OVERPAY_SAT
         \<and> req \<le> fu_confirmations u \<and> unat tip + 6 < unat (rc_timeout_height c)
         \<and> (\<exists>i. tx_input t = [i] \<and> in_previous_output i = fu_outpoint u)
         \<and> build_claim_tx x (fu_outpoint u) (fu_value_sat u) (rc_htlc_script c) (rc_dest_spk c)
             (estimate_spend_fee rate (rc_claim_vsize c)) (rc_preimage c) (rc_claim_key c) = Inr t)"
proof -
  have "reveal_guard x c req before (ChBroadcast t answer)"
    using client_event [OF assms] by simp
  then obtain u rate where l: "before \<noteq> []" "last before = PSpendBroadcast (x_txid x t)"
    and h: "claimable_htlc c req u before" and b: "rc_builder x c u rate = Inr t"
    by (auto simp: reveal_guard_def)
  from h obtain us tip p q where "before = p @ [ChFindOutputs (Inr us), ChTip (Inr tip)] @ q"
    "us = [u] \<and> rc_onchain_amount_sat c \<le> fu_value_sat u
       \<and> unat (fu_value_sat u) \<le> unat (rc_onchain_amount_sat c) + unat DEFAULT_MAX_OVERPAY_SAT"
    "req \<le> fu_confirmations u" "unat tip + 6 < unat (rc_timeout_height c)"
    unfolding claimable_htlc_def select_funding_selected claim_start_is_safe_iff by blast
  with l b rc_builder_spends [OF b] show ?thesis unfolding rc_builder_def by blast
qed

theorem preimage_revealed_for_confirmed_htlc_witness:
  "last (take 7 (w_log (snd (client_start funded_mock default_resume)))) = PSpendBroadcast (x_txid sample_ext client_claim_tx)"
  using preimage_revealed_for_confirmed_htlc [OF _ client_sample_eq,
      of "take 7 (w_log (snd (client_start funded_mock default_resume)))" client_claim_tx "Inr 1"
         "drop 8 (w_log (snd (client_start funded_mock default_resume)))"]
  by (simp add: client_sample_log)

text \<open>When the client's run reports a claim, it is done: the transaction was shown at the final
  depth, an HTLC of the right value had been shown before, and if this run started the payment
  then the payment task came back settled. A payment task never outlives the run that started
  it: it is aborted as the last thing the run does.\<close>

theorem client_claim_is_final:
  assumes "w_log w = []" and "execute_reverse_swap n x ln ch ck rt c fee req poll z cs w = (Some r, w')"
  shows "case r of
      Inl _ \<Rightarrow> not_spawned (w_log w') \<or> last (w_log w') = PayAborted
    | Inr i \<Rightarrow> (\<exists>u. claimable_htlc c req u (w_log w')) \<and> (\<exists>p m. FINALITY_DEPTH \<le> m \<and>
        (if not_spawned (w_log w') then w_log w' = p @ [ChConfirmations i (Inr (Some m))]
         else (\<exists>pay. w_log w' = p @ [ChConfirmations i (Inr (Some m)), PayJoined (Inr (Inr pay)), PayAborted])))"
proof (cases "not_spawned (w_log w')")
  case True
  with client_run(2) [OF assms refl] show ?thesis by (auto simp: client_outcome_def split: sum.splits)
next
  case False
  with client_run(3) [OF assms refl] obtain l where l: "w_log w' = l @ [PayAborted]" "client_outcome x c req True r l"
    by blast
  show ?thesis
  proof (cases r)
    case (Inr i)
    with l(2) obtain u p m pay where "claimable_htlc c req u l" "FINALITY_DEPTH \<le> m"
      "l = p @ [ChConfirmations i (Inr (Some m)), PayJoined (Inr (Inr pay))]"
      by (auto simp: client_outcome_def)
    with l(1) False Inr claimable_mono [of c req u l "[PayAborted]"] show ?thesis by auto
  qed (use l(1) in simp)
qed

theorem client_claim_is_final_witness:
  "\<exists>p m. FINALITY_DEPTH \<le> m \<and> (\<exists>pay. w_log (snd (client_start funded_mock default_resume)) =
     p @ [ChConfirmations 1 (Inr (Some m)), PayJoined (Inr (Inr pay)), PayAborted])"
proof -
  have "\<not> not_spawned (w_log (snd (client_start funded_mock default_resume)))"
    by (auto simp: client_sample_log not_spawned_def)
  with client_claim_is_final [OF _ client_sample_eq] show ?thesis by simp
qed

text \<open>The answers in a log that list an output of the script.\<close>

fun lists_output :: "event \<Rightarrow> bool" where
  "lists_output (ChFindOutputs (Inr us)) \<longleftrightarrow> us \<noteq> []"
| "lists_output _ \<longleftrightarrow> False"

lemma claimable_listed: "claimable_htlc c req u l \<Longrightarrow> filter lists_output l \<noteq> []"
  by (auto simp: claimable_htlc_def select_funding_selected)

text \<open>C12: A resumed client cannot finish, or even watch, a claim it has already broadcast: it looks for
  the HTLC among the unspent outputs of the script only, so in a run in which the chain lists
  none - which is what a claim in the mempool leaves - it broadcasts nothing and never reports
  the claim, however many of its own spends the record holds.\<close>

theorem resumed_client_cannot_find_its_claim:
  assumes "w_log w = []" and "execute_reverse_swap n x ln ch ck rt c fee req poll z cs w = (res, w')"
    and "filter lists_output (w_log w') = []"
  shows "(\<forall>t a. ChBroadcast t a \<notin> set (w_log w')) \<and> res \<noteq> Some (Inr i)"
proof
  show "\<forall>t a. ChBroadcast t a \<notin> set (w_log w')"
  proof (intro allI notI)
    fix t a assume "ChBroadcast t a \<in> set (w_log w')"
    then obtain p q where l: "w_log w' = p @ ChBroadcast t a # q" by (auto simp: in_set_conv_decomp)
    have "reveal_guard x c req p (ChBroadcast t a)" using client_event [OF assms(1,2) l] by simp
    then obtain u where "claimable_htlc c req u p" by (auto simp: reveal_guard_def)
    from claimable_listed [OF this] assms(3) l show False by simp
  qed
  show "res \<noteq> Some (Inr i)"
  proof
    assume r: "res = Some (Inr i)"
    have "\<exists>u l q. w_log w' = l @ q \<and> claimable_htlc c req u l"
    proof (cases "not_spawned (w_log w')")
      case True
      with client_run(2) [OF assms(1,2) r] obtain u where "claimable_htlc c req u (w_log w')"
        by (auto simp: client_outcome_def)
      then have "w_log w' = w_log w' @ [] \<and> claimable_htlc c req u (w_log w')" by simp
      then show ?thesis by blast
    next
      case False
      with client_run(3) [OF assms(1,2) r] obtain l where "w_log w' = l @ [PayAborted]"
        "client_outcome x c req True (Inr i) l" by blast
      moreover from this(2) obtain u where "claimable_htlc c req u l" by (auto simp: client_outcome_def)
      ultimately show ?thesis by blast
    qed
    then obtain u l q where "w_log w' = l @ q" "claimable_htlc c req u l" by blast
    with claimable_listed [of c req u l] assms(3) show False by simp
  qed
qed

text \<open>The claim of an earlier run is in the mempool: the output it spends is no longer listed.\<close>

definition own_claim_mock :: mock_chain where
  "own_claim_mock = mock_new\<lparr>mc_tip := 199, mc_spend := Some sample_claim\<rparr>"

lemma resumed_client_run:
  "\<exists>m. map_prod id w_log (client_start own_claim_mock (default_resume\<lparr>rz_our_spends := [1]\<rparr>)) =
     (Some (Inl (AnyMsg m)),
      [LnPaymentStatus (replicate 32 7) (Inr PayNotFound), PPayStarted (Inr ()), PaySpawned ''ln'' 100 None,
       ChFindOutputs (Inr []), ChTip (Inr 199), PayAborted])"
  by (simp add: client_run_defs paid_node_def reverse_run_defs refund_run_defs run_defs mock_defs own_claim_mock_def
      Let_def sample_ext_def word_le_nat_alt word_less_nat_alt cong: run_congs)

theorem resumed_client_cannot_find_its_claim_witness:
  "fst (client_start own_claim_mock (default_resume\<lparr>rz_our_spends := [1]\<rparr>)) \<noteq> Some (Inr 1)"
proof -
  let ?s = "client_start own_claim_mock (default_resume\<lparr>rz_our_spends := [1]\<rparr>)"
  have e: "execute_reverse_swap (Suc 0) sample_ext paid_node (mock_watcher sample_ext) frozen_clock held_payment
     sample_rc 100 1 1000 (default_resume\<lparr>rz_our_spends := [1]\<rparr>) null_claim_sink \<lparr>w_env = own_claim_mock, w_log = []\<rparr>
     = (fst ?s, snd ?s)"
    by (simp add: client_start_def)
  have l: "filter lists_output (w_log (snd ?s)) = []"
    using resumed_client_run by (cases ?s) auto
  show ?thesis using resumed_client_cannot_find_its_claim [OF _ e l, of 1] by simp
qed

end
