(* ===== verification/Client_Submarine.thy ===== *)
theory Client_Submarine
  imports Client_Reverse
begin

text \<open>
  The client of a submarine swap: \<open>swap-client/src/submarine.rs\<close>. It locks its own coins in the
  HTLC, at most once, and then either is paid over Lightning or takes them back after the timeout.
  Both loops of the source are unbounded and take fuel here.
\<close>

record submarine_funding =
  sf_htlc_script :: script
  sf_htlc_spk :: script
  sf_onchain_amount_sat :: u64
  sf_payment_hash :: payment_hash
  sf_refund_key :: secret_key
  sf_timeout_height :: u32
  sf_fee_rate_sat_vb :: u64

definition msg_error :: "string \<Rightarrow> swap_error \<Rightarrow> any_error" where
  "msg_error what e = AnyMsg (what @ '': '' @ show_swap_error e)"

subsection \<open>The funding\<close>

fun client_await_funding ::
  "nat \<Rightarrow> ext \<Rightarrow> 'e chain_watcher \<Rightarrow> 'e clock \<Rightarrow> submarine_funding \<Rightarrow> nat \<Rightarrow> 'e funding_sink
   \<Rightarrow> ('e, any_error + outpoint option) act" where
  "client_await_funding 0 x ch ck swap poll fs = out_of_fuel"
| "client_await_funding (Suc n) x ch ck swap poll fs =
     trym (msg_error ''find funding'') (find_funding ch (sf_htlc_spk swap) (sf_onchain_amount_sat swap)) (\<lambda>found.
     case found of
       Some u \<Rightarrow> bnd (client_funded fs (fu_outpoint u)) (\<lambda>_. ret (Inr (Some (fu_outpoint u))))
     | None \<Rightarrow>
     trym (msg_error ''script history'') (find_historical_outputs ch (sf_htlc_spk swap)) (\<lambda>history.
     trym (msg_error ''select funding'') (select_recorded_funding x ch (sf_htlc_spk swap) (sf_payment_hash swap)
         (sf_onchain_amount_sat swap) history) (\<lambda>selected. case selected of
       Some op \<Rightarrow> bnd (client_funded fs op) (\<lambda>_. ret (Inr (Some op)))
     | None \<Rightarrow>
     trym (msg_error ''tip height'') (tip_height ch) (\<lambda>tip.
       if tip \<ge> sf_timeout_height swap then ret (Inr None)
       else bnd (sleep_for ck (watch_poll poll)) (\<lambda>_. client_await_funding n x ch ck swap poll fs)))))"

definition client_fund_new ::
  "nat \<Rightarrow> ext \<Rightarrow> 'e chain_watcher \<Rightarrow> 'e onchain_wallet \<Rightarrow> 'e clock \<Rightarrow> submarine_funding \<Rightarrow> nat
   \<Rightarrow> 'e funding_sink \<Rightarrow> ('e, any_error + outpoint option) act" where
  "client_fund_new n x ch wl ck swap poll fs =
     trym (msg_error ''tip height'') (tip_height ch) (\<lambda>tip.
     if \<not> claim_start_is_safe tip (sf_timeout_height swap)
     then ret (Inl (AnyMsg (''this swap's HTLC times out at height '' @ show_u (sf_timeout_height swap)
            @ '' and the tip is '' @ show_u tip
            @ '', so there is no window left for the provider to pay and claim. Not funding it. Nothing was committed on chain.'')))
     else tryb (client_funding_intent fs tip) (\<lambda>_.
       bnd (fund_htlc wl (sf_htlc_spk swap) (sf_onchain_amount_sat swap)) (\<lambda>sent. case sent of
         Inr op \<Rightarrow> bnd (client_funded fs op) (\<lambda>_. ret (Inr (Some op)))
       | Inl _ \<Rightarrow> client_await_funding n x ch ck swap poll fs)))"

definition client_establish_funding ::
  "nat \<Rightarrow> ext \<Rightarrow> 'e chain_watcher \<Rightarrow> 'e onchain_wallet \<Rightarrow> 'e clock \<Rightarrow> submarine_funding \<Rightarrow> nat \<Rightarrow> resume
   \<Rightarrow> 'e funding_sink \<Rightarrow> ('e, any_error + outpoint option) act" where
  "client_establish_funding n x ch wl ck swap poll resume fs =
     (case rz_funding resume of
        Some op \<Rightarrow> ret (Inr (Some op))
      | None \<Rightarrow>
        trym (msg_error ''find funding'') (find_funding ch (sf_htlc_spk swap) (sf_onchain_amount_sat swap)) (\<lambda>found.
        case found of
          Some u \<Rightarrow> bnd (client_funded fs (fu_outpoint u)) (\<lambda>_. ret (Inr (Some (fu_outpoint u))))
        | None \<Rightarrow>
            if rz_funding_intent_at_height resume \<noteq> None then client_await_funding n x ch ck swap poll fs
            else client_fund_new n x ch wl ck swap poll fs))"

subsection \<open>The refund\<close>

definition sf_refund_vsize :: "submarine_funding \<Rightarrow> script \<Rightarrow> u64" where
  "sf_refund_vsize swap dest = spend_vsize (sf_htlc_script swap) dest False"

definition sf_refund_builder ::
  "ext \<Rightarrow> submarine_funding \<Rightarrow> outpoint \<Rightarrow> script \<Rightarrow> u64 \<Rightarrow> swap_error + transaction" where
  "sf_refund_builder x swap op dest rate =
     build_refund_tx x op (sf_onchain_amount_sat swap) (sf_htlc_script swap) dest
       (estimate_spend_fee rate (sf_refund_vsize swap dest)) (sf_timeout_height swap) (sf_refund_key swap)"

definition sf_refund_watch :: "submarine_funding \<Rightarrow> resume \<Rightarrow> nat \<Rightarrow> script \<Rightarrow> spend_watch_config" where
  "sf_refund_watch swap resume poll dest =
     with_known_ours
       (refund_config REFUND_FEE_TARGET_BLOCKS (sf_fee_rate_sat_vb swap)
          (fee_rate_cap (sf_onchain_amount_sat swap) (sf_refund_vsize swap dest) DEFAULT_MAX_FEE_BPS
             ABSOLUTE_MAX_FEE_RATE_SAT_VB (sf_fee_rate_sat_vb swap))
          poll FINALITY_DEPTH)
       (rz_our_spends resume)"

text \<open>One pass of the refund: the state it ends the swap in, or nothing, and the loop tries again.\<close>

definition client_refund_step ::
  "nat \<Rightarrow> ext \<Rightarrow> 'e chain_watcher \<Rightarrow> 'e onchain_wallet \<Rightarrow> 'e clock \<Rightarrow> submarine_funding \<Rightarrow> nat \<Rightarrow> resume
   \<Rightarrow> 'e funding_sink \<Rightarrow> outpoint \<Rightarrow> ('e, any_error + swap_state option) act" where
  "client_refund_step n x ch wl ck swap poll resume fs op =
     bnd (receive_destination wl) (\<lambda>dest.
     trym (msg_error ''refund broadcast/bump'')
       (confirm_or_bump n x ch ck (sf_htlc_spk swap) op (sf_refund_watch swap resume poll dest)
          (Some (cpfp_child wl)) (refund_broadcast fs) (sf_refund_builder x swap op dest))
       (\<lambda>outcome. case outcome of
          Confirmed _ \<Rightarrow> ret (Inr (Some Refunded))
        | ConflictingSpend t \<Rightarrow>
            if extract_preimage x t op (sf_payment_hash swap) \<noteq> None then ret (Inr (Some Claimed))
            else bnd (refund_broadcast fs (x_txid x t)) (\<lambda>_. ret (Inr (Some Refunded)))
        | DeadlineExceeded _ _ \<Rightarrow> ret (Inr None)))"

subsection \<open>The driver\<close>

fun await_settlement ::
  "nat \<Rightarrow> nat \<Rightarrow> ext \<Rightarrow> 'e lightning_backend \<Rightarrow> 'e chain_watcher \<Rightarrow> 'e onchain_wallet \<Rightarrow> 'e clock
   \<Rightarrow> submarine_funding \<Rightarrow> nat \<Rightarrow> resume \<Rightarrow> 'e funding_sink \<Rightarrow> outpoint \<Rightarrow> ('e, any_error + swap_state) act" where
  "await_settlement 0 fuel x ln ch wl ck swap poll resume fs op = out_of_fuel"
| "await_settlement (Suc n) fuel x ln ch wl ck swap poll resume fs op =
     trym (\<lambda>e. AnyMsg (''invoice state: '' @ show_lightning_error e))
       (invoice_state ln (sf_payment_hash swap)) (\<lambda>state.
     if state = InvSettled then ret (Inr Claimed)
     else trym (msg_error ''tip height'') (tip_height ch) (\<lambda>tip.
     if tip \<ge> sf_timeout_height swap
     then trym (msg_error ''find spend'') (find_spend ch (sf_htlc_spk swap) op) (\<lambda>spend.
       if (case spend of None \<Rightarrow> False
           | Some t \<Rightarrow> extract_preimage x t op (sf_payment_hash swap) \<noteq> None)
       then ret (Inr Claimed)
       else tryb (client_refund_step fuel x ch wl ck swap poll resume fs op) (\<lambda>over. case over of
           Some state \<Rightarrow> ret (Inr state)
         | None \<Rightarrow> await_settlement n fuel x ln ch wl ck swap poll resume fs op))
     else bnd (sleep_for ck poll) (\<lambda>_. await_settlement n fuel x ln ch wl ck swap poll resume fs op)))"

definition execute_submarine_swap ::
  "nat \<Rightarrow> ext \<Rightarrow> 'e lightning_backend \<Rightarrow> 'e chain_watcher \<Rightarrow> 'e onchain_wallet \<Rightarrow> 'e clock
   \<Rightarrow> submarine_funding \<Rightarrow> nat \<Rightarrow> resume \<Rightarrow> 'e funding_sink \<Rightarrow> ('e, any_error + swap_state) act" where
  "execute_submarine_swap fuel x ln ch wl ck swap poll resume fs =
     tryb (client_establish_funding fuel x ch wl ck swap poll resume fs) (\<lambda>funded. case funded of
       None \<Rightarrow> ret (Inr Expired)
     | Some op \<Rightarrow> await_settlement fuel fuel x ln ch wl ck swap poll resume fs op)"

subsection \<open>Conditions on its conversation\<close>

definition lock_guard :: "submarine_funding \<Rightarrow> resume \<Rightarrow> event list \<Rightarrow> event \<Rightarrow> bool" where
  "lock_guard s z p e = (case e of
     WFundHtlc spk v _ \<Rightarrow> \<not> may_have_funded z \<and> spk = sf_htlc_spk s \<and> v = sf_onchain_amount_sat s
       \<and> (\<exists>tip. p = [ChFindFunding (Inr None), ChTip (Inr tip), PFundingIntent tip (Inr ())]
            \<and> claim_start_is_safe tip (sf_timeout_height s))
   | _ \<Rightarrow> True)"

definition sf_timed_out :: "submarine_funding \<Rightarrow> event list \<Rightarrow> bool" where
  "sf_timed_out s l \<longleftrightarrow> (\<exists>tip. ChTip (Inr tip) \<in> set l \<and> sf_timeout_height s \<le> tip)"

definition take_back_guard :: "ext \<Rightarrow> submarine_funding \<Rightarrow> resume \<Rightarrow> event list \<Rightarrow> event \<Rightarrow> bool" where
  "take_back_guard x s z p e = (case e of
     ChBroadcast t _ \<Rightarrow> sf_timed_out s p \<and> p \<noteq> [] \<and> last p = PSpendBroadcast (x_txid x t)
       \<and> LnInvoiceState (sf_payment_hash s) (Inr InvSettled) \<notin> set p
       \<and> (\<exists>op i dest rate. known_funding z op p \<and> tx_input t = [i] \<and> in_previous_output i = op
            \<and> sf_refund_builder x s op dest rate = Inr t)
   | _ \<Rightarrow> True)"

definition locker_guard :: "ext \<Rightarrow> submarine_funding \<Rightarrow> resume \<Rightarrow> event list \<Rightarrow> event \<Rightarrow> bool" where
  "locker_guard x s z p e \<longleftrightarrow> lock_guard s z p e \<and> take_back_guard x s z p e"

fun calm_event :: "event \<Rightarrow> bool" where
  "calm_event (WFundHtlc _ _ _) = False"
| "calm_event (ChBroadcast _ _) = False"
| "calm_event (LnInvoiceState _ (Inr InvSettled)) = False"
| "calm_event _ = True"

lemma locker_guard_simps [simp]:
  "calm_event e \<Longrightarrow> locker_guard x s z p e"
  "locker_guard x s z p (LnInvoiceState h a)"
  "locker_guard x s z p (WFundHtlc spk v r) = lock_guard s z p (WFundHtlc spk v r)"
  "locker_guard x s z p (ChBroadcast t b) = take_back_guard x s z p (ChBroadcast t b)"
  by (cases e) (simp_all add: locker_guard_def lock_guard_def take_back_guard_def)

text \<open>What a result is worth.\<close>

definition locker_outcome :: "ext \<Rightarrow> submarine_funding \<Rightarrow> resume \<Rightarrow> any_error + swap_state \<Rightarrow> event list \<Rightarrow> bool" where
  "locker_outcome x s z r l = (case r of
     Inl _ \<Rightarrow> True
   | Inr Claimed \<Rightarrow> LnInvoiceState (sf_payment_hash s) (Inr InvSettled) \<in> set l
       \<or> (\<exists>op t. known_funding z op l \<and> ChFindSpend op (Inr (Some t)) \<in> set l
            \<and> extract_preimage x t op (sf_payment_hash s) \<noteq> None)
   | Inr Refunded \<Rightarrow> sf_timed_out s l \<and>
       ((\<exists>i c. l \<noteq> [] \<and> last l = ChConfirmations i (Inr (Some c)) \<and> FINALITY_DEPTH \<le> c)
        \<or> (\<exists>p op t. l = p @ [ChFindSpend op (Inr (Some t)), PSpendBroadcast (x_txid x t)]
             \<and> extract_preimage x t op (sf_payment_hash s) = None \<and> x_txid x t \<notin> set (rz_our_spends z)))
   | Inr st \<Rightarrow> st = Expired \<and> sf_timed_out s l \<and> rz_funding z = None \<and> (\<forall>op. PFunded op \<notin> set l)
       \<and> (\<forall>spk v op. WFundHtlc spk v (Inr op) \<notin> set l) \<and> (\<forall>t a. ChBroadcast t a \<notin> set l))"

subsection \<open>The conversation\<close>

definition unsettled :: "submarine_funding \<Rightarrow> event list \<Rightarrow> bool" where
  "unsettled s l \<longleftrightarrow> LnInvoiceState (sf_payment_hash s) (Inr InvSettled) \<notin> set l"

text \<open>Nothing adopted or sent yet, as far as this run knows.\<close>

definition unlocked :: "ext \<Rightarrow> submarine_funding \<Rightarrow> resume \<Rightarrow> event list \<Rightarrow> bool" where
  "unlocked x s z l \<longleftrightarrow> always (locker_guard x s z) l \<and> unsettled s l \<and> (\<forall>op. PFunded op \<notin> set l)
     \<and> (\<forall>spk v op. WFundHtlc spk v (Inr op) \<notin> set l) \<and> (\<forall>t a. ChBroadcast t a \<notin> set l)"

fun locating :: "event \<Rightarrow> bool" where
  "locating (PFunded _) = False"
| "locating (LnInvoiceState _ _) = False"
| "locating (WFundHtlc _ _ _) = False"
| "locating (ChBroadcast _ _) = False"
| "locating _ = True"

lemma locating_guard: "locating e \<Longrightarrow> locker_guard x s z p e"
  by (cases e) simp_all

lemma unlocked_locating: "list_all locating q \<Longrightarrow> unlocked x s z l \<Longrightarrow> unlocked x s z (l @ q)"
  by (auto simp: unlocked_def unsettled_def list_all_iff intro!: always_from_free [OF _ locating_guard])

lemmas unlocked_snoc = unlocked_locating [of "[_]", simplified list.pred_inject, simplified]

definition watching :: "ext \<Rightarrow> submarine_funding \<Rightarrow> resume \<Rightarrow> outpoint \<Rightarrow> event list \<Rightarrow> bool" where
  "watching x s z op l \<longleftrightarrow> always (locker_guard x s z) l \<and> unsettled s l \<and> known_funding z op l"

definition located ::
  "ext \<Rightarrow> submarine_funding \<Rightarrow> resume \<Rightarrow> any_error + outpoint option \<Rightarrow> event list \<Rightarrow> bool" where
  "located x s z r l \<longleftrightarrow> always (locker_guard x s z) l \<and> (case r of
     Inl _ \<Rightarrow> True
   | Inr None \<Rightarrow> unlocked x s z l \<and> sf_timed_out s l \<and> rz_funding z = None
   | Inr (Some op) \<Rightarrow> watching x s z op l)"

lemma located_defs_always:
  "unlocked x s z l \<Longrightarrow> always (locker_guard x s z) l" "unlocked x s z l \<Longrightarrow> unsettled s l"
  by (simp_all add: unlocked_def)

lemma client_funded_wp:
  assumes "always (locker_guard x s z) l" and "unsettled s l"
  shows "wpl (bnd (client_funded fs op) (\<lambda>_. ret (Inr (Some op)))) (located x s z) R l"
  unfolding client_funded_def
  by (intro wp) (use assms in \<open>auto simp: located_def watching_def unsettled_def known_funding_def\<close>)

lemma em_first_revealing: "emits locating (first_revealing x ch spk h cs)"
proof (induction cs)
  case (Cons c cs)
  then show ?case unfolding first_revealing.simps find_spend_def by (intro em) simp_all
qed (simp add: em)

lemma em_select_recorded: "emits locating (select_recorded_funding x ch spk h v hist)"
  unfolding select_recorded_funding_def Let_def
  by (cases "funding_candidates v hist")
    (auto intro!: em em_first_revealing simp: find_spend_def simp del: first_revealing.simps)

lemma select_unlocked_wp:
  assumes "unlocked x s z l"
  shows "wpl (select_recorded_funding x ch spk h v hist) (\<lambda>_. unlocked x s z) (always (locker_guard x s z)) l"
  by (rule wp_conseq [OF emits_wpl [OF em_select_recorded]])
    (use unlocked_locating [OF _ assms] located_defs_always(1) in blast)+

lemma client_await_wp:
  assumes "unlocked x s z l" and "rz_funding z = None"
  shows "wpl (client_await_funding n x ch ck s poll fs) (located x s z) (always (locker_guard x s z)) l"
  using assms(1)
proof (induction n arbitrary: l)
  case 0
  then show ?case by (auto intro: wp located_defs_always)
next
  case (Suc n)
  have tail: "wpl (trym (msg_error m) (tip_height ch) (\<lambda>tip.
       if tip \<ge> sf_timeout_height s then ret (Inr None)
       else bnd (sleep_for ck (watch_poll poll)) (\<lambda>_. client_await_funding n x ch ck s poll fs)))
      (located x s z) (always (locker_guard x s z)) l'" if l': "unlocked x s z l'" for l' m
    unfolding tip_height_def sleep_for_def
    by (intro wp Suc.IH)
      (use unlocked_locating [OF _ l'] located_defs_always [OF l'] assms(2) in \<open>auto simp: located_def sf_timed_out_def\<close>)
  have select: "wpl (trym (msg_error m) (select_recorded_funding x ch (sf_htlc_spk s) (sf_payment_hash s)
         (sf_onchain_amount_sat s) history) (\<lambda>selected. case selected of
       Some op \<Rightarrow> bnd (client_funded fs op) (\<lambda>_. ret (Inr (Some op)))
     | None \<Rightarrow> trym (msg_error m') (tip_height ch) (\<lambda>tip.
       if tip \<ge> sf_timeout_height s then ret (Inr None)
       else bnd (sleep_for ck (watch_poll poll)) (\<lambda>_. client_await_funding n x ch ck s poll fs))))
      (located x s z) (always (locker_guard x s z)) l'" if l': "unlocked x s z l'" for l' history m m'
  proof (rule wp_trym [OF select_unlocked_wp [OF l']], goal_cases)
    case (2 v l'')
    then show ?case by (intro wp tail client_funded_wp) (simp_all add: located_defs_always)
  qed (simp add: located_def located_defs_always)
  show ?case unfolding client_await_funding.simps find_funding_def find_historical_outputs_def
    by (intro wp select client_funded_wp)
      (use unlocked_locating [OF _ Suc.prems] located_defs_always [OF Suc.prems] in
        \<open>auto simp: located_def unsettled_def\<close>)
qed

lemma client_establish_wp:
  "wpl (client_establish_funding n x ch wl ck s poll z fs) (located x s z) (always (locker_guard x s z)) []"
proof -
  have start: "unlocked x s z []" by (simp add: unlocked_def unsettled_def)
  show ?thesis
    unfolding client_establish_funding_def client_fund_new_def find_funding_def tip_height_def
      client_funding_intent_def fund_htlc_def
    by (intro wp client_await_wp client_funded_wp)
      (auto simp: located_def watching_def unlocked_def unsettled_def known_funding_def lock_guard_def
        may_have_funded_def always_Cons client_funded_def intro!: wp)
qed

lemma sf_refund_builder_spends:
  "sf_refund_builder x s op dest rate = Inr t \<Longrightarrow> \<exists>i. tx_input t = [i] \<and> in_previous_output i = op"
  by (auto simp: sf_refund_builder_def build_refund_tx_def set_witness_def unsigned_spend_def
      split: option.splits dest!: build_htlc_spend_Inr(4))

lemma locker_spender:
  "htlc_spender (refund_broadcast fs) (sf_refund_builder x s op dest) op (Some (cpfp_child wl))"
  by unfold_locales (auto simp: refund_broadcast_def cpfp_child_def cpfp_bump_def
      intro!: wp_call wp ob sf_refund_builder_spends)

interpretation take_back: htlc_spender "refund_broadcast fs" "sf_refund_builder x s op dest" op "Some (cpfp_child wl)"
  for fs x s op dest wl
  by (rule locker_spender)

definition due :: "submarine_funding \<Rightarrow> resume \<Rightarrow> outpoint \<Rightarrow> event list \<Rightarrow> bool" where
  "due s z op l \<longleftrightarrow> sf_timed_out s l \<and> unsettled s l \<and> known_funding z op l"

lemma due_bump: "due s z op p \<Longrightarrow> bump_event e \<Longrightarrow> due s z op (p @ [e])"
  by (cases e) (auto simp: due_def sf_timed_out_def unsettled_def known_funding_def)

lemma take_back_allowed:
  assumes "due s z op p" and "announced_spend x (sf_refund_builder x s op dest) cfg p e" and "bump_event e"
  shows "locker_guard x s z p e"
proof (cases "calm_event e")
  case False
  with assms(3) obtain t r where t: "e = ChBroadcast t r" by (cases e) auto
  with assms(2) obtain rate where b: "p \<noteq> []" "last p = PSpendBroadcast (x_txid x t)"
    "sf_refund_builder x s op dest rate = Inr t"
    by (auto simp: announced_spend_def)
  from sf_refund_builder_spends [OF b(3)] obtain i where "tx_input t = [i]" "in_previous_output i = op" by blast
  with b assms(1) show ?thesis unfolding t by (auto simp: take_back_guard_def due_def unsettled_def)
qed simp

definition locker_post :: "ext \<Rightarrow> submarine_funding \<Rightarrow> resume \<Rightarrow> any_error + swap_state \<Rightarrow> event list \<Rightarrow> bool" where
  "locker_post x s z r l \<longleftrightarrow> always (locker_guard x s z) l \<and> locker_outcome x s z r l"

lemma client_refund_step_wp:
  assumes "watching x s z op l" and "sf_timed_out s l"
  shows "wpl (client_refund_step n x ch wl ck s poll z fs op)
    (\<lambda>r l'. always (locker_guard x s z) l' \<and> (case r of Inl _ \<Rightarrow> True
       | Inr None \<Rightarrow> watching x s z op l' | Inr (Some st) \<Rightarrow> locker_outcome x s z (Inr st) l'))
    (always (locker_guard x s z)) l"
  unfolding client_refund_step_def receive_destination_def
proof (intro wp, goal_cases)
  case (1 dest)
  let ?l = "l @ [WReceive dest]"
  have d: "always (locker_guard x s z) ?l" "due s z op ?l"
    using assms by (auto simp: watching_def due_def sf_timed_out_def unsettled_def known_funding_def)
  have conf: "sw_min_confirmations (sf_refund_watch s z poll dest) = FINALITY_DEPTH"
    "sw_known_ours (sf_refund_watch s z poll dest) = rz_our_spends z"
    by (simp_all add: sf_refund_watch_def with_known_ours_def refund_config_def)
  have drive: "wpl (confirm_or_bump n x ch ck (sf_htlc_spk s) op (sf_refund_watch s z poll dest)
       (Some (cpfp_child wl)) (refund_broadcast fs) (sf_refund_builder x s op dest))
    (\<lambda>r l'. always (locker_guard x s z) l' \<and> due s z op l' \<and> spend_over x (sf_refund_watch s z poll dest) op r l')
    (always (locker_guard x s z)) ?l"
    by (rule take_back.drive_wp [where G = "locker_guard x s z" and K = "due s z op", OF d]) (auto intro: due_bump take_back_allowed)
  show ?case
  proof (rule wp_trym [OF drive], goal_cases)
    case (2 outcome l')
    then have g: "always (locker_guard x s z) l'" and d': "due s z op l'" by blast+
    show ?case
    proof (cases outcome)
      case (Confirmed i)
      with 2 obtain p c where "l' = p @ [ChConfirmations i (Inr (Some c))]" "FINALITY_DEPTH \<le> c"
        by (auto simp: spend_over_def conf)
      with g d' show ?thesis unfolding Confirmed
        by (auto simp: locker_outcome_def due_def intro!: wp)
    next
      case (ConflictingSpend t)
      with 2 obtain p where p: "l' = p @ [ChFindSpend op (Inr (Some t))]" "x_txid x t \<notin> set (rz_our_spends z)"
        by (auto simp: spend_over_def conf)
      show ?thesis unfolding ConflictingSpend spend_outcome.case refund_broadcast_def
        by (intro wp) (use g d' p in \<open>auto simp: locker_outcome_def due_def sf_timed_out_def known_funding_def\<close>)
    next
      case (DeadlineExceeded i tip)
      with g d' show ?thesis by (auto simp: watching_def due_def intro!: wp)
    qed
  qed auto
qed

lemma watching_calm:
  assumes "list_all calm_event q" and "watching x s z op l"
  shows "watching x s z op (l @ q)"
proof -
  have "LnInvoiceState (sf_payment_hash s) (Inr InvSettled) \<notin> set q"
    using assms(1) by (auto simp: list_all_iff)
  then show ?thesis
    using assms by (auto simp: watching_def unsettled_def known_funding_def intro!: always_from_free [where E = calm_event])
qed

lemma not_settled_calm: "st \<noteq> InvSettled \<Longrightarrow> calm_event (LnInvoiceState h (Inr st))"
  by (cases st) simp_all

lemma await_settlement_wp:
  assumes "watching x s z op l"
  shows "wpl (await_settlement n fuel x ln ch wl ck s poll z fs op) (locker_post x s z) (always (locker_guard x s z)) l"
  using assms
proof (induction n arbitrary: l)
  case 0
  then show ?case by (auto intro: wp simp: watching_def)
next
  case (Suc n)
  have al: "always (locker_guard x s z) l'" if "watching x s z op l'" for l'
    using that by (simp add: watching_def)
  note go = watching_calm [OF _ Suc.prems]
  show ?case
    unfolding await_settlement.simps invoice_state_def tip_height_def find_spend_def sleep_for_def
  proof (intro wp, goal_cases)
    case (2 st)
    then show ?case using al [OF Suc.prems] by (auto simp: locker_post_def locker_outcome_def)
  next
    case (3 st e)
    then show ?case using al [OF go [of "[LnInvoiceState (sf_payment_hash s) (Inr st), ChTip (Inl e)]"]]
      by (auto simp: locker_post_def locker_outcome_def not_settled_calm)
  next
    case (4 st tip e)
    then show ?case
      using al [OF go [of "[LnInvoiceState (sf_payment_hash s) (Inr st), ChTip (Inr tip), ChFindSpend op (Inl e)]"]]
      by (auto simp: locker_post_def locker_outcome_def not_settled_calm)
  next
    case (5 st tip spend)
    let ?q = "[LnInvoiceState (sf_payment_hash s) (Inr st), ChTip (Inr tip), ChFindSpend op (Inr spend)]"
    have w: "watching x s z op (l @ ?q)" using go [of ?q] 5 by (simp add: not_settled_calm)
    from 5 obtain t where "spend = Some t" "extract_preimage x t op (sf_payment_hash s) \<noteq> None"
      by (auto split: option.splits)
    with al [OF w] w show ?case by (auto simp: locker_post_def locker_outcome_def watching_def known_funding_def)
  next
    case (6 st tip spend)
    let ?q = "[LnInvoiceState (sf_payment_hash s) (Inr st), ChTip (Inr tip), ChFindSpend op (Inr spend)]"
    have w: "watching x s z op (l @ ?q)" using go [of ?q] 6 by (simp add: not_settled_calm)
    have t: "sf_timed_out s (l @ ?q)" using 6 by (auto simp: sf_timed_out_def)
    have "wpl (tryb (client_refund_step fuel x ch wl ck s poll z fs op) (\<lambda>over. case over of
           Some state \<Rightarrow> ret (Inr state)
         | None \<Rightarrow> await_settlement n fuel x ln ch wl ck s poll z fs op))
      (locker_post x s z) (always (locker_guard x s z)) (l @ ?q)"
      by (rule wp_tryb [OF client_refund_step_wp [OF w t]])
        (auto simp: locker_post_def locker_outcome_def [of _ _ _ "Inl _"] intro!: wp Suc.IH split: option.splits)
    then show ?case by simp
  next
    case (7 st tip u)
    then show ?case
      using go [of "[LnInvoiceState (sf_payment_hash s) (Inr st), ChTip (Inr tip), Slept poll]"]
      by (intro Suc.IH) (simp add: not_settled_calm)
  qed (use al [OF Suc.prems] in \<open>auto simp: locker_post_def locker_outcome_def\<close>)
qed

lemma execute_submarine_wp:
  "wpl (execute_submarine_swap n x ln ch wl ck s poll z fs) (locker_post x s z) (always (locker_guard x s z)) []"
  unfolding execute_submarine_swap_def
  by (rule wp_tryb [OF client_establish_wp])
    (auto simp: located_def locker_post_def locker_outcome_def unlocked_def intro!: wp await_settlement_wp
      split: option.splits)

lemma locker_run:
  assumes "w_log w = []" and "execute_submarine_swap n x ln ch wl ck s poll z fs w = (res, w')"
  shows "always (locker_guard x s z) (w_log w')"
    and "res = Some r \<Longrightarrow> locker_outcome x s z r (w_log w')"
proof -
  have c: "wpl (execute_submarine_swap n x ln ch wl ck s poll z fs) (locker_post x s z)
     (always (locker_guard x s z)) (w_log w)"
    using assms(1) execute_submarine_wp by simp
  show "always (locker_guard x s z) (w_log w')"
    using wpl_Some [OF c] wpl_None [OF c] assms(2) by (cases res) (auto simp: locker_post_def)
  show "res = Some r \<Longrightarrow> locker_outcome x s z r (w_log w')"
    using wpl_Some [OF c] assms(2) by (auto simp: locker_post_def)
qed

lemma locker_event:
  assumes "w_log w = []" and "execute_submarine_swap n x ln ch wl ck s poll z fs w = (res, w')"
    and "w_log w' = before @ e # after"
  shows "locker_guard x s z before e"
  using locker_run(1) [OF assms(1,2)] unfolding assms(3) by (rule alwaysD)

subsection \<open>Complete runs\<close>

definition null_funding_sink :: "'e funding_sink" where
  "null_funding_sink =
     \<lparr>fs_funding_intent = (\<lambda>_ e. (Inr (), e)), fs_funded = (\<lambda>_ e. ((), e)), fs_spend_broadcast = (\<lambda>_ e. ((), e))\<rparr>"

definition sample_sf :: submarine_funding where
  "sample_sf =
     \<lparr>sf_htlc_script = [1], sf_htlc_spk = [1], sf_onchain_amount_sat = 50000, sf_payment_hash = replicate 32 7,
      sf_refund_key = [], sf_timeout_height = 200, sf_fee_rate_sat_vb = 2\<rparr>"

definition open_status :: invoice_status where
  "open_status = \<lparr>is_state = InvOpen, is_amount_paid_msat = 0, is_htlcs = []\<rparr>"

definition unpaid_node :: "'e lightning_backend" where
  "unpaid_node = paid_node\<lparr>ln_invoice_status := (\<lambda>_ e. (Inr open_status, e))\<rparr>"

definition locker_start :: "mock_chain \<Rightarrow> resume \<Rightarrow> (any_error + swap_state) option \<times> mock_chain world" where
  "locker_start m z =
     execute_submarine_swap (Suc 0) sample_ext unpaid_node (mock_watcher sample_ext) sample_wallet frozen_clock sample_sf
       1000 z null_funding_sink \<lparr>w_env = m, w_log = []\<rparr>"

text \<open>The chain is at 100 when the client funds, and past the timeout when it looks again.\<close>

definition expiring_mock :: mock_chain where
  "expiring_mock = mock_new\<lparr>mc_tips := [100, 200], mc_confirmations := [Some 2]\<rparr>"

definition locker_refund_tx :: transaction where
  "locker_refund_tx = (case sf_refund_builder sample_ext sample_sf sample_op [8] 2 of Inr t \<Rightarrow> t | Inl _ \<Rightarrow> sample_claim)"

lemmas locker_run_defs = locker_start_def execute_submarine_swap_def client_establish_funding_def client_fund_new_def
  client_refund_step_def sf_refund_watch_def refund_config_def sf_refund_builder_def sf_refund_vsize_def
  build_refund_tx_def null_funding_sink_def sample_sf_def open_status_def unpaid_node_def
  claim_start_is_safe_def CLAIM_ABORT_MARGIN_def

lemma locker_sample_run:
  "map_prod id w_log (locker_start expiring_mock default_resume) =
     (Some (Inr Refunded),
      [ChFindFunding (Inr None), ChTip (Inr 100), PFundingIntent 100 (Inr ()), WFundHtlc [1] 50000 (Inr sample_op),
       PFunded sample_op, LnInvoiceState (replicate 32 7) (Inr InvOpen), ChTip (Inr 200),
       ChFindSpend sample_op (Inr None), WReceive [8], ChEstimate 6 (Inr None), PSpendBroadcast 201,
       ChBroadcast locker_refund_tx (Inr 201), ChTip (Inr 200), ChFindSpend sample_op (Inr None),
       ChConfirmations 201 (Inr (Some 2))])"
  by (simp add: locker_run_defs paid_node_def reverse_run_defs refund_run_defs run_defs mock_defs expiring_mock_def
      locker_refund_tx_def Let_def sample_ext_def sample_op_def word_le_nat_alt word_less_nat_alt cong: run_congs)

lemma locker_sample_eq:
  "execute_submarine_swap (Suc 0) sample_ext unpaid_node (mock_watcher sample_ext) sample_wallet frozen_clock sample_sf
     1000 default_resume null_funding_sink \<lparr>w_env = expiring_mock, w_log = []\<rparr>
   = (Some (Inr Refunded), snd (locker_start expiring_mock default_resume))"
  using locker_sample_run by (cases "locker_start expiring_mock default_resume") (simp add: locker_start_def)

lemma locker_sample_log:
  "w_log (snd (locker_start expiring_mock default_resume)) =
      [ChFindFunding (Inr None), ChTip (Inr 100), PFundingIntent 100 (Inr ())] @
      WFundHtlc [1] 50000 (Inr sample_op) #
      [PFunded sample_op, LnInvoiceState (replicate 32 7) (Inr InvOpen), ChTip (Inr 200),
       ChFindSpend sample_op (Inr None), WReceive [8], ChEstimate 6 (Inr None), PSpendBroadcast 201] @
      ChBroadcast locker_refund_tx (Inr 201) # [ChTip (Inr 200), ChFindSpend sample_op (Inr None),
       ChConfirmations 201 (Inr (Some 2))]"
  using locker_sample_run by (cases "locker_start expiring_mock default_resume") simp

subsection \<open>Properties\<close>

text \<open>C9: The client never locks its coins twice, nor for a dead swap: the wallet is asked to fund only
  when no earlier run recorded a funding or the intent to make one, as the fourth thing the run
  does - after the chain listed no output of the agreed value, a tip more than the abort margin
  before the timeout was seen, and the intent was recorded - for exactly the agreed amount and
  script; and the run asks no second time.\<close>

theorem client_locks_coins_once:
  assumes "w_log w = []" and "execute_submarine_swap n x ln ch wl ck s poll z fs w = (res, w')"
    and "w_log w' = before @ WFundHtlc spk v answer # after"
  shows "rz_funding z = None \<and> rz_funding_intent_at_height z = None
    \<and> spk = sf_htlc_spk s \<and> v = sf_onchain_amount_sat s
    \<and> (\<exists>tip. before = [ChFindFunding (Inr None), ChTip (Inr tip), PFundingIntent tip (Inr ())]
         \<and> unat tip + 6 < unat (sf_timeout_height s))
    \<and> no_funding_call after"
proof -
  have g: "lock_guard s z p (WFundHtlc a b c)" if "w_log w' = p @ WFundHtlc a b c # q" for p a b c q
    using locker_event [OF assms(1,2) that] by simp
  have "no_funding_call after"
    unfolding no_funding_call_def
  proof (intro allI notI)
    fix a b c assume "WFundHtlc a b c \<in> set after"
    then obtain p q where "after = p @ WFundHtlc a b c # q" by (auto simp: in_set_conv_decomp)
    then have "w_log w' = (before @ WFundHtlc spk v answer # p) @ WFundHtlc a b c # q" using assms(3) by simp
    from g [OF this] g [OF assms(3)] show False by (auto simp: lock_guard_def)
  qed
  with g [OF assms(3)] show ?thesis
    by (auto simp: lock_guard_def may_have_funded_def claim_start_is_safe_iff)
qed

theorem client_locks_coins_once_witness:
  "no_funding_call (drop 4 (w_log (snd (locker_start expiring_mock default_resume))))"
  using client_locks_coins_once [OF _ locker_sample_eq locker_sample_log] by (simp add: locker_sample_log)

text \<open>The client takes its coins back only when they are its own to take: every transaction it
  broadcasts was announced to its record immediately before, is the refund of the outpoint this
  swap funded, and was only sent after a tip at or past the timeout was seen and while no answer
  had shown its invoice settled.\<close>

theorem client_refunds_only_after_timeout:
  assumes "w_log w = []" and "execute_submarine_swap n x ln ch wl ck s poll z fs w = (res, w')"
    and "w_log w' = before @ ChBroadcast t answer # after"
  shows "before \<noteq> [] \<and> last before = PSpendBroadcast (x_txid x t)
    \<and> (\<exists>tip. ChTip (Inr tip) \<in> set before \<and> sf_timeout_height s \<le> tip)
    \<and> LnInvoiceState (sf_payment_hash s) (Inr InvSettled) \<notin> set before
    \<and> (\<exists>op i dest fee. (rz_funding z = Some op \<or> PFunded op \<in> set before)
         \<and> tx_input t = [i] \<and> in_previous_output i = op
         \<and> build_refund_tx x op (sf_onchain_amount_sat s) (sf_htlc_script s) dest fee (sf_timeout_height s)
             (sf_refund_key s) = Inr t)"
proof -
  have "take_back_guard x s z before (ChBroadcast t answer)"
    using locker_event [OF assms] by simp
  then show ?thesis
    unfolding take_back_guard_def sf_timed_out_def known_funding_def sf_refund_builder_def by auto
qed

theorem client_refunds_only_after_timeout_witness:
  "\<exists>tip. ChTip (Inr tip) \<in> set (take 11 (w_log (snd (locker_start expiring_mock default_resume)))) \<and> 200 \<le> tip"
  using client_refunds_only_after_timeout [OF _ locker_sample_eq,
      of "take 11 (w_log (snd (locker_start expiring_mock default_resume)))" locker_refund_tx "Inr 201"
         "drop 12 (w_log (snd (locker_start expiring_mock default_resume)))"]
  by (simp add: locker_sample_log sample_sf_def)

text \<open>What the client's answer is worth: \<open>Claimed\<close> only if the node showed the invoice settled or
  the chain showed a spend of the funding that reveals the preimage; \<open>Refunded\<close> only after the
  timeout, with the refund at the final depth - or with a spend the client does not know and that
  reveals no preimage, which is adopted as its own without waiting; \<open>Expired\<close> only after the
  timeout with no funding ever known; and it returns no other state.\<close>

theorem client_submarine_outcome_means:
  assumes "w_log w = []" and "execute_submarine_swap n x ln ch wl ck s poll z fs w = (Some (Inr st), w')"
  shows "case st of
      Claimed \<Rightarrow> LnInvoiceState (sf_payment_hash s) (Inr InvSettled) \<in> set (w_log w')
        \<or> (\<exists>op t. known_funding z op (w_log w') \<and> ChFindSpend op (Inr (Some t)) \<in> set (w_log w')
             \<and> extract_preimage x t op (sf_payment_hash s) \<noteq> None)
    | Refunded \<Rightarrow> (\<exists>tip. ChTip (Inr tip) \<in> set (w_log w') \<and> sf_timeout_height s \<le> tip) \<and>
        ((\<exists>i c. last (w_log w') = ChConfirmations i (Inr (Some c)) \<and> FINALITY_DEPTH \<le> c)
         \<or> (\<exists>p op t. w_log w' = p @ [ChFindSpend op (Inr (Some t)), PSpendBroadcast (x_txid x t)]
              \<and> extract_preimage x t op (sf_payment_hash s) = None \<and> x_txid x t \<notin> set (rz_our_spends z)))
    | Expired \<Rightarrow> (\<exists>tip. ChTip (Inr tip) \<in> set (w_log w') \<and> sf_timeout_height s \<le> tip)
        \<and> rz_funding z = None \<and> (\<forall>op. PFunded op \<notin> set (w_log w'))
    | _ \<Rightarrow> False"
proof -
  have "locker_outcome x s z (Inr st) (w_log w')" using locker_run(2) [OF assms refl] .
  then show ?thesis
    by (cases st) (auto simp: locker_outcome_def sf_timed_out_def)
qed

theorem client_submarine_outcome_means_witness:
  "\<exists>tip. ChTip (Inr tip) \<in> set (w_log (snd (locker_start expiring_mock default_resume)))
     \<and> sf_timeout_height sample_sf \<le> tip"
  using client_submarine_outcome_means [OF _ locker_sample_eq] by simp

text \<open>An earlier refund is in the mempool, but its id never reached the record.\<close>

definition stranded_mock :: mock_chain where
  "stranded_mock = mock_new\<lparr>mc_tip := 200, mc_spend := Some client_refund, mc_confirmations := [Some 0]\<rparr>"

text \<open>The client reports \<open>Refunded\<close>, which is final, for a refund nobody has seen confirmed: when the
  chain shows a spend of the funding that reveals no preimage and is not on record, it is taken
  for an earlier refund and the run ends there - no confirmation is asked for in the whole run,
  and nothing bumps that refund any more.\<close>

theorem unknown_refund_ends_unconfirmed:
  "\<exists>w'. locker_start stranded_mock (default_resume\<lparr>rz_funding := Some sample_op\<rparr>) = (Some (Inr Refunded), w')
     \<and> ChFindSpend sample_op (Inr (Some client_refund)) \<in> set (w_log w')
     \<and> filter (\<lambda>e. case e of ChConfirmations _ _ \<Rightarrow> True | _ \<Rightarrow> False) (w_log w') = []"
  by (simp add: locker_run_defs paid_node_def reverse_run_defs refund_run_defs run_defs mock_defs stranded_mock_def
      client_refund_def Let_def sample_ext_def sample_op_def word_le_nat_alt word_less_nat_alt cong: run_congs)

end
