(* ===== verification/Risk.thy ===== *)
theory Risk
  imports Prelude Messages Store "HOL-Library.AList" "HOL-Library.List_Lexorder"
begin

text \<open>
  How much the provider may have at risk at once: \<open>swap-provider/src/risk.rs\<close>. The maps of the
  source are association lists with distinct keys (an invariant below); an \<open>Instant\<close> is a number
  of milliseconds, and a guard that is dropped is the call of \<open>release\<close> its drop makes.
\<close>

record risk_limits =
  rl_max_concurrent_swaps :: nat
  rl_max_concurrent_per_peer :: nat
  rl_max_total_exposure_sat :: u64
  rl_max_exposure_per_peer_sat :: u64
  rl_min_onchain_reserve_sat :: u64
  rl_max_new_swaps_per_peer_per_hour :: u32

definition default_risk_limits :: risk_limits where
  "default_risk_limits =
     \<lparr>rl_max_concurrent_swaps = 25, rl_max_concurrent_per_peer = 2, rl_max_total_exposure_sat = 5000000,
      rl_max_exposure_per_peer_sat = 1000000, rl_min_onchain_reserve_sat = 100000,
      rl_max_new_swaps_per_peer_per_hour = 6\<rparr>"

datatype reject_reason =
    AtCapacity nat nat
  | PeerAtCapacity nat nat
  | ExposureExceeded u64 u64
  | PeerExposureExceeded u64 u64
  | RateLimitedBy u32 u32
  | AlreadyReserved

fun reject_reason_code :: "reject_reason \<Rightarrow> reject_code" where
  "reject_reason_code (AtCapacity _ _) = RcLiquidityUnavailable"
| "reject_reason_code (PeerAtCapacity _ _) = RcLiquidityUnavailable"
| "reject_reason_code (ExposureExceeded _ _) = RcLiquidityUnavailable"
| "reject_reason_code (PeerExposureExceeded _ _) = RcLiquidityUnavailable"
| "reject_reason_code (RateLimitedBy _ _) = RcRateLimited"
| "reject_reason_code AlreadyReserved = RcPending"

fun show_reject_reason :: "reject_reason \<Rightarrow> string" where
  "show_reject_reason (AtCapacity in_flight m) =
     ''provider is at capacity ('' @ show_nat in_flight @ '' of '' @ show_nat m @ '' swaps in flight)''"
| "show_reject_reason (PeerAtCapacity in_flight m) =
     ''you already have '' @ show_nat in_flight @ '' swap(s) in flight; the limit is '' @ show_nat m"
| "show_reject_reason (ExposureExceeded committed m) =
     ''provider has '' @ show_u committed @ '' sat committed against a '' @ show_u m @ '' sat ceiling''"
| "show_reject_reason (PeerExposureExceeded committed m) =
     ''you have '' @ show_u committed @ '' sat committed against a '' @ show_u m @ '' sat per-peer ceiling''"
| "show_reject_reason (RateLimitedBy started m) =
     ''you have started '' @ show_u started @ '' swaps in the last hour; the limit is '' @ show_u m"
| "show_reject_reason AlreadyReserved = ''this swap already holds a reservation''"

subsection \<open>The accounting\<close>

record peer_state =
  pe_committed_sat :: u64
  pe_in_flight :: nat
  pe_recent_starts :: "nat list"

definition default_peer :: peer_state where
  "default_peer = \<lparr>pe_committed_sat = 0, pe_in_flight = 0, pe_recent_starts = []\<rparr>"

record risk_inner =
  ri_total_committed_sat :: u64
  ri_total_in_flight :: nat
  ri_peers :: "(string \<times> peer_state) list"
  ri_reservations :: "(uuid \<times> string \<times> u64) list"
  ri_funding_claims :: "(uuid \<times> u64) list"

record funding_shortfall =
  sh_available_sat :: u64
  sh_claimed_sat :: u64
  sh_needed_sat :: u64

datatype reservation_mode = NewSwap | PendingSwap | FundedSwap

definition risk_new :: risk_inner where
  "risk_new =
     \<lparr>ri_total_committed_sat = 0, ri_total_in_flight = 0, ri_peers = [], ri_reservations = [],
      ri_funding_claims = []\<rparr>"

definition HOUR :: nat where "HOUR = 3600000"

definition recent :: "nat \<Rightarrow> nat list \<Rightarrow> nat list" where
  "recent at starts = filter (\<lambda>t. at - t < HOUR) starts"

definition peer_of :: "risk_inner \<Rightarrow> string \<Rightarrow> peer_state" where
  "peer_of s peer = (case map_of (ri_peers s) peer of None \<Rightarrow> default_peer | Some p \<Rightarrow> p)"

definition admissible :: "risk_limits \<Rightarrow> nat \<Rightarrow> string \<Rightarrow> u64 \<Rightarrow> risk_inner \<Rightarrow> reject_reason + unit" where
  "admissible lim at peer amount_sat s =
     (let p = peer_of s peer;
          started = (word_of_nat (length (recent at (pe_recent_starts p))) :: u32);
          peer_would = saturating_add (pe_committed_sat p) amount_sat;
          total_would = saturating_add (ri_total_committed_sat s) amount_sat
      in if started \<ge> rl_max_new_swaps_per_peer_per_hour lim
         then Inl (RateLimitedBy started (rl_max_new_swaps_per_peer_per_hour lim))
         else if pe_in_flight p \<ge> rl_max_concurrent_per_peer lim
         then Inl (PeerAtCapacity (pe_in_flight p) (rl_max_concurrent_per_peer lim))
         else if peer_would > rl_max_exposure_per_peer_sat lim
         then Inl (PeerExposureExceeded peer_would (rl_max_exposure_per_peer_sat lim))
         else if ri_total_in_flight s \<ge> rl_max_concurrent_swaps lim
         then Inl (AtCapacity (ri_total_in_flight s) (rl_max_concurrent_swaps lim))
         else if total_would > rl_max_total_exposure_sat lim
         then Inl (ExposureExceeded total_would (rl_max_total_exposure_sat lim))
         else Inr ())"

text \<open>The entry the peer's scope creates, with its history trimmed; the checks of that scope; the
  totals' checks; and the commit.\<close>

definition trimmed :: "nat \<Rightarrow> string \<Rightarrow> risk_inner \<Rightarrow> risk_inner" where
  "trimmed at peer s =
     (let p = peer_of s peer
      in s\<lparr>ri_peers := AList.update peer (p\<lparr>pe_recent_starts := recent at (pe_recent_starts p)\<rparr>) (ri_peers s)\<rparr>)"

definition peer_refusal ::
  "risk_limits \<Rightarrow> reservation_mode \<Rightarrow> u64 \<Rightarrow> peer_state \<Rightarrow> reject_reason option" where
  "peer_refusal lim mode amount_sat p =
     (let started = (word_of_nat (length (pe_recent_starts p)) :: u32);
          would = saturating_add (pe_committed_sat p) amount_sat
      in if mode = FundedSwap then None
         else if mode = NewSwap \<and> started \<ge> rl_max_new_swaps_per_peer_per_hour lim
         then Some (RateLimitedBy started (rl_max_new_swaps_per_peer_per_hour lim))
         else if pe_in_flight p \<ge> rl_max_concurrent_per_peer lim
         then Some (PeerAtCapacity (pe_in_flight p) (rl_max_concurrent_per_peer lim))
         else if would > rl_max_exposure_per_peer_sat lim
         then Some (PeerExposureExceeded would (rl_max_exposure_per_peer_sat lim))
         else None)"

definition total_refusal :: "risk_limits \<Rightarrow> reservation_mode \<Rightarrow> u64 \<Rightarrow> risk_inner \<Rightarrow> reject_reason option" where
  "total_refusal lim mode amount_sat s =
     (let would = saturating_add (ri_total_committed_sat s) amount_sat
      in if mode = FundedSwap then None
         else if ri_total_in_flight s \<ge> rl_max_concurrent_swaps lim
         then Some (AtCapacity (ri_total_in_flight s) (rl_max_concurrent_swaps lim))
         else if would > rl_max_total_exposure_sat lim
         then Some (ExposureExceeded would (rl_max_total_exposure_sat lim))
         else None)"

definition commit_reservation ::
  "nat \<Rightarrow> string \<Rightarrow> uuid \<Rightarrow> u64 \<Rightarrow> reservation_mode \<Rightarrow> risk_inner \<Rightarrow> risk_inner" where
  "commit_reservation at peer swap_id amount_sat mode s =
     (let p = peer_of s peer;
          p = p\<lparr>pe_committed_sat := saturating_add (pe_committed_sat p) amount_sat,
                pe_in_flight := pe_in_flight p + 1,
                pe_recent_starts := pe_recent_starts p @ (if mode = NewSwap then [at] else [])\<rparr>
      in s\<lparr>ri_total_committed_sat := saturating_add (ri_total_committed_sat s) amount_sat,
           ri_total_in_flight := ri_total_in_flight s + 1,
           ri_reservations := AList.update swap_id (peer, amount_sat) (ri_reservations s),
           ri_peers := AList.update peer p (ri_peers s)\<rparr>)"

definition reserve_inner ::
  "risk_limits \<Rightarrow> nat \<Rightarrow> string \<Rightarrow> uuid \<Rightarrow> u64 \<Rightarrow> reservation_mode \<Rightarrow> risk_inner
   \<Rightarrow> (reject_reason + unit) \<times> risk_inner" where
  "reserve_inner lim at peer swap_id amount_sat mode s =
     (if map_of (ri_reservations s) swap_id \<noteq> None then (Inl AlreadyReserved, s)
      else let s = trimmed at peer s
      in case peer_refusal lim mode amount_sat (peer_of s peer) of
           Some r \<Rightarrow> (Inl r, s)
         | None \<Rightarrow> (case total_refusal lim mode amount_sat s of
             Some r \<Rightarrow> (Inl r, s)
           | None \<Rightarrow> (Inr (), commit_reservation at peer swap_id amount_sat mode s)))"

definition risk_reserve ::
  "risk_limits \<Rightarrow> nat \<Rightarrow> string \<Rightarrow> uuid \<Rightarrow> u64 \<Rightarrow> risk_inner \<Rightarrow> (reject_reason + unit) \<times> risk_inner" where
  "risk_reserve lim at peer swap_id amount_sat s = reserve_inner lim at peer swap_id amount_sat NewSwap s"

definition risk_reserve_pending ::
  "risk_limits \<Rightarrow> nat \<Rightarrow> string \<Rightarrow> uuid \<Rightarrow> u64 \<Rightarrow> risk_inner \<Rightarrow> (reject_reason + unit) \<times> risk_inner" where
  "risk_reserve_pending lim at peer swap_id amount_sat s = reserve_inner lim at peer swap_id amount_sat PendingSwap s"

definition risk_release :: "uuid \<Rightarrow> risk_inner \<Rightarrow> risk_inner" where
  "risk_release swap_id s =
     (let s = s\<lparr>ri_funding_claims := AList.delete swap_id (ri_funding_claims s)\<rparr>
      in case map_of (ri_reservations s) swap_id of
           None \<Rightarrow> s
         | Some (peer, amount) \<Rightarrow>
             let s = s\<lparr>ri_reservations := AList.delete swap_id (ri_reservations s),
                       ri_total_committed_sat := saturating_sub (ri_total_committed_sat s) amount,
                       ri_total_in_flight := ri_total_in_flight s - 1\<rparr>
             in case map_of (ri_peers s) peer of
                  None \<Rightarrow> s
                | Some p \<Rightarrow>
                    let p = p\<lparr>pe_committed_sat := saturating_sub (pe_committed_sat p) amount,
                              pe_in_flight := pe_in_flight p - 1\<rparr>
                    in s\<lparr>ri_peers := (if pe_committed_sat p = 0 \<and> pe_in_flight p = 0 \<and> pe_recent_starts p = []
                                     then AList.delete peer (ri_peers s) else AList.update peer p (ri_peers s))\<rparr>)"

text \<open>Restoring at startup: the swaps that were given a guard, in order.\<close>

fun risk_restore :: "risk_limits \<Rightarrow> nat \<Rightarrow> 'c swap_record list \<Rightarrow> risk_inner \<Rightarrow> uuid list \<times> risk_inner" where
  "risk_restore lim at [] s = ([], s)"
| "risk_restore lim at (r # active) s =
     (case reserve_inner lim at (unwrap_or (r_peer_account r) (r_peer r)) (r_swap_id r)
             (r_onchain_amount_sat r) FundedSwap s of
        (Inr _, s') \<Rightarrow> (let (guards, s'') = risk_restore lim at active s' in (r_swap_id r # guards, s''))
      | (Inl _, s') \<Rightarrow> risk_restore lim at active s')"

subsection \<open>Wallet funds promised to swaps that have not funded yet\<close>

definition saturating_sum :: "u64 list \<Rightarrow> u64" where
  "saturating_sum xs = foldl saturating_add 0 xs"

text \<open>Only a reserved swap holds a claim: its release is what clears it.\<close>

definition with_claim :: "uuid \<Rightarrow> u64 \<Rightarrow> risk_inner \<Rightarrow> risk_inner" where
  "with_claim i claim s =
     s\<lparr>ri_funding_claims :=
        (if map_of (ri_reservations s) i \<noteq> None then AList.update i claim (ri_funding_claims s)
         else ri_funding_claims s)\<rparr>"

definition claim_funding ::
  "uuid \<Rightarrow> u64 \<Rightarrow> u64 option \<Rightarrow> u64 \<Rightarrow> risk_inner \<Rightarrow> (funding_shortfall + unit) \<times> risk_inner" where
  "claim_funding swap_id claim_sat available reserve_sat s =
     (case available of
        None \<Rightarrow> (Inr (), with_claim swap_id claim_sat s)
      | Some available_sat \<Rightarrow>
          let claimed_sat = saturating_sum (map snd (filter (\<lambda>(i, _). i \<noteq> swap_id) (ri_funding_claims s)));
              needed_sat = saturating_add claim_sat reserve_sat
          in if saturating_sub available_sat claimed_sat < needed_sat
             then (Inl \<lparr>sh_available_sat = available_sat, sh_claimed_sat = claimed_sat, sh_needed_sat = needed_sat\<rparr>, s)
             else (Inr (), with_claim swap_id claim_sat s))"

definition restore_funding_claim :: "uuid \<Rightarrow> u64 \<Rightarrow> risk_inner \<Rightarrow> risk_inner" where
  "restore_funding_claim swap_id claim_sat s = with_claim swap_id claim_sat s"

definition funding_settled :: "uuid \<Rightarrow> risk_inner \<Rightarrow> risk_inner" where
  "funding_settled swap_id s = s\<lparr>ri_funding_claims := AList.delete swap_id (ri_funding_claims s)\<rparr>"

definition claimed_funding_sat :: "risk_inner \<Rightarrow> u64" where
  "claimed_funding_sat s = saturating_sum (map snd (ri_funding_claims s))"

record peer_exposure =
  px_peer :: string
  px_committed_sat :: u64
  px_in_flight :: nat
  px_starts_this_hour :: nat

text \<open>Most committed first, then by name in byte order: the comparison's second key, then, stably, its
  first.\<close>

definition per_peer :: "risk_inner \<Rightarrow> peer_exposure list" where
  "per_peer s =
     sort_key (\<lambda>e. - int (unat (px_committed_sat e))) (sort_key (\<lambda>e. map (of_char :: char \<Rightarrow> nat) (px_peer e))
       (map (\<lambda>(peer, p). \<lparr>px_peer = peer, px_committed_sat = pe_committed_sat p, px_in_flight = pe_in_flight p,
                          px_starts_this_hour = length (pe_recent_starts p)\<rparr>)
          (filter (\<lambda>(_, p). pe_in_flight p > 0 \<or> pe_committed_sat p > 0) (ri_peers s))))"

subsection \<open>What the counters count\<close>

definition committed_to :: "(string \<Rightarrow> bool) \<Rightarrow> (uuid \<times> string \<times> u64) list \<Rightarrow> nat" where
  "committed_to Q rs = (\<Sum>(_, peer, amount)\<leftarrow>rs. if Q peer then unat amount else 0)"

definition number_of :: "(string \<Rightarrow> bool) \<Rightarrow> (uuid \<times> string \<times> u64) list \<Rightarrow> nat" where
  "number_of Q rs = (\<Sum>(_, peer, _)\<leftarrow>rs. if Q peer then 1 else 0)"

definition accounted :: "risk_inner \<Rightarrow> bool" where
  "accounted s \<longleftrightarrow>
     distinct (map fst (ri_reservations s)) \<and> distinct (map fst (ri_peers s)) \<and>
     distinct (map fst (ri_funding_claims s)) \<and>
     fst ` set (ri_funding_claims s) \<subseteq> fst ` set (ri_reservations s) \<and>
     ri_total_in_flight s = length (ri_reservations s) \<and>
     unat (ri_total_committed_sat s) = committed_to (\<lambda>_. True) (ri_reservations s) \<and>
     (\<forall>peer. unat (pe_committed_sat (peer_of s peer)) = committed_to ((=) peer) (ri_reservations s) \<and>
        pe_in_flight (peer_of s peer) = number_of ((=) peer) (ri_reservations s))"

named_theorems risk "the operations of the risk manager, unfolded"

lemma update_fresh: "map_of xs k = None \<Longrightarrow> AList.update k v xs = xs @ [(k, v)]"
  by (induction xs) (auto split: if_splits)

lemma sum_delete:
  fixes f :: "'k \<times> 'v \<Rightarrow> nat"
  assumes "distinct (map fst xs)" "map_of xs k = Some v"
  shows "sum_list (map f (AList.delete k xs)) + f (k, v) = sum_list (map f xs)"
  using assms
proof (induction xs)
  case Nil then show ?case by simp
next
  case (Cons a xs)
  obtain l w where a: "a = (l, w)" by (cases a)
  show ?case
  proof (cases "l = k")
    case True
    with Cons.prems have "AList.delete k xs = xs" "w = v"
      by (auto simp: a delete_idem dest: map_of_SomeD)
    then show ?thesis by (simp add: a True)
  qed (use Cons in \<open>simp add: a\<close>)
qed

lemma length_delete:
  assumes "distinct (map fst xs)" "map_of xs k = Some v"
  shows "length (AList.delete k xs) + 1 = length xs"
  using sum_delete [OF assms, of "\<lambda>_. 1"] by (simp add: sum_list_triv)

lemma committed_append [simp]:
  "committed_to Q (rs @ [(i, peer, amount)]) = committed_to Q rs + (if Q peer then unat amount else 0)"
  by (simp add: committed_to_def)

lemma number_append [simp]:
  "number_of Q (rs @ [(i, peer, amount)]) = number_of Q rs + (if Q peer then 1 else 0)"
  by (simp add: number_of_def)

lemma committed_delete:
  assumes "distinct (map fst rs)" "map_of rs i = Some (peer, amount)"
  shows "committed_to Q (AList.delete i rs) = committed_to Q rs - (if Q peer then unat amount else 0)"
  using sum_delete [OF assms, of "\<lambda>(_, p, a). if Q p then unat a else 0"] by (simp add: committed_to_def)

lemma number_delete:
  assumes "distinct (map fst rs)" "map_of rs i = Some (peer, amount)"
  shows "number_of Q (AList.delete i rs) = number_of Q rs - (if Q peer then 1 else 0)"
  using sum_delete [OF assms, of "\<lambda>(_, p, a). if Q p then 1 else 0"] by (simp add: number_of_def)

lemma committed_mono: "committed_to Q rs \<le> committed_to (\<lambda>_. True) rs"
  unfolding committed_to_def by (induction rs) auto

definition fits :: "u64 \<Rightarrow> risk_inner \<Rightarrow> bool" where
  "fits amount s \<longleftrightarrow> committed_to (\<lambda>_. True) (ri_reservations s) + unat amount < 2 ^ 64"

lemma accounted_new: "accounted risk_new"
  by (simp add: accounted_def risk_new_def committed_to_def number_of_def peer_of_def default_peer_def)

lemma peer_of_trimmed:
  "peer_of (trimmed at peer s) q =
     (if q = peer then (peer_of s peer)\<lparr>pe_recent_starts := recent at (pe_recent_starts (peer_of s peer))\<rparr>
      else peer_of s q)"
  by (auto simp: trimmed_def Let_def peer_of_def update_conv')

lemma trimmed_same [simp]:
  "ri_reservations (trimmed at peer s) = ri_reservations s"
  "ri_total_committed_sat (trimmed at peer s) = ri_total_committed_sat s"
  "ri_total_in_flight (trimmed at peer s) = ri_total_in_flight s"
  "ri_funding_claims (trimmed at peer s) = ri_funding_claims s"
  by (simp_all add: trimmed_def Let_def)

lemma accounted_trimmed:
  assumes "accounted s"
  shows "accounted (trimmed at peer s)"
proof -
  have "distinct (map fst (ri_peers (trimmed at peer s)))"
    using assms by (simp add: accounted_def trimmed_def Let_def distinct_update)
  with assms show ?thesis by (simp add: accounted_def peer_of_trimmed)
qed

lemma peer_of_commit:
  "peer_of (commit_reservation at peer i amount mode s) q =
     (if q = peer
      then (peer_of s peer)\<lparr>pe_committed_sat := saturating_add (pe_committed_sat (peer_of s peer)) amount,
             pe_in_flight := pe_in_flight (peer_of s peer) + 1,
             pe_recent_starts := pe_recent_starts (peer_of s peer) @ (if mode = NewSwap then [at] else [])\<rparr>
      else peer_of s q)"
  by (auto simp: commit_reservation_def Let_def peer_of_def update_conv')

lemma accounted_commit:
  assumes "accounted s" "map_of (ri_reservations s) i = None" "fits amount s"
  shows "accounted (commit_reservation at peer i amount mode s)"
proof -
  let ?s = "commit_reservation at peer i amount mode s"
  have rs: "ri_reservations ?s = ri_reservations s @ [(i, peer, amount)]"
    using assms(2) by (simp add: commit_reservation_def Let_def update_fresh)
  have fresh: "i \<notin> fst ` set (ri_reservations s)" using assms(2) by (simp add: map_of_eq_None_iff)
  have room: "unat (pe_committed_sat (peer_of s q)) + unat amount < 2 ^ 64" for q
    using committed_mono [of "(=) q" "ri_reservations s"] assms(1,3) by (simp add: accounted_def fits_def)
  have "unat (ri_total_committed_sat ?s) = committed_to (\<lambda>_. True) (ri_reservations ?s)"
    using assms(1,3) by (simp add: rs) (simp add: commit_reservation_def Let_def unat_saturating_add accounted_def fits_def)
  moreover have "unat (pe_committed_sat (peer_of ?s q)) = committed_to ((=) q) (ri_reservations ?s) \<and>
      pe_in_flight (peer_of ?s q) = number_of ((=) q) (ri_reservations ?s)" for q
    using assms(1) room [of q] by (auto simp: rs peer_of_commit accounted_def unat_saturating_add)
  ultimately show ?thesis
    using assms(1) fresh unfolding accounted_def rs
    by (auto simp: commit_reservation_def Let_def distinct_update)
qed

lemma reserve_inner_cases:
  obtains (refused) r s' where "reserve_inner lim at peer i amount mode s = (Inl r, s')"
      "ri_reservations s' = ri_reservations s" "s' = s \<or> s' = trimmed at peer s"
  | (admitted) "reserve_inner lim at peer i amount mode s =
        (Inr (), commit_reservation at peer i amount mode (trimmed at peer s))"
      "map_of (ri_reservations s) i = None"
      "peer_refusal lim mode amount (peer_of (trimmed at peer s) peer) = None"
      "total_refusal lim mode amount (trimmed at peer s) = None"
  by (cases "map_of (ri_reservations s) i";
      cases "peer_refusal lim mode amount (peer_of (trimmed at peer s) peer)";
      cases "total_refusal lim mode amount (trimmed at peer s)")
    (simp_all add: reserve_inner_def Let_def)

lemma accounted_reserve:
  assumes "accounted s" "fits amount s"
  shows "accounted (snd (reserve_inner lim at peer i amount mode s))"
proof (cases rule: reserve_inner_cases [of lim at peer i amount mode s])
  case refused with assms show ?thesis by (auto simp: accounted_trimmed)
next
  case admitted with assms show ?thesis
    by (simp add: accounted_commit accounted_trimmed fits_def)
qed

lemma reserve_committed:
  "committed_to (\<lambda>_. True) (ri_reservations (snd (reserve_inner lim at peer i amount mode s)))
     \<le> committed_to (\<lambda>_. True) (ri_reservations s) + unat amount"
proof (cases rule: reserve_inner_cases [of lim at peer i amount mode s])
  case admitted then show ?thesis
    by (simp add: commit_reservation_def Let_def update_fresh)
qed simp

lemma delete_keys: "fst ` set (AList.delete k xs) = fst ` set xs - {k}"
  by (induction xs) auto

lemma committed_at_least:
  assumes "distinct (map fst rs)" "map_of rs i = Some (peer, amount)" "Q peer"
  shows "unat amount \<le> committed_to Q rs"
  using sum_delete [OF assms(1,2), of "\<lambda>(_, p, a). if Q p then unat a else 0"] assms(3)
  by (simp add: committed_to_def)

lemma number_at_least:
  assumes "distinct (map fst rs)" "map_of rs i = Some (peer, amount)" "Q peer"
  shows "1 \<le> number_of Q rs"
  using sum_delete [OF assms(1,2), of "\<lambda>(_, p, a). if Q p then 1 else 0"] assms(3)
  by (simp add: number_of_def)

text \<open>What a release leaves each counterparty with, whether or not its entry is dropped.\<close>

lemma peer_of_release:
  assumes "accounted s" "map_of (ri_reservations s) i = Some (peer, amount)"
  shows "pe_committed_sat (peer_of (risk_release i s) q)
           = (if q = peer then saturating_sub (pe_committed_sat (peer_of s q)) amount
              else pe_committed_sat (peer_of s q)) \<and>
         pe_in_flight (peer_of (risk_release i s) q)
           = (if q = peer then pe_in_flight (peer_of s q) - 1 else pe_in_flight (peer_of s q))"
proof -
  have "1 \<le> number_of ((=) peer) (ri_reservations s)"
    using assms(1) by (intro number_at_least [OF _ assms(2)]) (simp_all add: accounted_def)
  then have "pe_in_flight (peer_of s peer) \<noteq> 0" using assms(1) by (auto simp: accounted_def)
  then obtain p where "map_of (ri_peers s) peer = Some p"
    by (cases "map_of (ri_peers s) peer") (auto simp: peer_of_def default_peer_def)
  with assms(2) show ?thesis
    by (auto simp: risk_release_def Let_def peer_of_def default_peer_def update_conv' delete_conv')
qed

lemma release_fields:
  "ri_funding_claims (risk_release i s) = AList.delete i (ri_funding_claims s)"
  "ri_reservations (risk_release i s) = AList.delete i (ri_reservations s)"
  by (auto simp: risk_release_def Let_def map_of_eq_None_iff delete_idem split: option.splits)

lemma distinct_delete_keys: "distinct (map fst xs) \<Longrightarrow> distinct (map fst (AList.delete k xs))"
  by (induction xs) (auto simp: delete_keys)

lemma accounted_release:
  assumes "accounted s"
  shows "accounted (risk_release i s)"
proof (cases "map_of (ri_reservations s) i")
  case None
  then have "risk_release i s = s\<lparr>ri_funding_claims := AList.delete i (ri_funding_claims s)\<rparr>"
    by (simp add: risk_release_def)
  with assms show ?thesis
    by (auto simp: accounted_def peer_of_def delete_keys distinct_delete_keys)
next
  case (Some pa)
  obtain peer amount where r: "map_of (ri_reservations s) i = Some (peer, amount)" using Some by (cases pa) auto
  have d: "distinct (map fst (ri_reservations s))" using assms by (simp add: accounted_def)
  have "distinct (map fst (ri_peers (risk_release i s)))"
    using assms r by (auto simp: risk_release_def Let_def accounted_def distinct_update distinct_delete_keys split: option.splits)
  moreover have "ri_total_in_flight (risk_release i s) = length (ri_reservations s) - 1"
    "ri_total_committed_sat (risk_release i s) = saturating_sub (ri_total_committed_sat s) amount"
    using assms r by (auto simp: risk_release_def Let_def accounted_def split: option.splits)
  ultimately show ?thesis
    using assms length_delete [OF d r]
    by (auto simp: accounted_def release_fields peer_of_release [OF assms r] committed_delete [OF d r]
        number_delete [OF d r] unat_saturating_sub distinct_delete_keys delete_keys)
qed

lemma accounted_claims:
  assumes "accounted s" "distinct (map fst cs)" "fst ` set cs \<subseteq> fst ` set (ri_reservations s)"
  shows "accounted (s\<lparr>ri_funding_claims := cs\<rparr>)"
  using assms by (simp add: accounted_def peer_of_def)

lemma accounted_with_claim: "accounted s \<Longrightarrow> accounted (with_claim i claim s)"
  unfolding with_claim_def
  by (rule accounted_claims)
    (auto simp: accounted_def distinct_update dom_update map_of_eq_None_iff)

lemma claim_funding_outcome:
  "claim_funding i claim available reserve s = (Inr (), with_claim i claim s) \<or>
   (\<exists>e. claim_funding i claim available reserve s = (Inl e, s))"
  by (cases available) (simp_all add: claim_funding_def Let_def)

lemma accounted_claim_funding: "accounted s \<Longrightarrow> accounted (snd (claim_funding i claim available reserve s))"
  using claim_funding_outcome [of i claim available reserve s] by (auto simp: accounted_with_claim)

lemma accounted_settled: "accounted s \<Longrightarrow> accounted (funding_settled i s)"
  unfolding funding_settled_def
  by (rule accounted_claims) (auto simp: accounted_def distinct_delete_keys delete_keys)

subsection \<open>Sequences of calls\<close>

datatype 'c risk_op =
    OpReserve nat string uuid u64
  | OpReservePending nat string uuid u64
  | OpRestore nat "'c swap_record list"
  | OpRelease uuid
  | OpClaim uuid u64 "u64 option" u64
  | OpRestoreClaim uuid u64
  | OpSettled uuid

fun risk_step :: "risk_limits \<Rightarrow> 'c risk_op \<Rightarrow> risk_inner \<Rightarrow> risk_inner" where
  "risk_step lim (OpReserve at peer i amount) s = snd (risk_reserve lim at peer i amount s)"
| "risk_step lim (OpReservePending at peer i amount) s = snd (risk_reserve_pending lim at peer i amount s)"
| "risk_step lim (OpRestore at active) s = snd (risk_restore lim at active s)"
| "risk_step lim (OpRelease i) s = risk_release i s"
| "risk_step lim (OpClaim i claim available reserve) s = snd (claim_funding i claim available reserve s)"
| "risk_step lim (OpRestoreClaim i claim) s = restore_funding_claim i claim s"
| "risk_step lim (OpSettled i) s = funding_settled i s"

definition risk_run :: "risk_limits \<Rightarrow> 'c risk_op list \<Rightarrow> risk_inner" where
  "risk_run lim ops = fold (risk_step lim) ops risk_new"

text \<open>What a call asks to reserve, and what a sequence of calls asks in all.\<close>

fun asked :: "'c risk_op \<Rightarrow> nat" where
  "asked (OpReserve _ _ _ amount) = unat amount"
| "asked (OpReservePending _ _ _ amount) = unat amount"
| "asked (OpRestore _ active) = (\<Sum>r\<leftarrow>active. unat (r_onchain_amount_sat r))"
| "asked _ = 0"

definition asked_in_all :: "'c risk_op list \<Rightarrow> nat" where
  "asked_in_all ops = (\<Sum>op\<leftarrow>ops. asked op)"

abbreviation held_in_all :: "risk_inner \<Rightarrow> nat" where
  "held_in_all s \<equiv> committed_to (\<lambda>_. True) (ri_reservations s)"

lemma held_delete: "committed_to Q (AList.delete i rs) \<le> committed_to Q rs"
  unfolding committed_to_def by (induction rs) auto

lemma with_claim_same [simp]: "ri_reservations (with_claim i claim s) = ri_reservations s"
  by (simp add: with_claim_def)

lemma claim_funding_same [simp]:
  "ri_reservations (snd (claim_funding i claim available reserve s)) = ri_reservations s"
  using claim_funding_outcome [of i claim available reserve s] by auto

lemma settled_same: "ri_reservations (funding_settled i s) = ri_reservations s"
  by (simp add: funding_settled_def)

lemma restore_step:
  assumes "accounted s" "held_in_all s + (\<Sum>r\<leftarrow>active. unat (r_onchain_amount_sat r)) < 2 ^ 64"
  shows "accounted (snd (risk_restore lim at active s)) \<and>
         held_in_all (snd (risk_restore lim at active s))
           \<le> held_in_all s + (\<Sum>r\<leftarrow>active. unat (r_onchain_amount_sat r))"
  using assms
proof (induction active arbitrary: s)
  case Nil then show ?case by simp
next
  case (Cons r active)
  let ?r = "reserve_inner lim at (unwrap_or (r_peer_account r) (r_peer r)) (r_swap_id r)
             (r_onchain_amount_sat r) FundedSwap s"
  have h: "held_in_all (snd ?r) \<le> held_in_all s + unat (r_onchain_amount_sat r)"
    by (rule reserve_committed)
  have "accounted (snd ?r)"
    by (rule accounted_reserve) (use Cons.prems in \<open>simp_all add: fits_def\<close>)
  from Cons.IH [OF this] h Cons.prems(2) show ?case
    by (cases ?r) (auto split: sum.splits prod.splits)
qed

lemma risk_step_accounted:
  assumes "accounted s" "held_in_all s + asked op < 2 ^ 64"
  shows "accounted (risk_step lim op s) \<and> held_in_all (risk_step lim op s) \<le> held_in_all s + asked op"
proof (cases op)
  case (OpRelease i) then show ?thesis
    using assms by (simp add: accounted_release release_fields held_delete)
qed (use assms in \<open>simp_all add: risk_reserve_def risk_reserve_pending_def accounted_reserve fits_def
       reserve_committed restore_step accounted_claim_funding restore_funding_claim_def
       accounted_with_claim accounted_settled settled_same\<close>)

lemma risk_run_accounted:
  assumes "asked_in_all ops < 2 ^ 64"
  shows "accounted (risk_run lim ops) \<and> held_in_all (risk_run lim ops) \<le> asked_in_all ops"
  using assms
proof (induction ops rule: rev_induct)
  case Nil then show ?case
    by (simp add: risk_run_def accounted_new) (simp add: risk_new_def committed_to_def)
next
  case (snoc op ops)
  then have "accounted (risk_run lim ops)" "held_in_all (risk_run lim ops) + asked op < 2 ^ 64"
    "held_in_all (risk_run lim ops) \<le> asked_in_all ops"
    by (auto simp: asked_in_all_def)
  with risk_step_accounted [of "risk_run lim ops" op lim] show ?case
    by (simp add: risk_run_def asked_in_all_def)
qed

subsection \<open>An admission keeps every ceiling\<close>

lemma peer_refusal_NoneD:
  assumes "peer_refusal lim mode amount p = None" "mode \<noteq> FundedSwap"
    "unat (pe_committed_sat p) + unat amount < 2 ^ 64"
  shows "pe_in_flight p + 1 \<le> rl_max_concurrent_per_peer lim \<and>
         unat (pe_committed_sat p) + unat amount \<le> unat (rl_max_exposure_per_peer_sat lim)"
  using assms by (auto simp: peer_refusal_def Let_def word_nat unat_saturating_add split: if_splits)

lemma total_refusal_NoneD:
  assumes "total_refusal lim mode amount s = None" "mode \<noteq> FundedSwap"
    "unat (ri_total_committed_sat s) + unat amount < 2 ^ 64"
  shows "ri_total_in_flight s + 1 \<le> rl_max_concurrent_swaps lim \<and>
         unat (ri_total_committed_sat s) + unat amount \<le> unat (rl_max_total_exposure_sat lim)"
  using assms by (auto simp: total_refusal_def Let_def word_nat unat_saturating_add split: if_splits)

lemma reserve_fits_limits:
  assumes "accounted s" "fits amount s" "mode \<noteq> FundedSwap"
    "reserve_inner lim at peer i amount mode s = (Inr (), s')"
  shows "length (ri_reservations s') \<le> rl_max_concurrent_swaps lim \<and>
         number_of ((=) peer) (ri_reservations s') \<le> rl_max_concurrent_per_peer lim \<and>
         held_in_all s' \<le> unat (rl_max_total_exposure_sat lim) \<and>
         committed_to ((=) peer) (ri_reservations s') \<le> unat (rl_max_exposure_per_peer_sat lim)"
proof (cases rule: reserve_inner_cases [of lim at peer i amount mode s])
  case refused with assms(4) show ?thesis by simp
next
  case admitted
  let ?t = "trimmed at peer s"
  have s': "ri_reservations s' = ri_reservations s @ [(i, peer, amount)]"
    using assms(4) admitted by (auto simp: commit_reservation_def Let_def update_fresh)
  have t: "accounted ?t" using assms(1) by (rule accounted_trimmed)
  have "committed_to ((=) peer) (ri_reservations s) + unat amount < 2 ^ 64"
    using committed_mono [of "(=) peer" "ri_reservations s"] assms(2) by (simp add: fits_def)
  with peer_refusal_NoneD [OF admitted(3) assms(3)] total_refusal_NoneD [OF admitted(4) assms(3)]
  show ?thesis using t assms(2) by (simp add: accounted_def fits_def s')
qed

subsection \<open>The hourly limit is a sliding window\<close>

fun op_time :: "'c risk_op \<Rightarrow> nat option" where
  "op_time (OpReserve at _ _ _) = Some at"
| "op_time (OpReservePending at _ _ _) = Some at"
| "op_time (OpRestore at _) = Some at"
| "op_time _ = None"

text \<open>The clock readings of a sequence of calls, and the moments at which a peer started a new swap
  in it.\<close>

definition op_times :: "'c risk_op list \<Rightarrow> nat list" where
  "op_times ops = List.map_filter op_time ops"

fun started_by :: "risk_limits \<Rightarrow> string \<Rightarrow> 'c risk_op \<Rightarrow> risk_inner \<Rightarrow> nat list" where
  "started_by lim peer (OpReserve at q i amount) s =
     (if q = peer \<and> is_ok (fst (risk_reserve lim at q i amount s)) then [at] else [])"
| "started_by lim peer _ s = []"

fun starts_of :: "risk_limits \<Rightarrow> string \<Rightarrow> 'c risk_op list \<Rightarrow> risk_inner \<Rightarrow> nat list" where
  "starts_of lim peer [] s = []"
| "starts_of lim peer (op # ops) s = started_by lim peer op s @ starts_of lim peer ops (risk_step lim op s)"

lemma starts_of_snoc:
  "starts_of lim peer (ops @ [op]) s
     = starts_of lim peer ops s @ started_by lim peer op (fold (risk_step lim) ops s)"
  by (induction ops arbitrary: s) auto

lemma recent_append [simp]: "recent at (xs @ ys) = recent at xs @ recent at ys"
  by (simp add: recent_def)

lemma recent_Nil [simp]: "recent at [] = []"
  by (simp add: recent_def)

lemma recent_recent: "at \<le> later \<Longrightarrow> recent later (recent at xs) = recent later xs"
  by (auto simp: recent_def intro!: filter_cong)

lemma trimmed_recent:
  assumes "at \<le> later"
  shows "recent later (pe_recent_starts (peer_of (trimmed at q s) peer)) = recent later (pe_recent_starts (peer_of s peer))"
  using assms by (simp add: peer_of_trimmed recent_recent)

lemma reserve_inner_recent:
  assumes "at \<le> later"
  shows "recent later (pe_recent_starts (peer_of (snd (reserve_inner lim at q i amount mode s)) peer))
           = recent later (pe_recent_starts (peer_of s peer)) @
             (if q = peer \<and> mode = NewSwap \<and> is_ok (fst (reserve_inner lim at q i amount mode s))
              then recent later [at] else [])"
proof (cases rule: reserve_inner_cases [of lim at q i amount mode s])
  case refused then show ?thesis using trimmed_recent [OF assms, of q s peer] by auto
next
  case admitted then show ?thesis
    using trimmed_recent [OF assms, of q s peer] by (auto simp: peer_of_commit)
qed

lemma restore_recent:
  assumes "at \<le> later"
  shows "recent later (pe_recent_starts (peer_of (snd (risk_restore lim at active s)) peer))
           = recent later (pe_recent_starts (peer_of s peer))"
proof (induction active arbitrary: s)
  case (Cons r active)
  let ?r = "reserve_inner lim at (unwrap_or (r_peer_account r) (r_peer r)) (r_swap_id r)
             (r_onchain_amount_sat r) FundedSwap s"
  have "recent later (pe_recent_starts (peer_of (snd ?r) peer)) = recent later (pe_recent_starts (peer_of s peer))"
    using reserve_inner_recent [OF assms] by simp
  with Cons.IH [of "snd ?r"] show ?case by (cases ?r) (auto split: sum.splits prod.splits)
qed simp

lemma release_recent_starts: "pe_recent_starts (peer_of (risk_release i s) peer) = pe_recent_starts (peer_of s peer)"
  by (auto simp: risk_release_def Let_def peer_of_def default_peer_def update_conv' delete_conv' split: option.splits)

lemma claims_recent_starts:
  "peer_of (with_claim i claim s) peer = peer_of s peer"
  "peer_of (funding_settled i s) peer = peer_of s peer"
  "peer_of (snd (claim_funding i claim available reserve s)) peer = peer_of s peer"
  using claim_funding_outcome [of i claim available reserve s]
  by (auto simp: with_claim_def funding_settled_def peer_of_def)

lemma risk_step_recent:
  assumes "\<And>at. op_time op = Some at \<Longrightarrow> at \<le> later"
  shows "recent later (pe_recent_starts (peer_of (risk_step lim op s) peer))
           = recent later (pe_recent_starts (peer_of s peer) @ started_by lim peer op s)"
  using assms
  by (cases op) (auto simp: risk_reserve_def risk_reserve_pending_def reserve_inner_recent restore_recent
      release_recent_starts claims_recent_starts restore_funding_claim_def)

lemma risk_run_recent:
  assumes "\<And>at. at \<in> set (op_times ops) \<Longrightarrow> at \<le> later"
  shows "recent later (pe_recent_starts (peer_of (risk_run lim ops) peer))
           = recent later (starts_of lim peer ops risk_new)"
  using assms
proof (induction ops rule: rev_induct)
  case Nil then show ?case by (simp add: risk_run_def risk_new_def peer_of_def default_peer_def)
next
  case (snoc op ops)
  have "at \<le> later" if "op_time op = Some at" for at
    using snoc.prems [of at] that by (simp add: op_times_def map_filter_simps List.map_filter_def)
  moreover have "recent later (pe_recent_starts (peer_of (risk_run lim ops) peer))
      = recent later (starts_of lim peer ops risk_new)"
    by (rule snoc.IH) (use snoc.prems in \<open>auto simp: op_times_def List.map_filter_def\<close>)
  ultimately show ?case
    by (simp add: starts_of_snoc risk_run_def risk_step_recent)
qed

lemma recent_length: "length (recent at xs) \<le> length xs"
  by (simp add: recent_def)

lemma rate_kept_by_reserve:
  assumes "length (pe_recent_starts (peer_of s peer)) \<le> unat (rl_max_new_swaps_per_peer_per_hour lim)"
  shows "length (pe_recent_starts (peer_of (snd (reserve_inner lim at q i amount mode s)) peer))
           \<le> unat (rl_max_new_swaps_per_peer_per_hour lim)"
proof (cases rule: reserve_inner_cases [of lim at q i amount mode s])
  case refused then show ?thesis
    using assms recent_length [of at "pe_recent_starts (peer_of s q)"] by (auto simp: peer_of_trimmed)
next
  case admitted
  let ?n = "length (recent at (pe_recent_starts (peer_of s peer)))"
  have n: "?n \<le> unat (rl_max_new_swaps_per_peer_per_hour lim)"
    using assms recent_length [of at "pe_recent_starts (peer_of s peer)"] by simp
  have "?n + 1 \<le> unat (rl_max_new_swaps_per_peer_per_hour lim)" if "mode = NewSwap" "q = peer"
  proof -
    have "\<not> rl_max_new_swaps_per_peer_per_hour lim \<le> word_of_nat ?n"
      using admitted(3) that by (auto simp: peer_refusal_def Let_def peer_of_trimmed split: if_splits)
    moreover have "unat (word_of_nat ?n :: u32) = ?n"
      using n unat_u32_bound [of "rl_max_new_swaps_per_peer_per_hour lim"]
      by (simp add: unsigned_of_nat take_bit_nat_eq_self)
    ultimately show ?thesis by (simp add: word_nat)
  qed
  with n assms admitted(1) show ?thesis by (auto simp: peer_of_commit peer_of_trimmed)
qed

lemma rate_kept_by_restore:
  assumes "length (pe_recent_starts (peer_of s peer)) \<le> unat (rl_max_new_swaps_per_peer_per_hour lim)"
  shows "length (pe_recent_starts (peer_of (snd (risk_restore lim at active s)) peer))
           \<le> unat (rl_max_new_swaps_per_peer_per_hour lim)"
  using assms
proof (induction active arbitrary: s)
  case (Cons r active)
  let ?r = "reserve_inner lim at (unwrap_or (r_peer_account r) (r_peer r)) (r_swap_id r)
             (r_onchain_amount_sat r) FundedSwap s"
  have "length (pe_recent_starts (peer_of (snd (risk_restore lim at active (snd ?r))) peer))
      \<le> unat (rl_max_new_swaps_per_peer_per_hour lim)"
    by (rule Cons.IH [OF rate_kept_by_reserve [OF Cons.prems]])
  then show ?case
    by (cases ?r) (auto split: sum.splits prod.splits)
qed simp

lemma rate_kept:
  "length (pe_recent_starts (peer_of (risk_run lim ops) peer)) \<le> unat (rl_max_new_swaps_per_peer_per_hour lim)"
proof (induction ops rule: rev_induct)
  case Nil then show ?case by (simp add: risk_run_def risk_new_def peer_of_def default_peer_def)
next
  case (snoc op ops)
  have "risk_run lim (ops @ [op]) = risk_step lim op (risk_run lim ops)" by (simp add: risk_run_def)
  with snoc show ?case
    by (cases op) (simp_all add: risk_reserve_def risk_reserve_pending_def rate_kept_by_reserve
        rate_kept_by_restore release_recent_starts claims_recent_starts restore_funding_claim_def)
qed

subsection \<open>Claims against the wallet\<close>

lemma foldl_saturating:
  fixes xs :: "u64 list"
  shows "unat (foldl saturating_add a xs) = min (unat a + (\<Sum>x\<leftarrow>xs. unat x)) (2 ^ 64 - 1)"
proof (induction xs arbitrary: a)
  case Nil then show ?case using unat_u64_bound [of a] by simp
next
  case (Cons b xs) then show ?case by (simp add: unat_saturating_add min_def)
qed

lemma saturating_sum_unat: "unat (saturating_sum xs) = min (\<Sum>x\<leftarrow>xs. unat x) (2 ^ 64 - 1)"
  by (simp add: saturating_sum_def foldl_saturating)

definition claims_in_all :: "risk_inner \<Rightarrow> nat" where
  "claims_in_all s = (\<Sum>(_, claim)\<leftarrow>ri_funding_claims s. unat claim)"

lemma sum_update:
  assumes "distinct (map fst xs)"
  shows "(\<Sum>(_, w)\<leftarrow>AList.update k v xs. unat w)
           = (\<Sum>x\<leftarrow>map snd (filter (\<lambda>(i, _). i \<noteq> k) xs). unat x) + unat v"
  using assms
proof (induction xs)
  case (Cons a xs)
  have "filter (\<lambda>(i, _). i \<noteq> k) xs = xs" if "k \<notin> fst ` set xs"
    using that by (force simp: filter_id_conv)
  with Cons show ?case by (cases a) (auto simp: case_prod_unfold comp_def)
qed simp

lemma claim_covered:
  assumes "accounted s" "claim_funding i claim (Some available) reserve s = (Inr (), s')"
    "0 < unat claim + unat reserve" "unat claim + unat reserve < 2 ^ 64"
  shows "claims_in_all s' + unat reserve \<le> unat available"
proof -
  let ?o = "map snd (filter (\<lambda>(j, _). j \<noteq> i) (ri_funding_claims s))"
  have s': "s' = with_claim i claim s" and "\<not> saturating_sub available (saturating_sum ?o) < saturating_add claim reserve"
    using assms(2) by (auto simp: claim_funding_def Let_def split: if_splits)
  then have "(\<Sum>x\<leftarrow>?o. unat x) + unat claim + unat reserve \<le> unat available"
    using assms(3,4) unat_u64_bound [of available]
    by (auto simp: word_nat unat_saturating_sub unat_saturating_add saturating_sum_unat min_def split: if_splits)
  moreover have "claims_in_all s' \<le> (\<Sum>x\<leftarrow>?o. unat x) + unat claim"
  proof (cases "map_of (ri_reservations s) i")
    case None
    then have "i \<notin> fst ` set (ri_funding_claims s)"
      using assms(1) by (auto simp: accounted_def map_of_eq_None_iff)
    then have "filter (\<lambda>(j, _). j \<noteq> i) (ri_funding_claims s) = ri_funding_claims s"
      by (force simp: filter_id_conv)
    with None show ?thesis by (simp add: s' with_claim_def claims_in_all_def case_prod_unfold comp_def)
  next
    case (Some a)
    with assms(1) sum_update [of "ri_funding_claims s" i claim] show ?thesis
      by (simp add: s' with_claim_def claims_in_all_def accounted_def)
  qed
  ultimately show ?thesis by simp
qed

lemma default_limit_values [simp]:
  "rl_max_concurrent_swaps default_risk_limits = 25" "rl_max_concurrent_per_peer default_risk_limits = 2"
  "rl_max_total_exposure_sat default_risk_limits = 5000000"
  "rl_max_exposure_per_peer_sat default_risk_limits = 1000000"
  "rl_min_onchain_reserve_sat default_risk_limits = 100000"
  "rl_max_new_swaps_per_peer_per_hour default_risk_limits = 6"
  by (simp_all add: default_risk_limits_def)

lemmas risk_run_defs =
  risk_run_def risk_reserve_def reserve_inner_def risk_new_def trimmed_def Let_def peer_of_def
  default_peer_def peer_refusal_def total_refusal_def saturating_add_def commit_reservation_def recent_def
  claim_funding_def saturating_sum_def saturating_sub_def

subsection \<open>Properties\<close>

text \<open>C25: After any sequence of reservations, releases, restorations and funding claims, from an empty
  manager, whose requested amounts do not overflow 64 bits, the counters are exactly what the live
  reservations add up to: in total and for every counterparty, in number and in satoshis, with one
  reservation for a swap and no funding claim of a swap that holds none.\<close>

theorem risk_counters_are_exact:
  assumes "asked_in_all ops < 2 ^ 64"
  shows "accounted (risk_run lim ops)"
  using risk_run_accounted [OF assms] by simp

theorem risk_counters_are_exact_witness:
  "accounted (risk_run default_risk_limits
     [OpReserve 0 ''alice'' 1 300000, OpReserve 5 ''alice'' 1 300000, OpReserve 6 ''bob'' 2 700000,
      OpClaim 2 701000 (Some 2000000) 100000, OpRelease 1, OpRelease 1])"
  by (rule risk_counters_are_exact) (simp add: asked_in_all_def)

text \<open>C26: When a new swap is admitted, then counting it the live reservations are within all four
  ceilings, as exact sums: their number and their satoshis, in total and for the swap's
  counterparty.\<close>

theorem admitted_swap_fits_the_limits:
  assumes "asked_in_all ops + unat amount < 2 ^ 64"
    and "risk_reserve lim at peer i amount (risk_run lim ops) = (Inr (), s')"
  shows "length (ri_reservations s') \<le> rl_max_concurrent_swaps lim \<and>
         number_of ((=) peer) (ri_reservations s') \<le> rl_max_concurrent_per_peer lim \<and>
         committed_to (\<lambda>_. True) (ri_reservations s') \<le> unat (rl_max_total_exposure_sat lim) \<and>
         committed_to ((=) peer) (ri_reservations s') \<le> unat (rl_max_exposure_per_peer_sat lim)"
proof (rule reserve_fits_limits)
  have "accounted (risk_run lim ops) \<and> held_in_all (risk_run lim ops) \<le> asked_in_all ops"
    using assms(1) by (intro risk_run_accounted) simp
  then show "accounted (risk_run lim ops)" "fits amount (risk_run lim ops)"
    using assms(1) by (simp_all add: fits_def)
  show "reserve_inner lim at peer i amount NewSwap (risk_run lim ops) = (Inr (), s')"
    using assms(2) by (simp add: risk_reserve_def)
qed simp

theorem admitted_swap_fits_the_limits_witness:
  "length (ri_reservations (snd (risk_reserve default_risk_limits 9 ''bob'' 2 400000
       (risk_run default_risk_limits ([OpReserve 0 ''alice'' 1 300000] :: unit risk_op list))))) \<le> 25"
proof -
  let ?ops = "[OpReserve 0 ''alice'' 1 300000] :: unit risk_op list"
  let ?r = "risk_reserve default_risk_limits 9 ''bob'' 2 400000 (risk_run default_risk_limits ?ops)"
  have "fst ?r = Inr ()" by (simp add: risk_run_defs)
  then have "?r = (Inr (), snd ?r)" by (simp add: prod_eq_iff)
  from admitted_swap_fits_the_limits [OF _ this, THEN conjunct1] show ?thesis
    by (simp add: asked_in_all_def)
qed

text \<open>The hourly limit is a sliding window over all of a counterparty's starts: at any moment not
  before the clock readings of the calls made, at most the limit of the counterparty's new swaps
  were started in the hour that ends then, whatever releases dropped their reservations and
  history meanwhile.\<close>

theorem hourly_starts_are_bounded:
  assumes "\<And>at. at \<in> set (op_times ops) \<Longrightarrow> at \<le> later"
  shows "length (recent later (starts_of lim peer ops risk_new))
           \<le> unat (rl_max_new_swaps_per_peer_per_hour lim)"
  using risk_run_recent [OF assms, of ops lim peer] rate_kept [of lim ops peer]
    recent_length [of later "pe_recent_starts (peer_of (risk_run lim ops) peer)"]
  by simp

theorem hourly_starts_are_bounded_witness:
  "length (recent 8 (starts_of default_risk_limits ''alice''
     ([OpReserve 0 ''alice'' 1 300000, OpRelease 1, OpReserve 5 ''alice'' 3 300000] :: unit risk_op list) risk_new)) \<le> 6"
proof -
  let ?ops = "[OpReserve 0 ''alice'' 1 300000, OpRelease 1, OpReserve 5 ''alice'' 3 300000] :: unit risk_op list"
  have "at \<le> 8" if "at \<in> set (op_times ?ops)" for at
    using that by (auto simp: op_times_def List.map_filter_def)
  from hourly_starts_are_bounded [OF this, where lim = default_risk_limits and peer = "''alice''"] show ?thesis
    by (simp del: starts_of.simps)
qed

text \<open>The check made at quote time answers what the reservation will answer: for a swap that holds
  no reservation yet, the advisory \<open>admissible\<close> and a reservation at the same moment give the same
  verdict and, when they refuse, the same reason.\<close>

theorem quote_time_check_agrees_with_reservation:
  assumes "map_of (ri_reservations s) i = None"
  shows "admissible lim at peer amount s = fst (risk_reserve lim at peer i amount s)"
  using assms
  by (auto simp: admissible_def risk_reserve_def reserve_inner_def peer_refusal_def total_refusal_def Let_def
      peer_of_trimmed)

theorem quote_time_check_agrees_with_reservation_witness:
  "admissible default_risk_limits 0 ''alice'' 2000000 risk_new
     = fst (risk_reserve default_risk_limits 0 ''alice'' 7 2000000 risk_new)"
  by (rule quote_time_check_agrees_with_reservation) (simp add: risk_new_def)

text \<open>C27: When the wallet reports a balance and a swap's funding is promised out of it, all promises
  together, this one included, and the reserve kept back are within that balance.\<close>

theorem promised_funding_is_covered:
  assumes "asked_in_all ops < 2 ^ 64"
    and "claim_funding i claim (Some available) reserve (risk_run lim ops) = (Inr (), s')"
    and "0 < unat claim + unat reserve" "unat claim + unat reserve < 2 ^ 64"
  shows "claims_in_all s' + unat reserve \<le> unat available"
  using risk_run_accounted [OF assms(1), of lim] assms(2-4) by (auto intro: claim_covered)

theorem promised_funding_is_covered_witness:
  "claims_in_all (snd (claim_funding 1 301000 (Some 600000) 100000
       (risk_run default_risk_limits ([OpReserve 0 ''alice'' 1 300000] :: unit risk_op list)))) + 100000 \<le> 600000"
proof -
  let ?ops = "[OpReserve 0 ''alice'' 1 300000] :: unit risk_op list"
  let ?r = "claim_funding 1 301000 (Some 600000) 100000 (risk_run default_risk_limits ?ops)"
  have "fst ?r = Inr ()"
    by (simp add: risk_run_defs)
  then have "?r = (Inr (), snd ?r)" by (simp add: prod_eq_iff)
  from promised_funding_is_covered [OF _ this] show ?thesis
    by (simp add: asked_in_all_def)
qed

end
