(* ===== verification/Recovery.thy ===== *)
theory Recovery
  imports Store
begin

text \<open>
  What a failed driver run earns its swap: \<open>swap-provider/src/recovery.rs\<close>, with the two helpers of
  \<open>lib.rs\<close> that read it back. A \<open>Duration\<close> is a number of milliseconds; the random number the
  jitter draws is an argument.
\<close>

definition MAX_DRIVER_RETRIES :: u32 where "MAX_DRIVER_RETRIES = 10"
definition BACKOFF_BASE :: nat where "BACKOFF_BASE = 2000"
definition BACKOFF_MAX :: nat where "BACKOFF_MAX = 300000"

datatype recovery = Retry nat | GiveUp

definition jitter :: "u64 \<Rightarrow> nat \<Rightarrow> nat" where
  "jitter rnd d =
     (let spread = d div 4
      in if spread = 0 then d else d - spread + unat rnd mod (spread * 2 + 1))"

definition backoff :: "u64 \<Rightarrow> u32 \<Rightarrow> nat" where
  "backoff rnd attempt =
     (let doublings = min (saturating_sub attempt 1) 16;
          base = min (BACKOFF_BASE * 2 ^ unat doublings) BACKOFF_MAX
      in min (jitter rnd base) BACKOFF_MAX)"

definition after_failure :: "ext \<Rightarrow> u64 \<Rightarrow> 'c swap_record \<Rightarrow> bool \<Rightarrow> recovery" where
  "after_failure x rnd r retryable =
     (if funds_at_risk x r then Retry (backoff rnd (r_retry_count r))
      else if retryable \<and> r_retry_count r < MAX_DRIVER_RETRIES then Retry (backoff rnd (r_retry_count r))
      else GiveUp)"

definition resume_delay :: "u64 \<Rightarrow> 'c swap_record \<Rightarrow> nat" where
  "resume_delay now_unix r =
     min (case r_next_retry_at_unix r of None \<Rightarrow> 0 | Some at \<Rightarrow> 1000 * unat (saturating_sub at now_unix)) BACKOFF_MAX"

definition needs_recovery :: "ext \<Rightarrow> 'c swap_record \<Rightarrow> bool" where
  "needs_recovery x r \<longleftrightarrow> funds_at_risk x r \<and> r_retry_count r \<ge> MAX_DRIVER_RETRIES"

lemma jitter_bounds: "d - d div 4 \<le> jitter rnd d \<and> jitter rnd d \<le> d + d div 4"
proof -
  have arith: "d - k \<le> (if k = 0 then d else d - k + offset) \<and> (if k = 0 then d else d - k + offset) \<le> d + k"
    if "offset < k * 2 + 1" "k \<le> d" for k offset
    using that by (auto simp: le_diff_conv)
  show ?thesis
    unfolding jitter_def Let_def by (rule arith) (rule mod_less_divisor, simp_all)
qed

lemma backoff_le_max: "backoff rnd n \<le> BACKOFF_MAX"
  by (simp add: backoff_def Let_def)

lemma backoff_at_least:
  "min (BACKOFF_BASE * 2 ^ unat (min (saturating_sub n 1) 16)) BACKOFF_MAX * 3 \<le> backoff rnd n * 4"
proof -
  let ?b = "min (BACKOFF_BASE * 2 ^ unat (min (saturating_sub n 1) 16)) BACKOFF_MAX"
  have "?b \<le> BACKOFF_MAX" by simp
  moreover have "?b - ?b div 4 \<le> jitter rnd ?b" using jitter_bounds by blast
  ultimately have "?b * 3 \<le> min (jitter rnd ?b) BACKOFF_MAX * 4" by linarith
  then show ?thesis by (simp add: backoff_def Let_def)
qed

lemma backoff_at_least_half_base: "1500 \<le> backoff rnd n"
proof -
  have "BACKOFF_BASE * 1 \<le> BACKOFF_BASE * 2 ^ unat (min (saturating_sub n 1) 16)" by (intro mult_le_mono2) simp
  then have "2000 \<le> min (BACKOFF_BASE * 2 ^ unat (min (saturating_sub n 1) 16)) BACKOFF_MAX"
    by (simp add: BACKOFF_BASE_def BACKOFF_MAX_def)
  with backoff_at_least [of n rnd] show ?thesis by linarith
qed

lemma after_failure_funded: "funds_at_risk x r \<Longrightarrow> after_failure x rnd r retryable = Retry (backoff rnd (r_retry_count r))"
  by (simp add: after_failure_def)

text \<open>A swap whose funds are committed is never given up on, whatever its driver failed with and
  however often; a swap with nothing committed is retried exactly while its failure is transient and
  its budget of ten is not used up. Every retry waits at least a second and a half and at most five
  minutes.\<close>

theorem committed_funds_are_never_given_up:
  "case after_failure x rnd r retryable of
     GiveUp \<Rightarrow> funds_at_risk x r = False \<and> (retryable = False \<or> unat (r_retry_count r) \<ge> 10)
   | Retry d \<Rightarrow> (funds_at_risk x r \<or> retryable \<and> unat (r_retry_count r) < 10)
       \<and> 1500 \<le> d \<and> d \<le> 300000"
  using backoff_le_max [of rnd "r_retry_count r"] backoff_at_least_half_base [of rnd "r_retry_count r"]
  by (auto simp: after_failure_def BACKOFF_MAX_def MAX_DRIVER_RETRIES_def word_nat)

end
