(* ===== verification/Progress.thy ===== *)
theory Progress
  imports Recovery Risk
begin

text \<open>
  The provider's record of a running swap: \<open>StoreProgress\<close> of \<open>swap-provider/src/lib.rs\<close>, what a
  finished driver run does with it (\<open>finish_driver_run\<close>), and the two background tasks that touch
  the same directory (the reorg marker and the pruner). Every write takes its moment: the clock
  readings it makes and where it fails, if it does.
\<close>

record moment =
  mo_event :: u64 \<comment> \<open>\<open>now_unix()\<close> in the callback\<close>
  mo_updated :: u64 \<comment> \<open>\<open>now_unix()\<close> for \<open>updated_at_unix\<close>\<close>
  mo_write :: circumstances

record 'c store_progress =
  sp_record :: "'c swap_record"
  sp_store :: dir
  sp_risk :: "risk_inner option"

subsection \<open>What each callback writes into the record\<close>

definition note_intent :: "u32 \<Rightarrow> 'c swap_record \<Rightarrow> 'c swap_record" where
  "note_intent tip r =
     r\<lparr>r_funding_intent_at_height := Some tip,
       r_funding_attempts := saturating_add (r_funding_attempts r) 1, r_state := LockupPending\<rparr>"

definition note_funded :: "ext \<Rightarrow> outpoint \<Rightarrow> 'c swap_record \<Rightarrow> 'c swap_record" where
  "note_funded x op r =
     r\<lparr>r_funding_txid_hex := Some (x_txid_str x (op_txid op)), r_funding_vout := Some (op_vout op),
       r_funding_intent_at_height := None, r_state := LockupConfirmed\<rparr>"

definition note_pay_started :: "u64 \<Rightarrow> 'c swap_record \<Rightarrow> 'c swap_record" where
  "note_pay_started at r = r\<lparr>r_invoice_pay_started_at_unix := Some at, r_state := InvoicePending\<rparr>"

definition note_paid :: "'c swap_record \<Rightarrow> 'c swap_record" where
  "note_paid r = r\<lparr>r_state := InvoicePaid\<rparr>"

definition note_claim_observed :: "ext \<Rightarrow> txid \<Rightarrow> 'c swap_record \<Rightarrow> 'c swap_record" where
  "note_claim_observed x t r = r\<lparr>r_claim_observed_txid_hex := Some (x_txid_str x t), r_state := InvoicePaid\<rparr>"

definition note_claimable :: "u64 \<Rightarrow> 'c swap_record \<Rightarrow> 'c swap_record" where
  "note_claimable at r = r\<lparr>r_claimable_at_unix := Some at\<rparr>"

definition note_failure :: "ext \<Rightarrow> u64 \<Rightarrow> u64 \<Rightarrow> any_error \<Rightarrow> bool \<Rightarrow> 'c swap_record \<Rightarrow> recovery \<times> 'c swap_record" where
  "note_failure x at rnd e retryable r =
     (let r = r\<lparr>r_last_error := Some (show_any_error e), r_retry_count := saturating_add (r_retry_count r) 1\<rparr>;
          recovery = after_failure x rnd r retryable
      in (recovery,
          r\<lparr>r_next_retry_at_unix := (case recovery of
               Retry delay \<Rightarrow> Some (saturating_add at (word_of_nat (delay div 1000))) | GiveUp \<Rightarrow> None)\<rparr>))"

definition note_funding_fee :: "u64 \<Rightarrow> 'c swap_record \<Rightarrow> 'c swap_record" where
  "note_funding_fee fee r = r\<lparr>r_funding_fee_sat := Some fee\<rparr>"

definition note_reorg :: "u32 \<Rightarrow> u64 \<Rightarrow> 'c swap_record \<Rightarrow> 'c swap_record" where
  "note_reorg fork at r =
     r\<lparr>r_reorg_seen_at_height := Some (case r_reorg_seen_at_height r of Some seen \<Rightarrow> min seen fork | None \<Rightarrow> fork),
       r_updated_at_unix := at\<rparr>"

subsection \<open>Applying and persisting\<close>

definition put_now :: "ext \<Rightarrow> 'c codec \<Rightarrow> circumstances \<Rightarrow> 'c swap_record \<Rightarrow> dir \<Rightarrow> (any_error + unit) \<times> dir" where
  "put_now x c w r d = store_put x c (at_unix w) (at_pid w) (at_seq w) (at_fault w) r d"

definition try_update ::
  "ext \<Rightarrow> 'c codec \<Rightarrow> moment \<Rightarrow> string \<Rightarrow> ('c swap_record \<Rightarrow> 'c swap_record) \<Rightarrow> 'c store_progress
   \<Rightarrow> (any_error + unit) \<times> 'c store_progress" where
  "try_update x c m what f s =
     (let before = r_state (sp_record s);
          r = f (sp_record s);
          r = (if r_state r \<noteq> before then progressed r else r);
          r = r\<lparr>r_updated_at_unix := mo_updated m\<rparr>;
          (result, d) = put_now x c (mo_write m) r (sp_store s)
      in (map_err (\<lambda>e. AnyMsg (''could not persist '' @ what @ '': '' @ show_any_error e)) result,
          s\<lparr>sp_record := r, sp_store := d\<rparr>))"

definition progress_update ::
  "ext \<Rightarrow> 'c codec \<Rightarrow> moment \<Rightarrow> string \<Rightarrow> ('c swap_record \<Rightarrow> 'c swap_record) \<Rightarrow> 'c store_progress
   \<Rightarrow> 'c store_progress" where
  "progress_update x c m what f s = snd (try_update x c m what f s)"

definition set_state :: "ext \<Rightarrow> 'c codec \<Rightarrow> moment \<Rightarrow> swap_state \<Rightarrow> 'c store_progress \<Rightarrow> 'c store_progress" where
  "set_state x c m state s = progress_update x c m ''state'' (\<lambda>r. r\<lparr>r_state := state\<rparr>) s"

text \<open>A failed write of the terminal state is only logged.\<close>

definition set_terminal :: "ext \<Rightarrow> 'c codec \<Rightarrow> moment \<Rightarrow> swap_state \<Rightarrow> 'c store_progress \<Rightarrow> 'c store_progress" where
  "set_terminal x c m state s =
     (let r = (progressed ((sp_record s)\<lparr>r_state := state\<rparr>))\<lparr>r_updated_at_unix := mo_updated m\<rparr>;
          w = mo_write m;
          (_, d) = mark_terminal x c (at_unix w) (at_pid w) (at_seq w) (at_fault w) r (sp_store s)
      in s\<lparr>sp_record := r, sp_store := d\<rparr>)"

definition record_failure ::
  "ext \<Rightarrow> 'c codec \<Rightarrow> moment \<Rightarrow> u64 \<Rightarrow> any_error \<Rightarrow> bool \<Rightarrow> 'c store_progress
   \<Rightarrow> ('c swap_record \<times> recovery) \<times> 'c store_progress" where
  "record_failure x c m rnd e retryable s =
     (let s' = progress_update x c m ''driver failure'' (\<lambda>r. snd (note_failure x (mo_event m) rnd e retryable r)) s
      in ((sp_record s', fst (note_failure x (mo_event m) rnd e retryable (sp_record s))), s'))"

subsection \<open>The sink the drivers call\<close>

definition store_funding_intent ::
  "ext \<Rightarrow> 'c codec \<Rightarrow> moment \<Rightarrow> u32 \<Rightarrow> 'c store_progress \<Rightarrow> (any_error + unit) \<times> 'c store_progress" where
  "store_funding_intent x c m tip s = try_update x c m ''funding intent'' (note_intent tip) s"

definition store_funded :: "ext \<Rightarrow> 'c codec \<Rightarrow> moment \<Rightarrow> outpoint \<Rightarrow> 'c store_progress \<Rightarrow> 'c store_progress" where
  "store_funded x c m op s =
     (let s = progress_update x c m ''funding outpoint'' (note_funded x op) s
      in s\<lparr>sp_risk := map_option (funding_settled (r_swap_id (sp_record s))) (sp_risk s)\<rparr>)"

definition store_pay_started ::
  "ext \<Rightarrow> 'c codec \<Rightarrow> moment \<Rightarrow> 'c store_progress \<Rightarrow> (any_error + unit) \<times> 'c store_progress" where
  "store_pay_started x c m s = try_update x c m ''invoice payment intent'' (note_pay_started (mo_event m)) s"

definition store_paid :: "ext \<Rightarrow> 'c codec \<Rightarrow> moment \<Rightarrow> 'c store_progress \<Rightarrow> 'c store_progress" where
  "store_paid x c m s = progress_update x c m ''invoice paid'' note_paid s"

definition store_claim_observed :: "ext \<Rightarrow> 'c codec \<Rightarrow> moment \<Rightarrow> txid \<Rightarrow> 'c store_progress \<Rightarrow> 'c store_progress" where
  "store_claim_observed x c m t s = progress_update x c m ''observed claim'' (note_claim_observed x t) s"

definition store_spend_broadcast :: "ext \<Rightarrow> 'c codec \<Rightarrow> moment \<Rightarrow> txid \<Rightarrow> 'c store_progress \<Rightarrow> 'c store_progress" where
  "store_spend_broadcast x c m t s = progress_update x c m ''broadcast spend'' (note_our_spend x t) s"

definition store_wants_claimable :: "'c store_progress \<Rightarrow> bool" where
  "store_wants_claimable s \<longleftrightarrow> r_claimable_hint (sp_record s) \<and> r_claimable_at_unix (sp_record s) = None"

text \<open>The wake and the hint that follow go out in a task of their own.\<close>

definition store_claimable :: "ext \<Rightarrow> 'c codec \<Rightarrow> moment \<Rightarrow> 'c store_progress \<Rightarrow> 'c store_progress" where
  "store_claimable x c m s = progress_update x c m ''claimable'' (note_claimable (mo_event m)) s"

subsection \<open>The end of a run\<close>

definition measure_funding_fee ::
  "ext \<Rightarrow> 'c codec \<Rightarrow> moment \<Rightarrow> (txid \<Rightarrow> swap_error + u64 option) \<Rightarrow> 'c store_progress \<Rightarrow> 'c store_progress" where
  "measure_funding_fee x c m transaction_fee_sat s =
     (if r_funding_fee_sat (sp_record s) \<noteq> None then s
      else case funding_outpoint x (sp_record s) of
             None \<Rightarrow> s
           | Some op \<Rightarrow> (case transaction_fee_sat (op_txid op) of
               Inr (Some fee) \<Rightarrow> progress_update x c m ''funding fee'' (note_funding_fee fee) s
             | Inr None \<Rightarrow> s
             | Inl _ \<Rightarrow> s))"

text \<open>\<open>Some (r, delay)\<close> is a respawn of the driver on the record \<open>r\<close> after \<open>delay\<close>.\<close>

definition finish_driver_run ::
  "ext \<Rightarrow> 'c codec \<Rightarrow> moment \<Rightarrow> moment \<Rightarrow> u64 \<Rightarrow> any_error + swap_state \<Rightarrow> 'c store_progress
   \<Rightarrow> ('c swap_record \<times> nat) option \<times> 'c store_progress" where
  "finish_driver_run x c m m' rnd result s =
     (case result of
        Inr state \<Rightarrow>
          if is_terminal state then (None, set_terminal x c m state s)
          else (let s = set_state x c m state s in (Some (sp_record s, 0), s))
      | Inl e \<Rightarrow>
          (let ((r, recovery), s) = record_failure x c m rnd e (any_is_transient e) s
           in case recovery of
                Retry delay \<Rightarrow> (Some (r, delay), s)
              | GiveUp \<Rightarrow> (None, set_terminal x c m' (Failed (show_any_error e)) s)))"

text \<open>The reorg monitor's write, for one record it loaded.\<close>

definition mark_reorg ::
  "ext \<Rightarrow> 'c codec \<Rightarrow> circumstances \<Rightarrow> u32 \<Rightarrow> u64 \<Rightarrow> uuid \<Rightarrow> dir \<Rightarrow> (any_error + bool) \<times> dir" where
  "mark_reorg x c w fork at swap_id d =
     store_mutate x c (at_unix w) (at_pid w) (at_seq w) (at_fault w) swap_id (note_reorg fork at) d"

text \<open>Over the swaps in flight; what follows each write only reads the chain and logs.\<close>

fun mark_each :: "ext \<Rightarrow> 'c codec \<Rightarrow> (uuid \<Rightarrow> moment) \<Rightarrow> u32 \<Rightarrow> 'c swap_record list \<Rightarrow> dir \<Rightarrow> dir" where
  "mark_each x c m fork [] d = d"
| "mark_each x c m fork (r # rs) d =
     (case record_htlc_spk x r of
        Inl _ \<Rightarrow> mark_each x c m fork rs d
      | Inr _ \<Rightarrow> mark_each x c m fork rs
          (snd (mark_reorg x c (mo_write (m (r_swap_id r))) fork (mo_event (m (r_swap_id r))) (r_swap_id r) d)))"

definition react_to_reorg :: "ext \<Rightarrow> 'c codec \<Rightarrow> (uuid \<Rightarrow> moment) \<Rightarrow> u32 \<Rightarrow> dir \<Rightarrow> dir" where
  "react_to_reorg x c m fork d = mark_each x c m fork (load_active c d) d"

subsection \<open>Markers that outlive everything written\<close>

text \<open>The changes the daemon makes to the record of a running swap.\<close>

inductive record_change :: "ext \<Rightarrow> ('c swap_record \<Rightarrow> 'c swap_record) \<Rightarrow> bool" for x where
  "record_change x (note_intent tip)"
| "x_txid_parse x (x_txid_str x (op_txid op)) \<noteq> None \<Longrightarrow> record_change x (note_funded x op)"
| "record_change x (note_pay_started at)"
| "record_change x note_paid"
| "record_change x (note_claim_observed x t)"
| "record_change x (note_our_spend x t)"
| "record_change x (note_claimable at)"
| "record_change x (\<lambda>r. snd (note_failure x at rnd e retryable r))"
| "record_change x (note_funding_fee fee)"
| "record_change x (note_reorg fork at)"
| "record_change x (\<lambda>r. r\<lparr>r_state := state\<rparr>)"
| "record_change x progressed"
| "record_change x (\<lambda>r. r\<lparr>r_updated_at_unix := at\<rparr>)"
| "record_change x (stamp e at)"

lemma record_change_id: "record_change x f \<Longrightarrow> r_swap_id (f r) = r_swap_id r"
  by (induction rule: record_change.induct)
    (simp_all add: note_intent_def note_funded_def note_pay_started_def note_paid_def note_claim_observed_def
      note_our_spend_def note_claimable_def note_failure_def note_funding_fee_def note_reorg_def progressed_def Let_def)

text \<open>
  A marker: a fact about a record that no change of the daemon undoes. \<open>unique_names\<close> is a property of
  every directory.
\<close>

definition unique_names :: "dir \<Rightarrow> bool" where
  "unique_names d \<longleftrightarrow> distinct (map f_name d)"

text \<open>Every record is in the file of its swap, and the swap's own, where there is one, carries the
  marker.\<close>

definition on_disk :: "('c swap_record \<Rightarrow> bool) \<Rightarrow> ext \<Rightarrow> 'c codec \<Rightarrow> uuid \<Rightarrow> dir \<Rightarrow> bool" where
  "on_disk M x c i d \<longleftrightarrow> unique_names d
     \<and> (\<forall>j r. contents x c d j = Some r \<longrightarrow> r_swap_id r = j \<and> (j = i \<longrightarrow> M r))"

definition marked_by :: "('c swap_record \<Rightarrow> bool) \<Rightarrow> ext \<Rightarrow> 'c codec \<Rightarrow> uuid \<Rightarrow> 'c store_progress \<Rightarrow> bool" where
  "marked_by M x c i s \<longleftrightarrow> M (sp_record s) \<and> r_swap_id (sp_record s) = i \<and> on_disk M x c i (sp_store s)"

lemma unique_write: "unique_names d \<Longrightarrow> unique_names (write_file name b d)"
  by (auto simp: unique_names_def write_file_def remove_file_def distinct_map inj_on_def)

lemma unique_remove: "unique_names d \<Longrightarrow> unique_names (remove_file name d)"
  by (auto simp: unique_names_def remove_file_def distinct_map inj_on_def)

lemma unique_put: "unique_names d \<Longrightarrow> unique_names (snd (persist_record x c t pid n fault r d))"
  by (auto simp: persist_record_def Let_def unique_write unique_remove split: sum.splits write_fault.splits)

lemma lookup_filter:
  assumes "unique_names d" "lookup_file name (filter P d) = Some f"
  shows "lookup_file name d = Some f"
  using assms
proof (induction d)
  case (Cons g d)
  show ?case
  proof (cases "f_name g = name")
    case True
    then have "name \<notin> f_name ` set d" using Cons.prems(1) by (auto simp: unique_names_def)
    then have "lookup_file name (filter P d) = None"
      by (auto simp: lookup_file_def find_None_iff)
    with True Cons.prems(2) show ?thesis by (auto simp: lookup_file_def split: if_splits)
  next
    case False
    with Cons show ?thesis by (auto simp: lookup_file_def unique_names_def split: if_splits)
  qed
qed (simp add: lookup_file_def)

lemma contents_filter:
  assumes "unique_names d" "contents x c (filter P d) i = Some r"
  shows "contents x c d i = Some r"
proof -
  from assms(2) obtain f where "lookup_file (path_for x i) (filter P d) = Some f"
    by (auto simp: contents_def existing_record_def store_get_def split: sum.splits option.splits)
  with lookup_filter [OF assms(1) this] assms(2) show ?thesis
    by (simp add: contents_def existing_record_def store_get_def)
qed

lemma prune_terminal_filter: "snd (prune_terminal x c retain d) = filter (\<lambda>f. \<not> prunable x c retain f) d"
  by (simp add: prune_terminal_def prune_entries_eq)

lemma unique_prune: "unique_names d \<Longrightarrow> unique_names (snd (prune_terminal x c retain d))"
  by (simp add: prune_terminal_filter unique_names_def distinct_map_filter)

subsection \<open>Everything else that touches the directory\<close>

text \<open>Between two steps of a swap's driver: other swaps' writes, the reorg monitor, the pruner.\<close>

inductive elsewhere :: "ext \<Rightarrow> 'c codec \<Rightarrow> uuid \<Rightarrow> dir \<Rightarrow> dir \<Rightarrow> bool" for x c i where
  other_swap: "r_swap_id r \<noteq> i \<Longrightarrow> elsewhere x c i d (snd (put_now x c w r d))"
| reorg: "elsewhere x c i d (react_to_reorg x c m fork d)"
| pruned: "elsewhere x c i d (snd (prune_terminal x c retain d))"

locale marker =
  fixes x :: ext and M :: "'c swap_record \<Rightarrow> bool"
  assumes kept: "record_change x f \<Longrightarrow> M r \<Longrightarrow> M (f r)"
begin

lemma put_keeps:
  assumes "codec_ok x c" and "on_disk M x c i d" and "r_swap_id r = i \<Longrightarrow> M r"
  shows "on_disk M x c i (snd (put_now x c w r d))"
proof -
  let ?p = "persist_record x c (at_unix w) (at_pid w) (at_seq w) (at_fault w) r d"
  have u: "unique_names (snd ?p)" using assms(2) by (simp add: on_disk_def unique_put)
  obtain res d' where p: "?p = (res, d')" by (cases ?p)
  have "M (stamp e t r)" if "r_swap_id r = i" for e t
    using that assms(3) kept [OF record_change.intros(14)] by blast
  with assms(2) u p contents_put_fail [of x c _ _ _ _ r d _ d'] contents_put_ok [OF assms(1), of _ _ _ _ r d _ d']
  show ?thesis
    by (cases res) (auto simp: put_now_def store_put_def on_disk_def)
qed

lemma mutate_keeps:
  assumes "codec_ok x c" and "on_disk M x c i d" and "record_change x f"
  shows "on_disk M x c i (snd (store_mutate x c t pid n fault j f d))"
proof (cases "store_get x c j d")
  case (Inr r)
  show ?thesis
  proof (cases r)
    case (Some r)
    with Inr have "contents x c d j = Some r" by (simp add: contents_def existing_record_def \<open>store_get x c j d = Inr _\<close>)
    then have "r_swap_id (f r) = i \<Longrightarrow> M (f r)"
      using assms(2) kept [OF assms(3)] record_change_id [OF assms(3)] by (auto simp: on_disk_def)
    from put_keeps [OF assms(1,2) this, of "\<lparr>at_unix = t, at_pid = pid, at_seq = n, at_fault = fault\<rparr>"]
    show ?thesis using Inr Some
      by (auto simp: store_mutate_def put_now_def store_put_def split: prod.splits sum.splits)
  qed (use Inr assms(2) in \<open>simp add: store_mutate_def\<close>)
qed (use assms(2) in \<open>simp add: store_mutate_def\<close>)

lemma mark_each_keeps:
  assumes "codec_ok x c" and "on_disk M x c i d"
  shows "on_disk M x c i (mark_each x c m fork rs d)"
  using assms(2)
  by (induction rs arbitrary: d)
    (auto simp: mark_reorg_def intro!: mutate_keeps [OF assms(1)] record_change.intros split: sum.split)

lemma elsewhere_keeps:
  assumes "codec_ok x c" and "elsewhere x c i d d'" and "on_disk M x c i d"
  shows "on_disk M x c i d'"
  using assms(2,3)
proof cases
  case (pruned retain)
  with assms(3) show ?thesis
    by (auto simp: on_disk_def unique_prune) (auto simp: prune_terminal_filter dest: contents_filter)
qed (auto simp: put_keeps [OF assms(1)] react_to_reorg_def mark_each_keeps [OF assms(1)])

lemma try_update_record:
  assumes "record_change x f" and "M (f (sp_record s))"
  shows "M (sp_record (snd (try_update x c m what f s)))"
  using assms kept [OF record_change.intros(12)] kept [OF record_change.intros(13)]
  by (simp add: try_update_def Let_def split: prod.split)

lemma try_update_keeps:
  assumes "codec_ok x c" and "record_change x f" and "marked_by M x c i s"
  shows "marked_by M x c i (snd (try_update x c m what f s))"
proof -
  let ?s = "snd (try_update x c m what f s)"
  have "M (f (sp_record s))" using assms(3) kept [OF assms(2)] by (simp add: marked_by_def)
  from try_update_record [OF assms(2) this] have m: "M (sp_record ?s)" .
  have i: "r_swap_id (sp_record ?s) = i"
    using assms(3) record_change_id [OF assms(2)]
    by (simp add: try_update_def Let_def marked_by_def progressed_def split: prod.split)
  have "sp_store ?s = snd (put_now x c (mo_write m) (sp_record ?s) (sp_store s))"
    by (simp add: try_update_def Let_def split: prod.split)
  with m i put_keeps [OF assms(1), of i "sp_store s" "sp_record ?s"] assms(3) show ?thesis
    by (simp add: marked_by_def)
qed

text \<open>A write that landed puts the marker on disk.\<close>

lemma try_update_marks:
  assumes "codec_ok x c" and "record_change x f" and "marked_by (\<lambda>_. True) x c i s" and "M (f (sp_record s))"
    and "try_update x c m what f s = (Inr u, s')"
  shows "marked_by M x c i s'"
proof -
  have s': "s' = snd (try_update x c m what f s)" using assms(5) by simp
  have m: "M (sp_record s')" unfolding s' by (rule try_update_record [OF assms(2,4)])
  have i: "r_swap_id (sp_record s') = i"
    using assms(3) record_change_id [OF assms(2)]
    by (simp add: s' try_update_def Let_def marked_by_def progressed_def split: prod.split)
  obtain v where p: "persist_record x c (at_unix (mo_write m)) (at_pid (mo_write m)) (at_seq (mo_write m))
      (at_fault (mo_write m)) (sp_record s') (sp_store s) = (Inr v, sp_store s')"
    using assms(5) by (auto simp: try_update_def Let_def put_now_def store_put_def map_err_def split: prod.splits sum.splits)
  have "M (stamp e t (sp_record s'))" for e t using m kept [OF record_change.intros(14)] by blast
  moreover have "unique_names (sp_store s')"
    using assms(3) unique_put [of "sp_store s"] p by (metis marked_by_def on_disk_def snd_conv)
  ultimately show ?thesis
    using assms(3) m i contents_put_ok [OF assms(1) p] by (auto simp: marked_by_def on_disk_def)
qed

end

interpretation any: marker x "\<lambda>_. True" for x
  by unfold_locales simp

subsection \<open>A driver's conversation with the store\<close>

fun to_sink :: "event \<Rightarrow> bool" where
  "to_sink (PFundingIntent _ _) = True"
| "to_sink (PFunded _) = True"
| "to_sink (PPayStarted _) = True"
| "to_sink PInvoicePaid = True"
| "to_sink (PClaimObserved _) = True"
| "to_sink (PSpendBroadcast _) = True"
| "to_sink (PWantsClaimable _) = True"
| "to_sink (PClaimable _) = True"
| "to_sink _ = False"

text \<open>\<open>sink_step x c s e s'\<close>: the call \<open>e\<close>, answered as logged, takes the record from \<open>s\<close> to \<open>s'\<close>.\<close>

inductive sink_step :: "ext \<Rightarrow> 'c codec \<Rightarrow> 'c store_progress \<Rightarrow> event \<Rightarrow> 'c store_progress \<Rightarrow> bool" for x c where
  intent: "store_funding_intent x c m tip s = (r, s') \<Longrightarrow> sink_step x c s (PFundingIntent tip r) s'"
| funded: "sink_step x c s (PFunded op) (store_funded x c m op s)"
| pay_started: "store_pay_started x c m s = (r, s') \<Longrightarrow> sink_step x c s (PPayStarted r) s'"
| paid: "sink_step x c s PInvoicePaid (store_paid x c m s)"
| observed: "sink_step x c s (PClaimObserved t) (store_claim_observed x c m t s)"
| spend: "sink_step x c s (PSpendBroadcast t) (store_spend_broadcast x c m t s)"
| wants: "sink_step x c s (PWantsClaimable (store_wants_claimable s)) s"
| claimable: "sink_step x c s (PClaimable op) (store_claimable x c m s)"
| other: "\<not> to_sink e \<Longrightarrow> sink_step x c s e s"

inductive_cases intent_stepE: "sink_step x c s (PFundingIntent tip r) s'"
inductive_cases pay_stepE: "sink_step x c s (PPayStarted r) s'"
inductive_cases funded_stepE: "sink_step x c s (PFunded op) s'"

text \<open>\<open>backed x c i s l s'\<close>: the calls of \<open>l\<close> were answered by this store, whatever else happened to the
  directory between them.\<close>

inductive backed :: "ext \<Rightarrow> 'c codec \<Rightarrow> uuid \<Rightarrow> 'c store_progress \<Rightarrow> event list \<Rightarrow> 'c store_progress \<Rightarrow> bool"
  for x c i s where
  silent: "backed x c i s [] s"
| step: "backed x c i s l s1 \<Longrightarrow> sink_step x c s1 e s2 \<Longrightarrow> backed x c i s (l @ [e]) s2"
| background: "backed x c i s l s1 \<Longrightarrow> elsewhere x c i (sp_store s1) d \<Longrightarrow> backed x c i s l (s1\<lparr>sp_store := d\<rparr>)"

lemma backed_split: "backed x c i s l s2 \<Longrightarrow> l = a @ b \<Longrightarrow> \<exists>s1. backed x c i s a s1 \<and> backed x c i s1 b s2"
proof (induction arbitrary: a b rule: backed.induct)
  case silent then show ?case by (auto intro: backed.silent)
next
  case (step l s1 e s2)
  show ?case
  proof (cases b rule: rev_cases)
    case Nil
    with step.prems have "a = l @ [e]" by simp
    with Nil step.hyps show ?thesis by (blast intro: backed.intros)
  next
    case (snoc b' e')
    with step.prems have "l = a @ b'" and e': "e' = e" by auto
    from step.IH [OF this(1)] obtain sm where "backed x c i s a sm" "backed x c i sm b' s1" by blast
    with snoc e' step.hyps(2) show ?thesis by (blast intro: backed.step)
  qed
next
  case (background l s1 d)
  from background.IH [OF background.prems] obtain sm where "backed x c i s a sm" "backed x c i sm b s1" by blast
  with background.hyps(2) show ?case by (blast intro: backed.background)
qed

definition prints_txids :: "ext \<Rightarrow> bool" where
  "prints_txids x \<longleftrightarrow> (\<forall>t. x_txid_parse x (x_txid_str x t) = Some t)"

text \<open>How a driver is run on the record of its swap, over the life of the swap: it is spawned on the
  record in memory and stopped anywhere (a crash stops it between two calls), its end is written down
  by \<open>finish_driver_run\<close>, and a restart reads the record from disk. \<open>D r l\<close> says that a driver spawned
  on the record \<open>r\<close> can have the conversation \<open>l\<close>.\<close>

inductive lives ::
  "ext \<Rightarrow> 'c codec \<Rightarrow> uuid \<Rightarrow> ('c swap_record \<Rightarrow> event list \<Rightarrow> bool) \<Rightarrow> 'c store_progress \<Rightarrow> event list
   \<Rightarrow> 'c store_progress \<Rightarrow> bool" for x c i D s where
  admitted: "lives x c i D s [] s"
| run: "lives x c i D s l s1 \<Longrightarrow> D (sp_record s1) (p @ rest) \<Longrightarrow> backed x c i s1 p s2 \<Longrightarrow> lives x c i D s (l @ p) s2"
| finished: "lives x c i D s l s1 \<Longrightarrow> finish_driver_run x c m m' rnd result s1 = (again, s2) \<Longrightarrow> lives x c i D s l s2"
| measured: "lives x c i D s l s1 \<Longrightarrow> lives x c i D s l (measure_funding_fee x c m fee s1)"
| restarted: "lives x c i D s l s1 \<Longrightarrow> contents x c (sp_store s1) i = Some r
    \<Longrightarrow> lives x c i D s l \<lparr>sp_record = r, sp_store = sp_store s1, sp_risk = risk\<rparr>"
| meanwhile: "lives x c i D s l s1 \<Longrightarrow> elsewhere x c i (sp_store s1) d \<Longrightarrow> lives x c i D s l (s1\<lparr>sp_store := d\<rparr>)"

context marker
begin

lemma set_terminal_keeps:
  assumes "codec_ok x c" and "marked_by M x c i s"
  shows "marked_by M x c i (set_terminal x c m state s)"
proof -
  let ?r = "(progressed ((sp_record s)\<lparr>r_state := state\<rparr>))\<lparr>r_updated_at_unix := mo_updated m\<rparr>"
  have "M ?r"
    using assms(2) kept [OF record_change.intros(11)] kept [OF record_change.intros(12)]
      kept [OF record_change.intros(13)] by (simp add: marked_by_def)
  moreover have "r_swap_id ?r = i" using assms(2) by (simp add: marked_by_def progressed_def)
  ultimately show ?thesis
    using put_keeps [OF assms(1), of i "sp_store s" ?r "mo_write m"] assms(2)
    by (auto simp: set_terminal_def mark_terminal_def put_now_def marked_by_def Let_def split: prod.split)
qed

lemma finish_keeps:
  assumes "codec_ok x c" and "marked_by M x c i s"
  shows "marked_by M x c i (snd (finish_driver_run x c m m' rnd result s))"
proof (cases result)
  case (Inl e)
  have "marked_by M x c i (snd (record_failure x c m rnd e (any_is_transient e) s))"
    using try_update_keeps [OF assms(1) record_change.intros(8) assms(2)]
    by (simp add: record_failure_def progress_update_def Let_def)
  with Inl show ?thesis
    by (auto simp: finish_driver_run_def set_terminal_keeps [OF assms(1)] split: prod.split recovery.split)
next
  case (Inr state)
  then show ?thesis
    using try_update_keeps [OF assms(1) record_change.intros(11) assms(2)]
    by (simp add: finish_driver_run_def set_terminal_keeps [OF assms] set_state_def progress_update_def Let_def)
qed

lemma measure_keeps:
  assumes "codec_ok x c" and "marked_by M x c i s"
  shows "marked_by M x c i (measure_funding_fee x c m fee s)"
  using assms(2) try_update_keeps [OF assms(1) record_change.intros(9) assms(2)]
  by (simp add: measure_funding_fee_def progress_update_def split: option.split sum.split)

lemma elsewhere_marked:
  assumes "codec_ok x c" and "marked_by M x c i s" and "elsewhere x c i (sp_store s) d"
  shows "marked_by M x c i (s\<lparr>sp_store := d\<rparr>)"
  using assms(2) elsewhere_keeps [OF assms(1,3)] by (simp add: marked_by_def)

lemma restart_keeps:
  assumes "marked_by M x c i s" and "contents x c (sp_store s) i = Some r"
  shows "marked_by M x c i \<lparr>sp_record = r, sp_store = sp_store s, sp_risk = risk\<rparr>"
  using assms by (auto simp: marked_by_def on_disk_def)

lemma sink_step_keeps:
  assumes "codec_ok x c" "prints_txids x" and "sink_step x c s e s'" and "marked_by M x c i s"
  shows "marked_by M x c i s'"
  using assms(3,4)
proof cases
  case (funded op m)
  have "marked_by M x c i (progress_update x c m ''funding outpoint'' (note_funded x op) s)"
    unfolding progress_update_def
    by (rule try_update_keeps [OF assms(1) record_change.intros(2) assms(4)]) (use assms(2) in \<open>simp add: prints_txids_def\<close>)
  then show ?thesis by (simp add: funded store_funded_def Let_def marked_by_def)
next
  case (intent m tip r)
  then show ?thesis
    using try_update_keeps [OF assms(1) record_change.intros(1) assms(4)] by (metis snd_conv store_funding_intent_def)
next
  case (pay_started m r)
  then show ?thesis
    using try_update_keeps [OF assms(1) record_change.intros(3) assms(4)] by (metis snd_conv store_pay_started_def)
qed (use assms(4) in \<open>simp_all add: store_paid_def store_claim_observed_def store_spend_broadcast_def store_claimable_def
      progress_update_def try_update_keeps [OF assms(1)] record_change.intros\<close>)

text \<open>The record in memory keeps it whether or not a write landed.\<close>

lemma update_memory:
  "record_change x f \<Longrightarrow> M (sp_record s) \<Longrightarrow> M (sp_record (snd (try_update x c m what f s)))"
  by (rule try_update_record) (simp_all add: kept)

lemma sink_step_memory:
  assumes "prints_txids x" and "sink_step x c s e s'" and "M (sp_record s)"
  shows "M (sp_record s')"
  using assms(2)
proof cases
  case (funded op m)
  have "M (sp_record (progress_update x c m ''funding outpoint'' (note_funded x op) s))"
    unfolding progress_update_def
    by (rule update_memory [OF record_change.intros(2) assms(3)]) (use assms(1) in \<open>simp add: prints_txids_def\<close>)
  then show ?thesis by (simp add: funded store_funded_def Let_def)
next
  case (intent m tip r)
  then show ?thesis
    using update_memory [OF record_change.intros(1) assms(3)] by (metis snd_conv store_funding_intent_def)
next
  case (pay_started m r)
  then show ?thesis
    using update_memory [OF record_change.intros(3) assms(3)] by (metis snd_conv store_pay_started_def)
qed (use assms(3) in \<open>simp_all add: store_paid_def store_claim_observed_def store_spend_broadcast_def store_claimable_def
      progress_update_def update_memory record_change.intros\<close>)

lemma backed_memory:
  assumes "prints_txids x" and "backed x c i s l s'" and "M (sp_record s)"
  shows "M (sp_record s')"
  using assms(2,3) by (induction rule: backed.induct) (auto intro: sink_step_memory [OF assms(1)])

lemma backed_keeps:
  assumes "codec_ok x c" "prints_txids x" and "backed x c i s l s'" and "marked_by M x c i s"
  shows "marked_by M x c i s'"
  using assms(3,4)
  by (induction rule: backed.induct) (auto intro: sink_step_keeps [OF assms(1,2)] elsewhere_marked [OF assms(1)])

end

lemma backed_last:
  "backed x c i s l s' \<Longrightarrow> l = a @ [e]
   \<Longrightarrow> \<exists>s1 s2. backed x c i s a s1 \<and> sink_step x c s1 e s2 \<and> backed x c i s2 [] s'"
proof (induction rule: backed.induct)
  case (step l s1 e' s2)
  then show ?case by (auto intro: backed.silent)
next
  case (background l s1 d)
  then obtain sa sb where "backed x c i s a sa" "sink_step x c sa e sb" "backed x c i sb [] s1" by blast
  with background.hyps(2) show ?case by (blast intro: backed.background)
qed simp

subsection \<open>A step that happens at most once in the life of a swap\<close>

text \<open>
  \<open>C\<close> is the event that must not happen twice, \<open>M\<close> the marker that stops a later run. A driver makes
  the event at most once and only when spawned on an unmarked record, and whatever it told the store
  before the event has put the marker in memory and on disk.
\<close>

locale at_most_once = marker x M for x :: ext and M :: "'c swap_record \<Rightarrow> bool" +
  fixes D :: "'c swap_record \<Rightarrow> event list \<Rightarrow> bool" and C :: "event \<Rightarrow> bool"
  assumes unmarked: "D r (before @ e # after) \<Longrightarrow> C e \<Longrightarrow> \<not> M r"
    and single: "D r (before @ e # after) \<Longrightarrow> C e \<Longrightarrow> filter C (before @ after) = []"
    and marks: "D (sp_record s) (before @ e # after) \<Longrightarrow> C e \<Longrightarrow> codec_ok x c \<Longrightarrow> prints_txids x
      \<Longrightarrow> marked_by (\<lambda>_. True) x c i s \<Longrightarrow> backed x c i s before s' \<Longrightarrow> marked_by M x c i s'"
begin

lemma run_once:
  assumes "codec_ok x c" "prints_txids x" and "marked_by (\<lambda>_. True) x c i s"
    and "D (sp_record s) (p @ rest)" and "backed x c i s p s'"
  shows "filter C p = [] \<or> length (filter C p) = 1 \<and> \<not> M (sp_record s) \<and> marked_by M x c i s'"
proof (cases "filter C p")
  case (Cons e es)
  then have "e \<in> set (filter C p)" by simp
  then have "e \<in> set p" and "C e" by simp_all
  from this(1) obtain before after where p: "p = before @ e # after" by (auto simp: in_set_conv_decomp)
  then have d: "D (sp_record s) (before @ e # (after @ rest))" using assms(4) by simp
  obtain sm where front: "backed x c i s before sm" and rest: "backed x c i sm (e # after) s'"
    using backed_split [OF assms(5) p] by blast
  have "marked_by M x c i sm" by (rule marks [OF d \<open>C e\<close> assms(1-3) front])
  with rest have "marked_by M x c i s'" using backed_keeps [OF assms(1,2)] by blast
  with unmarked [OF d \<open>C e\<close>] single [OF d \<open>C e\<close>] \<open>C e\<close> p show ?thesis by simp
qed simp

lemma lives_once:
  assumes "codec_ok x c" "prints_txids x" and "marked_by (\<lambda>_. True) x c i s0" and "lives x c i D s0 l s"
  shows "marked_by (\<lambda>_. True) x c i s \<and>
    (filter C l = [] \<or> length (filter C l) = 1 \<and> marked_by M x c i s)"
  using assms(4)
proof (induction rule: lives.induct)
  case admitted then show ?case using assms(3) by simp
next
  case (run l s1 p rest s2)
  from run.IH have wf: "marked_by (\<lambda>_. True) x c i s1" by simp
  have wf2: "marked_by (\<lambda>_. True) x c i s2" using any.backed_keeps [OF assms(1,2) run.hyps(3) wf] .
  from run_once [OF assms(1,2) wf run.hyps(2,3)] run.IH wf2 backed_keeps [OF assms(1,2) run.hyps(3)]
  show ?case by (auto simp: marked_by_def)
next
  case (finished l s1 m m' rnd result again s2)
  have "s2 = snd (finish_driver_run x c m m' rnd result s1)" using finished.hyps(2) by simp
  with finished.IH finish_keeps [OF assms(1)] any.finish_keeps [OF assms(1)] show ?case by blast
next
  case (measured l s1 m fee)
  with measure_keeps [OF assms(1)] any.measure_keeps [OF assms(1)] show ?case by blast
next
  case (restarted l s1 r risk)
  with restart_keeps [OF _ restarted.hyps(2)] any.restart_keeps [OF _ restarted.hyps(2)] show ?case by blast
next
  case (meanwhile l s1 d)
  with elsewhere_marked [OF assms(1) _ meanwhile.hyps(2)] any.elsewhere_marked [OF assms(1) _ meanwhile.hyps(2)]
  show ?case by blast
qed

end

subsection \<open>A table as encoding\<close>

text \<open>Any finite list of records has an encoding that is sound for it.\<close>

fun index_of :: "'a \<Rightarrow> 'a list \<Rightarrow> nat option" where
  "index_of a [] = None"
| "index_of a (b # bs) = (if a = b then Some 0 else map_option Suc (index_of a bs))"

definition table_codec :: "'c swap_record list \<Rightarrow> 'c codec" where
  "table_codec rs =
     \<lparr>c_encode = (\<lambda>r. case index_of r rs of None \<Rightarrow> Inl ''not in the table'' | Some n \<Rightarrow> Inr (replicate n 0)),
      c_decode = (\<lambda>b. if length b < length rs then Inr (rs ! length b) else Inl ''not in the table'')\<rparr>"

lemma index_of_Some: "index_of a bs = Some n \<Longrightarrow> n < length bs \<and> bs ! n = a"
  by (induction bs arbitrary: n) (auto split: if_splits)

lemma table_codec_ok: "codec_ok sample_ext (table_codec rs)"
  by (auto simp: codec_ok_def table_codec_def sample_ext_def inj_show_u dest: index_of_Some split: option.splits)

lemma sample_prints_txids: "prints_txids sample_ext"
  by (simp add: prints_txids_def sample_ext_def show_u_def read_show_nat)

end
