(* ===== verification/Restart.thy ===== *)
theory Restart
  imports Progress Reverse_Properties Submarine_Properties
begin

text \<open>
  The drivers together with the store, over restarts: what the markers the drivers leave are for.
  However often a driver is stopped, crashes between two calls, is re-entered from memory or resumed
  from disk, a reverse swap is funded once and a submarine invoice paid once.
\<close>

subsection \<open>The markers\<close>

definition fund_marker :: "ext \<Rightarrow> 'c swap_record \<Rightarrow> bool" where
  "fund_marker x r \<longleftrightarrow> may_have_funded (resume_of x r)"

definition attempted :: "'c swap_record \<Rightarrow> bool" where
  "attempted r \<longleftrightarrow> r_invoice_pay_started_at_unix r \<noteq> None"

definition pay_marker :: "ext \<Rightarrow> 'c swap_record \<Rightarrow> bool" where
  "pay_marker x r \<longleftrightarrow> rz_funding (resume_of x r) \<noteq> None \<and> attempted r"

lemmas note_defs = note_intent_def note_funded_def note_pay_started_def note_paid_def note_claim_observed_def
  note_our_spend_def note_claimable_def note_failure_def note_funding_fee_def note_reorg_def progressed_def
  stamp_def Let_def

lemmas marker_defs = fund_marker_def attempted_def pay_marker_def may_have_funded_def resume_of_def
  funding_outpoint_def

lemma fund_marker_kept: "record_change x f \<Longrightarrow> fund_marker x r \<Longrightarrow> fund_marker x (f r)"
  by (induction rule: record_change.induct) (auto simp: note_defs marker_defs)

lemma pay_marker_kept: "record_change x f \<Longrightarrow> pay_marker x r \<Longrightarrow> pay_marker x (f r)"
  by (induction rule: record_change.induct) (auto simp: note_defs marker_defs)

lemma funding_kept: "record_change x f \<Longrightarrow> funding_outpoint x r \<noteq> None \<Longrightarrow> funding_outpoint x (f r) \<noteq> None"
  by (induction rule: record_change.induct) (auto simp: note_defs marker_defs)

subsection \<open>What a driver spawned on a record can say\<close>

definition reverse_logs :: "'e itself \<Rightarrow> ext \<Rightarrow> 'c swap_record \<Rightarrow> event list \<Rightarrow> bool" where
  "reverse_logs T x r l \<longleftrightarrow>
     (\<exists>fuel ln ch wl ck s req poll pg (w :: 'e world) res w'. w_log w = []
        \<and> drive_reverse_swap fuel x ln ch wl ck s req poll (resume_of x r) pg w = (res, w') \<and> w_log w' = l)"

definition submarine_logs :: "'e itself \<Rightarrow> ext \<Rightarrow> 'c swap_record \<Rightarrow> event list \<Rightarrow> bool" where
  "submarine_logs T x r l \<longleftrightarrow>
     (\<exists>fuel ln ch wl ck s req poll pg (w :: 'e world) res w'. w_log w = []
        \<and> drive_submarine_swap fuel x ln ch wl ck s req poll (resume_of x r) (attempted r) pg w = (res, w')
        \<and> w_log w' = l)"

lemma reverse_logsI:
  "w_log w = [] \<Longrightarrow> drive_reverse_swap fuel x ln ch wl ck s req poll z pg w = (res, w') \<Longrightarrow> resume_of x r = z
   \<Longrightarrow> reverse_logs T x r (w_log w')" for T :: "'e itself" and w :: "'e world"
  unfolding reverse_logs_def by blast

lemma submarine_logsI:
  "w_log w = [] \<Longrightarrow> drive_submarine_swap fuel x ln ch wl ck s req poll z att pg w = (res, w')
   \<Longrightarrow> resume_of x r = z \<Longrightarrow> attempted r = att \<Longrightarrow> submarine_logs T x r (w_log w')" for T :: "'e itself" and w :: "'e world"
  unfolding submarine_logs_def by blast

fun is_funding :: "event \<Rightarrow> bool" where
  "is_funding (WFundHtlc _ _ _) = True"
| "is_funding _ = False"

fun is_payment :: "event \<Rightarrow> bool" where
  "is_payment (LnPay _ _ _ _) = True"
| "is_payment _ = False"

lemma reverse_logs_event:
  assumes "reverse_logs T x r (before @ e # after)"
  shows "\<exists>s. reverse_guard x s (resume_of x r) before e"
  using assms reverse_event unfolding reverse_logs_def by metis

lemma submarine_logs_event:
  assumes "submarine_logs T x r (before @ e # after)"
  shows "\<exists>s req. submarine_guard x s (resume_of x r) (attempted r) req before e"
  using assms submarine_event unfolding submarine_logs_def by metis

text \<open>A guard that an event was not there before makes it the only one.\<close>

lemma only_one:
  assumes "\<And>before e after. D (before @ e # after) \<Longrightarrow> C e \<Longrightarrow> list_all (\<lambda>e. \<not> C e) before"
    and "D (before @ e # after)" and "C e"
  shows "filter C (before @ after) = []"
proof -
  have "\<not> C e'" if "e' \<in> set after" for e'
  proof
    assume "C e'"
    from that obtain a b where "after = a @ e' # b" by (auto simp: in_set_conv_decomp)
    then have "D ((before @ e # a) @ e' # b)" using assms(2) by simp
    from assms(1) [OF this \<open>C e'\<close>] assms(3) show False by simp
  qed
  moreover have "list_all (\<lambda>e. \<not> C e) before" using assms by blast
  ultimately show ?thesis by (auto simp: filter_empty_conv list_all_iff)
qed

lemma no_funding_all: "no_funding_call l \<longleftrightarrow> list_all (\<lambda>e. \<not> is_funding e) l"
proof -
  have "is_funding e \<longleftrightarrow> (\<exists>spk v r. e = WFundHtlc spk v r)" for e by (cases e) simp_all
  then show ?thesis by (auto simp: no_funding_call_def list_all_iff)
qed

lemma no_pay_all: "no_pay l \<longleftrightarrow> list_all (\<lambda>e. \<not> is_payment e) l"
proof -
  have "is_payment e \<longleftrightarrow> (\<exists>i f c r. e = LnPay i f c r)" for e by (cases e) simp_all
  then show ?thesis by (auto simp: no_pay_def list_all_iff)
qed

subsection \<open>Funding\<close>

interpretation funding: marker x "fund_marker x" for x
  by unfold_locales (rule fund_marker_kept)

lemma reverse_logs_fund:
  assumes "reverse_logs T x r (before @ e # after)" and "is_funding e"
  shows "\<not> fund_marker x r \<and> list_all (\<lambda>e. \<not> is_funding e) before
    \<and> (\<exists>prior tip. before = prior @ [PFundingIntent tip (Inr ())])"
proof -
  obtain spk v a where e: "e = WFundHtlc spk v a" using assms(2) by (cases e) simp_all
  from reverse_logs_event [OF assms(1)] obtain s where "fund_guard s (resume_of x r) before (WFundHtlc spk v a)"
    by (auto simp: e)
  then have "\<not> may_have_funded (resume_of x r)" "no_funding_call before"
    and "\<exists>p0 a b tip. before = p0 @ [a, b, PFundingIntent tip (Inr ())]"
    unfolding fund_guard_def by (simp_all, blast)
  moreover from this(3) have "\<exists>prior tip. before = prior @ [PFundingIntent tip (Inr ())]"
    by (metis append.assoc append_Cons append_Nil)
  ultimately show ?thesis by (simp add: fund_marker_def no_funding_all)
qed

lemma intent_marks:
  assumes "codec_ok x c" and "prints_txids x" and "marked_by (\<lambda>_. True) x c i s"
    and "backed x c i s (prior @ [PFundingIntent tip (Inr ())]) s'"
  shows "marked_by (fund_marker x) x c i s'"
proof -
  from backed_last [OF assms(4) refl] obtain s1 s2 where b: "backed x c i s prior s1"
    "sink_step x c s1 (PFundingIntent tip (Inr ())) s2" "backed x c i s2 [] s'" by blast
  have wf: "marked_by (\<lambda>_. True) x c i s1" by (rule any.backed_keeps [OF assms(1,2) b(1) assms(3)])
  from b(2) obtain m where "store_funding_intent x c m tip s1 = (Inr (), s2)"
    by (rule intent_stepE) simp_all
  then have "marked_by (fund_marker x) x c i s2"
    unfolding store_funding_intent_def
    by (intro funding.try_update_marks [OF assms(1) record_change.intros(1) wf])
      (simp_all add: note_defs marker_defs)
  then show ?thesis by (rule funding.backed_keeps [OF assms(1,2) b(3)])
qed

interpretation funding: at_most_once x "fund_marker x" "reverse_logs T x" is_funding for x T
proof unfold_locales
  show "\<not> fund_marker x r" if "reverse_logs T x r (before @ e # after)" "is_funding e" for r before e after
    using reverse_logs_fund [OF that] by simp
  show "filter is_funding (before @ after) = []"
    if "reverse_logs T x r (before @ e # after)" "is_funding e" for r before e after
    by (rule only_one [where D = "reverse_logs T x r" and C = is_funding and e = e]) (use reverse_logs_fund that in blast)+
  show "marked_by (fund_marker x) x c i s'"
    if "reverse_logs T x (sp_record s) (before @ e # after)" "is_funding e" "codec_ok x c" "prints_txids x"
      "marked_by (\<lambda>_. True) x c i s" "backed x c i s before s'" for s before e after c i s'
    using reverse_logs_fund [OF that(1,2)] intent_marks [OF that(3-5)] that(6) by blast
qed

subsection \<open>Paying\<close>

interpretation paying: marker x "pay_marker x" for x
  by unfold_locales (rule pay_marker_kept)

interpretation outpoint: marker x "\<lambda>r. funding_outpoint x r \<noteq> None" for x
  by unfold_locales (rule funding_kept)

lemma submarine_logs_pay:
  assumes "submarine_logs T x r (before @ e # after)" and "is_payment e"
  shows "\<not> pay_marker x r \<and> list_all (\<lambda>e. \<not> is_payment e) before
    \<and> (\<exists>op. funding_outpoint x r = Some op \<or> PFunded op \<in> set before)
    \<and> (\<exists>prior. before = prior @ [PPayStarted (Inr ())])"
proof -
  obtain i f l a where e: "e = LnPay i f l a" using assms(2) by (cases e) simp_all
  from submarine_logs_event [OF assms(1)] obtain s req where
    "pay_guard s (resume_of x r) (attempted r) req before (LnPay i f l a)"
    by (auto simp: e submarine_guard_def)
  then have g: "\<not> (rz_funding (resume_of x r) \<noteq> None \<and> attempted r)" "no_pay before"
    "\<exists>op v. seen_funding (resume_of x r) (attempted r) req op v before"
    and "\<exists>p0 a b. before = p0 @ [a, b, PPayStarted (Inr ())]"
    unfolding pay_guard_def by (simp_all, blast)
  from this(4) have "\<exists>prior. before = prior @ [PPayStarted (Inr ())]"
    by (metis append.assoc append_Cons append_Nil)
  moreover from g(3) have "\<exists>op. funding_outpoint x r = Some op \<or> PFunded op \<in> set before"
    by (auto simp: seen_funding_def known_funding_def resume_of_def)
  ultimately show ?thesis using g(1,2) by (simp add: pay_marker_def no_pay_all)
qed

text \<open>Once told of the funding, the record in memory has it.\<close>

lemma funded_memory:
  assumes "prints_txids x" and "sink_step x c s (PFunded op) s'"
  shows "funding_outpoint x (sp_record s') \<noteq> None"
  using assms(2)
proof (rule funded_stepE)
  fix m assume s': "s' = store_funded x c m op s"
  have "funding_outpoint x (sp_record (snd (try_update x c m ''funding outpoint'' (note_funded x op) s))) \<noteq> None"
    by (rule outpoint.try_update_record [OF record_change.intros(2)])
      (use assms(1) in \<open>simp_all add: prints_txids_def funding_outpoint_def note_funded_def\<close>)
  then show ?thesis by (simp add: s' store_funded_def progress_update_def Let_def)
qed

lemma told_of_funding:
  assumes "prints_txids x" and "backed x c i s l s'" and "PFunded op \<in> set l"
  shows "funding_outpoint x (sp_record s') \<noteq> None"
proof -
  from assms(3) obtain a b where "l = a @ PFunded op # b" by (auto simp: in_set_conv_decomp)
  then have "l = (a @ [PFunded op]) @ b" by simp
  from backed_split [OF assms(2) this] obtain sm where
    m: "backed x c i s (a @ [PFunded op]) sm" "backed x c i sm b s'" by blast
  from backed_last [OF m(1) refl] obtain s1 s2 where "sink_step x c s1 (PFunded op) s2" "backed x c i s2 [] sm"
    by blast
  then have "funding_outpoint x (sp_record sm) \<noteq> None"
    using outpoint.backed_memory [OF assms(1)] funded_memory [OF assms(1)] by blast
  then show ?thesis by (rule outpoint.backed_memory [OF assms(1) m(2)])
qed

lemma pay_start_marks:
  assumes "codec_ok x c" and "prints_txids x" and "marked_by (\<lambda>_. True) x c i s"
    and "backed x c i s (prior @ [PPayStarted (Inr ())]) s'"
    and "funding_outpoint x (sp_record s) = Some op \<or> PFunded op \<in> set prior"
  shows "marked_by (pay_marker x) x c i s'"
proof -
  from backed_last [OF assms(4) refl] obtain s1 s2 where b: "backed x c i s prior s1"
    "sink_step x c s1 (PPayStarted (Inr ())) s2" "backed x c i s2 [] s'" by blast
  have wf: "marked_by (\<lambda>_. True) x c i s1" by (rule any.backed_keeps [OF assms(1,2) b(1) assms(3)])
  have "funding_outpoint x (sp_record s1) \<noteq> None"
    using assms(5) told_of_funding [OF assms(2) b(1)] outpoint.backed_memory [OF assms(2) b(1)] by auto
  then have m: "pay_marker x (note_pay_started at (sp_record s1))" for at
    by (auto simp: note_defs marker_defs)
  from b(2) obtain m where "store_pay_started x c m s1 = (Inr (), s2)"
    by (rule pay_stepE) simp_all
  then have "marked_by (pay_marker x) x c i s2"
    unfolding store_pay_started_def
    by (intro paying.try_update_marks [OF assms(1) record_change.intros(3) wf m])
  then show ?thesis by (rule paying.backed_keeps [OF assms(1,2) b(3)])
qed

interpretation paying: at_most_once x "pay_marker x" "submarine_logs T x" is_payment for x T
proof unfold_locales
  show "\<not> pay_marker x r" if "submarine_logs T x r (before @ e # after)" "is_payment e" for r before e after
    using submarine_logs_pay [OF that] by simp
  show "filter is_payment (before @ after) = []"
    if "submarine_logs T x r (before @ e # after)" "is_payment e" for r before e after
    by (rule only_one [where D = "submarine_logs T x r" and C = is_payment and e = e]) (use submarine_logs_pay that in blast)+
  show "marked_by (pay_marker x) x c i s'"
    if d: "submarine_logs T x (sp_record s) (before @ e # after)" "is_payment e" and "codec_ok x c" "prints_txids x"
      "marked_by (\<lambda>_. True) x c i s" and b: "backed x c i s before s'" for s before e after c i s'
  proof -
    from submarine_logs_pay [OF d] obtain op prior where
      o: "funding_outpoint x (sp_record s) = Some op \<or> PFunded op \<in> set before"
      and p: "before = prior @ [PPayStarted (Inr ())]" by blast
    show ?thesis
      by (rule pay_start_marks [OF that(3-5) b [unfolded p], of op]) (use o p in auto)
  qed
qed

subsection \<open>Answering a conversation from the store\<close>

fun answered :: "ext \<Rightarrow> 'c codec \<Rightarrow> moment \<Rightarrow> event \<Rightarrow> 'c store_progress \<Rightarrow> 'c store_progress option" where
  "answered x c m (PFundingIntent tip r) s =
     (case store_funding_intent x c m tip s of (r', s') \<Rightarrow> if r' = r then Some s' else None)"
| "answered x c m (PFunded op) s = Some (store_funded x c m op s)"
| "answered x c m (PPayStarted r) s =
     (case store_pay_started x c m s of (r', s') \<Rightarrow> if r' = r then Some s' else None)"
| "answered x c m PInvoicePaid s = Some (store_paid x c m s)"
| "answered x c m (PClaimObserved t) s = Some (store_claim_observed x c m t s)"
| "answered x c m (PSpendBroadcast t) s = Some (store_spend_broadcast x c m t s)"
| "answered x c m (PWantsClaimable b) s = (if b = store_wants_claimable s then Some s else None)"
| "answered x c m (PClaimable op) s = Some (store_claimable x c m s)"
| "answered x c m e s = Some s"

fun replayed :: "ext \<Rightarrow> 'c codec \<Rightarrow> moment \<Rightarrow> event list \<Rightarrow> 'c store_progress \<Rightarrow> 'c store_progress option" where
  "replayed x c m [] s = Some s"
| "replayed x c m (e # es) s = Option.bind (answered x c m e s) (replayed x c m es)"

lemma answered_step: "answered x c m e s = Some s' \<Longrightarrow> sink_step x c s e s'"
  by (cases e) (auto intro: sink_step.intros split: prod.splits if_splits)

lemma replayed_backed:
  "backed x c i s0 p s \<Longrightarrow> replayed x c m l s = Some s' \<Longrightarrow> backed x c i s0 (p @ l) s'"
proof (induction l arbitrary: p s)
  case (Cons e l)
  then obtain s1 where "answered x c m e s = Some s1" "replayed x c m l s1 = Some s'"
    by (auto simp: Option.bind_eq_Some_conv)
  from Cons.IH [OF backed.step [OF Cons.prems(1) answered_step [OF this(1)]] this(2)] show ?case by simp
qed simp

lemma one_life:
  assumes "D (sp_record s) l" and "replayed x c m l s = Some s'"
  shows "lives x c i D s l s'"
proof -
  have "backed x c i s l s'" using replayed_backed [OF backed.silent assms(2)] by simp
  from lives.run [OF lives.admitted _ this, of D "[]"] assms(1) show ?thesis by simp
qed

lemma hint_kept:
  "r_claimable_hint (f (sp_record s)) = r_claimable_hint (sp_record s)
   \<Longrightarrow> r_claimable_hint (sp_record (progress_update x c m what f s)) = r_claimable_hint (sp_record s)"
  by (simp add: progress_update_def try_update_def Let_def progressed_def split: prod.split)

subsection \<open>Properties\<close>

text \<open>C1: A reverse swap is funded at most once in its whole life, over any number of driver runs: a
  driver may be stopped between any two calls, re-entered on the record in memory or resumed after a
  crash on whatever the disk holds; writes may fail anywhere; other swaps, the reorg monitor and the
  pruner may touch the directory in between. Once the funding call was made, the record in memory and
  the one on disk, as long as there is one, say that the swap may have been funded.\<close>

theorem reverse_funded_once_across_restarts:
  assumes "codec_ok x c" and "prints_txids x" and "marked_by (\<lambda>_. True) x c i s0"
    and "lives x c i (reverse_logs T x) s0 l s"
  shows "length (filter is_funding l) \<le> 1
    \<and> (filter is_funding l = [] \<or> may_have_funded (resume_of x (sp_record s))
        \<and> (case contents x c (sp_store s) i of None \<Rightarrow> True | Some r \<Rightarrow> may_have_funded (resume_of x r)))"
  using funding.lives_once [OF assms]
  by (auto simp: marked_by_def on_disk_def fund_marker_def split: option.split)

definition fresh_reverse :: "unit store_progress" where
  "fresh_reverse = \<lparr>sp_record = marked None, sp_store = [], sp_risk = None\<rparr>"

definition at_nine :: moment where
  "at_nine = \<lparr>mo_event = 9, mo_updated = 9, mo_write = calm\<rparr>"

definition intent_codec :: "unit codec" where
  "intent_codec = table_codec [(progressed (note_intent 100 (marked None)))\<lparr>r_updated_at_unix := 9\<rparr>]"

lemma fresh_reverse_wf: "marked_by (\<lambda>_. True) sample_ext c 0 fresh_reverse"
  by (simp add: marked_by_def on_disk_def fresh_reverse_def unique_names_def marked_def new_progress_def
      contents_def existing_record_def store_get_def lookup_file_def)

lemma intent_written: "fst (store_funding_intent sample_ext intent_codec at_nine 100 fresh_reverse) = Inr ()"
  by (simp add: store_funding_intent_def try_update_def put_now_def store_put_def persist_record_def Let_def
      at_nine_def calm_def fresh_reverse_def marked_def new_progress_def note_intent_def progressed_def stamp_def
      intent_codec_def table_codec_def existing_record_def store_get_def lookup_file_def)

lemma fresh_reverse_hint: "r_claimable_hint (sp_record (snd (store_funding_intent x c m tip fresh_reverse))) = False"
  using hint_kept [of "note_intent tip" fresh_reverse x c m]
  by (simp add: store_funding_intent_def progress_update_def note_intent_def fresh_reverse_def marked_def new_progress_def)

lemma fresh_reverse_resume: "resume_of sample_ext (sp_record fresh_reverse) = default_resume"
  by (simp add: fresh_reverse_def marked_def new_progress_def resume_of_def default_resume_def funding_outpoint_def
      our_spends_def List.map_filter_def)

theorem reverse_funded_once_across_restarts_witness:
  "length (filter is_funding (w_log (snd (reverse_start claimed_mock default_resume)))) \<le> 1"
proof -
  let ?l = "w_log (snd (reverse_start claimed_mock default_resume))"
  have d: "reverse_logs TYPE(mock_chain) sample_ext (sp_record fresh_reverse) ?l"
    by (rule reverse_logsI [OF _ reverse_sample_eq fresh_reverse_resume]) simp
  obtain s1 where i: "store_funding_intent sample_ext intent_codec at_nine 100 fresh_reverse = (Inr (), s1)"
    using intent_written by (metis prod.collapse)
  then have "r_claimable_hint (sp_record s1) = False"
    using fresh_reverse_hint [of sample_ext intent_codec at_nine 100] by simp
  then have "r_claimable_hint (sp_record (store_funded sample_ext intent_codec at_nine sample_op s1)) = False"
    by (simp add: store_funded_def Let_def hint_kept note_funded_def)
  then have "replayed sample_ext intent_codec at_nine ?l fresh_reverse \<noteq> None"
    by (simp add: reverse_sample_log i store_wants_claimable_def)
  then obtain s' where "replayed sample_ext intent_codec at_nine ?l fresh_reverse = Some s'" by blast
  from reverse_funded_once_across_restarts [OF _ sample_prints_txids fresh_reverse_wf one_life [where D = "reverse_logs TYPE(mock_chain) sample_ext", OF d this]]
  show ?thesis by (simp add: intent_codec_def table_codec_ok)
qed

text \<open>C2: A submarine swap's invoice is paid at most once in its whole life, over any number of driver
  runs: a driver may be stopped between any two calls, re-entered on the record in memory or resumed
  after a crash on whatever the disk holds, with writes failing anywhere and the rest of the daemon
  touching the directory in between. Once the payment call was made, the record in memory and the one
  on disk, as long as there is one, name the funding and say that a payment was started.\<close>

theorem submarine_paid_once_across_restarts:
  assumes "codec_ok x c" and "prints_txids x" and "marked_by (\<lambda>_. True) x c i s0"
    and "lives x c i (submarine_logs T x) s0 l s"
  shows "length (filter is_payment l) \<le> 1
    \<and> (filter is_payment l = [] \<or> pay_marker x (sp_record s)
        \<and> (case contents x c (sp_store s) i of None \<Rightarrow> True | Some r \<Rightarrow> pay_marker x r))"
  using paying.lives_once [OF assms]
  by (auto simp: marked_by_def on_disk_def split: option.split)

definition pay_codec :: "unit codec" where
  "pay_codec = table_codec
     [(progressed (note_pay_started 9 ((progressed (note_funded sample_ext sample_op (marked None)))
        \<lparr>r_updated_at_unix := 9\<rparr>)))\<lparr>r_updated_at_unix := 9\<rparr>]"

lemma funding_noted:
  "store_funded x c m op fresh_reverse = \<lparr>sp_record = (progressed (note_funded x op (marked None)))\<lparr>r_updated_at_unix := mo_updated m\<rparr>,
      sp_store = sp_store (store_funded x c m op fresh_reverse), sp_risk = None\<rparr>"
  by (simp add: store_funded_def progress_update_def try_update_def Let_def fresh_reverse_def
      note_funded_def marked_def new_progress_def split: prod.split)

lemma funding_not_written: "sp_store (store_funded sample_ext pay_codec at_nine sample_op fresh_reverse) = []"
  by (simp add: store_funded_def progress_update_def try_update_def put_now_def store_put_def persist_record_def Let_def
      at_nine_def calm_def fresh_reverse_def marked_def new_progress_def note_funded_def note_pay_started_def
      progressed_def stamp_def pay_codec_def table_codec_def existing_record_def store_get_def lookup_file_def)

lemma pay_start_written:
  "fst (store_pay_started sample_ext pay_codec at_nine (store_funded sample_ext pay_codec at_nine sample_op fresh_reverse)) = Inr ()"
  by (subst funding_noted)
    (simp add: funding_not_written store_pay_started_def try_update_def put_now_def store_put_def persist_record_def Let_def
      at_nine_def calm_def marked_def new_progress_def note_funded_def note_pay_started_def
      progressed_def stamp_def pay_codec_def table_codec_def existing_record_def store_get_def lookup_file_def)

theorem submarine_paid_once_across_restarts_witness:
  "length (filter is_payment (w_log (snd (submarine_start funded_mock default_resume False)))) \<le> 1"
proof -
  let ?l = "w_log (snd (submarine_start funded_mock default_resume False))"
  have not_yet: "attempted (sp_record fresh_reverse) = False"
    by (simp add: attempted_def fresh_reverse_def marked_def new_progress_def)
  have d: "submarine_logs TYPE(mock_chain) sample_ext (sp_record fresh_reverse) ?l"
    by (rule submarine_logsI [OF _ submarine_sample_eq fresh_reverse_resume not_yet]) simp
  obtain s2 where p: "store_pay_started sample_ext pay_codec at_nine
      (store_funded sample_ext pay_codec at_nine sample_op fresh_reverse) = (Inr (), s2)"
    using pay_start_written by (metis prod.collapse)
  then have "replayed sample_ext pay_codec at_nine ?l fresh_reverse \<noteq> None"
    by (simp add: submarine_sample_log)
  then obtain s' where "replayed sample_ext pay_codec at_nine ?l fresh_reverse = Some s'" by blast
  from submarine_paid_once_across_restarts [OF _ sample_prints_txids fresh_reverse_wf one_life [where D = "submarine_logs TYPE(mock_chain) sample_ext", OF d this]]
  show ?thesis by (simp add: pay_codec_def table_codec_ok)
qed

subsection \<open>What the other tasks can and cannot tell a driver\<close>

lemma landed_write:
  assumes "codec_ok x c" and "try_update x c m what f s = (Inr u, s')"
    and "\<And>r. r_swap_id (f r) = r_swap_id r" and "\<And>r. r_reorg_seen_at_height (f r) = r_reorg_seen_at_height r"
  shows "\<exists>r. contents x c (sp_store s') (r_swap_id (sp_record s)) = Some r
    \<and> r_reorg_seen_at_height r = r_reorg_seen_at_height (sp_record s)"
proof -
  obtain v where p: "persist_record x c (at_unix (mo_write m)) (at_pid (mo_write m)) (at_seq (mo_write m))
      (at_fault (mo_write m)) (sp_record s') (sp_store s) = (Inr v, sp_store s')"
    using assms(2) by (auto simp: try_update_def Let_def put_now_def store_put_def map_err_def split: prod.splits sum.splits)
  have "r_swap_id (sp_record s') = r_swap_id (sp_record s)"
    "r_reorg_seen_at_height (sp_record s') = r_reorg_seen_at_height (sp_record s)"
    using assms(2) by (auto simp: try_update_def Let_def progressed_def assms(3,4) split: prod.splits if_splits)
  then show ?thesis
    using contents_put_ok [OF assms(1) p] by (auto simp: stamp_def split: if_splits)
qed

text \<open>The reorg marker does not reach a running driver and does not survive one: the monitor writes
  it through the store, but the driver works on its own copy of the record, so the next write of that
  driver that lands puts a record without the marker back on disk.\<close>

theorem reorg_marker_is_overwritten:
  assumes "codec_ok x c" and "r_reorg_seen_at_height (sp_record s) = None"
    and "s1 = s\<lparr>sp_store := react_to_reorg x c marks fork (sp_store s)\<rparr>"
    and "try_update x c m ''observed claim'' (note_claim_observed x t) s1 = (Inr u, s2)"
  shows "\<exists>r. contents x c (sp_store s2) (r_swap_id (sp_record s)) = Some r \<and> r_reorg_seen_at_height r = None"
  using landed_write [OF assms(1,4)] assms(2,3) by (simp add: note_claim_observed_def)

definition reorg_codec :: "unit codec" where
  "reorg_codec = table_codec [marked None, note_reorg 5 9 (marked None),
     (progressed (note_claim_observed sample_ext 7 (marked None)))\<lparr>r_updated_at_unix := 9\<rparr>]"

definition stored_swap :: dir where
  "stored_swap = [\<lparr>f_name = path_for sample_ext 0, f_bytes = [], f_readable = True, f_age = None, f_removable = True\<rparr>]"

lemma reorg_written:
  "fst (try_update sample_ext reorg_codec at_nine ''observed claim'' (note_claim_observed sample_ext 7)
     (fresh_reverse\<lparr>sp_store := react_to_reorg sample_ext reorg_codec (\<lambda>_. at_nine) 5 stored_swap\<rparr>)) = Inr ()"
  by (simp add: try_update_def put_now_def store_put_def persist_record_def Let_def
      at_nine_def calm_def fresh_reverse_def marked_def new_progress_def note_claim_observed_def note_reorg_def
      progressed_def stamp_def reorg_codec_def table_codec_def split: prod.split)

theorem reorg_marker_is_overwritten_witness:
  "\<exists>r. contents sample_ext reorg_codec (sp_store (snd (try_update sample_ext reorg_codec at_nine ''observed claim''
      (note_claim_observed sample_ext 7)
      (fresh_reverse\<lparr>sp_store := react_to_reorg sample_ext reorg_codec (\<lambda>_. at_nine) 5 stored_swap\<rparr>)))) 0 = Some r
     \<and> r_reorg_seen_at_height r = None"
proof -
  let ?s = "fresh_reverse\<lparr>sp_store := stored_swap\<rparr>"
  let ?s1 = "fresh_reverse\<lparr>sp_store := react_to_reorg sample_ext reorg_codec (\<lambda>_. at_nine) 5 stored_swap\<rparr>"
  let ?u = "try_update sample_ext reorg_codec at_nine ''observed claim'' (note_claim_observed sample_ext 7) ?s1"
  have u: "?u = (Inr (), snd ?u)" using reorg_written by (simp add: prod_eq_iff)
  have "r_reorg_seen_at_height (sp_record ?s) = None" "r_swap_id (sp_record ?s) = 0"
    by (simp_all add: fresh_reverse_def marked_def new_progress_def)
  with reorg_marker_is_overwritten [OF _ _ _ u, of ?s "\<lambda>_. at_nine" 5] show ?thesis
    by (simp add: reorg_codec_def table_codec_ok)
qed

text \<open>C13: One error from the Lightning node while a reverse swap waits for its payment ends the swap:
  the error never counts as transient, so with nothing committed the run is not retried, the record
  says failed, and the hold invoice the client may be paying is left open.\<close>

theorem lightning_error_abandons_a_waiting_swap:
  assumes "may_have_funded z = False" and "fst (ln_invoice_status ln (rv_payment_hash s) e) = Inl err"
    and "funds_at_risk x (sp_record sp) = False"
  shows "case drive_reverse_swap (Suc n) x ln ch wl ck s req poll z pg \<lparr>w_env = e, w_log = []\<rparr> of
      (res, w) \<Rightarrow> \<exists>msg. res = Some (Inl (AnyMsg msg)) \<and> w_log w = [LnInvoiceState (rv_payment_hash s) (Inl err)]
        \<and> (case finish_driver_run x c m m' rnd (Inl (AnyMsg msg)) sp of
             (again, sp') \<Rightarrow> again = None \<and> r_state (sp_record sp') = Failed msg)"
proof -
  obtain e' where l: "ln_invoice_status ln (rv_payment_hash s) e = (Inl err, e')"
    using assms(2) by (cases "ln_invoice_status ln (rv_payment_hash s) e") simp
  have "funds_at_risk x (r\<lparr>r_last_error := a, r_retry_count := b\<rparr>) = funds_at_risk x r" for a b and r :: "'b swap_record"
    by (simp add: funds_at_risk_def we_fund_onchain_def funding_outpoint_def)
  with assms(3) have risk: "funds_at_risk x ((sp_record sp)\<lparr>r_last_error := a, r_retry_count := b\<rparr>) = False" for a b
    by simp
  show ?thesis
    using assms(1)
    by (simp add: drive_reverse_swap_def tryb_def trym_def bnd_def ret_def invoice_state_def call_def l
        finish_driver_run_def record_failure_def note_failure_def any_is_transient_def after_failure_def risk
        set_terminal_def progressed_def Let_def split: prod.split)
qed

text \<open>A node that cannot be reached.\<close>

definition silent_node :: "'e lightning_backend" where
  "silent_node = paid_node\<lparr>ln_invoice_status := (\<lambda>_ e. (Inl (LnBackend ''connection refused''), e))\<rparr>"

theorem lightning_error_abandons_a_waiting_swap_witness:
  "case drive_reverse_swap (Suc 0) sample_ext silent_node (mock_watcher sample_ext) sample_wallet frozen_clock
      sample_reverse 1 1000 default_resume null_progress \<lparr>w_env = claimed_mock, w_log = []\<rparr> of
      (res, w) \<Rightarrow> \<exists>msg. res = Some (Inl (AnyMsg msg))
        \<and> w_log w = [LnInvoiceState (replicate 32 7) (Inl (LnBackend ''connection refused''))]
        \<and> (case finish_driver_run sample_ext intent_codec at_nine at_nine 5 (Inl (AnyMsg msg)) fresh_reverse of
             (again, sp') \<Rightarrow> again = None \<and> r_state (sp_record sp') = Failed msg)"
proof -
  have "may_have_funded default_resume = False" by (simp add: may_have_funded_def default_resume_def)
  moreover have "fst (ln_invoice_status silent_node (rv_payment_hash sample_reverse) claimed_mock)
      = Inl (LnBackend ''connection refused'')" by (simp add: silent_node_def)
  moreover have "funds_at_risk sample_ext (sp_record fresh_reverse) = False"
    by (simp add: fresh_reverse_def marked_def new_progress_def funds_at_risk_def we_fund_onchain_def funding_outpoint_def)
  ultimately show ?thesis
    using lightning_error_abandons_a_waiting_swap [where z = default_resume and ln = silent_node and
        s = sample_reverse and e = claimed_mock and x = sample_ext and sp = fresh_reverse and n = 0 and
        ch = "mock_watcher sample_ext" and wl = sample_wallet and ck = frozen_clock and req = 1 and poll = 1000 and
        pg = null_progress and c = intent_codec and m = at_nine and m' = at_nine and rnd = 5]
    by (simp add: sample_reverse_def)
qed

end
