(* ===== verification/Identity.thy ===== *)
theory Identity
  imports Externals
begin

text \<open>
  Who a message is from, as strings: \<open>same_pubky\<close> and \<open>canonical_pubky\<close> of
  \<open>pubky-transport/src/lib.rs\<close>, and the functions of the pkarr, secp256k1 and uuid crates the
  provider calls beside those of \<open>ext\<close>. White space is the ASCII one.
\<close>

record provider_ext =
  px_pubky :: "string \<Rightarrow> bytes option"
  px_pubky_str :: "bytes \<Rightarrow> string"
  px_uuid_parse :: "string \<Rightarrow> uuid option"
  px_public_key :: "secret_key \<Rightarrow> pubkey"
  px_pubkey_from_slice :: "bytes \<Rightarrow> string + pubkey"
  px_pubkey_bytes :: "pubkey \<Rightarrow> bytes"

definition same_pubky :: "(string \<Rightarrow> bytes option) \<Rightarrow> string \<Rightarrow> string \<Rightarrow> bool" where
  "same_pubky parse a b \<longleftrightarrow> a = b \<or> (case (parse a, parse b) of (Some k, Some l) \<Rightarrow> k = l | _ \<Rightarrow> False)"

definition is_white :: "char \<Rightarrow> bool" where
  "is_white ch \<longleftrightarrow> (of_char ch :: nat) \<in> {9, 10, 11, 12, 13, 32}"

definition trim_end :: "(char \<Rightarrow> bool) \<Rightarrow> string \<Rightarrow> string" where
  "trim_end p s = rev (dropWhile p (rev s))"

definition trim_white :: "string \<Rightarrow> string" where
  "trim_white s = trim_end is_white (dropWhile is_white s)"

fun strip_prefix :: "string \<Rightarrow> string \<Rightarrow> string option" where
  "strip_prefix [] s = Some s"
| "strip_prefix (p # ps) [] = None"
| "strip_prefix (p # ps) (c # s) = (if p = c then strip_prefix ps s else None)"

definition canonical_pubky :: "provider_ext \<Rightarrow> string \<Rightarrow> string option" where
  "canonical_pubky px value =
     (let value = trim_end (\<lambda>ch. ch = CHR ''/'') (trim_white value);
          key = (if length value = 52 then value
                 else unwrap_or (opt_or (strip_prefix ''pubky://'' value) (opt_or (strip_prefix ''pubky:'' value)
                        (opt_or (strip_prefix ''pubky'' value) (strip_prefix ''pk:'' value)))) value)
      in if length key \<noteq> 52 then None else map_option (px_pubky_str px) (px_pubky px key))"

lemma strip_prefix_Some: "strip_prefix p s = Some t \<longleftrightarrow> s = p @ t"
  by (induction p s rule: strip_prefix.induct) auto

lemma same_pubky_refl [simp]: "same_pubky parse a a"
  by (simp add: same_pubky_def)

lemma same_pubky_sym: "same_pubky parse a b \<longleftrightarrow> same_pubky parse b a"
  by (auto simp: same_pubky_def split: option.split)

lemma same_pubky_trans: "same_pubky parse a b \<Longrightarrow> same_pubky parse b c \<Longrightarrow> same_pubky parse a c"
  by (auto simp: same_pubky_def split: option.splits)

end
