(* ===== verification/Quotes.thy ===== *)
theory Quotes
  imports Identity Refusals Store "HOL-Library.AList"
begin

text \<open>
  Quotes the provider has issued and not yet seen redeemed or expire: \<open>QuoteBook\<close>,
  \<open>take_valid_quote\<close> of \<open>swap-provider/src/lib.rs\<close>. The maps are association lists
  with distinct keys. Parsing a key is the pkarr library's and a
  parameter.
\<close>

record issued_quote =
  iq_peer :: string
  iq_direction :: swap_direction
  iq_amount_sat :: u64
  iq_fee_sat :: u64
  iq_service_fee_sat :: u64
  iq_onchain_fee_sat :: u64
  iq_expires_at_unix :: u64
  iq_claimable_hint :: bool

definition signed_quote :: "string \<Rightarrow> quote \<Rightarrow> bool \<Rightarrow> issued_quote" where
  "signed_quote peer q claimable_hint =
     \<lparr>iq_peer = peer, iq_direction = q_direction q, iq_amount_sat = q_amount_sat q, iq_fee_sat = q_fee_sat q,
      iq_service_fee_sat = q_service_fee_sat q, iq_onchain_fee_sat = q_onchain_fee_sat q,
      iq_expires_at_unix = q_valid_until_unix q, iq_claimable_hint = claimable_hint\<rparr>"

record quote_book =
  qb_quotes :: "(uuid \<times> issued_quote) list"
  qb_order :: "uuid list"
  qb_redeemed :: "(uuid \<times> u64) list"

definition default_quote_book :: quote_book where
  "default_quote_book = \<lparr>qb_quotes = [], qb_order = [], qb_redeemed = []\<rparr>"

definition MAX_TRACKED_QUOTES :: nat where "MAX_TRACKED_QUOTES = 10000"

definition live_until :: "u64 \<Rightarrow> u64 \<Rightarrow> bool" where
  "live_until at expires \<longleftrightarrow> expires = 0 \<or> at < expires"

definition quotes_prune :: "u64 \<Rightarrow> quote_book \<Rightarrow> quote_book" where
  "quotes_prune at b =
     b\<lparr>qb_quotes := filter (\<lambda>(_, q). live_until at (iq_expires_at_unix q)) (qb_quotes b),
       qb_redeemed := filter (\<lambda>(_, expires). live_until at expires) (qb_redeemed b)\<rparr>"

definition quotes_holds :: "uuid \<Rightarrow> quote_book \<Rightarrow> bool" where
  "quotes_holds i b \<longleftrightarrow> map_of (qb_quotes b) i \<noteq> None"

text \<open>The eviction loop: the oldest ids are popped until there is room.\<close>

fun evict :: "uuid list \<Rightarrow> (uuid \<times> issued_quote) list \<Rightarrow> uuid list \<times> (uuid \<times> issued_quote) list" where
  "evict [] quotes = ([], quotes)"
| "evict (oldest # order) quotes =
     (if length quotes \<ge> MAX_TRACKED_QUOTES then evict order (AList.delete oldest quotes)
      else (oldest # order, quotes))"

definition quotes_insert :: "uuid \<Rightarrow> issued_quote \<Rightarrow> u64 \<Rightarrow> quote_book \<Rightarrow> quote_book" where
  "quotes_insert i q at b =
     (let b = quotes_prune at b;
          order = (if length (qb_order b) \<ge> 2 * MAX_TRACKED_QUOTES
                   then filter (\<lambda>j. map_of (qb_quotes b) j \<noteq> None) (qb_order b) else qb_order b);
          (order, quotes) = evict order (qb_quotes b)
      in b\<lparr>qb_quotes := AList.update i q quotes, qb_order := order @ [i]\<rparr>)"

definition quotes_restore :: "uuid \<Rightarrow> issued_quote \<Rightarrow> u64 \<Rightarrow> quote_book \<Rightarrow> bool \<times> quote_book" where
  "quotes_restore i q at b =
     (let b = quotes_prune at b
      in if map_of (qb_quotes b) i \<noteq> None \<or> map_of (qb_redeemed b) i \<noteq> None then (False, b)
         else (True, quotes_insert i q at b))"

definition take_valid_quote ::
  "ext \<Rightarrow> (string \<Rightarrow> bytes option) \<Rightarrow> u64 \<Rightarrow> uuid \<Rightarrow> string \<Rightarrow> swap_direction \<Rightarrow> quote_book
   \<Rightarrow> (handler_error + issued_quote) \<times> quote_book" where
  "take_valid_quote x parse at i peer direction b =
     (let b = quotes_prune at b
      in case map_of (qb_quotes b) i of
           None \<Rightarrow> (Inl (Refusal RcQuoteExpired ''unknown or expired quote''), b)
         | Some q \<Rightarrow>
             if \<not> same_pubky parse (iq_peer q) peer
             then (Inl (Refusal RcInvalidRequest
                     (''quote '' @ x_uuid_str x i @ '' was not issued to '' @ peer)), b)
             else if iq_direction q \<noteq> direction
             then (Inl (Refusal RcInvalidRequest (''quote '' @ x_uuid_str x i @ '' is not for a ''
                     @ (case direction of Submarine \<Rightarrow> ''Submarine'' | Reverse \<Rightarrow> ''Reverse'') @ '' swap'')), b)
             else (Inr q, b\<lparr>qb_quotes := AList.delete i (qb_quotes b),
                            qb_redeemed := AList.update i (iq_expires_at_unix q) (qb_redeemed b)\<rparr>))"

subsection \<open>The book as a map with an age\<close>

text \<open>The ids held, oldest first.\<close>

definition live_ids :: "quote_book \<Rightarrow> uuid list" where
  "live_ids b = filter (\<lambda>i. i \<in> fst ` set (qb_quotes b)) (qb_order b)"

definition book_ok :: "quote_book \<Rightarrow> bool" where
  "book_ok b \<longleftrightarrow> distinct (map fst (qb_quotes b)) \<and> distinct (map fst (qb_redeemed b)) \<and>
     distinct (live_ids b) \<and> set (live_ids b) = fst ` set (qb_quotes b)"

lemma map_of_filter_snd:
  "distinct (map fst xs) \<Longrightarrow>
   map_of (filter (\<lambda>(_, v). P v) xs) k = (case map_of xs k of None \<Rightarrow> None | Some v \<Rightarrow> if P v then Some v else None)"
  by (induction xs) (auto simp: map_of_eq_None_iff split: option.split)

lemma map_of_filter_fst:
  "k \<in> fst ` set (filter (\<lambda>(i, _). P i) xs) \<Longrightarrow> map_of (filter (\<lambda>(i, _). P i) xs) k = map_of xs k"
  by (induction xs) (auto split: if_splits)

lemma keys_filter_subset: "fst ` set (filter P xs) \<subseteq> fst ` set xs"
  by auto

lemma distinct_keys_filter: "distinct (map fst xs) \<Longrightarrow> distinct (map fst (filter P xs))"
  by (simp add: distinct_map_filter)

lemma book_ok_length: "book_ok b \<Longrightarrow> length (live_ids b) = length (qb_quotes b)"
  by (metis book_ok_def distinct_card length_map list.set_map)

lemma live_ids_sub:
  assumes "fst ` set (qb_quotes b') \<subseteq> fst ` set (qb_quotes b)" and "qb_order b' = qb_order b"
  shows "live_ids b' = filter (\<lambda>i. i \<in> fst ` set (qb_quotes b')) (live_ids b)"
  using assms by (auto simp: live_ids_def intro!: filter_cong)

lemma book_ok_sub:
  assumes "book_ok b" "fst ` set (qb_quotes b') \<subseteq> fst ` set (qb_quotes b)" "qb_order b' = qb_order b"
    "distinct (map fst (qb_quotes b'))" "distinct (map fst (qb_redeemed b'))"
  shows "book_ok b'"
  using assms by (auto simp: book_ok_def live_ids_sub [OF assms(2,3)])

lemma book_ok_prune: "book_ok b \<Longrightarrow> book_ok (quotes_prune at b)"
  by (rule book_ok_sub) (auto simp: quotes_prune_def book_ok_def distinct_keys_filter)

lemma delete_keys_image: "fst ` set (AList.delete k xs) = fst ` set xs - {k}"
  by (induction xs) auto

lemma distinct_keys_delete: "distinct (map fst xs) \<Longrightarrow> distinct (map fst (AList.delete k xs))"
  by (induction xs) (auto simp: delete_keys_image)

lemma book_ok_take:
  assumes "book_ok b"
  shows "book_ok (snd (take_valid_quote x parse at i peer direction b))"
proof -
  have p: "book_ok (quotes_prune at b)" using assms by (rule book_ok_prune)
  then have "book_ok ((quotes_prune at b)\<lparr>qb_quotes := AList.delete i (qb_quotes (quotes_prune at b)),
      qb_redeemed := AList.update i e (qb_redeemed (quotes_prune at b))\<rparr>)" for e
    by (rule book_ok_sub) (use p in \<open>auto simp: book_ok_def delete_keys_image distinct_keys_delete distinct_update\<close>)
  with p show ?thesis by (auto simp: take_valid_quote_def Let_def split: option.split)
qed

lemma length_delete_keys:
  "distinct (map fst xs) \<Longrightarrow> length (AList.delete k xs) = (if k \<in> fst ` set xs then length xs - 1 else length xs)"
proof (induction xs)
  case (Cons a xs)
  then show ?case
    by (cases "fst a = k") (auto simp: delete_idem Suc_diff_le dest: length_pos_if_in_set)
qed simp

text \<open>The eviction loop drops from the front of the live ids, as many as are over the limit.\<close>

lemma evict_split:
  "evict order quotes = (order', quotes')
   \<Longrightarrow> \<exists>popped. order = popped @ order' \<and> quotes' = filter (\<lambda>(i, _). i \<notin> set popped) quotes"
proof (induction order arbitrary: quotes)
  case (Cons a order)
  show ?case
  proof (cases "length quotes \<ge> MAX_TRACKED_QUOTES")
    case True
    with Cons.prems have "evict order (AList.delete a quotes) = (order', quotes')" by simp
    from Cons.IH [OF this] obtain popped where
      p: "order = popped @ order'" "quotes' = filter (\<lambda>(i, _). i \<notin> set popped) (AList.delete a quotes)" by blast
    have "quotes' = filter (\<lambda>(i, _). i \<notin> set (a # popped)) quotes"
      unfolding p(2) AList.delete_eq filter_filter by (rule filter_cong) auto
    with p(1) show ?thesis by (intro exI [of _ "a # popped"]) simp
  next
    case False
    with Cons.prems show ?thesis by (intro exI [of _ "[]"]) auto
  qed
qed simp

lemma evict_live:
  assumes "distinct (map fst quotes)" "distinct (filter (\<lambda>i. i \<in> fst ` set quotes) order)"
    "fst ` set quotes \<subseteq> set order" "evict order quotes = (order', quotes')"
  shows "filter (\<lambda>i. i \<in> fst ` set quotes') order' =
      drop (length quotes - (MAX_TRACKED_QUOTES - 1)) (filter (\<lambda>i. i \<in> fst ` set quotes) order)"
  using assms
proof (induction order arbitrary: quotes)
  case Nil then show ?case by simp
next
  case (Cons a order)
  show ?case
  proof (cases "length quotes \<ge> MAX_TRACKED_QUOTES")
    case False
    with Cons.prems(4) have "order' = a # order" "quotes' = quotes" by auto
    with False show ?thesis by (simp add: MAX_TRACKED_QUOTES_def)
  next
    case True
    let ?q = "AList.delete a quotes"
    let ?live = "\<lambda>qs. filter (\<lambda>i. i \<in> fst ` set qs) order"
    have k: "fst ` set ?q = fst ` set quotes - {a}" by (rule delete_keys_image)
    have fresh: "a \<notin> set (?live quotes)" if "a \<in> fst ` set quotes"
      using Cons.prems(2) that by simp
    have live: "?live ?q = ?live quotes"
      unfolding k using fresh by (intro filter_cong) auto
    have d: "distinct (?live ?q)" unfolding live using Cons.prems(2) by (simp split: if_splits)
    have sub: "fst ` set ?q \<subseteq> set order" using Cons.prems(3) k by auto
    have ev: "evict order ?q = (order', quotes')" using True Cons.prems(4) by simp
    have len: "length ?q = (if a \<in> fst ` set quotes then length quotes - 1 else length quotes)"
      by (rule length_delete_keys [OF Cons.prems(1)])
    have IH: "filter (\<lambda>i. i \<in> fst ` set quotes') order' = drop (length ?q - (MAX_TRACKED_QUOTES - 1)) (?live quotes)"
      using Cons.IH [OF distinct_keys_delete [OF Cons.prems(1)] d sub ev] unfolding live .
    show ?thesis
    proof (cases "a \<in> fst ` set quotes")
      case True
      have "length quotes - (MAX_TRACKED_QUOTES - 1) = Suc (length ?q - (MAX_TRACKED_QUOTES - 1))"
        using len True \<open>length quotes \<ge> MAX_TRACKED_QUOTES\<close> by (simp add: MAX_TRACKED_QUOTES_def)
      with IH True show ?thesis by simp
    next
      case False
      with IH len show ?thesis by simp
    qed
  qed
qed

lemma insert_book:
  fixes at :: u64
  assumes "book_ok b" and "i \<notin> set (qb_order b)"
  defines "p \<equiv> quotes_prune at b"
  shows "live_ids (quotes_insert i q at b) = drop (length (live_ids p) - (MAX_TRACKED_QUOTES - 1)) (live_ids p) @ [i]"
    and "book_ok (quotes_insert i q at b)"
    and "map_of (qb_quotes (quotes_insert i q at b)) j =
      (if j = i then Some q else if j \<in> set (live_ids (quotes_insert i q at b)) then map_of (qb_quotes p) j else None)"
proof -
  have p: "book_ok p" unfolding p_def using assms(1) by (rule book_ok_prune)
  have fresh: "i \<notin> set (qb_order p)" using assms(2) by (simp add: p_def quotes_prune_def)
  let ?keys = "fst ` set (qb_quotes p)"
  define ord where "ord = (if length (qb_order p) \<ge> 2 * MAX_TRACKED_QUOTES
      then filter (\<lambda>j. map_of (qb_quotes p) j \<noteq> None) (qb_order p) else qb_order p)"
  obtain ord' qs where ev: "evict ord (qb_quotes p) = (ord', qs)" by fastforce
  have ins: "quotes_insert i q at b = p\<lparr>qb_quotes := AList.update i q qs, qb_order := ord' @ [i]\<rparr>"
    unfolding quotes_insert_def Let_def p_def [symmetric] ord_def [symmetric] ev by simp
  have live: "filter (\<lambda>j. j \<in> ?keys) ord = live_ids p"
    by (auto simp: ord_def live_ids_def dom_map_of_conv_image_fst [symmetric] intro!: filter_cong)
  have d: "distinct (map fst (qb_quotes p))" "distinct (filter (\<lambda>j. j \<in> ?keys) ord)"
    and sub: "?keys \<subseteq> set ord"
    using p unfolding live by (auto simp: book_ok_def) (metis live filter_is_subset subsetD imageI fst_conv)
  note kept = evict_live [OF d sub ev]
  from evict_split [OF ev] obtain popped where
    split: "ord = popped @ ord'" "qs = filter (\<lambda>(j, _). j \<notin> set popped) (qb_quotes p)" by blast
  have "set ord \<subseteq> set (qb_order p)" by (auto simp: ord_def)
  then have fresh': "i \<notin> set ord'" "i \<notin> fst ` set qs"
    using fresh split sub by auto
  have keys: "fst ` set (AList.update i q qs) = insert i (fst ` set qs)" by (simp add: dom_update)
  have len: "length (qb_quotes p) = length (live_ids p)" using book_ok_length [OF p] by simp
  show l: "live_ids (quotes_insert i q at b) = drop (length (live_ids p) - (MAX_TRACKED_QUOTES - 1)) (live_ids p) @ [i]"
  proof -
    have "filter (\<lambda>j. j \<in> insert i (fst ` set qs)) ord' = filter (\<lambda>j. j \<in> fst ` set qs) ord'"
      using fresh'(1) by (intro filter_cong) auto
    with kept show ?thesis unfolding live len by (simp add: ins live_ids_def keys)
  qed
  have sub': "fst ` set qs \<subseteq> set ord'"
    using sub unfolding split by auto
  have "distinct (live_ids (quotes_insert i q at b))"
  proof -
    have "set (live_ids p) \<subseteq> set (qb_order p)" by (auto simp: live_ids_def)
    then have "i \<notin> set (drop n (live_ids p))" for n using fresh by (meson in_set_dropD subsetD)
    then show ?thesis unfolding l using p by (simp add: book_ok_def)
  qed
  moreover have "distinct (map fst (AList.update i q qs))"
    unfolding split by (intro distinct_update distinct_keys_filter) (use p in \<open>simp add: book_ok_def\<close>)
  ultimately show "book_ok (quotes_insert i q at b)"
    using p sub' by (auto simp: book_ok_def ins live_ids_def keys)
  have m: "map_of qs j = map_of (qb_quotes p) j" if "j \<in> fst ` set qs" for j
    using that d(1) unfolding split by (simp add: map_of_filter_fst)
  have "set (live_ids (quotes_insert i q at b)) = insert i (fst ` set qs)"
    using sub' by (auto simp: ins live_ids_def keys)
  then show "map_of (qb_quotes (quotes_insert i q at b)) j =
      (if j = i then Some q else if j \<in> set (live_ids (quotes_insert i q at b)) then map_of (qb_quotes p) j else None)"
    using m by (auto simp: ins update_conv' map_of_eq_None_iff)
qed

subsection \<open>Sequences of calls\<close>

datatype quote_op =
    QInsert u64 uuid issued_quote
  | QRestore u64 uuid issued_quote
  | QTake u64 uuid string swap_direction

fun quote_time :: "quote_op \<Rightarrow> u64" where
  "quote_time (QInsert at _ _) = at"
| "quote_time (QRestore at _ _) = at"
| "quote_time (QTake at _ _ _) = at"

fun quote_step :: "ext \<Rightarrow> (string \<Rightarrow> bytes option) \<Rightarrow> quote_op \<Rightarrow> quote_book \<Rightarrow> quote_book" where
  "quote_step x parse (QInsert at i q) b = quotes_insert i q at b"
| "quote_step x parse (QRestore at i q) b = snd (quotes_restore i q at b)"
| "quote_step x parse (QTake at i peer direction) b = snd (take_valid_quote x parse at i peer direction b)"

text \<open>How often the quote \<open>i\<close> is redeemed in a sequence of calls.\<close>

fun redemptions :: "ext \<Rightarrow> (string \<Rightarrow> bytes option) \<Rightarrow> uuid \<Rightarrow> quote_op list \<Rightarrow> quote_book \<Rightarrow> nat" where
  "redemptions x parse i [] b = 0"
| "redemptions x parse i (op # ops) b =
     (case op of QTake at j peer direction \<Rightarrow>
        if j = i \<and> is_ok (fst (take_valid_quote x parse at j peer direction b)) then 1 else 0 | _ \<Rightarrow> 0)
     + redemptions x parse i ops (quote_step x parse op b)"

text \<open>Spent: while the quote would still be valid its id is remembered as redeemed, and no copy of it
  that could still be redeemed is held.\<close>

definition spent :: "uuid \<Rightarrow> u64 \<Rightarrow> u64 \<Rightarrow> quote_book \<Rightarrow> bool" where
  "spent i expires at b \<longleftrightarrow>
     distinct (map fst (qb_quotes b)) \<and> distinct (map fst (qb_redeemed b)) \<and>
     (live_until at expires \<longrightarrow> map_of (qb_quotes b) i = None \<and> map_of (qb_redeemed b) i = Some expires) \<and>
     (\<forall>q. map_of (qb_quotes b) i = Some q \<longrightarrow> iq_expires_at_unix q = expires)"

lemma live_until_mono: "live_until later expires \<Longrightarrow> at \<le> later \<Longrightarrow> live_until at expires"
  by (auto simp: live_until_def)

lemma spent_later: "spent i expires at b \<Longrightarrow> at \<le> later \<Longrightarrow> spent i expires later b"
  using live_until_mono by (auto simp: spent_def)

lemma spent_prune: "spent i expires at b \<Longrightarrow> spent i expires at (quotes_prune at b)"
  by (auto simp: spent_def quotes_prune_def distinct_keys_filter map_of_filter_snd split: option.splits if_splits)

lemma insert_fields:
  "map_of (qb_quotes (quotes_insert j q at b)) i = (if i = j then Some q else map_of (qb_quotes (quotes_insert j q at b)) i)"
  "qb_redeemed (quotes_insert j q at b) = qb_redeemed (quotes_prune at b)"
  by (auto simp: quotes_insert_def Let_def update_conv' split: prod.split)

lemma insert_distinct:
  assumes "distinct (map fst (qb_quotes b))"
  shows "distinct (map fst (qb_quotes (quotes_insert j q at b)))"
    and "i \<noteq> j \<Longrightarrow> map_of (qb_quotes (quotes_insert j q at b)) i = Some r
      \<Longrightarrow> map_of (qb_quotes (quotes_prune at b)) i = Some r"
proof -
  define p where "p = quotes_prune at b"
  define ord where "ord = (if length (qb_order p) \<ge> 2 * MAX_TRACKED_QUOTES
      then filter (\<lambda>j. map_of (qb_quotes p) j \<noteq> None) (qb_order p) else qb_order p)"
  obtain ord' qs where ev: "evict ord (qb_quotes p) = (ord', qs)" by fastforce
  have ins: "qb_quotes (quotes_insert j q at b) = AList.update j q qs"
    unfolding quotes_insert_def Let_def p_def [symmetric] ord_def [symmetric] ev by simp
  from evict_split [OF ev] obtain popped where
    qs: "qs = filter (\<lambda>(j, _). j \<notin> set popped) (qb_quotes p)" by blast
  have p: "distinct (map fst (qb_quotes p))"
    using assms by (simp add: p_def quotes_prune_def distinct_keys_filter)
  show "distinct (map fst (qb_quotes (quotes_insert j q at b)))"
    unfolding ins qs by (intro distinct_update distinct_keys_filter p)
  show "map_of (qb_quotes (quotes_prune at b)) i = Some r"
    if "i \<noteq> j" "map_of (qb_quotes (quotes_insert j q at b)) i = Some r"
  proof -
    have "map_of qs i = Some r" using that by (simp add: ins update_conv')
    then show ?thesis using p unfolding qs p_def by (auto simp: distinct_keys_filter)
  qed
qed

lemma spent_insert:
  assumes "spent i expires at b" and "j = i \<Longrightarrow> iq_expires_at_unix q = expires \<and> \<not> live_until at expires"
  shows "spent i expires at (quotes_insert j q at b)"
proof -
  have p: "spent i expires at (quotes_prune at b)" using assms(1) by (rule spent_prune)
  have d: "distinct (map fst (qb_quotes b))" using assms(1) by (simp add: spent_def)
  have "map_of (qb_quotes (quotes_insert j q at b)) i = None" if "live_until at expires"
    using insert_distinct(2) [OF d, of i j q at] p assms(2) that
    by (cases "map_of (qb_quotes (quotes_insert j q at b)) i") (auto simp: spent_def)
  moreover have "iq_expires_at_unix r = expires" if "map_of (qb_quotes (quotes_insert j q at b)) i = Some r" for r
    using insert_distinct(2) [OF d, of i j q at r] insert_fields(1) [of j q at b i] p assms(2) that
    by (auto simp: spent_def split: if_splits)
  ultimately show ?thesis
    using p insert_distinct(1) [OF d, of j q at] by (simp add: spent_def insert_fields(2))
qed

lemma spent_take:
  assumes "spent i expires at b"
  shows "spent i expires at (snd (take_valid_quote x parse at j peer direction b))"
    and "j = i \<Longrightarrow> is_ok (fst (take_valid_quote x parse at j peer direction b)) = False"
proof -
  have p: "spent i expires at (quotes_prune at b)" using assms by (rule spent_prune)
  have gone: "map_of (qb_quotes (quotes_prune at b)) i = None"
  proof (cases "map_of (qb_quotes b) i")
    case (Some q)
    with assms show ?thesis by (auto simp: spent_def quotes_prune_def map_of_filter_snd)
  qed (use assms in \<open>simp add: spent_def quotes_prune_def map_of_filter_snd\<close>)
  then show "j = i \<Longrightarrow> is_ok (fst (take_valid_quote x parse at j peer direction b)) = False"
    by (simp add: take_valid_quote_def)
  show "spent i expires at (snd (take_valid_quote x parse at j peer direction b))"
    using p gone
    by (auto simp: take_valid_quote_def Let_def spent_def distinct_keys_delete distinct_update delete_conv' update_conv'
        simp del: map_of_eq_Some_iff split: option.split)
qed

text \<open>What a caller may do with an id once issued: it is never issued afresh, and a signed copy taken
  back states the expiry that was signed.\<close>

fun keeps_terms :: "uuid \<Rightarrow> u64 \<Rightarrow> quote_op \<Rightarrow> bool" where
  "keeps_terms i expires (QInsert _ j _) \<longleftrightarrow> j \<noteq> i"
| "keeps_terms i expires (QRestore _ j q) \<longleftrightarrow> j \<noteq> i \<or> iq_expires_at_unix q = expires"
| "keeps_terms i expires (QTake _ _ _ _) \<longleftrightarrow> True"

lemma spent_step:
  assumes "spent i expires (quote_time op) b" and "keeps_terms i expires op"
  shows "spent i expires (quote_time op) (quote_step x parse op b)"
  using assms
proof (cases op)
  case (QInsert at j q)
  with assms show ?thesis by (auto intro: spent_insert)
next
  case (QRestore at j q)
  then have p: "spent i expires at (quotes_prune at b)" using spent_prune assms(1) by fastforce
  have "spent i expires at (quotes_insert j q at (quotes_prune at b))"
    if "map_of (qb_redeemed (quotes_prune at b)) j = None"
    by (rule spent_insert [OF p]) (use that assms(2) p QRestore in \<open>auto simp: spent_def\<close>)
  with p QRestore show ?thesis by (auto simp: quotes_restore_def Let_def)
next
  case (QTake at j peer direction)
  with assms show ?thesis by (simp add: spent_take)
qed

lemma spent_run:
  assumes "spent i expires at b" and "sorted (at # map quote_time ops)" and "list_all (keeps_terms i expires) ops"
  shows "redemptions x parse i ops b = 0"
  using assms
proof (induction ops arbitrary: at b)
  case (Cons op ops)
  then have s: "spent i expires (quote_time op) b" using spent_later by fastforce
  have "redemptions x parse i ops (quote_step x parse op b) = 0"
    by (rule Cons.IH [OF spent_step [OF s]]) (use Cons.prems in auto)
  with s show ?case by (auto simp: spent_take(2) split: quote_op.split)
qed simp

lemma spent_after_take:
  assumes "book_ok b" and "take_valid_quote x parse at i peer direction b = (Inr q, b')"
  shows "spent i (iq_expires_at_unix q) at b'"
  using book_ok_prune [OF assms(1), of at] assms(2)
  by (auto simp: take_valid_quote_def Let_def spent_def book_ok_def distinct_keys_delete distinct_update
      delete_conv' update_conv' simp del: map_of_eq_Some_iff split: option.splits if_splits)

subsection \<open>Properties\<close>

text \<open>C28: A quote is authority to swap once, for its owner: a request redeems it only if it is held and
  unexpired, was issued to the requesting key and for the requested direction; after that no later
  request redeems it again, whatever is issued, redeemed, expires, is evicted or taken back from a
  signed copy meanwhile, as long as time does not run backwards. A refused request changes nothing but
  the expiry of old quotes.\<close>

theorem quote_is_redeemed_once_by_its_owner:
  assumes "book_ok b"
  shows "case take_valid_quote x parse at i peer direction b of
      (Inl e, b') \<Rightarrow> b' = quotes_prune at b \<and> (refusal_code e = RcQuoteExpired \<or> refusal_code e = RcInvalidRequest)
    | (Inr q, b') \<Rightarrow> map_of (qb_quotes b) i = Some q \<and> live_until at (iq_expires_at_unix q)
        \<and> same_pubky parse (iq_peer q) peer \<and> iq_direction q = direction
        \<and> (\<forall>ops. sorted (at # map quote_time ops) \<longrightarrow> list_all (keeps_terms i (iq_expires_at_unix q)) ops
             \<longrightarrow> redemptions x parse i ops b' = 0)"
proof (cases "take_valid_quote x parse at i peer direction b")
  case (Pair res b')
  show ?thesis
  proof (cases res)
    case (Inl e)
    with Pair show ?thesis
      by (auto simp: take_valid_quote_def Let_def refusal_code_def split: option.splits if_splits)
  next
    case (Inr q)
    with Pair have t: "take_valid_quote x parse at i peer direction b = (Inr q, b')" by simp
    then have "map_of (qb_quotes (quotes_prune at b)) i = Some q" "same_pubky parse (iq_peer q) peer" "iq_direction q = direction"
      by (auto simp: take_valid_quote_def Let_def split: option.splits if_splits)
    moreover from this(1) have "map_of (qb_quotes b) i = Some q" "live_until at (iq_expires_at_unix q)"
      using assms by (auto simp: quotes_prune_def book_ok_def map_of_filter_snd split: option.splits if_splits)
    ultimately show ?thesis
      using spent_run [OF spent_after_take [OF assms t]] Inr Pair by simp
  qed
qed

definition sample_quote_issued :: issued_quote where
  "sample_quote_issued =
     \<lparr>iq_peer = ''alice'', iq_direction = Reverse, iq_amount_sat = 50000, iq_fee_sat = 700, iq_service_fee_sat = 600,
      iq_onchain_fee_sat = 100, iq_expires_at_unix = 1300, iq_claimable_hint = False\<rparr>"

theorem quote_is_redeemed_once_by_its_owner_witness:
  "redemptions sample_ext (\<lambda>_. None) 1
     [QTake 1010 1 ''alice'' Reverse, QRestore 1020 1 sample_quote_issued, QTake 1400 1 ''alice'' Reverse]
     (snd (take_valid_quote sample_ext (\<lambda>_. None) 1005 1 ''alice'' Reverse
        (quotes_insert 1 sample_quote_issued 1000 default_quote_book))) = 0"
proof -
  let ?b = "quotes_insert 1 sample_quote_issued 1000 default_quote_book"
  let ?t = "take_valid_quote sample_ext (\<lambda>_. None) 1005 1 ''alice'' Reverse ?b"
  have "book_ok default_quote_book" by (simp add: book_ok_def default_quote_book_def live_ids_def)
  then have b: "book_ok ?b" by (rule insert_book(2)) (simp add: default_quote_book_def)
  have "fst ?t = Inr sample_quote_issued"
    by (simp add: take_valid_quote_def quotes_insert_def quotes_prune_def default_quote_book_def Let_def
        sample_quote_issued_def live_until_def same_pubky_def MAX_TRACKED_QUOTES_def)
  then have t: "?t = (Inr sample_quote_issued, snd ?t)" by (simp add: prod_eq_iff)
  let ?ops = "[QTake 1010 1 ''alice'' Reverse, QRestore 1020 1 sample_quote_issued, QTake 1400 1 ''alice'' Reverse]"
  have "\<forall>ops. sorted (1005 # map quote_time ops) \<longrightarrow> list_all (keeps_terms 1 (iq_expires_at_unix sample_quote_issued)) ops
      \<longrightarrow> redemptions sample_ext (\<lambda>_. None) 1 ops (snd ?t) = 0"
    using quote_is_redeemed_once_by_its_owner [OF b, where x = sample_ext and parse = "\<lambda>_. None" and
        at = 1005 and i = 1 and peer = "''alice''" and direction = Reverse]
    by (subst (asm) t) (simp del: redemptions.simps)
  from this [rule_format, of ?ops] show ?thesis by (simp del: redemptions.simps)
qed

text \<open>A full book makes room by age: issuing a quote keeps, of the unexpired ones, the newest up to
  one less than the capacity with their terms unchanged, and holds the new one; so the book never
  exceeds its capacity and a quote is only lost when that many newer ones are held.\<close>

theorem full_book_evicts_the_oldest:
  assumes "book_ok b" and "i \<notin> set (qb_order b)"
  shows "live_ids (quotes_insert i q at b)
      = drop (length (live_ids (quotes_prune at b)) - 9999) (live_ids (quotes_prune at b)) @ [i]
    \<and> length (qb_quotes (quotes_insert i q at b)) \<le> 10000
    \<and> (\<forall>j. map_of (qb_quotes (quotes_insert i q at b)) j =
         (if j = i then Some q else if j \<in> set (live_ids (quotes_insert i q at b))
          then map_of (qb_quotes (quotes_prune at b)) j else None))
    \<and> book_ok (quotes_insert i q at b)"
proof -
  have l: "live_ids (quotes_insert i q at b)
      = drop (length (live_ids (quotes_prune at b)) - 9999) (live_ids (quotes_prune at b)) @ [i]"
    using insert_book(1) [OF assms] by (simp add: MAX_TRACKED_QUOTES_def)
  have "length (qb_quotes (quotes_insert i q at b)) = length (live_ids (quotes_insert i q at b))"
    using book_ok_length [OF insert_book(2) [OF assms]] by simp
  with l have "length (qb_quotes (quotes_insert i q at b)) \<le> 10000" by simp
  with l insert_book(2,3) [OF assms] show ?thesis by blast
qed

theorem full_book_evicts_the_oldest_witness:
  "length (qb_quotes (quotes_insert 1 sample_quote_issued 1000 default_quote_book)) \<le> 10000"
proof -
  have "book_ok default_quote_book" by (simp add: book_ok_def default_quote_book_def live_ids_def)
  from full_book_evicts_the_oldest [OF this, where i = 1 and q = sample_quote_issued and at = 1000] show ?thesis
    by (simp add: default_quote_book_def)
qed

end
