(* ===== verification/Listing.thy ===== *)
theory Listing
  imports Quotes Progress "HOL-Library.List_Lexorder"
begin

text \<open>
  What the provider answers about swaps it already has: who owns a record, replays, status queries
  and the paged listing of \<open>swap-provider/src/lib.rs\<close>. Parsing a pkarr key and a \<open>Uuid\<close> and deriving a
  public key belong to libraries and are parameters.
\<close>

subsection \<open>Ownership and replay\<close>

definition authorized_peer ::
  "provider_ext \<Rightarrow> 'c swap_record \<Rightarrow> string \<Rightarrow> (string \<times> string) option \<Rightarrow> bool" where
  "authorized_peer px r sender authorization \<longleftrightarrow>
     same_pubky (px_pubky px) (r_peer r) sender
     \<and> r_peer_account r = map_option fst authorization
     \<and> r_peer_authorization_scope r = map_option snd authorization"

fun replay_among ::
  "provider_ext \<Rightarrow> string \<Rightarrow> (string \<times> string) option \<Rightarrow> swap_request \<Rightarrow> 'c swap_record list
   \<Rightarrow> handler_error + 'c swap_record option" where
  "replay_among px sender authorization request [] = Inr None"
| "replay_among px sender authorization request (r # rs) =
     (case r_swap_request r of
        None \<Rightarrow> replay_among px sender authorization request rs
      | Some original \<Rightarrow>
          if sr_quote_id original \<noteq> sr_quote_id request
          then replay_among px sender authorization request rs
          else if \<not> authorized_peer px r sender authorization
          then Inl (Refusal RcQuoteExpired ''unknown or expired quote'')
          else if original \<noteq> request
          then Inl (Refusal RcInvalidRequest ''quote was already accepted with a different request'')
          else if r_swap_accept r = None
          then Inl (Internal (AnyMsg ''persisted creation is missing its acceptance''))
          else Inr (Some r))"

definition replay_record ::
  "provider_ext \<Rightarrow> 'c codec \<Rightarrow> dir \<Rightarrow> string \<Rightarrow> (string \<times> string) option \<Rightarrow> swap_request
   \<Rightarrow> handler_error + 'c swap_record option" where
  "replay_record px c d sender authorization request =
     try_bind (map_err Internal (load_all_checked c d)) (replay_among px sender authorization request)"

definition swap_for_quote :: "'c codec \<Rightarrow> dir \<Rightarrow> uuid \<Rightarrow> any_error + 'c swap_record option" where
  "swap_for_quote c d quote_id =
     try_bind (load_all_checked c d) (\<lambda>rs. Inr (List.find (\<lambda>r. case r_swap_request r of
        None \<Rightarrow> False | Some original \<Rightarrow> sr_quote_id original = quote_id) rs))"

fun hash_taken :: "ext \<Rightarrow> payment_hash \<Rightarrow> 'c swap_record list \<Rightarrow> handler_error + unit" where
  "hash_taken x h [] = Inr ()"
| "hash_taken x h (r # rs) =
     (if r_direction r = Reverse
      then (case record_payment_hash x r of
              Inl e \<Rightarrow> Inl (Internal e)
            | Inr h' \<Rightarrow> if h' = h
                then Inl (Refusal RcInvalidRequest ''payment hash already belongs to an admitted reverse swap'')
                else hash_taken x h rs)
      else hash_taken x h rs)"

definition ensure_reverse_hash_available :: "ext \<Rightarrow> 'c codec \<Rightarrow> dir \<Rightarrow> payment_hash \<Rightarrow> handler_error + unit" where
  "ensure_reverse_hash_available x c d h =
     try_bind (map_err Internal (load_all_checked c d)) (hash_taken x h)"

subsection \<open>Status\<close>

definition answer_status ::
  "ext \<Rightarrow> provider_ext \<Rightarrow> 'c codec \<Rightarrow> u64 \<Rightarrow> dir \<Rightarrow> string \<Rightarrow> (string \<times> string) option \<Rightarrow> swap_status_request
   \<Rightarrow> handler_error + swap_status_snapshot" where
  "answer_status x px c now_unix d sender authorization request =
     try_bind (case (ssr_swap_id request, ssr_quote_id request) of
         (Some swap_id, None) \<Rightarrow> map_err Internal (store_get x c swap_id d)
       | (None, Some quote_id) \<Rightarrow> map_err Internal (swap_for_quote c d quote_id)
       | _ \<Rightarrow> Inl (Refusal RcInvalidRequest ''exactly one of swap_id and quote_id is required''))
     (\<lambda>found. case found of
        None \<Rightarrow> Inl (Lookup LookupNotFound)
      | Some r \<Rightarrow>
          if \<not> authorized_peer px r sender authorization then Inl (Lookup LookupNotFound)
          else if r_pending_hold_invoice r \<noteq> None then Inl (Lookup LookupPending)
          else ok_or (Internal (AnyMsg ''this older swap has no persisted acceptance''))
                 (status_snapshot r (ssr_request_id request) now_unix))"

subsection \<open>The listing\<close>

text \<open>Newest first, then by id.\<close>

definition list_key :: "'c swap_record \<Rightarrow> u64 \<times> uuid" where
  "list_key r = (r_created_at_unix r, r_swap_id r)"

definition key_less :: "u64 \<times> uuid \<Rightarrow> u64 \<times> uuid \<Rightarrow> bool" where
  "key_less a b \<longleftrightarrow> fst b < fst a \<or> fst a = fst b \<and> snd a < snd b"

definition list_page_limit :: "u32 option \<Rightarrow> nat" where
  "list_page_limit limit =
     unat (case limit of None \<Rightarrow> SWAP_LIST_DEFAULT_PAGE
           | Some wanted \<Rightarrow> if wanted = 0 then SWAP_LIST_DEFAULT_PAGE else min wanted SWAP_LIST_MAX_PAGE)"

definition text_bytes :: "string \<Rightarrow> bytes" where
  "text_bytes s = map (\<lambda>c. word_of_nat (of_char c)) s"

definition bytes_text :: "bytes \<Rightarrow> string" where
  "bytes_text b = map (\<lambda>w. char_of (unat w)) b"

definition encode_list_cursor :: "ext \<Rightarrow> u64 \<times> uuid \<Rightarrow> string" where
  "encode_list_cursor x key =
     x_hex_encode x (text_bytes (show_u (fst key) @ '':'' @ x_uuid_str x (snd key)))"

text \<open>\<open>u64::from_str\<close>: an optional plus sign, then decimal digits whose value fits.\<close>

definition is_digit :: "char \<Rightarrow> bool" where
  "is_digit ch \<longleftrightarrow> 48 \<le> (of_char ch :: nat) \<and> (of_char ch :: nat) \<le> 57"

definition parse_u64 :: "string \<Rightarrow> u64 option" where
  "parse_u64 s =
     (let digits = (case s of [] \<Rightarrow> [] | ch # rest \<Rightarrow> if ch = CHR ''+'' then rest else s)
      in if digits = [] \<or> \<not> list_all is_digit digits then None
         else if read_digits digits < 2 ^ 64 then Some (word_of_nat (read_digits digits)) else None)"

fun split_once :: "char \<Rightarrow> string \<Rightarrow> (string \<times> string) option" where
  "split_once sep [] = None"
| "split_once sep (ch # rest) =
     (if ch = sep then Some ([], rest) else map_option (\<lambda>(a, b). (ch # a, b)) (split_once sep rest))"

text \<open>Text that is not UTF-8 fails here where it does not parse.\<close>

definition decode_list_cursor :: "ext \<Rightarrow> provider_ext \<Rightarrow> string \<Rightarrow> handler_error + (u64 \<times> uuid)" where
  "decode_list_cursor x px cursor =
     (let invalid = Refusal RcInvalidRequest ''cursor is not one this provider issued''
      in try_bind (map_err (\<lambda>_. invalid) (x_hex_decode x cursor)) (\<lambda>b.
         try_bind (ok_or invalid (split_once CHR '':'' (bytes_text b))) (\<lambda>(created, swap_id).
         try_bind (ok_or invalid (parse_u64 created)) (\<lambda>created.
         try_bind (ok_or invalid (px_uuid_parse px swap_id)) (\<lambda>swap_id. Inr (created, swap_id))))))"

definition owned_records ::
  "provider_ext \<Rightarrow> string \<Rightarrow> (string \<times> string) option \<Rightarrow> bool \<Rightarrow> 'c swap_record list \<Rightarrow> 'c swap_record list" where
  "owned_records px sender authorization active_only rs =
     sort_key (\<lambda>r. - int (unat (r_created_at_unix r))) (sort_key (\<lambda>r. unat (r_swap_id r))
       (filter (\<lambda>r. authorized_peer px r sender authorization
          \<and> r_swap_accept r \<noteq> None \<and> r_pending_hold_invoice r = None
          \<and> (\<not> active_only \<or> \<not> is_terminal (r_state r))) rs))"

text \<open>The position of the first record after the cursor.\<close>

fun position_after :: "u64 \<times> uuid \<Rightarrow> 'c swap_record list \<Rightarrow> nat" where
  "position_after cursor [] = 0"
| "position_after cursor (r # rs) = (if key_less cursor (list_key r) then 0 else Suc (position_after cursor rs))"

definition list_swaps ::
  "ext \<Rightarrow> provider_ext \<Rightarrow> 'c codec \<Rightarrow> u64 \<Rightarrow> dir \<Rightarrow> string \<Rightarrow> (string \<times> string) option \<Rightarrow> swap_list_request
   \<Rightarrow> handler_error + swap_list" where
  "list_swaps x px c now_unix d sender authorization request =
     try_bind (case slr_cursor request of None \<Rightarrow> Inr None
         | Some cursor \<Rightarrow> try_bind (decode_list_cursor x px cursor) (\<lambda>key. Inr (Some key))) (\<lambda>after.
     let limit = list_page_limit (slr_limit request)
     in try_bind (map_err Internal (load_all_checked c d)) (\<lambda>rs.
        let owned = owned_records px sender authorization (slr_active_only request) rs;
            start = (case after of None \<Rightarrow> 0 | Some cursor \<Rightarrow> position_after cursor owned);
            snapshots = List.map_filter (\<lambda>r. status_snapshot r None now_unix) (take limit (drop start owned));
            next_cursor = (if snapshots \<noteq> [] \<and> start + length snapshots < length owned
                           then Some (encode_list_cursor x (list_key (owned ! (start + length snapshots - 1)))) else None)
        in Inr \<lparr>sl_request_id = slr_request_id request, sl_snapshots = snapshots, sl_next_cursor = next_cursor\<rparr>))"

subsection \<open>The cursor reads back\<close>

definition reads_back :: "ext \<Rightarrow> provider_ext \<Rightarrow> bool" where
  "reads_back x px \<longleftrightarrow> (\<forall>b. x_hex_decode x (x_hex_encode x b) = Inr b)
     \<and> (\<forall>i. px_uuid_parse px (x_uuid_str x i) = Some i)"

lemma bytes_text_bytes: "bytes_text (text_bytes s) = s"
proof -
  have "char_of (unat (word_of_nat (of_char ch) :: u8)) = (ch :: char)" for ch
    by (simp add: unsigned_of_nat take_bit_nat_eq_self)
  then show ?thesis by (induction s) (simp_all add: bytes_text_def text_bytes_def)
qed

lemma digit_char_is_digit: "d < 10 \<Longrightarrow> is_digit (digit_char d)"
  by (simp add: digit_char_def is_digit_def of_char_of take_bit_eq_mod)

lemma show_nat_digits: "list_all is_digit (show_nat n) \<and> show_nat n \<noteq> []"
proof (induction n rule: show_nat.induct)
  case (1 n)
  then show ?case by (subst (1 2) show_nat.simps) (simp add: digit_char_is_digit)
qed

lemma split_once_digits: "list_all is_digit s \<Longrightarrow> split_once CHR '':'' (s @ CHR '':'' # rest) = Some (s, rest)"
  by (induction s) (auto simp: is_digit_def)

lemma parse_show_u64: "parse_u64 (show_u w) = Some w"
proof -
  obtain ch rest where s: "show_u w = ch # rest" and d: "list_all is_digit (ch # rest)"
    using show_nat_digits [of "unat w"] unfolding show_u_def by (cases "show_nat (unat w)") auto
  then have "ch \<noteq> CHR ''+''" by (auto simp: is_digit_def)
  moreover have "read_digits (ch # rest) = unat w" using s read_show_nat [of "unat w"] by (simp add: show_u_def)
  ultimately show ?thesis using d unat_u64_bound [of w] by (simp add: parse_u64_def s)
qed

lemma decode_encode:
  assumes "reads_back x px"
  shows "decode_list_cursor x px (encode_list_cursor x key) = Inr key"
  using assms split_once_digits [of "show_u (fst key)" "x_uuid_str x (snd key)"] show_nat_digits [of "unat (fst key)"]
  by (simp add: decode_list_cursor_def encode_list_cursor_def reads_back_def bytes_text_bytes parse_show_u64 [unfolded show_u_def]
      show_u_def Let_def)

subsection \<open>The order of the listing\<close>

definition strictly_listed :: "'c swap_record list \<Rightarrow> bool" where
  "strictly_listed rs \<longleftrightarrow> sorted_wrt (\<lambda>a b. key_less (list_key a) (list_key b)) rs"

lemma sorted_lex:
  fixes f :: "'a \<Rightarrow> int" and g :: "'a \<Rightarrow> nat"
  assumes "sorted (map f ys)" and "\<And>k. sorted (map g (filter (\<lambda>y. f y = k) ys))"
  shows "sorted_wrt (\<lambda>a b. f a < f b \<or> f a = f b \<and> g a \<le> g b) ys"
  using assms
proof (induction ys)
  case (Cons a ys)
  have "sorted (map g (filter (\<lambda>y. f y = k) ys))" for k
    using Cons.prems(2) [of k] by (auto split: if_splits)
  moreover have "g a \<le> g b" if "b \<in> set ys" "f a = f b" for b
    using Cons.prems(2) [of "f a"] that by auto
  ultimately show ?case using Cons by fastforce
qed simp

lemma lex_key_less:
  assumes "- int (unat (r_created_at_unix a)) < - int (unat (r_created_at_unix b))
      \<or> - int (unat (r_created_at_unix a)) = - int (unat (r_created_at_unix b)) \<and> unat (r_swap_id a) \<le> unat (r_swap_id b)"
    and "r_swap_id a \<noteq> r_swap_id b"
  shows "key_less (list_key a) (list_key b)"
  using assms unfolding key_less_def list_key_def
  by (simp only: neg_less_iff_less neg_equal_iff_equal of_nat_less_iff of_nat_eq_iff word_nat fst_conv snd_conv) auto

lemma owned_strict:
  assumes "distinct (map r_swap_id rs)"
  shows "strictly_listed (owned_records px sender authorization active rs)"
proof -
  let ?P = "\<lambda>r. authorized_peer px r sender authorization
          \<and> r_swap_accept r \<noteq> None \<and> r_pending_hold_invoice r = None \<and> (\<not> active \<or> \<not> is_terminal (r_state r))"
  let ?g = "\<lambda>r :: 'a swap_record. unat (r_swap_id r)" and ?f = "\<lambda>r :: 'a swap_record. - int (unat (r_created_at_unix r))"
  let ?ys = "sort_key ?f (sort_key ?g (filter ?P rs))"
  have "sorted (map ?g (filter (\<lambda>y. ?f y = k) ?ys))" for k
    unfolding sort_key_stable by (rule sorted_filter [OF sorted_sort_key])
  then have s: "sorted_wrt (\<lambda>a b. ?f a < ?f b \<or> ?f a = ?f b \<and> ?g a \<le> ?g b) ?ys"
    by (intro sorted_lex) simp_all
  have "distinct (map r_swap_id ?ys)"
    using assms by (simp add: distinct_map inj_on_def)
  with s have "sorted_wrt (\<lambda>a b. (?f a < ?f b \<or> ?f a = ?f b \<and> ?g a \<le> ?g b) \<and> r_swap_id a \<noteq> r_swap_id b) ?ys"
    by (simp add: sorted_wrt_iff_nth_less distinct_conv_nth)
  then show ?thesis
    unfolding strictly_listed_def owned_records_def
    by (rule sorted_wrt_mono_rel [rotated]) (blast intro: lex_key_less)
qed

lemma position_after_nth:
  assumes "strictly_listed rs" and "k < length rs"
  shows "position_after (list_key (rs ! k)) rs = Suc k"
  using assms
proof (induction rs arbitrary: k)
  case (Cons r rs)
  show ?case
  proof (cases k)
    case 0
    have irrefl: "\<not> key_less (list_key r) (list_key r)" by (auto simp: key_less_def)
    have "position_after (list_key r) rs = 0"
      using Cons.prems(1) by (cases rs) (simp_all add: strictly_listed_def)
    with 0 irrefl show ?thesis by simp
  next
    case (Suc j)
    then have "key_less (list_key r) (list_key (rs ! j))" using Cons.prems by (simp add: strictly_listed_def)
    then have "\<not> key_less (list_key (rs ! j)) (list_key r)" by (auto simp: key_less_def)
    with Suc Cons show ?thesis by (simp add: strictly_listed_def)
  qed
qed simp

subsection \<open>Paging\<close>

text \<open>A client that follows the cursors: at most \<open>n\<close> pages.\<close>

fun walk_pages ::
  "ext \<Rightarrow> provider_ext \<Rightarrow> 'c codec \<Rightarrow> u64 \<Rightarrow> dir \<Rightarrow> string \<Rightarrow> (string \<times> string) option \<Rightarrow> u32 option \<Rightarrow> bool
   \<Rightarrow> nat \<Rightarrow> string option \<Rightarrow> swap_status_snapshot list" where
  "walk_pages x px c t d sender authorization limit active 0 cursor = []"
| "walk_pages x px c t d sender authorization limit active (Suc n) cursor =
     (case list_swaps x px c t d sender authorization
             \<lparr>slr_request_id = None, slr_cursor = cursor, slr_limit = limit, slr_active_only = active\<rparr> of
        Inl _ \<Rightarrow> []
      | Inr l \<Rightarrow> sl_snapshots l @ (case sl_next_cursor l of None \<Rightarrow> []
          | Some next \<Rightarrow> walk_pages x px c t d sender authorization limit active n (Some next)))"

definition snapshot_of :: "u64 \<Rightarrow> 'c swap_record \<Rightarrow> swap_status_snapshot" where
  "snapshot_of t r = the (status_snapshot r None t)"

lemma owned_set:
  "set (owned_records px sender authorization active rs) = {r \<in> set rs. authorized_peer px r sender authorization
     \<and> r_swap_accept r \<noteq> None \<and> r_pending_hold_invoice r = None \<and> (\<not> active \<or> \<not> is_terminal (r_state r))}"
  by (auto simp: owned_records_def)

lemma owned_snapshots:
  assumes "set rs' \<subseteq> set (owned_records px sender authorization active rs)"
  shows "List.map_filter (\<lambda>r. status_snapshot r None t) rs' = map (snapshot_of t) rs'"
  using assms
proof (induction rs')
  case (Cons r rs')
  then have "\<exists>a. r_swap_accept r = Some a" by (auto simp: owned_set)
  with Cons show ?case by (auto simp: List.map_filter_def snapshot_of_def status_snapshot_def)
qed (simp add: List.map_filter_def)

lemma page_positive: "0 < list_page_limit limit"
proof -
  have "0 < unat (min w 16)" if "w \<noteq> 0" for w :: u32
    using that by (simp add: min_def unat_gt_0)
  then show ?thesis
    by (auto simp: list_page_limit_def SWAP_LIST_DEFAULT_PAGE_def SWAP_LIST_MAX_PAGE_def split: option.split)
qed

lemma one_page:
  assumes "load_all_checked c d = Inr rs"
    and "(case cursor of None \<Rightarrow> Inr None | Some cur \<Rightarrow> try_bind (decode_list_cursor x px cur) (\<lambda>key. Inr (Some key))) = Inr after"
    and "owned = owned_records px sender authorization active rs"
    and "start = (case after of None \<Rightarrow> 0 | Some key \<Rightarrow> position_after key owned)"
    and "page = take (list_page_limit limit) (drop start owned)"
  shows "list_swaps x px c t d sender authorization
        \<lparr>slr_request_id = None, slr_cursor = cursor, slr_limit = limit, slr_active_only = active\<rparr> =
      Inr \<lparr>sl_request_id = None, sl_snapshots = map (snapshot_of t) page,
           sl_next_cursor = (if page \<noteq> [] \<and> start + length page < length owned
             then Some (encode_list_cursor x (list_key (owned ! (start + length page - 1)))) else None)\<rparr>"
proof -
  have snaps: "List.map_filter (\<lambda>r. status_snapshot r None t) page = map (snapshot_of t) page"
    unfolding assms(3,5) by (rule owned_snapshots [of _ px sender authorization active rs])
      (meson set_drop_subset set_take_subset subset_trans)
  show ?thesis
    unfolding list_swaps_def swap_list_request.simps assms(1,2) try_bind_simps map_err_simps Let_def
      assms(3) [symmetric] assms(4) [symmetric] assms(5) [symmetric] snaps
    by simp
qed

lemma walk_from:
  assumes "reads_back x px" and "load_all_checked c d = Inr rs" and "distinct (map r_swap_id rs)"
    and "length (owned_records px sender authorization active rs) - start < n"
    and "cursor = (if start = 0 then None else Some (encode_list_cursor x (list_key
           (owned_records px sender authorization active rs ! (start - 1)))))"
    and "start \<le> length (owned_records px sender authorization active rs)"
  shows "walk_pages x px c t d sender authorization limit active n cursor
    = map (snapshot_of t) (drop start (owned_records px sender authorization active rs))"
  using assms(4-)
proof (induction n arbitrary: start cursor)
  case 0 then show ?case by simp
next
  case (Suc n)
  let ?o = "owned_records px sender authorization active rs" and ?l = "list_page_limit limit"
  have strict: "strictly_listed ?o" by (rule owned_strict [OF assms(3)])
  define page where "page = take ?l (drop start ?o)"
  define next_start where "next_start = start + length page"
  obtain after where
    after: "(case cursor of None \<Rightarrow> Inr None | Some cur \<Rightarrow> try_bind (decode_list_cursor x px cur) (\<lambda>key. Inr (Some key))) = Inr after"
    "start = (case after of None \<Rightarrow> 0 | Some key \<Rightarrow> position_after key ?o)"
  proof (cases "start = 0")
    case True
    with that [of None] Suc.prems(2) show ?thesis by simp
  next
    case False
    with that [of "Some (list_key (?o ! (start - 1)))"] Suc.prems(2,3) show ?thesis
      using decode_encode [OF assms(1)] position_after_nth [OF strict, of "start - 1"] by simp
  qed
  note answer = one_page [OF assms(2) after(1) refl after(2) page_def, folded next_start_def]
  show ?case
  proof (cases "page \<noteq> [] \<and> next_start < length ?o")
    case True
    then have next_pos: "start < next_start" by (simp add: next_start_def)
    have len: "length page = ?l" using True by (auto simp: next_start_def page_def)
    have rest: "walk_pages x px c t d sender authorization limit active n
        (Some (encode_list_cursor x (list_key (?o ! (next_start - 1))))) = map (snapshot_of t) (drop next_start ?o)"
      by (rule Suc.IH) (use Suc.prems(1) True next_pos in auto)
    have "drop start ?o = page @ drop next_start ?o"
      unfolding next_start_def len unfolding page_def
      by (metis append_take_drop_id drop_drop add.commute)
    then have "map (snapshot_of t) (drop start ?o) = map (snapshot_of t) page @ map (snapshot_of t) (drop next_start ?o)"
      by (metis map_append)
    with rest True show ?thesis by (simp add: answer)
  next
    case False
    have "drop start ?o = page"
      using False page_positive [of limit] Suc.prems(3)
      by (auto simp: next_start_def page_def min_def split: if_splits)
    with False show ?thesis by (auto simp: answer)
  qed
qed

subsection \<open>Properties\<close>

lemma strangers_list_empty:
  "list_all (\<lambda>r. \<not> authorized_peer px r sender authorization) rs
   \<Longrightarrow> owned_records px sender authorization active rs = []"
  by (auto simp: owned_records_def list_all_iff filter_empty_conv)

lemma stranger_replay:
  "list_all (\<lambda>r. \<not> authorized_peer px r sender authorization) rs
   \<Longrightarrow> replay_among px sender authorization request rs = Inr None
     \<or> replay_among px sender authorization request rs = Inl (Refusal RcQuoteExpired ''unknown or expired quote'')"
  by (induction rs) (auto split: option.split)

definition sample_px :: provider_ext where
  "sample_px = \<lparr>px_pubky = (\<lambda>_. None), px_pubky_str = sample_str, px_uuid_parse = (\<lambda>s. Some (word_of_nat (read_digits s))), px_public_key = (\<lambda>k. \<lparr>pk_inner = k, pk_compressed = True\<rparr>),
     px_pubkey_from_slice = (\<lambda>b. Inr \<lparr>pk_inner = b, pk_compressed = True\<rparr>), px_pubkey_bytes = pk_inner\<rparr>"

lemma sample_reads_back: "reads_back sample_ext sample_px"
proof -
  have "sample_bytes (sample_str b) = b" for b
    by (induction b) (simp_all add: sample_bytes_def sample_str_def of_char_of take_bit_eq_mod unat_bound [where 'a = 8, simplified])
  then show ?thesis by (simp add: reads_back_def sample_ext_def sample_px_def show_u_def read_show_nat)
qed

definition sample_accept :: "uuid \<Rightarrow> swap_accept" where
  "sample_accept i = \<lparr>sa_script_type = P2wsh, sa_swap_tree = None, sa_quote_id = i, sa_swap_id = i, sa_direction = Reverse,
     sa_htlc_script_hex = [], sa_htlc_address = [], sa_onchain_amount_sat = 50000, sa_timeout_block_height = 200,
     sa_provider_pubkey_hex = [], sa_invoice = None\<rparr>"

definition listed_record :: "uuid \<Rightarrow> u64 \<Rightarrow> unit swap_record" where
  "listed_record i t = (marked None)\<lparr>r_swap_id := i, r_created_at_unix := t, r_peer := ''alice'', r_swap_accept := Some (sample_accept i)\<rparr>"

definition listed_dir :: dir where
  "listed_dir = map (\<lambda>n. \<lparr>f_name = path_for sample_ext (word_of_nat n), f_bytes = replicate n 0, f_readable = True,
     f_age = None, f_removable = True\<rparr>) [0, 1]"

definition listed_codec :: "unit codec" where
  "listed_codec = table_codec [listed_record 1 100, listed_record 2 200]"

lemma listed_loads: "load_all_checked listed_codec listed_dir = Inr [listed_record 1 100, listed_record 2 200]"
  by (simp add: listed_dir_def path_for_json listed_codec_def table_codec_def sample_ext_def show_u_def show_nat_digits)

text \<open>Following the cursors of the listing shows every swap the requester owns exactly once, newest
  first: with the store unchanged and whatever page size is asked for, the pages together are the
  owner's admitted swaps in the listing's order, none skipped at a page boundary and none repeated.\<close>

theorem paging_shows_every_owned_swap_once:
  assumes "reads_back x px" and "load_all_checked c d = Inr rs" and "distinct (map r_swap_id rs)"
    and "length rs < n"
  shows "walk_pages x px c t d sender authorization limit active n None
      = map (snapshot_of t) (owned_records px sender authorization active rs)
    \<and> strictly_listed (owned_records px sender authorization active rs)
    \<and> set (owned_records px sender authorization active rs) = {r \<in> set rs. authorized_peer px r sender authorization
     \<and> r_swap_accept r \<noteq> None \<and> r_pending_hold_invoice r = None \<and> (active = False \<or> is_terminal (r_state r) = False)}"
proof -
  have "length (owned_records px sender authorization active rs) \<le> length rs"
    by (simp add: owned_records_def)
  with assms(4) have "walk_pages x px c t d sender authorization limit active n None
      = map (snapshot_of t) (drop 0 (owned_records px sender authorization active rs))"
    by (intro walk_from [OF assms(1-3)]) simp_all
  then show ?thesis using owned_strict [OF assms(3)] by (auto simp: owned_set)
qed

theorem paging_shows_every_owned_swap_once_witness:
  "walk_pages sample_ext sample_px listed_codec 9 listed_dir ''alice'' None (Some 1) False 3 None
     = map (snapshot_of 9) (owned_records sample_px ''alice'' None False [listed_record 1 100, listed_record 2 200])"
proof -
  have "distinct (map r_swap_id [listed_record 1 100, listed_record 2 200])" by (simp add: listed_record_def)
  from paging_shows_every_owned_swap_once [OF sample_reads_back listed_loads this, THEN conjunct1] show ?thesis
    by simp
qed



end
