(* ===== verification/Access.thy ===== *)
theory Access
  imports Identity
begin

text \<open>
  Who may start new business: \<open>swap-provider/src/access.rs\<close>. The JSON of the policy file is read by
  the serde crate, a parameter; the sets of canonical keys are lists.
\<close>

datatype access_mode = OpenToAll | ApprovedOnly

record policy =
  po_mode :: access_mode
  po_allowed :: "string list"
  po_blocked :: "string list"

record policy_file =
  pf_mode :: access_mode
  pf_allowed :: "string list"
  pf_blocked :: "string list"

definition POLICY_MAX_BYTES :: nat where "POLICY_MAX_BYTES = 65536"
definition POLICY_MAX_KEYS :: nat where "POLICY_MAX_KEYS = 256"

definition default_policy :: policy where
  "default_policy = \<lparr>po_mode = OpenToAll, po_allowed = [], po_blocked = []\<rparr>"

fun canonical_all :: "provider_ext \<Rightarrow> string \<Rightarrow> nat \<Rightarrow> string list \<Rightarrow> string + string list" where
  "canonical_all px list_name index [] = Inr []"
| "canonical_all px list_name index (key # keys) =
     (case canonical_pubky px key of
        None \<Rightarrow> Inl (''invalid '' @ list_name @ '' pubky at entry '' @ show_nat (index + 1))
      | Some k \<Rightarrow> try_bind (canonical_all px list_name (index + 1) keys) (\<lambda>ks. Inr (k # ks)))"

definition normalize_keys :: "provider_ext \<Rightarrow> string list \<Rightarrow> string \<Rightarrow> string + string list" where
  "normalize_keys px keys list_name =
     (if length keys \<le> POLICY_MAX_KEYS then canonical_all px list_name 0 keys
      else Inl (''access list exceeds '' @ show_nat POLICY_MAX_KEYS @ '' pubkys''))"

text \<open>The argument \<open>path\<close> is \<open>None\<close> when no file is configured; \<open>contents\<close> is what reading it gives,
  and at most one byte past the limit is read.\<close>

definition policy_load ::
  "provider_ext \<Rightarrow> (bytes \<Rightarrow> policy_file option) \<Rightarrow> string option \<Rightarrow> string + bytes \<Rightarrow> string + policy" where
  "policy_load px parse path contents =
     (case path of None \<Rightarrow> Inr default_policy
      | Some _ \<Rightarrow>
          try_bind contents (\<lambda>b.
          let b = take (POLICY_MAX_BYTES + 1) b
          in if \<not> length b \<le> POLICY_MAX_BYTES then Inl ''access policy is too large''
             else try_bind (ok_or ''parse access policy'' (parse b)) (\<lambda>f.
                  try_bind (normalize_keys px (pf_allowed f) ''allowed'') (\<lambda>allowed.
                  try_bind (normalize_keys px (pf_blocked f) ''blocked'') (\<lambda>blocked.
                  Inr \<lparr>po_mode = pf_mode f, po_allowed = allowed, po_blocked = blocked\<rparr>)))))"

definition policy_allows :: "provider_ext \<Rightarrow> policy \<Rightarrow> string \<Rightarrow> bool" where
  "policy_allows px p account =
     (case canonical_pubky px account of None \<Rightarrow> False
      | Some key \<Rightarrow> key \<notin> set (po_blocked p) \<and> (po_mode p = OpenToAll \<or> key \<in> set (po_allowed p)))"

definition allows_request :: "provider_ext \<Rightarrow> policy \<Rightarrow> string \<Rightarrow> string \<Rightarrow> bool" where
  "allows_request px p account sender =
     (case canonical_pubky px sender of None \<Rightarrow> False
      | Some s \<Rightarrow> policy_allows px p account \<and> s \<notin> set (po_blocked p))"

text \<open>\<open>access_allowed\<close> of \<open>lib.rs\<close>: a policy that cannot be read refuses everybody.\<close>

definition access_allowed ::
  "provider_ext \<Rightarrow> (bytes \<Rightarrow> policy_file option) \<Rightarrow> string option \<Rightarrow> string + bytes \<Rightarrow> string option \<Rightarrow> string \<Rightarrow> bool" where
  "access_allowed px parse path contents account sender =
     (case policy_load px parse path contents of
        Inl _ \<Rightarrow> False
      | Inr p \<Rightarrow> allows_request px p (unwrap_or account sender) sender)"

subsection \<open>What the policy means\<close>

lemma canonical_all_set:
  "canonical_all px list_name index keys = Inr ks
   \<Longrightarrow> ks = map (\<lambda>k. the (canonical_pubky px k)) keys \<and> (\<forall>k\<in>set keys. canonical_pubky px k \<noteq> None)"
  by (induction keys arbitrary: index ks) (auto simp: try_bind_Inr split: option.splits)

lemma normalize_keys_set:
  "normalize_keys px keys list_name = Inr ks
   \<Longrightarrow> set ks = {k. \<exists>e\<in>set keys. canonical_pubky px e = Some k} \<and> length keys \<le> POLICY_MAX_KEYS"
  by (force simp: normalize_keys_def dest!: canonical_all_set split: if_splits)

lemma policy_load_cases:
  assumes "policy_load px parse (Some path) contents = Inr p"
  obtains b f where "contents = Inr b" "length b \<le> POLICY_MAX_BYTES" "parse b = Some f"
    "po_mode p = pf_mode f" "set (po_allowed p) = {k. \<exists>e\<in>set (pf_allowed f). canonical_pubky px e = Some k}"
    "set (po_blocked p) = {k. \<exists>e\<in>set (pf_blocked f). canonical_pubky px e = Some k}"
  using assms by (auto simp: policy_load_def try_bind_Inr Let_def split: if_splits dest!: normalize_keys_set)


definition keyring_px :: provider_ext where
  "keyring_px = \<lparr>px_pubky = (\<lambda>s. Some (map (\<lambda>c. word_of_nat (of_char c)) s)), px_pubky_str = map (\<lambda>w. char_of (unat w)),
     px_uuid_parse = (\<lambda>s. None), px_public_key = (\<lambda>k. \<lparr>pk_inner = k, pk_compressed = True\<rparr>),
     px_pubkey_from_slice = (\<lambda>b. Inr \<lparr>pk_inner = b, pk_compressed = True\<rparr>), px_pubkey_bytes = pk_inner\<rparr>"

lemma keyring_canonical: "canonical_pubky keyring_px (replicate 52 CHR ''a'') = Some (replicate 52 CHR ''a'')"
  by (simp add: canonical_pubky_def keyring_px_def trim_white_def trim_end_def is_white_def dropWhile_replicate Let_def) code_simp


end
