(* ===== verification/Provider_Config.thy ===== *)
theory Provider_Config
  imports Access Onchain Timelock Messages Validate Risk
begin

text \<open>
  The operator's configuration, what startup refuses in it, and the offer priced from it:
  \<open>ProviderConfig\<close>, the \<open>validate_*\<close> functions, \<open>offer_fee_rate\<close> and \<open>build_offer\<close> of
  \<open>swap-provider/src/lib.rs\<close>, and \<open>pricing.rs\<close>. The settings that only name a backend, a file or a
  secret are left out of the record. Text is lower-cased as ASCII.
\<close>

record provider_config =
  pc_network :: string
  pc_min_amount_sat :: u64
  pc_max_amount_sat :: u64
  pc_base_fee_sat :: u64
  pc_fee_ppm :: u64
  pc_required_confirmations :: u32
  pc_htlc_timeout_blocks :: u32
  pc_min_claim_window_blocks :: u32
  pc_max_concurrent_swaps :: nat
  pc_max_concurrent_per_peer :: nat
  pc_max_total_exposure_sat :: u64
  pc_max_exposure_per_peer_sat :: u64
  pc_min_onchain_reserve_sat :: u64
  pc_max_new_swaps_per_peer_per_hour :: u32
  pc_directions :: "swap_direction list"
  pc_broadcast_offer :: bool
  pc_onchain_fee_rate_sat_vb :: u64
  pc_invoice_expiry_secs :: u64
  pc_max_routing_fee_msat :: u64
  pc_allow_unsafe :: bool
  pc_quote_ttl_secs :: u64
  pc_fund_within_secs :: u64
  pc_access_policy_file :: "string option"
  pc_rendezvous_iroh :: bool
  pc_homeserver :: bool
  pc_wake_gateways :: "string list"

definition default_provider_config :: provider_config where
  "default_provider_config =
     \<lparr>pc_network = ''regtest'', pc_min_amount_sat = 10000, pc_max_amount_sat = 1000000, pc_base_fee_sat = 500,
      pc_fee_ppm = 2000, pc_required_confirmations = 1, pc_htlc_timeout_blocks = 144,
      pc_min_claim_window_blocks = PROVIDER_MIN_CLAIM_WINDOW, pc_max_concurrent_swaps = 25,
      pc_max_concurrent_per_peer = 2, pc_max_total_exposure_sat = 5000000,
      pc_max_exposure_per_peer_sat = 1000000, pc_min_onchain_reserve_sat = 100000,
      pc_max_new_swaps_per_peer_per_hour = 6, pc_directions = [Submarine, Reverse],
      pc_broadcast_offer = False, pc_onchain_fee_rate_sat_vb = 2, pc_invoice_expiry_secs = 3600,
      pc_max_routing_fee_msat = 10000, pc_allow_unsafe = False, pc_quote_ttl_secs = 300,
      pc_fund_within_secs = 300, pc_access_policy_file = None, pc_rendezvous_iroh = True,
      pc_homeserver = True, pc_wake_gateways = []\<rparr>"

definition MIN_MAINNET_CONFIRMATIONS :: u32 where "MIN_MAINNET_CONFIRMATIONS = 2"
definition MIN_MAINNET_FEE_FLOOR_SAT_VB :: u64 where "MIN_MAINNET_FEE_FLOOR_SAT_VB = 5"

definition risk_limits_of :: "provider_config \<Rightarrow> risk_limits" where
  "risk_limits_of c =
     \<lparr>rl_max_concurrent_swaps = pc_max_concurrent_swaps c, rl_max_concurrent_per_peer = pc_max_concurrent_per_peer c,
      rl_max_total_exposure_sat = pc_max_total_exposure_sat c, rl_max_exposure_per_peer_sat = pc_max_exposure_per_peer_sat c,
      rl_min_onchain_reserve_sat = pc_min_onchain_reserve_sat c,
      rl_max_new_swaps_per_peer_per_hour = pc_max_new_swaps_per_peer_per_hour c\<rparr>"

definition timelock_params_of :: "provider_config \<Rightarrow> timelock_params" where
  "timelock_params_of c =
     default_params\<lparr>tl_htlc_timeout_blocks := pc_htlc_timeout_blocks c,
       tl_required_confirmations := pc_required_confirmations c,
       tl_min_claim_window_blocks := pc_min_claim_window_blocks c\<rparr>"

definition validate_timelocks :: "provider_config \<Rightarrow> any_error + unit" where
  "validate_timelocks c =
     (let p = timelock_params_of c
      in try_bind (map_err (\<lambda>e. AnyMsg (''unusable timelock configuration: '' @ show_violation e
             @ '' (htlc_timeout_blocks='' @ show_u (pc_htlc_timeout_blocks c)
             @ '', required_confirmations='' @ show_u (pc_required_confirmations c)
             @ '', min_claim_window_blocks='' @ show_u (pc_min_claim_window_blocks c) @ '')'')) (validate_params p)) (\<lambda>_.
         try_bind (map_err (\<lambda>e. AnyMsg (''hold invoice CLTV delta: '' @ show_violation e)) (reverse_invoice_cltv_delta p))
           (\<lambda>_. Inr ())))"

definition validate_fund_within :: "provider_config \<Rightarrow> any_error + unit" where
  "validate_fund_within c =
     (if pc_fund_within_secs c = 0 \<or> pc_fund_within_secs c > MAX_FUND_WITHIN_SECS
      then Inl (AnyMsg (''fund_within_secs='' @ show_u (pc_fund_within_secs c) @ '' is outside 1..=''
             @ show_u MAX_FUND_WITHIN_SECS))
      else Inr ())"

definition validate_mainnet_safety :: "provider_config \<Rightarrow> bitcoin_network \<Rightarrow> any_error + unit" where
  "validate_mainnet_safety c network =
     (if network \<noteq> NetBitcoin \<or> pc_allow_unsafe c then Inr ()
      else if pc_required_confirmations c < MIN_MAINNET_CONFIRMATIONS
      then Inl (AnyMsg (''unsafe mainnet config: required_confirmations='' @ show_u (pc_required_confirmations c)
             @ '' (< '' @ show_u MIN_MAINNET_CONFIRMATIONS @ ''); raise it or pass --allow-unsafe''))
      else if pc_onchain_fee_rate_sat_vb c < MIN_MAINNET_FEE_FLOOR_SAT_VB
      then Inl (AnyMsg (''unsafe mainnet config: onchain_fee_rate_sat_vb='' @ show_u (pc_onchain_fee_rate_sat_vb c)
             @ '' (< '' @ show_u MIN_MAINNET_FEE_FLOOR_SAT_VB @ '' sat/vB floor); raise it or pass --allow-unsafe''))
      else Inr ())"

record transport_mode_error =
  tm_detail :: string
  tm_remedy :: string

text \<open>\<open>iroh\<close> is whether the build has that feature.\<close>

definition validate_transport_mode :: "bool \<Rightarrow> provider_config \<Rightarrow> transport_mode_error + unit" where
  "validate_transport_mode iroh c =
     (if pc_homeserver c then Inr ()
      else if pc_broadcast_offer c
      then Inl \<lparr>tm_detail = ''broadcast_offer sends the offer as Pubky DMs, which need a homeserver'',
                tm_remedy = ''drop --broadcast-offer, or drop --no-homeserver''\<rparr>
      else if \<not> pc_rendezvous_iroh c
      then Inl \<lparr>tm_detail = ''without a homeserver the iroh doorbell is the only way to reach this provider, and rendezvous_iroh is off'',
                tm_remedy = ''drop --no-rendezvous-iroh, or drop --no-homeserver''\<rparr>
      else if \<not> iroh
      then Inl \<lparr>tm_detail = ''this build has no iroh feature, so nothing could reach a provider without a homeserver'',
                tm_remedy = ''rebuild with --features full, or drop --no-homeserver''\<rparr>
      else Inr ())"

definition parse_network :: "string \<Rightarrow> any_error + bitcoin_network" where
  "parse_network s =
     (if s = ''bitcoin'' then Inr NetBitcoin else if s = ''testnet'' then Inr NetTestnet
      else if s = ''signet'' then Inr NetSignet else if s = ''regtest'' then Inr NetRegtest
      else Inl (AnyMsg (''unknown network: '' @ s)))"

definition lnd_network_to_bitcoin :: "string \<Rightarrow> bitcoin_network option" where
  "lnd_network_to_bitcoin s =
     (if s = ''mainnet'' then Some NetBitcoin else if s = ''testnet'' then Some NetTestnet
      else if s = ''signet'' then Some NetSignet else if s = ''regtest'' then Some NetRegtest else None)"

fun split_on :: "char \<Rightarrow> string \<Rightarrow> string list" where
  "split_on sep [] = [[]]"
| "split_on sep (ch # s) =
     (if ch = sep then [] # split_on sep s
      else (case split_on sep s of [] \<Rightarrow> [[ch]] | part # parts \<Rightarrow> (ch # part) # parts))"

definition lower_char :: "char \<Rightarrow> char" where
  "lower_char ch = (if 65 \<le> (of_char ch :: nat) \<and> (of_char ch :: nat) \<le> 90 then char_of (of_char ch + 32 :: nat) else ch)"

fun parse_each_direction :: "string list \<Rightarrow> any_error + swap_direction list" where
  "parse_each_direction [] = Inr []"
| "parse_each_direction (d # ds) =
     (let d = map lower_char (trim_white d)
      in if d = ''submarine'' then try_bind (parse_each_direction ds) (\<lambda>rest. Inr (Submarine # rest))
         else if d = ''reverse'' then try_bind (parse_each_direction ds) (\<lambda>rest. Inr (Reverse # rest))
         else Inl (AnyMsg (''unknown direction: '' @ d)))"

definition parse_directions :: "string \<Rightarrow> any_error + swap_direction list" where
  "parse_directions s = parse_each_direction (split_on CHR '','' s)"

subsection \<open>Pricing\<close>

definition FUNDING_VSIZE :: u64 where "FUNDING_VSIZE = 154"
definition REFUND_RESERVE_BPS :: u16 where "REFUND_RESERVE_BPS = 2500"
definition FEE_SAFETY_BPS :: u32 where "FEE_SAFETY_BPS = 15000"

definition expected_onchain_cost_sat :: "swap_direction \<Rightarrow> u64 \<Rightarrow> script \<Rightarrow> script \<Rightarrow> u64" where
  "expected_onchain_cost_sat direction fee_rate_sat_vb redeem_script dest =
     (let claim = spend_vsize redeem_script dest True;
          refund = spend_vsize redeem_script dest False;
          base_vsize = (case direction of
              Reverse \<Rightarrow> FUNDING_VSIZE + saturating_mul refund (ucast REFUND_RESERVE_BPS) div 10000
            | Submarine \<Rightarrow> claim);
          point = saturating_mul base_vsize fee_rate_sat_vb
      in saturating_mul point (ucast FEE_SAFETY_BPS) div 10000)"

definition representative_htlc_script :: "ext \<Rightarrow> provider_ext \<Rightarrow> script" where
  "representative_htlc_script x px =
     build_htlc_script x (replicate 32 0) (px_public_key px (replicate 32 1)) (px_public_key px (replicate 32 2)) 800000"

definition representative_dest_spk :: script where
  "representative_dest_spk = [0, 20] @ replicate 20 171"

definition FUNDING_FEE_TARGET_BLOCKS :: u16 where "FUNDING_FEE_TARGET_BLOCKS = 3"

text \<open>\<open>estimate\<close> is what the chain watcher answers, if there is one.\<close>

definition offer_fee_rate :: "(swap_error + u64 option) option \<Rightarrow> u64 \<Rightarrow> u64" where
  "offer_fee_rate estimate floor_sat_vb =
     resolve_fee_rate (case estimate of Some (Inr e) \<Rightarrow> e | _ \<Rightarrow> None) floor_sat_vb ABSOLUTE_MAX_FEE_RATE_SAT_VB"

definition SWAP_LIST_FEATURE :: string where "SWAP_LIST_FEATURE = ''swap-list-v1''"
definition PAYKIT_CAP_FEATURE :: string where "PAYKIT_CAP_FEATURE = ''paykit-cap-v1''"
definition CLAIMABLE_HINT_FEATURE :: string where "CLAIMABLE_HINT_FEATURE = ''claimable-hint-v1''"
definition SWAP_WAKE_FEATURE :: string where "SWAP_WAKE_FEATURE = ''swap-wake-v1''"

definition normalized_url :: "string \<Rightarrow> string" where
  "normalized_url url = trim_end (\<lambda>ch. ch = CHR ''/'') (trim_white url)"

definition allowlist_usable :: "string list \<Rightarrow> bool" where
  "allowlist_usable allowlist \<longleftrightarrow> list_ex (\<lambda>url. strip_prefix ''https://'' (normalized_url url) \<noteq> None) allowlist"

definition offer_features :: "bool \<Rightarrow> provider_config \<Rightarrow> bool \<Rightarrow> string list" where
  "offer_features iroh c capable =
     (if \<not> capable then []
      else [''boltz-taproot-v1'', ''swap-status-v1'', SWAP_LIST_FEATURE, CLAIMABLE_HINT_FEATURE]
        @ (if allowlist_usable (pc_wake_gateways c) then [SWAP_WAKE_FEATURE] else [])
        @ (if pc_homeserver c then [''dm-retention-v1''] else [])
        @ (if iroh \<and> pc_rendezvous_iroh c then [''session-rpc-v1'', ''direct-rpc-v1'', PAYKIT_CAP_FEATURE] else []))"

definition build_offer ::
  "ext \<Rightarrow> provider_ext \<Rightarrow> bool \<Rightarrow> provider_config \<Rightarrow> string \<Rightarrow> bitcoin_network \<Rightarrow> string option \<Rightarrow> u64 \<Rightarrow> bool
   \<Rightarrow> u64 \<Rightarrow> uuid \<Rightarrow> any_error + swap_offer" where
  "build_offer x px iroh c provider_pkarr network lightning_node_id fee_rate_sat_vb capable now_unix offer_id =
     (let script = representative_htlc_script x px;
          dest = representative_dest_spk;
          onchain_fee_sat = fold max (map (\<lambda>d. expected_onchain_cost_sat d fee_rate_sat_vb script dest) (pc_directions c)) 0
      in try_bind (map_err AnySwap (from_bitcoin_network network)) (\<lambda>network.
         Inr \<lparr>of_request_id = None, of_offer_id = offer_id, of_provider_pkarr = provider_pkarr, of_network = network,
              of_directions = pc_directions c, of_min_amount_sat = pc_min_amount_sat c,
              of_max_amount_sat = pc_max_amount_sat c, of_base_fee_sat = pc_base_fee_sat c, of_fee_ppm = pc_fee_ppm c,
              of_required_confirmations = pc_required_confirmations c, of_htlc_timeout_blocks = pc_htlc_timeout_blocks c,
              of_lightning_node_id = lightning_node_id,
              of_valid_until_unix = saturating_add now_unix (pc_quote_ttl_secs c),
              of_fund_within_secs = pc_fund_within_secs c, of_onchain_fee_sat = onchain_fee_sat,
              of_fee_rate_sat_vb = fee_rate_sat_vb, of_protocol_version = PROTOCOL_VERSION,
              of_features = offer_features iroh c capable\<rparr>))"

subsection \<open>What a price covers\<close>

text \<open>The size a swap is priced by, in virtual bytes: what the provider itself puts on chain.\<close>

definition priced_vsize :: "swap_direction \<Rightarrow> script \<Rightarrow> script \<Rightarrow> u64" where
  "priced_vsize direction redeem_script dest =
     (case direction of
        Reverse \<Rightarrow> FUNDING_VSIZE + saturating_mul (spend_vsize redeem_script dest False) (ucast REFUND_RESERVE_BPS) div 10000
      | Submarine \<Rightarrow> spend_vsize redeem_script dest True)"

lemma fold_max_ge: "d \<in> set xs \<Longrightarrow> f d \<le> fold max (map f xs) (a :: 'a::linorder)"
proof (induction xs arbitrary: a)
  case (Cons y ys)
  have "b \<le> fold max (map f ys) b" for b
    by (induction ys arbitrary: b) (simp, metis fold_simps(2) list.simps(9) max.bounded_iff)
  from order_trans [OF _ this] have "x \<le> y \<Longrightarrow> x \<le> fold max (map f ys) y" for x y .
  with Cons show ?case by (auto simp del: max.bounded_iff intro: max.cobounded1)
qed simp

lemma scaled_price: "min (3 * n div 2) ((2 ^ 64 - 1) div 10000) \<le> min (min n (2 ^ 64 - 1) * 15000) (2 ^ 64 - 1) div (10000 :: nat)"
proof (cases "n * 15000 \<le> 2 ^ 64 - 1")
  case True
  then show ?thesis by simp
next
  case False
  then have "min (min n (2 ^ 64 - 1) * 15000) (2 ^ 64 - 1) = (2 ^ 64 - 1 :: nat)" by (cases "n \<le> 2 ^ 64 - 1") simp_all
  then show ?thesis by simp
qed

lemma expected_cost_unat:
  "min (3 * (unat (priced_vsize d s spk) * unat rate) div 2) ((2 ^ 64 - 1) div 10000)
    \<le> unat (expected_onchain_cost_sat d rate s spk)"
proof -
  have e: "expected_onchain_cost_sat d rate s spk
      = saturating_mul (saturating_mul (priced_vsize d s spk) rate) (ucast FEE_SAFETY_BPS) div 10000"
    by (cases d) (simp_all add: expected_onchain_cost_sat_def priced_vsize_def Let_def)
  have "unat (ucast FEE_SAFETY_BPS :: u64) = 15000" by (simp add: FEE_SAFETY_BPS_def)
  then have "unat (expected_onchain_cost_sat d rate s spk)
      = min (min (unat (priced_vsize d s spk) * unat rate) (2 ^ 64 - 1) * 15000) (2 ^ 64 - 1) div 10000"
    by (simp add: e unat_div arith)
  with scaled_price show ?thesis by (simp only:)
qed

lemma quote_fee_at_least_onchain: "of_onchain_fee_sat offer \<le> total_fee_sat (quote_fee_of offer a)"
  using unat_u64_bound [of "of_onchain_fee_sat offer"] by (simp add: quote_fee_of_def Let_def word_le_nat_alt arith)

text \<open>C31: An offer is priced at one and a half times what the costlier advertised direction puts on
  chain at the offer's own fee rate: for every direction the offer names, the fee of a quote of any
  amount covers 150 percent of that direction's transactions (the funding and a quarter of a refund
  for a reverse swap, the claim for a submarine one), up to the largest price the arithmetic can name,
  and nothing wraps around.\<close>

theorem offer_covers_its_transactions:
  assumes "build_offer x px iroh c pk network node rate capable at i = Inr offer"
    and "d \<in> set (of_directions offer)"
  shows "min (3 * (unat (priced_vsize d (representative_htlc_script x px) representative_dest_spk) * unat rate) div 2)
           ((2 ^ 64 - 1) div 10000)
         \<le> unat (total_fee_sat (quote_fee_of offer amount))"
proof -
  from assms have "d \<in> set (pc_directions c)"
    and "of_onchain_fee_sat offer = fold max (map (\<lambda>d. expected_onchain_cost_sat d rate
           (representative_htlc_script x px) representative_dest_spk) (pc_directions c)) 0"
    by (auto simp: build_offer_def Let_def try_bind_Inr)
  then have "expected_onchain_cost_sat d rate (representative_htlc_script x px) representative_dest_spk
      \<le> total_fee_sat (quote_fee_of offer amount)"
    using quote_fee_at_least_onchain [of offer amount] fold_max_ge [where d = d and xs = "pc_directions c"]
    by (metis (no_types, lifting) order_trans)
  then show ?thesis
    using expected_cost_unat [of d "representative_htlc_script x px" representative_dest_spk rate]
    by (simp add: word_le_nat_alt)
qed

theorem offer_covers_its_transactions_witness:
  "\<exists>offer. build_offer sample_ext keyring_px True default_provider_config ''pk'' NetRegtest None 20 True 0 1 = Inr offer
     \<and> min (3 * (unat (priced_vsize Reverse (representative_htlc_script sample_ext keyring_px) representative_dest_spk) * unat (20 :: u64)) div 2)
           ((2 ^ 64 - 1) div 10000) \<le> unat (total_fee_sat (quote_fee_of offer 100000))"
proof -
  obtain offer where o: "build_offer sample_ext keyring_px True default_provider_config ''pk'' NetRegtest None 20 True 0 1 = Inr offer"
    by (simp add: build_offer_def Let_def)
  then have "Reverse \<in> set (of_directions offer)"
    by (auto simp: build_offer_def Let_def default_provider_config_def)
  from offer_covers_its_transactions [OF o this] o show ?thesis by blast
qed

end
