(* ===== verification/Wake.thy ===== *)
theory Wake
  imports Listing Provider_Config
begin

text \<open>
  Waking the owner of a reverse swap through the grant it sent: \<open>swap-provider/src/wake.rs\<close> and
  \<open>accept_wake_capability\<close> of \<open>lib.rs\<close>. The held grants are an association list with distinct keys; the
  owner-only file is the list it holds, when there is one. A grant leaves only as a request to a
  gateway, and the state logs those.
\<close>

definition SWAP_WAKE_TOPIC :: string where "SWAP_WAKE_TOPIC = ''swap.claimable''"
definition WAKE_TOKEN_MAX_LEN :: nat where "WAKE_TOKEN_MAX_LEN = 256"
definition CAPABILITY_VERSION :: u16 where "CAPABILITY_VERSION = 1"

datatype wake_refused = WrVersion | WrGateway | WrTopic | WrToken | WrExpired | WrAlreadyHeld

fun show_wake_refused :: "wake_refused \<Rightarrow> string" where
  "show_wake_refused WrVersion = ''unsupported wake capability version''"
| "show_wake_refused WrGateway = ''wake gateway is not on this provider's allowlist''"
| "show_wake_refused WrTopic = ''wake capability does not cover the swap topic''"
| "show_wake_refused WrToken = ''wake capability token is malformed''"
| "show_wake_refused WrExpired = ''wake capability has expired''"
| "show_wake_refused WrAlreadyHeld = ''this swap already has a wake capability''"

datatype wake_outcome = WakeAccepted | GrantInvalid | WakeRateLimited | WakeFailed string

text \<open>What the HTTP client reports: a status, or the kind of failure.\<close>

datatype http_answer = HttpStatus u16 | HttpTimeout | HttpConnect | HttpOther

record waker =
  wk_allowlist :: "string list"
  wk_held :: "(uuid \<times> wake_capability) list"
  wk_file :: "(uuid \<times> wake_capability) list option"
  wk_sent :: "(string \<times> string) list" \<comment> \<open>gateway URL and token of each request made\<close>

definition waker_new :: "string list \<Rightarrow> waker" where
  "waker_new allowlist =
     \<lparr>wk_allowlist = filter (\<lambda>url. strip_prefix ''https://'' url \<noteq> None) (map normalized_url allowlist),
      wk_held = [], wk_file = None, wk_sent = []\<rparr>"

text \<open>\<open>persisted\<close> is what the file of the previous run holds, \<open>None\<close> when it cannot be read or parsed.\<close>

definition persisted_at :: "(uuid \<times> wake_capability) list option \<Rightarrow> waker \<Rightarrow> waker" where
  "persisted_at persisted w =
     w\<lparr>wk_held := unwrap_or persisted [], wk_file := Some (unwrap_or persisted [])\<rparr>"

text \<open>\<open>written\<close> is whether the file could be replaced.\<close>

definition wake_save :: "bool \<Rightarrow> waker \<Rightarrow> waker" where
  "wake_save written w =
     (case wk_file w of None \<Rightarrow> w
      | Some _ \<Rightarrow> if written then w\<lparr>wk_file := Some (wk_held w)\<rparr> else w)"

definition wake_enabled :: "waker \<Rightarrow> bool" where
  "wake_enabled w \<longleftrightarrow> wk_allowlist w \<noteq> []"

definition token_char :: "char \<Rightarrow> bool" where
  "token_char ch \<longleftrightarrow> (let n = (of_char ch :: nat) in 48 \<le> n \<and> n \<le> 57 \<or> 65 \<le> n \<and> n \<le> 90 \<or> 97 \<le> n \<and> n \<le> 122
     \<or> ch = CHR ''_'' \<or> ch = CHR ''-'')"

definition wake_check :: "waker \<Rightarrow> wake_capability \<Rightarrow> u64 \<Rightarrow> wake_refused + unit" where
  "wake_check w capability now_unix =
     (if wc_v capability \<noteq> CAPABILITY_VERSION then Inl WrVersion
      else if \<not> list_ex (\<lambda>allowed. allowed = normalized_url (wc_gateway capability)) (wk_allowlist w) then Inl WrGateway
      else if \<not> list_ex (\<lambda>topic. topic = SWAP_WAKE_TOPIC) (wc_topics capability) then Inl WrTopic
      else if strip_prefix ''wkg_'' (wc_token capability) = None
              \<or> length (wc_token capability) > WAKE_TOKEN_MAX_LEN
              \<or> \<not> list_all token_char (wc_token capability) then Inl WrToken
      else if wc_expires_at capability \<le> now_unix then Inl WrExpired
      else Inr ())"

definition wake_hold :: "bool \<Rightarrow> uuid \<Rightarrow> wake_capability \<Rightarrow> u64 \<Rightarrow> waker \<Rightarrow> (wake_refused + unit) \<times> waker" where
  "wake_hold written swap_id capability now_unix w =
     (case wake_check w capability now_unix of
        Inl e \<Rightarrow> (Inl e, w)
      | Inr _ \<Rightarrow> (case map_of (wk_held w) swap_id of
          Some existing \<Rightarrow> if existing = capability then (Inr (), w) else (Inl WrAlreadyHeld, w)
        | None \<Rightarrow> (Inr (), wake_save written (w\<lparr>wk_held := AList.update swap_id capability (wk_held w)\<rparr>))))"

definition wake_take :: "bool \<Rightarrow> uuid \<Rightarrow> waker \<Rightarrow> wake_capability option \<times> waker" where
  "wake_take written swap_id w =
     (let taken = map_of (wk_held w) swap_id;
          w = w\<lparr>wk_held := AList.delete swap_id (wk_held w)\<rparr>
      in (taken, if taken = None then w else wake_save written w))"

definition wake_forget :: "bool \<Rightarrow> uuid \<Rightarrow> waker \<Rightarrow> waker" where
  "wake_forget written swap_id w = snd (wake_take written swap_id w)"

definition wake_send :: "http_answer \<Rightarrow> wake_capability \<Rightarrow> u64 \<Rightarrow> waker \<Rightarrow> wake_outcome \<times> waker" where
  "wake_send answer capability now_unix w =
     (case wake_check w capability now_unix of
        Inl refused \<Rightarrow> (WakeFailed (show_wake_refused refused), w)
      | Inr _ \<Rightarrow>
          (case answer of
             HttpStatus status \<Rightarrow> if status = 202 then WakeAccepted else if status = 403 then GrantInvalid
               else if status = 429 then WakeRateLimited else WakeFailed (''gateway answered '' @ show_u status)
           | HttpTimeout \<Rightarrow> WakeFailed ''gateway timed out''
           | HttpConnect \<Rightarrow> WakeFailed ''gateway unreachable''
           | HttpOther \<Rightarrow> WakeFailed ''gateway request failed'',
           w\<lparr>wk_sent := wk_sent w @ [(normalized_url (wc_gateway capability) @ ''/v1/peer/wakes'', wc_token capability)]\<rparr>))"

subsection \<open>Taking a grant in\<close>

text \<open>The second read of the record follows the hold; \<open>d'\<close> is the directory by then.\<close>

definition accept_wake_capability ::
  "ext \<Rightarrow> provider_ext \<Rightarrow> 'c codec \<Rightarrow> u64 \<Rightarrow> bool \<Rightarrow> dir \<Rightarrow> dir \<Rightarrow> string \<Rightarrow> (string \<times> string) option
   \<Rightarrow> swap_wake_capability \<Rightarrow> waker \<Rightarrow> (handler_error + swap_status_snapshot) \<times> waker" where
  "accept_wake_capability x px c now_unix written d d' sender authorization offer w =
     (if \<not> wake_enabled w then (Inl (Refusal RcUnsupportedRoute ''this provider sends no wakes''), w)
      else case map_err Internal (store_get x c (sw_swap_id offer) d) of
        Inl e \<Rightarrow> (Inl e, w)
      | Inr None \<Rightarrow> (Inl (Lookup LookupNotFound), w)
      | Inr (Some r) \<Rightarrow>
          if \<not> authorized_peer px r sender authorization then (Inl (Lookup LookupNotFound), w)
          else if r_pending_hold_invoice r \<noteq> None then (Inl (Lookup LookupPending), w)
          else if r_direction r \<noteq> Reverse \<or> \<not> r_claimable_hint r
          then (Inl (Refusal RcInvalidRequest (''only a reverse swap quoted with '' @ CLAIMABLE_HINT_FEATURE @ '' takes a wake'')), w)
          else if is_terminal (r_state r) then (Inl (Refusal RcInvalidRequest ''the swap has ended''), w)
          else let snapshot = (\<lambda>r. ok_or (Internal (AnyMsg ''this older swap has no persisted acceptance''))
                                    (status_snapshot r (sw_request_id offer) now_unix))
          in if r_claimable_at_unix r \<noteq> None then (snapshot r, w)
          else case wake_hold written (r_swap_id r) (sw_capability offer) now_unix w of
            (Inl refused, w) \<Rightarrow> (Inl (Refusal RcInvalidRequest (show_wake_refused refused)), w)
          | (Inr _, w) \<Rightarrow>
              (case map_err Internal (store_get x c (sw_swap_id offer) d') of
                 Inl e \<Rightarrow> (Inl e, w)
               | Inr None \<Rightarrow> (Inl (Lookup LookupNotFound), w)
               | Inr (Some r) \<Rightarrow>
                   (snapshot r, if r_claimable_at_unix r \<noteq> None then wake_forget written (r_swap_id r) w else w)))"

subsection \<open>The grants over a run\<close>

text \<open>The operations of a run, with the time and the answers of the environment: a grant handed in, a
  swap that becomes claimable (its grant is taken and one wake sent, as \<open>announce_claimable\<close> does),
  and a swap that ends.\<close>

datatype wake_op =
    WHold bool uuid wake_capability u64
  | WClaimable bool uuid http_answer u64
  | WForget bool uuid

fun wake_step :: "wake_op \<Rightarrow> waker \<Rightarrow> waker" where
  "wake_step (WHold written i capability at) w = snd (wake_hold written i capability at w)"
| "wake_step (WClaimable written i answer at) w =
     (case wake_take written i w of
        (None, w) \<Rightarrow> w
      | (Some capability, w) \<Rightarrow> snd (wake_send answer capability at w))"
| "wake_step (WForget written i) w = wake_forget written i w"

definition wake_run :: "wake_op list \<Rightarrow> waker \<Rightarrow> waker" where
  "wake_run ops w = fold wake_step ops w"

text \<open>The requests a run makes for one swap, and the grants its owner hands in.\<close>

fun wakes_of :: "uuid \<Rightarrow> wake_op list \<Rightarrow> waker \<Rightarrow> nat" where
  "wakes_of i [] w = 0"
| "wakes_of i (p # ps) w =
     (case p of WClaimable _ j _ _ \<Rightarrow> if j = i then length (wk_sent (wake_step p w)) - length (wk_sent w) else 0
      | _ \<Rightarrow> 0) + wakes_of i ps (wake_step p w)"

fun grants_of :: "uuid \<Rightarrow> wake_op list \<Rightarrow> nat" where
  "grants_of i [] = 0"
| "grants_of i (p # ps) = (case p of WHold _ j _ _ \<Rightarrow> if j = i then 1 else 0 | _ \<Rightarrow> 0) + grants_of i ps"

definition holds :: "uuid \<Rightarrow> waker \<Rightarrow> bool" where
  "holds i w \<longleftrightarrow> map_of (wk_held w) i \<noteq> None"

definition well_sent :: "waker \<Rightarrow> bool" where
  "well_sent w \<longleftrightarrow> list_all (\<lambda>(url, token).
       list_ex (\<lambda>allowed. url = allowed @ ''/v1/peer/wakes'' \<and> strip_prefix ''https://'' allowed \<noteq> None) (wk_allowlist w)
       \<and> strip_prefix ''wkg_'' token \<noteq> None \<and> length token \<le> WAKE_TOKEN_MAX_LEN \<and> list_all token_char token)
     (wk_sent w)"

definition https_only :: "waker \<Rightarrow> bool" where
  "https_only w \<longleftrightarrow> list_all (\<lambda>url. strip_prefix ''https://'' url \<noteq> None) (wk_allowlist w)"

lemma wake_save_simps [simp]:
  "wk_allowlist (wake_save f w) = wk_allowlist w" "wk_held (wake_save f w) = wk_held w" "wk_sent (wake_save f w) = wk_sent w"
  by (simp_all add: wake_save_def split: option.split)

lemma wake_check_Inr:
  "wake_check w c at = Inr () \<longleftrightarrow>
     wc_v c = CAPABILITY_VERSION \<and> normalized_url (wc_gateway c) \<in> set (wk_allowlist w)
     \<and> SWAP_WAKE_TOPIC \<in> set (wc_topics c) \<and> strip_prefix ''wkg_'' (wc_token c) \<noteq> None
     \<and> length (wc_token c) \<le> WAKE_TOKEN_MAX_LEN \<and> list_all token_char (wc_token c) \<and> at < wc_expires_at c"
  by (auto simp: wake_check_def list_ex_iff)

lemma wake_send_state:
  "wk_allowlist (snd (wake_send a c at w)) = wk_allowlist w \<and> wk_held (snd (wake_send a c at w)) = wk_held w
   \<and> wk_sent (snd (wake_send a c at w)) = wk_sent w
        @ (if wake_check w c at = Inr () then [(normalized_url (wc_gateway c) @ ''/v1/peer/wakes'', wc_token c)] else [])"
  by (auto simp: wake_send_def split: sum.split)

lemma wake_take_state:
  "wk_allowlist (snd (wake_take f i w)) = wk_allowlist w \<and> wk_sent (snd (wake_take f i w)) = wk_sent w
   \<and> wk_held (snd (wake_take f i w)) = AList.delete i (wk_held w) \<and> fst (wake_take f i w) = map_of (wk_held w) i"
  by (simp add: wake_take_def Let_def)

lemma wake_hold_state:
  "wk_allowlist (snd (wake_hold f i c at w)) = wk_allowlist w \<and> wk_sent (snd (wake_hold f i c at w)) = wk_sent w
   \<and> (holds j (snd (wake_hold f i c at w)) \<longrightarrow> j = i \<or> holds j w)"
  by (auto simp: wake_hold_def holds_def update_conv' split: sum.split option.split)

lemma wake_step_allowlist: "wk_allowlist (wake_step p w) = wk_allowlist w"
  by (cases p) (simp_all add: wake_forget_def wake_take_state wake_send_state wake_hold_state prod.case_eq_if split: option.split)

lemma well_sent_step:
  assumes "well_sent w" and "https_only w"
  shows "well_sent (wake_step p w) \<and> https_only (wake_step p w)"
proof -
  have h: "https_only (wake_step p w)" using assms(2) by (simp add: https_only_def wake_step_allowlist)
  show ?thesis
  proof (cases p)
    case (WClaimable f i a at)
    show ?thesis
    proof (cases "wake_take f i w")
      case (Pair taken w')
      with wake_take_state [of f i w] have w': "wk_allowlist w' = wk_allowlist w" "wk_sent w' = wk_sent w" by auto
      show ?thesis
      proof (cases taken)
        case None
        with Pair WClaimable assms h w' show ?thesis by (simp add: well_sent_def)
      next
        case (Some c)
        then have st: "wake_step p w = snd (wake_send a c at w')" using Pair WClaimable by simp
        have "well_sent (snd (wake_send a c at w'))"
          using wake_send_state [of a c at w'] assms w'
          by (auto simp: well_sent_def https_only_def wake_check_Inr list_ex_iff list_all_iff)
        with h st show ?thesis by simp
      qed
    qed
  qed (use assms h wake_hold_state wake_take_state in \<open>auto simp: well_sent_def wake_forget_def\<close>)
qed

lemma wakes_bounded: "wakes_of i ps w \<le> grants_of i ps + (if holds i w then 1 else 0)"
proof (induction ps arbitrary: w)
  case (Cons p ps)
  have gone: "\<not> holds i (snd (wake_take f i w))" for f
    using wake_take_state [of f i w] by (simp add: holds_def delete_conv')
  have other: "holds i (snd (wake_take f j w)) \<longrightarrow> holds i w" for f j
    using wake_take_state [of f j w] by (auto simp: holds_def delete_conv')
  show ?case
  proof (cases p)
    case (WHold f j c at)
    then show ?thesis using Cons.IH [of "wake_step p w"] wake_hold_state [of f j c at w i] by (auto split: if_splits)
  next
    case (WForget f j)
    then show ?thesis using Cons.IH [of "wake_step p w"] other [of f j] by (auto simp: wake_forget_def split: if_splits)
  next
    case (WClaimable f j a at)
    obtain taken w' where t: "wake_take f j w = (taken, w')" by (cases "wake_take f j w")
    have same: "wk_sent w' = wk_sent w" "taken = map_of (wk_held w) j" using wake_take_state [of f j w] t by auto
    show ?thesis
    proof (cases taken)
      case None
      then have "wake_step p w = w'" using WClaimable t by simp
      then show ?thesis using Cons.IH [of w'] WClaimable same other [of f j] t by (auto split: if_splits)
    next
      case (Some c)
      then have st: "wake_step p w = snd (wake_send a c at w')" using WClaimable t by simp
      have "length (wk_sent (wake_step p w)) - length (wk_sent w) \<le> 1"
        using wake_send_state [of a c at w'] st same by simp
      moreover have "holds i (wake_step p w) = holds i w'" using wake_send_state [of a c at w'] st by (simp add: holds_def)
      moreover have "j = i \<Longrightarrow> \<not> holds i w' \<and> holds i w" using gone [of f] t same Some by (simp add: holds_def) metis
      moreover have "holds i w' \<longrightarrow> holds i w" using other [of f j] t by simp
      ultimately show ?thesis using Cons.IH [of "wake_step p w"] WClaimable by (auto split: if_splits)
    qed
  qed
qed simp

text \<open>C32: A wake token is spent only where the operator and the owner both allow: over any run, every
  request goes to the wake endpoint of an https gateway on the configured allowlist with a well-formed
  token, whatever gateway an owner names, and a swap is woken at most as often as its owner handed in
  a grant (once more if a previous run left one on file).\<close>

theorem wakes_stay_within_the_grants:
  assumes "wk_sent w = []" and "w = waker_new allowlist \<or> w = persisted_at persisted (waker_new allowlist)"
  shows "list_all (\<lambda>(url, token). list_ex (\<lambda>gateway. url = normalized_url gateway @ ''/v1/peer/wakes''
            \<and> strip_prefix ''https://'' (normalized_url gateway) \<noteq> None) allowlist
          \<and> strip_prefix ''wkg_'' token \<noteq> None \<and> length token \<le> WAKE_TOKEN_MAX_LEN \<and> list_all token_char token)
       (wk_sent (wake_run ops w))
     \<and> wakes_of i ops w \<le> grants_of i ops + (if holds i w then 1 else 0)"
proof -
  have "https_only w" "well_sent w"
    using assms by (auto simp: https_only_def well_sent_def persisted_at_def waker_new_def list_all_iff)
  then have "well_sent (fold wake_step ops w) \<and> wk_allowlist (fold wake_step ops w) = wk_allowlist w"
    by (induction ops arbitrary: w) (simp_all add: wake_step_allowlist well_sent_step)
  moreover have "wk_allowlist w = filter (\<lambda>url. strip_prefix ''https://'' url \<noteq> None) (map normalized_url allowlist)"
    using assms(2) by (auto simp: waker_new_def persisted_at_def)
  ultimately show ?thesis
    using wakes_bounded [of i ops w] unfolding wake_run_def well_sent_def list_all_iff list_ex_iff by fastforce
qed

definition sample_grant :: wake_capability where
  "sample_grant = \<lparr>wc_v = 1, wc_gateway = ''https://wake.example/'', wc_topics = [''swap.claimable''], wc_token = ''wkg_abc'',
     wc_expires_at = 2000\<rparr>"

theorem wakes_stay_within_the_grants_witness:
  "wk_sent (wake_run [WHold True 1 sample_grant 1000, WClaimable True 1 (HttpStatus 202) 1500, WClaimable True 1 (HttpStatus 202) 1500]
       (waker_new [''https://wake.example''])) = [(''https://wake.example/v1/peer/wakes'', ''wkg_abc'')]
   \<and> wakes_of 1 [WHold True 1 sample_grant 1000, WClaimable True 1 (HttpStatus 202) 1500, WClaimable True 1 (HttpStatus 202) 1500]
       (waker_new [''https://wake.example'']) \<le> 1"
proof -
  have "wk_sent (waker_new [''https://wake.example'']) = [] \<and> \<not> holds 1 (waker_new [''https://wake.example''])"
    by (simp add: waker_new_def holds_def)
  then have "wakes_of 1 [WHold True 1 sample_grant 1000, WClaimable True 1 (HttpStatus 202) 1500, WClaimable True 1 (HttpStatus 202) 1500]
       (waker_new [''https://wake.example'']) \<le> 1"
    using wakes_stay_within_the_grants [of "waker_new [''https://wake.example'']" "[''https://wake.example'']" None
        "[WHold True 1 sample_grant 1000, WClaimable True 1 (HttpStatus 202) 1500, WClaimable True 1 (HttpStatus 202) 1500]" 1, THEN conjunct2]
    by simp
  moreover have "wk_sent (wake_run [WHold True 1 sample_grant 1000, WClaimable True 1 (HttpStatus 202) 1500, WClaimable True 1 (HttpStatus 202) 1500]
       (waker_new [''https://wake.example''])) = [(''https://wake.example/v1/peer/wakes'', ''wkg_abc'')]"
    by code_simp
  ultimately show ?thesis by blast
qed

end
