(* ===== verification/Admission.thy ===== *)
theory Admission
  imports Listing Wake Access Provider_Config Funding Submarine_Driver
begin

text \<open>
  Turning a redeemed quote into a running swap: \<open>start_reverse\<close>, \<open>start_submarine\<close>, the recovery of a
  half-made admission and the resume after a restart, of \<open>swap-provider/src/lib.rs\<close>. A request is
  served in one piece (the source holds the creation lock across it) over the provider's state;
  what the clock, the node, the chain, the wallet, the disk and the messenger answer while it runs is
  a record of answers, and what is done to the outside is a log.
\<close>

subsection \<open>The context of a request\<close>

record exec_ctx =
  cx_account :: "string option"
  cx_scope :: "string option"
  cx_has_chain :: bool
  cx_has_wallet :: bool
  cx_network :: bitcoin_network
  cx_required_confirmations :: u32
  cx_timelock :: timelock_params
  cx_onchain_fee_rate_sat_vb :: u64
  cx_invoice_expiry_secs :: u64
  cx_max_routing_fee_msat :: u64
  cx_quote_ttl_secs :: u64
  cx_access_policy_file :: "string option"
  cx_limits :: risk_limits
  cx_min_onchain_reserve_sat :: u64
  cx_capable :: bool

definition authorization :: "exec_ctx \<Rightarrow> (string \<times> string) option" where
  "authorization cx = (case (cx_account cx, cx_scope cx) of (Some a, Some s) \<Rightarrow> Some (a, s) | _ \<Rightarrow> None)"

datatype send_result = Sent | MessengerFailed string | SendFailed string

record answers =
  an_now :: u64 \<comment> \<open>the clock when a quote is issued or redeemed\<close>
  an_instant :: nat
  an_created :: u64
  an_updated :: u64
  an_completed :: u64
  an_swap_id :: uuid
  an_quote_id :: uuid
  an_secret_key :: secret_key
  an_tip :: "swap_error + u32"
  an_balance :: "swap_error + u64 option" \<comment> \<open>\<open>None\<close> where the wallet cannot tell\<close>
  an_lookup :: "hold_invoice_request \<Rightarrow> lightning_error + hold_invoice option"
  an_create :: "hold_invoice_request \<Rightarrow> lightning_error + hold_invoice"
  an_decode :: "string \<Rightarrow> lightning_error + decoded_invoice"
  an_put :: circumstances \<comment> \<open>of the record's first write\<close>
  an_put_completed :: circumstances
  an_send :: "swap_message \<Rightarrow> send_result"
  an_policy :: "string + bytes"
  an_wake_written :: bool
  an_later_dir :: "dir \<Rightarrow> dir" \<comment> \<open>what running drivers wrote by the second read\<close>

datatype 'c action =
    Persisted "'c swap_record" bool
  | InvoiceLookedUp hold_invoice_request
  | InvoiceCreated hold_invoice_request
  | InvoiceDecoded string
  | Replied string swap_message send_result
  | DriverStarted "'c swap_record"

record 'c provider_state =
  ps_store :: dir
  ps_quotes :: quote_book
  ps_risk :: risk_inner
  ps_waker :: waker
  ps_log :: "'c action list"

type_synonym ('c, 'a) step = "'c provider_state \<Rightarrow> (handler_error + 'a) \<times> 'c provider_state"

definition pass :: "handler_error + 'a \<Rightarrow> ('c, 'a) step" where
  "pass r s = (r, s)"

text \<open>The \<open>?\<close> of the source: stop at an error.\<close>

definition andthen :: "('c, 'a) step \<Rightarrow> ('a \<Rightarrow> ('c, 'b) step) \<Rightarrow> ('c, 'b) step" where
  "andthen p f s = (case p s of (Inl e, s) \<Rightarrow> (Inl e, s) | (Inr v, s) \<Rightarrow> f v s)"

definition log_action :: "'c action \<Rightarrow> 'c provider_state \<Rightarrow> 'c provider_state" where
  "log_action a s = s\<lparr>ps_log := ps_log s @ [a]\<rparr>"

text \<open>A reservation guard that is dropped with an error releases what it held.\<close>

definition guarded :: "uuid \<Rightarrow> ('c, 'a) step \<Rightarrow> ('c, 'a) step" where
  "guarded swap_id p s =
     (case p s of (Inl e, s) \<Rightarrow> (Inl e, s\<lparr>ps_risk := risk_release swap_id (ps_risk s)\<rparr>) | (Inr v, s) \<Rightarrow> (Inr v, s))"

text \<open>The log holds the record as it is stored.\<close>

definition put_step :: "ext \<Rightarrow> 'c codec \<Rightarrow> circumstances \<Rightarrow> (any_error \<Rightarrow> handler_error) \<Rightarrow> 'c swap_record \<Rightarrow> ('c, unit) step" where
  "put_step x c w ctx r s =
     (let stored = stamp (existing_record x c (r_swap_id r) (ps_store s)) (at_unix w) r
      in case store_put x c (at_unix w) (at_pid w) (at_seq w) (at_fault w) r (ps_store s) of
        (Inl e, d) \<Rightarrow> (Inl (ctx e), log_action (Persisted stored False) (s\<lparr>ps_store := d\<rparr>))
      | (Inr _, d) \<Rightarrow> (Inr (), log_action (Persisted stored True) (s\<lparr>ps_store := d\<rparr>)))"

definition respond :: "answers \<Rightarrow> string \<Rightarrow> swap_message \<Rightarrow> ('c, unit) step" where
  "respond a peer m s =
     (let sent = an_send a m
      in ((case sent of Sent \<Rightarrow> Inr () | MessengerFailed e \<Rightarrow> Inl (ReplyNotSent e)
           | SendFailed e \<Rightarrow> Inl (Internal (AnyMsg e))), log_action (Replied peer m sent) s))"

subsection \<open>Reading what the client sent\<close>

text \<open>An error and the cause it wraps: \<open>{e}\<close> shows the first, \<open>{e:#}\<close> both.\<close>

type_synonym caused = "string \<times> string option"

definition parse_pubkey :: "ext \<Rightarrow> provider_ext \<Rightarrow> string \<Rightarrow> caused + pubkey" where
  "parse_pubkey x px hex_str =
     try_bind (map_err (\<lambda>e. (''decode pubkey hex'', Some e)) (x_hex_decode x hex_str)) (\<lambda>b.
       map_err (\<lambda>e. (''parse public key'', Some e)) (px_pubkey_from_slice px b))"

definition parse_hash32 :: "ext \<Rightarrow> string \<Rightarrow> caused + payment_hash" where
  "parse_hash32 x hex_str =
     try_bind (map_err (\<lambda>e. (''decode hash hex'', Some e)) (x_hex_decode x hex_str)) (\<lambda>b.
       if length b = 32 then Inr b else Inl (''payment hash must be 32 bytes'', None))"

definition refusal_invalid :: "caused \<Rightarrow> handler_error" where
  "refusal_invalid e = Refusal RcInvalidRequest
     (case e of (m, None) \<Rightarrow> m | (m, Some cause) \<Rightarrow> m @ '': '' @ cause)"

definition plain :: "caused \<Rightarrow> any_error" where
  "plain e = AnyMsg (fst e)"

definition check_client_pkarr :: "provider_ext \<Rightarrow> string \<Rightarrow> string \<Rightarrow> string + unit" where
  "check_client_pkarr px claimed sender =
     (if same_pubky (px_pubky px) claimed sender then Inr ()
      else Inl (''client_pkarr '' @ [CHR 0x27] @ claimed @ [CHR 0x27] @ '' is not the pubky this message came from''))"

subsection \<open>The contract on record\<close>

definition validate_persisted_contract :: "ext \<Rightarrow> provider_ext \<Rightarrow> 'c swap_record \<Rightarrow> any_error + unit" where
  "validate_persisted_contract x px r =
     (case r_taproot r of
        None \<Rightarrow>
          if (case r_swap_request r of None \<Rightarrow> False | Some request \<Rightarrow> sr_script_type request = TaprootBoltz)
             \<or> (case r_swap_accept r of None \<Rightarrow> False | Some accept \<Rightarrow> sa_script_type accept = TaprootBoltz)
          then Inl (AnyMsg ''Taproot record is missing its contract parameters'') else Inr ()
      | Some contract \<Rightarrow>
          try_bind (ok_or (AnyMsg ''Taproot record is missing its request'') (r_swap_request r)) (\<lambda>request.
          try_bind (ok_or (AnyMsg ''Taproot record is missing its acceptance'') (r_swap_accept r)) (\<lambda>accept.
          try_bind (record_secret_key x r) (\<lambda>key.
          let provider_key = px_public_key px key in
          try_bind (ok_or (AnyMsg ''Taproot record is missing its counterparty public key'')
              (case r_direction r of Submarine \<Rightarrow> sr_client_refund_pubkey_hex request
               | Reverse \<Rightarrow> sr_client_claim_pubkey_hex request)) (\<lambda>client_hex.
          try_bind (map_err plain (parse_pubkey x px client_hex)) (\<lambda>client_key.
          let (claim, refund) = (case r_direction r of Submarine \<Rightarrow> (provider_key, client_key)
                                 | Reverse \<Rightarrow> (client_key, provider_key)) in
          try_bind (record_payment_hash x r) (\<lambda>h.
          try_bind (map_err AnySwap (taproot_new x (r_direction r) h claim refund (r_timeout_height r))) (\<lambda>expected.
          let mismatch = AnyMsg ''persisted Taproot parameters do not match the accepted contract'' in
          if expected \<noteq> contract
             \<or> sr_script_type request \<noteq> TaprootBoltz \<or> sa_script_type accept \<noteq> TaprootBoltz
             \<or> sr_direction request \<noteq> r_direction r \<or> sa_direction accept \<noteq> r_direction r
          then Inl mismatch
          else try_bind (map_err plain (parse_hash32 x (sr_payment_hash_hex request))) (\<lambda>request_hash.
          if request_hash \<noteq> h
             \<or> \<not> same_pubky (px_pubky px) (sr_client_pkarr request) (r_peer r)
             \<or> sa_quote_id accept \<noteq> sr_quote_id request
             \<or> sa_swap_id accept \<noteq> r_swap_id r
             \<or> sa_timeout_block_height accept \<noteq> r_timeout_height r
             \<or> sa_onchain_amount_sat accept \<noteq> r_onchain_amount_sat r
          then Inl mismatch
          else try_bind (map_err plain (parse_pubkey x px (sa_provider_pubkey_hex accept))) (\<lambda>accept_key.
          if accept_key \<noteq> provider_key
             \<or> sa_htlc_address accept \<noteq> x_address_str x (taproot_address x expected (to_bitcoin_network (r_network r)))
             \<or> sa_swap_tree accept \<noteq> Some (swap_tree x expected)
             \<or> sa_htlc_script_hex accept \<noteq> [] \<or> r_htlc_script_hex r \<noteq> []
             \<or> (case r_direction r of
                  Submarine \<Rightarrow> sr_invoice request \<noteq> Some (r_invoice r)
                | Reverse \<Rightarrow> if r_pending_hold_invoice r \<noteq> None then sa_invoice accept \<noteq> None \<or> r_invoice r \<noteq> []
                             else sa_invoice accept \<noteq> Some (r_invoice r))
          then Inl mismatch else Inr ()))))))))))"

definition reverse_swap_from_record ::
  "ext \<Rightarrow> provider_ext \<Rightarrow> 'c swap_record \<Rightarrow> timelock_params \<Rightarrow> any_error + reverse_swap" where
  "reverse_swap_from_record x px r p =
     try_bind (validate_persisted_contract x px r) (\<lambda>_.
     if r_pending_hold_invoice r \<noteq> None then Inl (AnyMsg ''reverse invoice creation is still pending'')
     else try_bind (record_payment_hash x r) (\<lambda>h.
     try_bind (record_htlc_script x r) (\<lambda>htlc_script.
     try_bind (record_htlc_spk x r) (\<lambda>spk.
     try_bind (record_secret_key x r) (\<lambda>key.
     Inr \<lparr>rv_payment_hash = h, rv_onchain_amount_sat = r_onchain_amount_sat r,
          rv_fee_rate_sat_vb = r_fee_rate_sat_vb r, rv_htlc_script = htlc_script, rv_htlc_spk = spk,
          rv_taproot = r_taproot r, rv_timeout_height = r_timeout_height r, rv_refund_key = key,
          rv_invoice = r_invoice r, rv_timelock = p\<rparr>)))))"

definition submarine_swap_from_record ::
  "ext \<Rightarrow> provider_ext \<Rightarrow> 'c swap_record \<Rightarrow> timelock_params \<Rightarrow> any_error + submarine_swap" where
  "submarine_swap_from_record x px r p =
     try_bind (validate_persisted_contract x px r) (\<lambda>_.
     try_bind (record_payment_hash x r) (\<lambda>h.
     try_bind (record_htlc_script x r) (\<lambda>htlc_script.
     try_bind (record_htlc_spk x r) (\<lambda>spk.
     try_bind (record_secret_key x r) (\<lambda>key.
     Inr \<lparr>sb_payment_hash = h, sb_onchain_amount_sat = r_onchain_amount_sat r,
          sb_fee_rate_sat_vb = r_fee_rate_sat_vb r, sb_htlc_script = htlc_script, sb_htlc_spk = spk,
          sb_taproot = r_taproot r, sb_timeout_height = r_timeout_height r, sb_claim_key = key,
          sb_invoice = r_invoice r, sb_max_routing_fee_msat = r_max_routing_fee_msat r, sb_timelock = p\<rparr>)))))"

subsection \<open>Reserving\<close>

definition exposure_sat :: "swap_direction \<Rightarrow> u64 \<Rightarrow> u64 \<Rightarrow> u64" where
  "exposure_sat direction amount_sat fee_sat =
     (case direction of Reverse \<Rightarrow> amount_sat | Submarine \<Rightarrow> saturating_add amount_sat fee_sat)"

definition funding_claim_sat :: "exec_ctx \<Rightarrow> u64 \<Rightarrow> u64" where
  "funding_claim_sat cx onchain_amount_sat =
     saturating_add onchain_amount_sat (saturating_mul (cx_onchain_fee_rate_sat_vb cx) FUNDING_VSIZE)"

definition awaits_funding :: "'c swap_record \<Rightarrow> bool" where
  "awaits_funding r \<longleftrightarrow>
     r_direction r = Reverse \<and> r_funding_txid_hex r = None \<and> r_funding_intent_at_height r = None"

definition insufficient_balance :: "exec_ctx \<Rightarrow> u64 \<Rightarrow> funding_shortfall \<Rightarrow> handler_error" where
  "insufficient_balance cx onchain_amount_sat sh =
     (let promised = (if sh_claimed_sat sh = 0 then []
            else '' ('' @ show_u (sh_claimed_sat sh) @ '' sat of it promised to swaps not yet funded)'')
      in Refusal RcLiquidityUnavailable (''insufficient on-chain balance: '' @ show_u (sh_available_sat sh)
           @ '' sat available'' @ promised @ '', '' @ show_u (sh_needed_sat sh) @ '' sat needed for a ''
           @ show_u onchain_amount_sat @ '' sat swap plus fees and the ''
           @ show_u (cx_min_onchain_reserve_sat cx) @ '' sat reserve''))"

definition check_funding_balance :: "exec_ctx \<Rightarrow> answers \<Rightarrow> uuid \<Rightarrow> swap_direction \<Rightarrow> u64 \<Rightarrow> ('c, unit) step" where
  "check_funding_balance cx a swap_id direction onchain_amount_sat s =
     (if direction \<noteq> Reverse \<or> \<not> cx_has_wallet cx then (Inr (), s)
      else case an_balance a of
        Inl e \<Rightarrow> (Inl (Internal (AnyMsg (''wallet balance: '' @ show_swap_error e))), s)
      | Inr available \<Rightarrow>
          (let (r, k) = claim_funding swap_id (funding_claim_sat cx onchain_amount_sat) available
                          (cx_min_onchain_reserve_sat cx) (ps_risk s)
           in (map_err (insufficient_balance cx onchain_amount_sat) r, s\<lparr>ps_risk := k\<rparr>)))"

text \<open>What reserving means to its caller: on success the guard is the caller's, on failure it is gone.\<close>

definition reserved_then ::
  "(risk_inner \<Rightarrow> (reject_reason + unit) \<times> risk_inner) \<Rightarrow> uuid \<Rightarrow> ('c, unit) step \<Rightarrow> ('c, unit) step" where
  "reserved_then reserve swap_id check s =
     (let (r, k) = reserve (ps_risk s); s = s\<lparr>ps_risk := k\<rparr>
      in case r of
           Inl reason \<Rightarrow> (Inl (Refusal (reject_reason_code reason) (show_reject_reason reason)), s)
         | Inr _ \<Rightarrow> guarded swap_id check s)"

definition reserve_for_swap :: "exec_ctx \<Rightarrow> answers \<Rightarrow> string \<Rightarrow> uuid \<Rightarrow> swap_direction \<Rightarrow> u64 \<Rightarrow> ('c, unit) step" where
  "reserve_for_swap cx a peer swap_id direction onchain_amount_sat =
     reserved_then (risk_reserve (cx_limits cx) (an_instant a) (unwrap_or (cx_account cx) peer) swap_id onchain_amount_sat)
       swap_id (check_funding_balance cx a swap_id direction onchain_amount_sat)"

definition reserve_pending_swap :: "exec_ctx \<Rightarrow> answers \<Rightarrow> 'c swap_record \<Rightarrow> ('c, unit) step" where
  "reserve_pending_swap cx a r =
     reserved_then (risk_reserve_pending (cx_limits cx) (an_instant a) (unwrap_or (r_peer_account r) (r_peer r))
         (r_swap_id r) (r_onchain_amount_sat r))
       (r_swap_id r) (check_funding_balance cx a (r_swap_id r) (r_direction r) (r_onchain_amount_sat r))"

subsection \<open>The hold invoice of an admission\<close>

definition invoice_memo :: "ext \<Rightarrow> uuid \<Rightarrow> string" where
  "invoice_memo x swap_id = ''pubky-swap reverse '' @ x_uuid_str x swap_id"

definition invoice_amount_msat :: "'c swap_record \<Rightarrow> u64 option" where
  "invoice_amount_msat r =
     Option.bind (checked_add (r_onchain_amount_sat r) (r_service_fee_sat r)) (\<lambda>v.
     Option.bind (checked_add v (r_onchain_fee_sat r)) (\<lambda>v. checked_mul v 1000))"

text \<open>The checks on a persisted intent, and the request it stands for.\<close>

definition intent_request :: "ext \<Rightarrow> provider_ext \<Rightarrow> 'c swap_record \<Rightarrow> any_error + hold_invoice_request" where
  "intent_request x px r =
     try_bind (validate_persisted_contract x px r) (\<lambda>_.
     try_bind (ok_or (AnyMsg ''missing reverse invoice intent'') (r_pending_hold_invoice r)) (\<lambda>pending.
     try_bind (ok_or (AnyMsg ''persisted invoice amount overflows'') (invoice_amount_msat r)) (\<lambda>expected_amount.
     if r_direction r \<noteq> Reverse \<or> r_invoice r \<noteq> [] \<or> funding_outpoint x r \<noteq> None
        \<or> r_funding_intent_at_height r \<noteq> None \<or> ph_amount_msat pending \<noteq> expected_amount
        \<or> ph_memo pending \<noteq> invoice_memo x (r_swap_id r)
        \<or> ph_cltv_expiry_delta pending = 0 \<or> ph_expiry_secs pending = 0
     then Inl (AnyMsg ''invalid persisted reverse invoice intent'')
     else try_bind (record_payment_hash x r) (\<lambda>h.
       Inr \<lparr>hr_payment_hash = h, hr_amount_msat = ph_amount_msat pending, hr_expiry_secs = ph_expiry_secs pending,
            hr_cltv_expiry_delta = ph_cltv_expiry_delta pending, hr_memo = ph_memo pending\<rparr>))))"

text \<open>The record once the node has answered.\<close>

definition with_invoice ::
  "ext \<Rightarrow> provider_ext \<Rightarrow> answers \<Rightarrow> 'c swap_record \<Rightarrow> hold_invoice_request \<Rightarrow> hold_invoice \<Rightarrow> any_error + 'c swap_record" where
  "with_invoice x px a r request invoice =
     (if hi_payment_hash invoice \<noteq> hr_payment_hash request \<or> hi_amount_msat invoice \<noteq> hr_amount_msat request
         \<or> hi_bolt11 invoice = []
      then Inl (AnyMsg ''hold invoice response does not match the persisted intent'')
      else try_bind (ok_or (AnyMsg ''invoice intent has no acceptance'') (r_swap_accept r)) (\<lambda>accept.
        let r = r\<lparr>r_invoice := hi_bolt11 invoice, r_swap_accept := Some (accept\<lparr>sa_invoice := Some (hi_bolt11 invoice)\<rparr>),
                  r_pending_hold_invoice := None, r_updated_at_unix := an_completed a\<rparr>
        in try_bind (validate_persisted_contract x px r) (\<lambda>_. Inr r)))"

definition obtain_invoice :: "answers \<Rightarrow> bool \<Rightarrow> hold_invoice_request \<Rightarrow> ('c, hold_invoice) step" where
  "obtain_invoice a recover_existing request s =
     (case (if recover_existing then an_lookup a request else Inr None) of
        Inl _ \<Rightarrow> (Inl (Internal (AnyMsg ''recover hold invoice'')), log_action (InvoiceLookedUp request) s)
      | Inr existing \<Rightarrow>
          let s = (if recover_existing then log_action (InvoiceLookedUp request) s else s)
          in case existing of
               Some invoice \<Rightarrow> (Inr invoice, s)
             | None \<Rightarrow> (map_err (\<lambda>_. Internal (AnyMsg ''create hold invoice'')) (an_create a request),
                        log_action (InvoiceCreated request) s))"

definition complete_invoice_intent ::
  "ext \<Rightarrow> provider_ext \<Rightarrow> 'c codec \<Rightarrow> answers \<Rightarrow> uuid \<Rightarrow> bool \<Rightarrow> ('c, 'c swap_record) step" where
  "complete_invoice_intent x px c a swap_id recover_existing s =
     andthen (pass (try_bind (map_err Internal (store_get x c swap_id (ps_store s)))
         (ok_or (Internal (AnyMsg ''reverse invoice intent was not persisted''))))) (\<lambda>r.
     andthen (pass (map_err Internal (intent_request x px r))) (\<lambda>request.
     andthen (obtain_invoice a recover_existing request) (\<lambda>invoice.
     andthen (pass (map_err Internal (with_invoice x px a r request invoice))) (\<lambda>r.
     andthen (put_step x c (an_put_completed a) (\<lambda>_. Internal (AnyMsg ''persist completed reverse invoice creation'')) r)
       (\<lambda>_. pass (Inr r)))))) s"

text \<open>The record as it now stands, and whether this caller completed it (and so holds its reservation).\<close>

definition recover_pending_admission ::
  "ext \<Rightarrow> provider_ext \<Rightarrow> 'c codec \<Rightarrow> exec_ctx \<Rightarrow> answers \<Rightarrow> uuid \<Rightarrow> ('c, 'c swap_record \<times> bool) step" where
  "recover_pending_admission x px c cx a swap_id s =
     andthen (pass (try_bind (map_err Internal (store_get x c swap_id (ps_store s)))
         (ok_or (Internal (AnyMsg ''the persisted admission is no longer in the store''))))) (\<lambda>r.
     if r_pending_hold_invoice r = None then pass (Inr (r, False))
     else andthen (reserve_pending_swap cx a r) (\<lambda>_.
          guarded (r_swap_id r) (andthen (complete_invoice_intent x px c a swap_id True) (\<lambda>completed.
            pass (Inr (completed, True)))))) s"

subsection \<open>Starting a driver\<close>

text \<open>Without a chain watcher or a wallet nothing starts, and the guard passed along is dropped.\<close>

definition spawn_driver :: "exec_ctx \<Rightarrow> 'c swap_record \<Rightarrow> 'c provider_state \<Rightarrow> 'c provider_state" where
  "spawn_driver cx r s =
     (if cx_has_chain cx \<and> cx_has_wallet cx then log_action (DriverStarted r) s
      else s\<lparr>ps_risk := risk_release (r_swap_id r) (ps_risk s)\<rparr>)"

subsection \<open>A reverse swap\<close>

text \<open>What a request has to get right before its quote is spent.\<close>

definition reverse_terms :: "ext \<Rightarrow> provider_ext \<Rightarrow> swap_request \<Rightarrow> handler_error + pubkey \<times> payment_hash" where
  "reverse_terms x px req =
     try_bind (ok_or (Refusal RcInvalidRequest ''reverse swap requires client_claim_pubkey'')
         (sr_client_claim_pubkey_hex req)) (\<lambda>hex_str.
     try_bind (map_err refusal_invalid (parse_pubkey x px hex_str)) (\<lambda>claim_pk.
     try_bind (map_err refusal_invalid (parse_hash32 x (sr_payment_hash_hex req))) (\<lambda>h.
     Inr (claim_pk, h))))"

definition timeout_at :: "answers \<Rightarrow> exec_ctx \<Rightarrow> any_error + u32 \<times> u32" where
  "timeout_at a cx =
     try_bind (map_err (\<lambda>e. AnyMsg (''tip height: '' @ show_swap_error e)) (an_tip a)) (\<lambda>tip.
     try_bind (map_err (\<lambda>e. AnyMsg (''timeout height: '' @ show_violation e)) (onchain_timeout tip (cx_timelock cx)))
       (\<lambda>timeout_height. Inr (tip, timeout_height)))"

text \<open>The contract of either direction: script and Taproot output, of which one is there.\<close>

definition contract_for ::
  "ext \<Rightarrow> swap_script \<Rightarrow> swap_direction \<Rightarrow> payment_hash \<Rightarrow> pubkey \<Rightarrow> pubkey \<Rightarrow> u32
   \<Rightarrow> any_error + taproot_swap option" where
  "contract_for x script_type direction h claim refund timeout_height =
     (case script_type of P2wsh \<Rightarrow> Inr None
      | TaprootBoltz \<Rightarrow> map_err AnySwap (try_bind (taproot_new x direction h claim refund timeout_height) (\<lambda>c. Inr (Some c))))"

definition htlc_address_of :: "ext \<Rightarrow> taproot_swap option \<Rightarrow> script \<Rightarrow> bitcoin_network \<Rightarrow> address" where
  "htlc_address_of x taproot htlc_script network =
     (case taproot of Some contract \<Rightarrow> taproot_address x contract network
      | None \<Rightarrow> htlc_p2wsh_address x htlc_script network)"

definition reverse_accept ::
  "ext \<Rightarrow> provider_ext \<Rightarrow> exec_ctx \<Rightarrow> answers \<Rightarrow> swap_request \<Rightarrow> issued_quote \<Rightarrow> taproot_swap option \<Rightarrow> script \<Rightarrow> u32
   \<Rightarrow> swap_accept" where
  "reverse_accept x px cx a req q taproot htlc_script timeout_height =
     \<lparr>sa_script_type = sr_script_type req, sa_swap_tree = map_option (swap_tree x) taproot,
      sa_quote_id = sr_quote_id req, sa_swap_id = an_swap_id a, sa_direction = Reverse,
      sa_htlc_script_hex = x_hex_encode x htlc_script,
      sa_htlc_address = x_address_str x (htlc_address_of x taproot htlc_script (cx_network cx)),
      sa_onchain_amount_sat = iq_amount_sat q, sa_timeout_block_height = timeout_height,
      sa_provider_pubkey_hex = x_hex_encode x (px_pubkey_bytes px (px_public_key px (an_secret_key a))),
      sa_invoice = None\<rparr>"

definition reverse_record ::
  "ext \<Rightarrow> exec_ctx \<Rightarrow> answers \<Rightarrow> string \<Rightarrow> swap_request \<Rightarrow> issued_quote \<Rightarrow> network_spec \<Rightarrow> payment_hash
   \<Rightarrow> taproot_swap option \<Rightarrow> script \<Rightarrow> u32 \<Rightarrow> hold_invoice_request \<Rightarrow> swap_accept \<Rightarrow> 'c swap_record" where
  "reverse_record x cx a sender req q network h taproot htlc_script timeout_height invoice_request accept =
     new_progress\<lparr>r_pending_hold_invoice := Some
         \<lparr>ph_amount_msat = hr_amount_msat invoice_request, ph_expiry_secs = hr_expiry_secs invoice_request,
          ph_cltv_expiry_delta = hr_cltv_expiry_delta invoice_request, ph_memo = hr_memo invoice_request\<rparr>,
       r_swap_request := Some req, r_swap_accept := Some accept, r_taproot := taproot,
       r_created_at_unix := an_created a, r_updated_at_unix := an_updated a, r_swap_id := an_swap_id a,
       r_direction := Reverse, r_peer := sender, r_peer_account := cx_account cx,
       r_peer_authorization_scope := map_option snd (authorization cx), r_network := network,
       r_payment_hash_hex := x_hex_encode x h, r_onchain_amount_sat := iq_amount_sat q,
       r_fee_rate_sat_vb := cx_onchain_fee_rate_sat_vb cx, r_htlc_script_hex := x_hex_encode x htlc_script,
       r_timeout_height := timeout_height, r_secret_key_hex := x_hex_encode x (an_secret_key a), r_invoice := [],
       r_max_routing_fee_msat := 0, r_service_fee_sat := iq_service_fee_sat q, r_onchain_fee_sat := iq_onchain_fee_sat q,
       r_required_confirmations := cx_required_confirmations cx, r_funding_txid_hex := None, r_funding_vout := None,
       r_state := Created, r_claimable_hint := iq_claimable_hint q\<rparr>"

text \<open>Everything up to the record that is written before the invoice is asked for.\<close>

definition prepare_reverse ::
  "ext \<Rightarrow> provider_ext \<Rightarrow> exec_ctx \<Rightarrow> answers \<Rightarrow> string \<Rightarrow> swap_request \<Rightarrow> issued_quote \<Rightarrow> pubkey \<Rightarrow> payment_hash
   \<Rightarrow> handler_error + 'c swap_record" where
  "prepare_reverse x px cx a sender req q claim_pk h =
     (let refund_pk = px_public_key px (an_secret_key a)
      in try_bind (map_err Internal (timeout_at a cx)) (\<lambda>(tip, timeout_height).
         try_bind (map_err Internal (contract_for x (sr_script_type req) Reverse h claim_pk refund_pk timeout_height)) (\<lambda>taproot.
         let htlc_script = (if taproot = None then build_htlc_script x h claim_pk refund_pk timeout_height else [])
         in try_bind (map_err Internal (reverse_invoice_request h (iq_amount_sat q) (iq_fee_sat q)
                (cx_invoice_expiry_secs cx) (cx_timelock cx))) (\<lambda>invoice_request.
            let invoice_request = invoice_request\<lparr>hr_memo := invoice_memo x (an_swap_id a)\<rparr>;
                accept = reverse_accept x px cx a req q taproot htlc_script timeout_height
            in try_bind (map_err (\<lambda>e. Internal (AnySwap e)) (from_bitcoin_network (cx_network cx))) (\<lambda>network.
               Inr (reverse_record x cx a sender req q network h taproot htlc_script timeout_height invoice_request accept))))))"

text \<open>The driver starts whether or not the acceptance arrived.\<close>

definition accept_and_drive :: "exec_ctx \<Rightarrow> answers \<Rightarrow> string \<Rightarrow> swap_accept \<Rightarrow> 'c swap_record \<Rightarrow> ('c, unit) step" where
  "accept_and_drive cx a sender accept r s =
     (let (sent, s) = respond a sender (MsgSwapAccept accept) s in (sent, spawn_driver cx r s))"

definition persist_reverse ::
  "ext \<Rightarrow> provider_ext \<Rightarrow> 'c codec \<Rightarrow> exec_ctx \<Rightarrow> answers \<Rightarrow> string \<Rightarrow> swap_request \<Rightarrow> issued_quote \<Rightarrow> pubkey
   \<Rightarrow> payment_hash \<Rightarrow> ('c, 'c swap_record \<times> swap_accept) step" where
  "persist_reverse x px c cx a sender req q claim_pk h =
     andthen (pass (prepare_reverse x px cx a sender req q claim_pk h)) (\<lambda>r.
     andthen (put_step x c (an_put a) (\<lambda>_. Internal (AnyMsg ''persist reverse invoice intent'')) r) (\<lambda>_.
     andthen (complete_invoice_intent x px c a (r_swap_id r) False) (\<lambda>r.
     andthen (pass (map_err Internal (reverse_swap_from_record x px r (cx_timelock cx)))) (\<lambda>_.
     andthen (pass (ok_or (Internal (AnyMsg ''completed reverse swap has no acceptance'')) (r_swap_accept r))) (\<lambda>accept.
     pass (Inr (r, accept)))))))"

definition start_reverse ::
  "ext \<Rightarrow> provider_ext \<Rightarrow> 'c codec \<Rightarrow> exec_ctx \<Rightarrow> answers \<Rightarrow> string \<Rightarrow> swap_request \<Rightarrow> ('c, unit) step" where
  "start_reverse x px c cx a sender req s =
     (if \<not> cx_has_chain cx then (Inl (Internal (AnyMsg ''no chain watcher'')), s)
      else andthen (pass (reverse_terms x px req)) (\<lambda>(claim_pk, h).
           andthen (pass (ensure_reverse_hash_available x c (ps_store s) h)) (\<lambda>_.
           andthen (\<lambda>s. let (r, b) = take_valid_quote x (px_pubky px) (an_now a) (sr_quote_id req) sender Reverse (ps_quotes s)
                        in (r, s\<lparr>ps_quotes := b\<rparr>)) (\<lambda>q.
           andthen (reserve_for_swap cx a sender (an_swap_id a) Reverse
                      (exposure_sat Reverse (iq_amount_sat q) (iq_fee_sat q))) (\<lambda>_.
           andthen (guarded (an_swap_id a) (persist_reverse x px c cx a sender req q claim_pk h)) (\<lambda>(r, accept).
           accept_and_drive cx a sender accept r))))) s)"

subsection \<open>A submarine swap\<close>

definition submarine_terms :: "ext \<Rightarrow> provider_ext \<Rightarrow> swap_request \<Rightarrow> handler_error + string \<times> pubkey" where
  "submarine_terms x px req =
     try_bind (ok_or (Refusal RcInvalidRequest ''submarine swap requires an invoice'') (sr_invoice req)) (\<lambda>invoice.
     try_bind (ok_or (Refusal RcInvalidRequest ''submarine swap requires client_refund_pubkey'')
         (sr_client_refund_pubkey_hex req)) (\<lambda>hex_str.
     try_bind (map_err refusal_invalid (parse_pubkey x px hex_str)) (\<lambda>refund_pk. Inr (invoice, refund_pk))))"

text \<open>The request's own hash is only read for a Taproot contract.\<close>

definition submarine_contract ::
  "ext \<Rightarrow> swap_request \<Rightarrow> pubkey \<Rightarrow> pubkey \<Rightarrow> u32 \<Rightarrow> handler_error + taproot_swap option" where
  "submarine_contract x req claim_pk refund_pk timeout_height =
     (case sr_script_type req of P2wsh \<Rightarrow> Inr None
      | TaprootBoltz \<Rightarrow> try_bind (map_err refusal_invalid (parse_hash32 x (sr_payment_hash_hex req))) (\<lambda>h.
          map_err Internal (contract_for x TaprootBoltz Submarine h claim_pk refund_pk timeout_height)))"

definition adopt_contract ::
  "ext \<Rightarrow> bitcoin_network \<Rightarrow> swap_request \<Rightarrow> taproot_swap option \<Rightarrow> submarine_swap \<Rightarrow> handler_error + submarine_swap" where
  "adopt_contract x network req taproot swap =
     (case taproot of None \<Rightarrow> Inr swap
      | Some contract \<Rightarrow>
          try_bind (map_err refusal_invalid (parse_hash32 x (sr_payment_hash_hex req))) (\<lambda>h.
          if sb_payment_hash swap \<noteq> h
          then Inl (Refusal RcInvalidRequest ''request payment hash does not match the invoice'')
          else Inr (swap\<lparr>sb_htlc_spk := x_address_spk x (taproot_address x contract network), sb_htlc_script := [],
                         sb_taproot := Some contract\<rparr>)))"

definition submarine_accept ::
  "ext \<Rightarrow> provider_ext \<Rightarrow> exec_ctx \<Rightarrow> answers \<Rightarrow> swap_request \<Rightarrow> submarine_swap \<Rightarrow> swap_accept" where
  "submarine_accept x px cx a req swap =
     \<lparr>sa_script_type = sr_script_type req, sa_swap_tree = map_option (swap_tree x) (sb_taproot swap),
      sa_quote_id = sr_quote_id req, sa_swap_id = an_swap_id a, sa_direction = Submarine,
      sa_htlc_script_hex = x_hex_encode x (sb_htlc_script swap),
      sa_htlc_address = x_address_str x (htlc_address_of x (sb_taproot swap) (sb_htlc_script swap) (cx_network cx)),
      sa_onchain_amount_sat = sb_onchain_amount_sat swap, sa_timeout_block_height = sb_timeout_height swap,
      sa_provider_pubkey_hex = x_hex_encode x (px_pubkey_bytes px (px_public_key px (an_secret_key a))),
      sa_invoice = None\<rparr>"

definition submarine_record ::
  "ext \<Rightarrow> exec_ctx \<Rightarrow> answers \<Rightarrow> string \<Rightarrow> swap_request \<Rightarrow> issued_quote \<Rightarrow> network_spec \<Rightarrow> submarine_swap \<Rightarrow> swap_accept
   \<Rightarrow> 'c swap_record" where
  "submarine_record x cx a sender req q network swap accept =
     new_progress\<lparr>r_swap_request := Some req, r_swap_accept := Some accept, r_taproot := sb_taproot swap,
       r_created_at_unix := an_created a, r_updated_at_unix := an_updated a, r_swap_id := an_swap_id a,
       r_direction := Submarine, r_peer := sender, r_peer_account := cx_account cx,
       r_peer_authorization_scope := map_option snd (authorization cx), r_network := network,
       r_payment_hash_hex := x_hex_encode x (sb_payment_hash swap), r_onchain_amount_sat := sb_onchain_amount_sat swap,
       r_fee_rate_sat_vb := sb_fee_rate_sat_vb swap, r_htlc_script_hex := x_hex_encode x (sb_htlc_script swap),
       r_timeout_height := sb_timeout_height swap, r_secret_key_hex := x_hex_encode x (sb_claim_key swap),
       r_invoice := sb_invoice swap, r_max_routing_fee_msat := sb_max_routing_fee_msat swap,
       r_service_fee_sat := iq_service_fee_sat q, r_onchain_fee_sat := iq_onchain_fee_sat q,
       r_required_confirmations := cx_required_confirmations cx, r_funding_txid_hex := None, r_funding_vout := None,
       r_state := Created\<rparr>"

definition prepare_submarine ::
  "ext \<Rightarrow> provider_ext \<Rightarrow> exec_ctx \<Rightarrow> answers \<Rightarrow> string \<Rightarrow> swap_request \<Rightarrow> issued_quote \<Rightarrow> string \<Rightarrow> pubkey
   \<Rightarrow> ('c, 'c swap_record \<times> swap_accept) step" where
  "prepare_submarine x px cx a sender req q invoice refund_pk =
     (let claim_pk = px_public_key px (an_secret_key a)
      in andthen (pass (map_err Internal (timeout_at a cx))) (\<lambda>(tip, timeout_height).
         andthen (pass (submarine_contract x req claim_pk refund_pk timeout_height)) (\<lambda>taproot.
         andthen (\<lambda>s. (Inr (), log_action (InvoiceDecoded invoice) s)) (\<lambda>_.
         andthen (pass (submarine_for_invoice x (an_decode a invoice) invoice refund_pk (an_secret_key a) claim_pk
             (iq_amount_sat q) (iq_fee_sat q) (cx_onchain_fee_rate_sat_vb cx) (cx_max_routing_fee_msat cx) tip timeout_height
             (cx_network cx) (cx_timelock cx))) (\<lambda>swap.
         andthen (pass (adopt_contract x (cx_network cx) req taproot swap)) (\<lambda>swap.
         andthen (pass (map_err (\<lambda>e. Internal (AnySwap e)) (from_bitcoin_network (cx_network cx)))) (\<lambda>network.
         let accept = submarine_accept x px cx a req swap
         in pass (Inr (submarine_record x cx a sender req q network swap accept, accept)))))))))"

definition start_submarine ::
  "ext \<Rightarrow> provider_ext \<Rightarrow> 'c codec \<Rightarrow> exec_ctx \<Rightarrow> answers \<Rightarrow> string \<Rightarrow> swap_request \<Rightarrow> ('c, unit) step" where
  "start_submarine x px c cx a sender req s =
     (if \<not> cx_has_chain cx then (Inl (Internal (AnyMsg ''no chain watcher'')), s)
      else andthen (pass (submarine_terms x px req)) (\<lambda>(invoice, refund_pk).
           andthen (\<lambda>s. let (r, b) = take_valid_quote x (px_pubky px) (an_now a) (sr_quote_id req) sender Submarine (ps_quotes s)
                        in (r, s\<lparr>ps_quotes := b\<rparr>)) (\<lambda>q.
           andthen (reserve_for_swap cx a sender (an_swap_id a) Submarine
                      (exposure_sat Submarine (iq_amount_sat q) (iq_fee_sat q))) (\<lambda>_.
           andthen (guarded (an_swap_id a) (andthen (prepare_submarine x px cx a sender req q invoice refund_pk) (\<lambda>(r, accept).
               andthen (put_step x c (an_put a) (\<lambda>e. Internal (AnyMsg (''cannot start submarine swap ''
                   @ x_uuid_str x (an_swap_id a) @ '': '' @ show_any_error e))) r) (\<lambda>_. pass (Inr (r, accept)))))) (\<lambda>(r, accept).
           accept_and_drive cx a sender accept r)))) s)"

subsection \<open>Resuming after a restart\<close>

text \<open>The records of pending admissions are completed or left for later; the rest are driven. The
  answers may differ from one record to the next. A guard nobody takes is dropped.\<close>

definition drive_resumed ::
  "ext \<Rightarrow> provider_ext \<Rightarrow> exec_ctx \<Rightarrow> 'c swap_record \<Rightarrow> bool \<Rightarrow> 'c provider_state \<Rightarrow> 'c provider_state" where
  "drive_resumed x px cx r held s =
     (let dropped = (if held then s\<lparr>ps_risk := risk_release (r_swap_id r) (ps_risk s)\<rparr> else s)
      in case r_direction r of
           Reverse \<Rightarrow> (case reverse_swap_from_record x px r (cx_timelock cx) of Inr _ \<Rightarrow> spawn_driver cx r s | Inl _ \<Rightarrow> dropped)
         | Submarine \<Rightarrow> (case submarine_swap_from_record x px r (cx_timelock cx) of Inr _ \<Rightarrow> spawn_driver cx r s | Inl _ \<Rightarrow> dropped))"

fun resume_each ::
  "ext \<Rightarrow> provider_ext \<Rightarrow> 'c codec \<Rightarrow> exec_ctx \<Rightarrow> (uuid \<Rightarrow> answers) \<Rightarrow> uuid list \<Rightarrow> 'c swap_record list
   \<Rightarrow> 'c provider_state \<Rightarrow> 'c provider_state" where
  "resume_each x px c cx a guards [] s = s"
| "resume_each x px c cx a guards (r # rs) s =
     (if r_pending_hold_invoice r \<noteq> None
      then (case reserve_pending_swap cx (a (r_swap_id r)) r s of
          (Inl _, s) \<Rightarrow> resume_each x px c cx a guards rs s
        | (Inr _, s) \<Rightarrow>
            (case guarded (r_swap_id r) (complete_invoice_intent x px c (a (r_swap_id r)) (r_swap_id r) True) s of
               (Inl _, s) \<Rightarrow> resume_each x px c cx a guards rs s
             | (Inr completed, s) \<Rightarrow> resume_each x px c cx a guards rs (drive_resumed x px cx completed True s)))
      else resume_each x px c cx a guards rs (drive_resumed x px cx r (r_swap_id r \<in> set guards) s))"

definition reclaim_funding :: "exec_ctx \<Rightarrow> 'c swap_record list \<Rightarrow> risk_inner \<Rightarrow> risk_inner" where
  "reclaim_funding cx rs k =
     fold (\<lambda>r. restore_funding_claim (r_swap_id r) (funding_claim_sat cx (r_onchain_amount_sat r))) (filter awaits_funding rs) k"

text \<open>\<open>None\<close> when the process exits instead.\<close>

definition resume_swaps ::
  "ext \<Rightarrow> provider_ext \<Rightarrow> 'c codec \<Rightarrow> exec_ctx \<Rightarrow> (uuid \<Rightarrow> answers) \<Rightarrow> nat \<Rightarrow> 'c provider_state
   \<Rightarrow> 'c provider_state option" where
  "resume_swaps x px c cx a instant s =
     (let records = load_active c (ps_store s)
      in if records = [] then Some s
         else if \<not> cx_capable cx then None
         else let accepted = filter (\<lambda>r. r_pending_hold_invoice r = None) records;
                  (guards, k) = risk_restore (cx_limits cx) instant accepted (ps_risk s)
              in Some (resume_each x px c cx a guards records (s\<lparr>ps_risk := reclaim_funding cx accepted k\<rparr>)))"

end
