(* ===== verification/Handler.thy ===== *)
theory Handler
  imports Admission
begin

text \<open>
  Answering one message: \<open>handle_message\<close> of \<open>swap-provider/src/lib.rs\<close>, every branch of it. The
  handler is a function of the provider's state and of what the environment answers meanwhile.
\<close>

definition reject_message :: "uuid option \<Rightarrow> uuid option \<Rightarrow> uuid option \<Rightarrow> reject_code \<Rightarrow> string \<Rightarrow> swap_message" where
  "reject_message request_id swap_id quote_id code reason =
     MsgReject \<lparr>rj_code = Some (reject_code_as_str code), rj_request_id = request_id, rj_swap_id = swap_id,
       rj_quote_id = quote_id, rj_reason = reason\<rparr>"

definition reject_with ::
  "answers \<Rightarrow> string \<Rightarrow> uuid option \<Rightarrow> uuid option \<Rightarrow> uuid option \<Rightarrow> reject_code \<Rightarrow> string \<Rightarrow> ('c, unit) step" where
  "reject_with a peer request_id swap_id quote_id code reason =
     respond a peer (reject_message request_id swap_id quote_id code reason)"

definition unpriced :: string where "unpriced = ''the provider has not priced its offer yet''"

fun lookup_code :: "handler_error \<Rightarrow> reject_code" where
  "lookup_code (Lookup LookupNotFound) = RcNotFound"
| "lookup_code (Lookup LookupPending) = RcPending"
| "lookup_code e = refusal_code e"

subsection \<open>Quotes\<close>

definition version_text :: "u16 \<Rightarrow> string" where
  "version_text v = ''protocol version '' @ show_u v @ '' is not supported (this provider speaks ''
     @ show_u MIN_SUPPORTED_PROTOCOL_VERSION @ ''..='' @ show_u PROTOCOL_VERSION @ '')''"

text \<open>The checks on a quote request, in order, and the fee it is priced at.\<close>

definition price_request ::
  "ext \<Rightarrow> provider_ext \<Rightarrow> exec_ctx \<Rightarrow> nat \<Rightarrow> bool \<Rightarrow> swap_offer option \<Rightarrow> string \<Rightarrow> quote_request \<Rightarrow> risk_inner
   \<Rightarrow> (reject_code \<times> string) + swap_offer \<times> quote_fee" where
  "price_request x px cx instant allowed offer sender req k =
     (if \<not> allowed then Inl (RcAccessDenied, ''provider access denied'')
      else case offer of None \<Rightarrow> Inl (RcPricingUnavailable, unpriced)
      | Some offer \<Rightarrow>
      if \<not> is_nil (qr_offer_id req) \<and> qr_offer_id req \<noteq> of_offer_id offer
      then Inl (RcOfferStale, ''offer '' @ x_uuid_str x (qr_offer_id req) @ '' is no longer current'')
      else if \<not> protocol_version_supported (qr_protocol_version req)
      then Inl (RcUnsupportedProtocol, version_text (qr_protocol_version req))
      else case check_client_pkarr px (qr_client_pkarr req) sender of Inl e \<Rightarrow> Inl (RcInvalidRequest, e)
      | Inr _ \<Rightarrow>
      if \<not> supports offer (qr_direction req) then Inl (RcUnsupportedRoute, ''unsupported direction'')
      else if qr_amount_sat req < effective_min_amount_sat offer
      then Inl (RcAmountBelowMinimum, ''amount '' @ show_u (qr_amount_sat req) @ '' sat is below the minimum of ''
             @ show_u (effective_min_amount_sat offer) @ '' sat'')
      else if qr_amount_sat req > of_max_amount_sat offer
      then Inl (RcAmountAboveMaximum, ''amount '' @ show_u (qr_amount_sat req) @ '' sat is above the maximum of ''
             @ show_u (of_max_amount_sat offer) @ '' sat'')
      else let fee = quote_fee_of offer (qr_amount_sat req)
      in case admissible (cx_limits cx) instant (unwrap_or (cx_account cx) sender)
             (exposure_sat (qr_direction req) (qr_amount_sat req) (total_fee_sat fee)) k of
           Inl reason \<Rightarrow> Inl (reject_reason_code reason, show_reject_reason reason)
         | Inr _ \<Rightarrow> Inr (offer, fee))"

definition quote_for :: "answers \<Rightarrow> u64 \<Rightarrow> swap_offer \<Rightarrow> quote_fee \<Rightarrow> quote_request \<Rightarrow> quote" where
  "quote_for a expires_at_unix offer fee req =
     \<lparr>q_request_id = qr_request_id req, q_quote_id = an_quote_id a, q_offer_id = of_offer_id offer,
      q_direction = qr_direction req, q_amount_sat = qr_amount_sat req, q_fee_sat = total_fee_sat fee,
      q_service_fee_sat = service_fee_sat fee, q_onchain_fee_sat = onchain_fee_sat fee,
      q_fee_rate_sat_vb = of_fee_rate_sat_vb offer, q_total_sat = saturating_add (qr_amount_sat req) (total_fee_sat fee),
      q_htlc_timeout_blocks = of_htlc_timeout_blocks offer, q_required_confirmations = of_required_confirmations offer,
      q_valid_until_unix = expires_at_unix, q_fund_within_secs = of_fund_within_secs offer,
      q_protocol_version = PROTOCOL_VERSION\<rparr>"

definition issued_for :: "string \<Rightarrow> u64 \<Rightarrow> quote_fee \<Rightarrow> quote_request \<Rightarrow> issued_quote" where
  "issued_for sender expires_at_unix fee req =
     \<lparr>iq_peer = sender, iq_direction = qr_direction req, iq_amount_sat = qr_amount_sat req,
      iq_fee_sat = total_fee_sat fee, iq_service_fee_sat = service_fee_sat fee, iq_onchain_fee_sat = onchain_fee_sat fee,
      iq_expires_at_unix = expires_at_unix,
      iq_claimable_hint = (qr_direction req = Reverse \<and> List.member (qr_features req) CLAIMABLE_HINT_FEATURE)\<rparr>"

definition answer_quote ::
  "ext \<Rightarrow> provider_ext \<Rightarrow> exec_ctx \<Rightarrow> answers \<Rightarrow> bool \<Rightarrow> swap_offer option \<Rightarrow> string \<Rightarrow> quote_request \<Rightarrow> ('c, unit) step" where
  "answer_quote x px cx a allowed offer sender req s =
     (case price_request x px cx (an_instant a) allowed offer sender req (ps_risk s) of
        Inl (code, reason) \<Rightarrow> reject_with a sender (qr_request_id req) None None code reason s
      | Inr (offer, fee) \<Rightarrow>
          let expires_at_unix = saturating_add (an_now a) (cx_quote_ttl_secs cx);
              q = quote_for a expires_at_unix offer fee req;
              s = s\<lparr>ps_quotes := quotes_insert (q_quote_id q) (issued_for sender expires_at_unix fee req) (an_now a) (ps_quotes s)\<rparr>
          in respond a sender (MsgQuote q) s)"

subsection \<open>Swap requests\<close>

definition owner_ref_text :: string where
  "owner_ref_text = ''owner_ref must be at most '' @ show_nat OWNER_REF_MAX_LEN @ '' printable ASCII characters''"

text \<open>A request for a swap that is already on record: a pending admission is completed first.\<close>

definition resume_admission ::
  "ext \<Rightarrow> provider_ext \<Rightarrow> 'c codec \<Rightarrow> exec_ctx \<Rightarrow> answers \<Rightarrow> 'c swap_record \<Rightarrow> ('c, 'c swap_record) step" where
  "resume_admission x px c cx a r =
     (if r_pending_hold_invoice r = None then pass (Inr r)
      else andthen (recover_pending_admission x px c cx a (r_swap_id r)) (\<lambda>(completed, mine).
           if mine
           then guarded (r_swap_id completed) (andthen (pass (map_err Internal (reverse_swap_from_record x px completed (cx_timelock cx))))
                  (\<lambda>_ s. (Inr completed, spawn_driver cx completed s)))
           else pass (Inr completed)))"

definition replay_swap ::
  "ext \<Rightarrow> provider_ext \<Rightarrow> 'c codec \<Rightarrow> exec_ctx \<Rightarrow> answers \<Rightarrow> string \<Rightarrow> swap_request \<Rightarrow> 'c swap_record \<Rightarrow> ('c, unit) step" where
  "replay_swap x px c cx a sender req r s =
     (case resume_admission x px c cx a r s of
        (Inl e, s) \<Rightarrow> reject_with a sender None None (Some (sr_quote_id req)) (refusal_code e)
            (''swap start failed: '' @ show_handler_error e) s
      | (Inr r, s) \<Rightarrow> (case r_swap_accept r of
            None \<Rightarrow> (Inl (Internal (AnyMsg ''persisted creation is missing its acceptance'')), s)
          | Some accept \<Rightarrow> respond a sender (MsgSwapAccept accept) s))"

definition start_swap ::
  "ext \<Rightarrow> provider_ext \<Rightarrow> 'c codec \<Rightarrow> exec_ctx \<Rightarrow> answers \<Rightarrow> string \<Rightarrow> swap_request \<Rightarrow> ('c, unit) step" where
  "start_swap x px c cx a sender req s =
     (case (case sr_direction req of Reverse \<Rightarrow> start_reverse x px c cx a sender req s
            | Submarine \<Rightarrow> start_submarine x px c cx a sender req s) of
        (Inr _, s) \<Rightarrow> (Inr (), s)
      | (Inl e, s) \<Rightarrow>
          if is_reply_not_sent e then (Inl e, s)
          else reject_with a sender None None (Some (sr_quote_id req)) (refusal_code e)
                 (''swap start failed: '' @ show_handler_error e) s)"

definition answer_swap ::
  "ext \<Rightarrow> provider_ext \<Rightarrow> 'c codec \<Rightarrow> exec_ctx \<Rightarrow> answers \<Rightarrow> bool \<Rightarrow> string \<Rightarrow> swap_request \<Rightarrow> ('c, unit) step" where
  "answer_swap x px c cx a allowed sender req s =
     (let refuse = reject_with a sender None None (Some (sr_quote_id req))
      in case check_client_pkarr px (sr_client_pkarr req) sender of Inl e \<Rightarrow> refuse RcInvalidRequest e s
      | Inr _ \<Rightarrow>
      if (case sr_owner_ref req of None \<Rightarrow> False | Some owner_ref \<Rightarrow> \<not> owner_ref_is_valid owner_ref)
      then refuse RcInvalidRequest owner_ref_text s
      else case replay_record px c (ps_store s) sender (authorization cx) req of
        Inl e \<Rightarrow> refuse (refusal_code e) (show_handler_error e) s
      | Inr (Some r) \<Rightarrow> replay_swap x px c cx a sender req r s
      | Inr None \<Rightarrow>
          if \<not> allowed then refuse RcAccessDenied ''provider access denied'' s
          else if \<not> cx_capable cx
          then refuse RcUnsupportedRoute ''provider is not configured for swap execution'' s
          else start_swap x px c cx a sender req s)"

subsection \<open>Every message\<close>

definition answer_or_reject ::
  "answers \<Rightarrow> string \<Rightarrow> uuid option \<Rightarrow> uuid option \<Rightarrow> uuid option \<Rightarrow> (handler_error \<Rightarrow> reject_code)
   \<Rightarrow> ('m \<Rightarrow> swap_message) \<Rightarrow> handler_error + 'm \<Rightarrow> ('c, unit) step" where
  "answer_or_reject a sender request_id swap_id quote_id code wrap r =
     (case r of Inr m \<Rightarrow> respond a sender (wrap m)
      | Inl e \<Rightarrow> reject_with a sender request_id swap_id quote_id (code e) (show_handler_error e))"

fun handle_message ::
  "ext \<Rightarrow> provider_ext \<Rightarrow> (bytes \<Rightarrow> policy_file option) \<Rightarrow> 'c codec \<Rightarrow> exec_ctx \<Rightarrow> answers \<Rightarrow> swap_offer option
   \<Rightarrow> string \<Rightarrow> swap_message \<Rightarrow> ('c, unit) step" where
  "handle_message x px pp c cx a offer sender (MsgOfferRequest req) s =
     (case offer of
        None \<Rightarrow> reject_with a sender (or_request_id req) None None RcPricingUnavailable unpriced s
      | Some current \<Rightarrow> respond a sender (MsgOffer (current\<lparr>of_request_id := or_request_id req\<rparr>)) s)"
| "handle_message x px pp c cx a offer sender (MsgSwapStatusRequest req) s =
     answer_or_reject a sender (ssr_request_id req) (ssr_swap_id req) (ssr_quote_id req) lookup_code MsgSwapStatusSnapshot
       (answer_status x px c (an_now a) (ps_store s) sender (authorization cx) req) s"
| "handle_message x px pp c cx a offer sender (MsgSwapListRequest req) s =
     answer_or_reject a sender (slr_request_id req) None None refusal_code MsgSwapList
       (list_swaps x px c (an_now a) (ps_store s) sender (authorization cx) req) s"
| "handle_message x px pp c cx a offer sender (MsgSwapWakeCapability grant) s =
     (let (r, w) = accept_wake_capability x px c (an_now a) (an_wake_written a) (ps_store s)
                     (an_later_dir a (ps_store s)) sender (authorization cx) grant (ps_waker s)
      in answer_or_reject a sender (sw_request_id grant) (Some (sw_swap_id grant)) None lookup_code MsgSwapStatusSnapshot r
           (s\<lparr>ps_waker := w\<rparr>))"
| "handle_message x px pp c cx a offer sender (MsgQuoteRequest req) s =
     answer_quote x px cx a
       (access_allowed px pp (cx_access_policy_file cx) (an_policy a) (cx_account cx) sender) offer sender req s"
| "handle_message x px pp c cx a offer sender (MsgSwapRequest req) s =
     answer_swap x px c cx a
       (access_allowed px pp (cx_access_policy_file cx) (an_policy a) (cx_account cx) sender) sender req s"
| "handle_message x px pp c cx a offer sender other s = (Inr (), s)"

end
