(* ===== verification/Ledger.thy ===== *)
theory Ledger
  imports Handler
begin

text \<open>
  The directory and the log of the provider as a ledger. A directory kept in order has every record in
  the file of its swap; serving is run through a small calculus, where \<open>post p s Q\<close> says that \<open>Q\<close>
  holds of the result and of the state step \<open>p\<close> leaves from \<open>s\<close>; and the ledger says what each action of
  the log may rest on, given the records on disk when it is taken.
\<close>

subsection \<open>A directory that is kept in order\<close>

text \<open>Every record is in the file of its swap, and names are unique.\<close>

definition in_order :: "ext \<Rightarrow> 'c codec \<Rightarrow> dir \<Rightarrow> bool" where
  "in_order x c d \<longleftrightarrow> unique_names d \<and> (\<forall>f\<in>set d. \<forall>r. has_json_extension (f_name f) \<and> f_readable f
     \<and> c_decode c (f_bytes f) = Inr r \<longrightarrow> f_name f = path_for x (r_swap_id r))"

definition named_codec :: "ext \<Rightarrow> 'c codec \<Rightarrow> bool" where
  "named_codec x c \<longleftrightarrow> codec_ok x c \<and> (\<forall>i. x_uuid_str x i \<noteq> [])"

lemma load_entries_set:
  "r \<in> set (load_all c d) \<longleftrightarrow>
     (\<exists>f\<in>set d. has_json_extension (f_name f) \<and> f_readable f \<and> c_decode c (f_bytes f) = Inr r)"
  unfolding load_all_def by (induction d) (auto split: sum.splits)

lemma load_remove_file:
  assumes "in_order x c d" and "codec_ok x c"
  shows "load_all c (remove_file (path_for x i) d) = filter (\<lambda>r. r_swap_id r \<noteq> i) (load_all c d)"
proof -
  have "path_for x j = path_for x i \<longleftrightarrow> j = i" for j using assms(2) by (simp add: codec_ok_def path_for_inj)
  then show ?thesis
    using assms(1) unfolding load_all_def
    by (induction d) (auto simp: in_order_def unique_names_def remove_file_def split: sum.splits)
qed

lemma in_order_sub:
  assumes "in_order x c d" "distinct (map f_name d')" "\<And>f. f \<in> set d' \<Longrightarrow> f \<in> set d"
  shows "in_order x c d'"
  using assms by (auto simp: in_order_def unique_names_def)

lemma in_order_remove: "in_order x c d \<Longrightarrow> in_order x c (remove_file n d)"
  by (rule in_order_sub) (auto simp: remove_file_def in_order_def unique_names_def distinct_map_filter)

lemma in_order_write_tmp:
  "in_order x c d \<Longrightarrow> \<not> has_json_extension n \<Longrightarrow> in_order x c (write_file n b d)"
  using unique_write [of d n b] by (auto simp: in_order_def write_file_def remove_file_def)

text \<open>A write that succeeds replaces the record of its swap, at the end of the listing.\<close>

lemma load_put_ok:
  assumes c: "named_codec x c" and o: "in_order x c d" and p: "persist_record x c t pid n fault r d = (Inr u, d')"
  shows "load_all c d' = filter (\<lambda>r'. r_swap_id r' \<noteq> r_swap_id r) (load_all c d)
       @ [stamp (existing_record x c (r_swap_id r) d) t r] \<and> in_order x c d'"
proof -
  from p obtain b where e: "c_encode c (stamp (existing_record x c (r_swap_id r) d) t r) = Inr b"
    and d': "d' = write_file (path_for x (r_swap_id r)) b (remove_file (tmp_path_for x (r_swap_id r) pid n) d)"
    by (rule persist_okE)
  let ?d = "remove_file (tmp_path_for x (r_swap_id r) pid n) d"
  have dec: "c_decode c b = Inr (stamp (existing_record x c (r_swap_id r) d) t r)"
    using c e by (simp add: named_codec_def codec_ok_def)
  have o': "in_order x c ?d" by (rule in_order_remove [OF o])
  have "load_all c ?d = load_all c d"
    by (simp add: load_all_def load_entries_remove_tmp tmp_not_json)
  moreover have "has_json_extension (path_for x (r_swap_id r))"
    using c by (simp add: path_for_json named_codec_def)
  ultimately have "load_all c d' = filter (\<lambda>r'. r_swap_id r' \<noteq> r_swap_id r) (load_all c d)
       @ [stamp (existing_record x c (r_swap_id r) d) t r]"
    using load_remove_file [OF o', of "r_swap_id r"] c
    by (simp add: d' write_file_def load_all_def load_entries_append dec named_codec_def)
  moreover have "in_order x c d'"
  proof -
    have "unique_names d'" using o' by (simp add: d' unique_write in_order_def)
    then show ?thesis using o' dec by (auto simp: in_order_def d' write_file_def remove_file_def)
  qed
  ultimately show ?thesis ..
qed

lemma load_put_fail:
  assumes "in_order x c d" and p: "persist_record x c t pid n fault r d = (Inl e, d')"
  shows "load_all c d' = load_all c d \<and> in_order x c d'"
  using persist_failed(2) [OF p] p assms(1)
  by (auto simp: persist_record_def Let_def in_order_write_tmp tmp_not_json split: sum.splits write_fault.splits)

text \<open>Reading one record and reading them all agree.\<close>

lemma store_get_member:
  assumes "in_order x c d" and "named_codec x c" and "store_get x c i d = Inr (Some r)"
  shows "r \<in> set (load_all c d) \<and> r_swap_id r = i"
proof -
  from assms(3) obtain f where f: "lookup_file (path_for x i) d = Some f" "f_readable f" "c_decode c (f_bytes f) = Inr r"
    by (auto simp: store_get_def try_bind_Inr split: option.splits if_splits sum.splits)
  then have m: "f \<in> set d" "f_name f = path_for x i"
    by (auto simp: lookup_file_def dest: find_SomeD)
  have "has_json_extension (path_for x i)" using assms(2) by (simp add: path_for_json named_codec_def)
  with m have "path_for x i = path_for x (r_swap_id r)" using assms(1) f by (auto simp: in_order_def)
  then have "r_swap_id r = i" using assms(2) by (auto simp: named_codec_def codec_ok_def path_for_inj)
  moreover have "r \<in> set (load_all c d)"
    using m f \<open>has_json_extension (path_for x i)\<close> unfolding load_entries_set by metis
  ultimately show ?thesis by simp
qed

lemma lookup_unique: "distinct (map f_name d) \<Longrightarrow> f \<in> set d \<Longrightarrow> lookup_file (f_name f) d = Some f"
proof (induction d)
  case (Cons g d)
  then show ?case by (cases "f = g") (auto simp: lookup_file_def rev_image_eqI)
qed simp

lemma member_store_get:
  assumes "in_order x c d" and "r \<in> set (load_all c d)"
  shows "store_get x c (r_swap_id r) d = Inr (Some r)"
proof -
  from assms(2) obtain f where f: "f \<in> set d" "has_json_extension (f_name f)" "f_readable f" "c_decode c (f_bytes f) = Inr r"
    by (auto simp: load_entries_set)
  with assms(1) have n: "f_name f = path_for x (r_swap_id r)" by (auto simp: in_order_def)
  have "lookup_file (path_for x (r_swap_id r)) d = Some f"
    using lookup_unique [of d f] f(1) assms(1) n by (simp add: in_order_def unique_names_def)
  with f show ?thesis by (simp add: store_get_def)
qed

lemma same_id_same_record:
  "in_order x c d \<Longrightarrow> r \<in> set (load_all c d) \<Longrightarrow> r' \<in> set (load_all c d) \<Longrightarrow> r_swap_id r = r_swap_id r' \<Longrightarrow> r = r'"
  using member_store_get [of x c d r] member_store_get [of x c d r'] by (metis option.inject sum.inject(2))

subsection \<open>Running a step\<close>

definition post :: "('c, 'a) step \<Rightarrow> 'c provider_state \<Rightarrow> (handler_error + 'a \<Rightarrow> 'c provider_state \<Rightarrow> bool) \<Rightarrow> bool" where
  "post p s Q = Q (fst (p s)) (snd (p s))"

lemma post_mono: "post p s Q \<Longrightarrow> (\<And>r s'. Q r s' \<Longrightarrow> R r s') \<Longrightarrow> post p s R"
  unfolding post_def by blast

lemma post_conj: "post p s Q \<Longrightarrow> post p s R \<Longrightarrow> post p s (\<lambda>r s'. Q r s' \<and> R r s')"
  by (simp add: post_def)

lemma post_pass [simp]: "post (pass r) s Q \<longleftrightarrow> Q r s"
  by (simp add: post_def pass_def)

lemma post_andthen [simp]:
  "post (andthen p f) s Q \<longleftrightarrow> post p s (\<lambda>r s'. case r of Inl e \<Rightarrow> Q (Inl e) s' | Inr v \<Rightarrow> post (f v) s' Q)"
  by (auto simp: post_def andthen_def split: prod.split sum.split)

lemma post_guarded [simp]:
  "post (guarded i p) s Q \<longleftrightarrow> post p s (\<lambda>r s'. case r of
      Inl e \<Rightarrow> Q (Inl e) (s'\<lparr>ps_risk := risk_release i (ps_risk s')\<rparr>) | Inr v \<Rightarrow> Q (Inr v) s')"
  by (auto simp: post_def guarded_def split: prod.split sum.split)

lemma post_respond [simp]:
  "post (respond a peer m) s Q \<longleftrightarrow> Q (case an_send a m of Sent \<Rightarrow> Inr () | MessengerFailed e \<Rightarrow> Inl (ReplyNotSent e)
     | SendFailed e \<Rightarrow> Inl (Internal (AnyMsg e))) (log_action (Replied peer m (an_send a m)) s)"
  by (simp add: post_def respond_def Let_def)

lemma post_reject [simp]:
  "post (reject_with a peer i j k code reason) s Q
   = post (respond a peer (reject_message i j k code reason)) s Q"
  by (simp add: reject_with_def)

subsection \<open>The ledger\<close>

text \<open>A record as its swap was admitted: without what the store fills in.\<close>

definition core :: "'c swap_record \<Rightarrow> 'c swap_record" where
  "core r = r\<lparr>r_created_at_unix := 0, r_cap_contract := None\<rparr>"

definition identity ::
  "'c swap_record \<Rightarrow> swap_request option \<times> swap_direction \<times> string \<times> string" where
  "identity r = (r_swap_request r, r_direction r, r_payment_hash_hex r, r_peer r)"

definition admitted :: "'c swap_record \<Rightarrow> bool" where
  "admitted r \<longleftrightarrow> r_pending_hold_invoice r = None"

definition same_quote :: "'c swap_record \<Rightarrow> 'c swap_record \<Rightarrow> bool" where
  "same_quote r r' \<longleftrightarrow> (case (r_swap_request r, r_swap_request r') of
     (Some q, Some q') \<Rightarrow> sr_quote_id q = sr_quote_id q' | _ \<Rightarrow> False)"

definition same_hash :: "ext \<Rightarrow> 'c swap_record \<Rightarrow> 'c swap_record \<Rightarrow> bool" where
  "same_hash x r r' \<longleftrightarrow> r_direction r = Reverse \<and> r_direction r' = Reverse
     \<and> (case (record_payment_hash x r, record_payment_hash x r') of (Inr h, Inr h') \<Rightarrow> h = h' | _ \<Rightarrow> False)"

text \<open>No two swaps redeem one quote, and no two reverse swaps have one payment hash.\<close>

definition one_each :: "ext \<Rightarrow> 'c swap_record set \<Rightarrow> bool" where
  "one_each x K \<longleftrightarrow> (\<forall>r\<in>K. \<forall>r'\<in>K. r_swap_id r \<noteq> r_swap_id r' \<longrightarrow> \<not> same_quote r r' \<and> \<not> same_hash x r r')"

text \<open>A record is written for a swap that is new, or to admit one that was pending.\<close>

definition may_write :: "ext \<Rightarrow> 'c swap_record set \<Rightarrow> 'c swap_record \<Rightarrow> bool" where
  "may_write x K r \<longleftrightarrow>
     (\<forall>r'\<in>K. if r_swap_id r' = r_swap_id r then \<not> admitted r' \<and> identity r' = identity r
             else \<not> same_quote r' r \<and> \<not> same_hash x r' r)"

text \<open>The swaps that were admitted and have no driver yet.\<close>

fun undriven_after :: "uuid set \<Rightarrow> 'c action \<Rightarrow> uuid set" where
  "undriven_after F (Persisted r True) = (if admitted r then insert (r_swap_id r) F else F)"
| "undriven_after F (DriverStarted r) = F - {r_swap_id r}"
| "undriven_after F _ = F"

definition undriven :: "'c action list \<Rightarrow> uuid set" where
  "undriven l = fold (\<lambda>a F. undriven_after F a) l {}"

text \<open>An invoice is created for an intent on disk, an acceptance goes to the peer of an admitted record on
  disk, a driver starts for a record on disk that was admitted and has none, and the one swap that may
  come to the disk is the one the request was numbered for, \<open>new\<close>.\<close>

fun allowed_now :: "ext \<Rightarrow> provider_ext \<Rightarrow> uuid \<Rightarrow> 'c swap_record set \<Rightarrow> uuid set \<Rightarrow> 'c action \<Rightarrow> bool" where
  "allowed_now x px new K F (Persisted r ok) \<longleftrightarrow> may_write x K r \<and> (r_swap_id r = new \<or> r_swap_id r \<in> r_swap_id ` K)"
| "allowed_now x px new K F (InvoiceCreated q) \<longleftrightarrow> (\<exists>r\<in>K. intent_request x px r = Inr q)"
| "allowed_now x px new K F (Replied peer m outcome) \<longleftrightarrow> (case m of
     MsgSwapAccept accept \<Rightarrow> \<exists>r\<in>K. r_swap_accept r = Some accept \<and> admitted r \<and> same_pubky (px_pubky px) (r_peer r) peer
   | _ \<Rightarrow> True)"
| "allowed_now x px new K F (DriverStarted r) \<longleftrightarrow> r_swap_id r \<in> F \<and> admitted r \<and> (\<exists>r'\<in>K. core r' = core r)"
| "allowed_now x px new K F _ \<longleftrightarrow> True"

fun known_after :: "'c swap_record set \<Rightarrow> 'c action \<Rightarrow> 'c swap_record set" where
  "known_after K (Persisted r True) = insert r {r'\<in>K. r_swap_id r' \<noteq> r_swap_id r}"
| "known_after K _ = K"

fun lawful :: "ext \<Rightarrow> provider_ext \<Rightarrow> uuid \<Rightarrow> 'c swap_record set \<Rightarrow> uuid set \<Rightarrow> 'c action list \<Rightarrow> bool" where
  "lawful x px new K F [] \<longleftrightarrow> True"
| "lawful x px new K F (a # l) \<longleftrightarrow> allowed_now x px new K F a \<and> lawful x px new (known_after K a) (undriven_after F a) l"

lemma lawful_append: "lawful x px new K F (l @ [a]) \<longleftrightarrow> lawful x px new K F l
   \<and> allowed_now x px new (fold (\<lambda>a K. known_after K a) l K) (fold (\<lambda>a F. undriven_after F a) l F) a"
  by (induction l arbitrary: K F) auto

lemma undriven_append: "undriven (l @ l') = fold (\<lambda>a F. undriven_after F a) l' (undriven l)"
  by (simp add: undriven_def)

lemma undriven_snoc: "undriven (l @ [a]) = undriven_after (undriven l) a"
  by (simp add: undriven_append)

lemma core_stamp [simp]: "core (stamp e t r) = core r"
  by (simp add: core_def stamp_def)

lemma core_fields:
  assumes "core r = core r'"
  shows "r_swap_id r = r_swap_id r'" "r_swap_accept r = r_swap_accept r'" "admitted r = admitted r'"
    "identity r = identity r'" "r_peer r = r_peer r'" "r_direction r = r_direction r'"
    "r_onchain_amount_sat r = r_onchain_amount_sat r'"
  using assms by (cases r; cases r'; simp add: core_def admitted_def identity_def)+

lemma stamp_fields [simp]:
  "admitted (stamp e t r) = admitted r" "r_swap_accept (stamp e t r) = r_swap_accept r"
  "identity (stamp e t r) = identity r" "r_swap_request (stamp e t r) = r_swap_request r"
  "r_direction (stamp e t r) = r_direction r" "r_payment_hash_hex (stamp e t r) = r_payment_hash_hex r"
  "r_peer (stamp e t r) = r_peer r" "r_pending_hold_invoice (stamp e t r) = r_pending_hold_invoice r"
  by (simp_all add: stamp_def identity_def admitted_def)

lemma record_payment_hash_stamp [simp]: "record_payment_hash x (stamp e t r) = record_payment_hash x r"
  by (simp add: record_payment_hash_def)

lemma same_quote_identity: "identity r = identity q \<Longrightarrow> same_quote r' r = same_quote r' q"
  by (simp add: same_quote_def identity_def)

lemma same_hash_identity: "identity r = identity q \<Longrightarrow> same_hash x r' r = same_hash x r' q"
  by (simp add: same_hash_def identity_def record_payment_hash_def)

lemma same_quote_sym: "same_quote r r' \<Longrightarrow> same_quote r' r"
  by (auto simp: same_quote_def split: option.splits)

lemma same_hash_sym: "same_hash x r r' \<Longrightarrow> same_hash x r' r"
  by (auto simp: same_hash_def split: sum.splits)

lemma may_write_identity:
  "identity r = identity q \<Longrightarrow> r_swap_id r = r_swap_id q \<Longrightarrow> may_write x K r = may_write x K q"
  by (simp add: may_write_def same_quote_identity [of r q] same_hash_identity [of r q])

lemma may_write_stamp [simp]: "may_write x K (stamp e t r) = may_write x K r"
  by (rule may_write_identity) simp_all

lemma one_each_write:
  assumes "one_each x K" and "may_write x K r"
  shows "one_each x (insert r {r'\<in>K. r_swap_id r' \<noteq> r_swap_id r})"
  using assms unfolding one_each_def may_write_def
  by (auto dest: same_quote_sym [of r] same_hash_sym [of x r])

text \<open>Admitting a record that waits in \<open>K\<close>.\<close>

lemma may_complete:
  assumes "one_each x K" and "r \<in> K" and "\<not> admitted r" and "\<And>r'. r' \<in> K \<Longrightarrow> r_swap_id r' = r_swap_id r \<Longrightarrow> r' = r"
    and "identity q = identity r" and "r_swap_id q = r_swap_id r"
  shows "may_write x K q"
  using assms unfolding may_write_def one_each_def
  by (auto simp: same_quote_identity [OF assms(5)] same_hash_identity [OF assms(5)])

text \<open>The state \<open>s\<close> was reached from \<open>s0\<close> lawfully, and its log accounts for its directory.\<close>

abbreviation records_in :: "'c codec \<Rightarrow> 'c provider_state \<Rightarrow> 'c swap_record set" where
  "records_in c s \<equiv> set (load_all c (ps_store s))"

definition tracks :: "ext \<Rightarrow> provider_ext \<Rightarrow> uuid \<Rightarrow> 'c codec \<Rightarrow> 'c provider_state \<Rightarrow> 'c provider_state \<Rightarrow> bool" where
  "tracks x px new c s0 s \<longleftrightarrow> in_order x c (ps_store s) \<and> one_each x (records_in c s) \<and> (\<exists>l. ps_log s = ps_log s0 @ l
     \<and> lawful x px new (records_in c s0) (undriven (ps_log s0)) l
     \<and> records_in c s = fold (\<lambda>a K. known_after K a) l (records_in c s0))"

lemma tracks_refl: "in_order x c (ps_store s) \<Longrightarrow> one_each x (records_in c s) \<Longrightarrow> tracks x px new c s s"
  by (simp add: tracks_def)

lemma tracks_order: "tracks x px new c s0 s \<Longrightarrow> in_order x c (ps_store s)"
  and tracks_one_each: "tracks x px new c s0 s \<Longrightarrow> one_each x (records_in c s)"
  by (simp_all add: tracks_def)

lemma tracks_quiet:
  "tracks x px new c s0 s \<Longrightarrow> ps_store s' = ps_store s \<Longrightarrow> ps_log s' = ps_log s \<Longrightarrow> tracks x px new c s0 s'"
  by (simp add: tracks_def)

lemma tracks_snoc:
  assumes "tracks x px new c s0 s" and "ps_log s' = ps_log s @ [a]" and "allowed_now x px new (records_in c s) (undriven (ps_log s)) a"
    and "records_in c s' = known_after (records_in c s) a" and "in_order x c (ps_store s')" and "one_each x (records_in c s')"
  shows "tracks x px new c s0 s'"
proof -
  from assms(1) obtain l where l: "ps_log s = ps_log s0 @ l" "lawful x px new (records_in c s0) (undriven (ps_log s0)) l"
    "records_in c s = fold (\<lambda>a K. known_after K a) l (records_in c s0)"
    by (auto simp: tracks_def)
  have "ps_log s' = ps_log s0 @ (l @ [a])" using l(1) assms(2) by simp
  moreover have "lawful x px new (records_in c s0) (undriven (ps_log s0)) (l @ [a])"
    using l assms(3) by (simp add: lawful_append undriven_append)
  moreover have "records_in c s' = fold (\<lambda>a K. known_after K a) (l @ [a]) (records_in c s0)"
    using l(3) assms(4) by simp
  ultimately show ?thesis using assms(5,6) unfolding tracks_def by blast
qed

lemma tracks_log:
  assumes "tracks x px new c s0 s" and "allowed_now x px new (records_in c s) (undriven (ps_log s)) a"
    and "known_after (records_in c s) a = records_in c s"
  shows "tracks x px new c s0 (log_action a s)"
  using assms tracks_order [OF assms(1)] tracks_one_each [OF assms(1)]
  by (intro tracks_snoc [OF assms(1), of _ a]) (simp_all add: log_action_def)

lemma tracks_put:
  assumes c: "named_codec x c" and t: "tracks x px new c s0 s" and w: "may_write x (records_in c s) r"
    and i: "r_swap_id r = new \<or> r_swap_id r \<in> r_swap_id ` records_in c s"
  shows "post (put_step x c cs ctx r) s (\<lambda>res s'. tracks x px new c s0 s'
     \<and> (is_ok res \<longrightarrow> (\<exists>r'\<in>records_in c s'. core r' = core r) \<and> (admitted r \<longrightarrow> r_swap_id r \<in> undriven (ps_log s'))))"
proof -
  let ?st = "stamp (existing_record x c (r_swap_id r) (ps_store s)) (at_unix cs) r"
  obtain res d' where p: "persist_record x c (at_unix cs) (at_pid cs) (at_seq cs) (at_fault cs) r (ps_store s) = (res, d')"
    by (cases "persist_record x c (at_unix cs) (at_pid cs) (at_seq cs) (at_fault cs) r (ps_store s)")
  note o = tracks_order [OF t] and one = tracks_one_each [OF t]
  show ?thesis
  proof (cases res)
    case (Inl e)
    let ?s = "log_action (Persisted ?st False) (s\<lparr>ps_store := d'\<rparr>)"
    have "tracks x px new c s0 ?s"
      using load_put_fail [OF o p [unfolded Inl]] w one i
      by (intro tracks_snoc [OF t, of _ "Persisted ?st False"]) (simp_all add: log_action_def)
    with Inl p show ?thesis by (simp add: post_def put_step_def Let_def store_put_def)
  next
    case (Inr u)
    let ?s = "log_action (Persisted ?st True) (s\<lparr>ps_store := d'\<rparr>)"
    have d': "load_all c d' = filter (\<lambda>r'. r_swap_id r' \<noteq> r_swap_id r) (load_all c (ps_store s)) @ [?st]" "in_order x c d'"
      using load_put_ok [OF c o p [unfolded Inr]] by simp_all
    then have "records_in c ?s = known_after (records_in c s) (Persisted ?st True)" by (simp add: log_action_def)
    moreover from this have "one_each x (records_in c ?s)" using one_each_write [OF one, of ?st] w by simp
    ultimately have "tracks x px new c s0 ?s"
      using d'(2) w i by (intro tracks_snoc [OF t, of _ "Persisted ?st True"]) (simp_all add: log_action_def)
    moreover have "?st \<in> records_in c ?s" using d'(1) by (simp add: log_action_def)
    moreover have "admitted r \<longrightarrow> r_swap_id r \<in> undriven (ps_log ?s)"
      by (simp add: log_action_def undriven_snoc)
    ultimately show ?thesis using Inr p
      by (auto simp: post_def put_step_def Let_def store_put_def intro: bexI [of _ ?st])
  qed
qed

end
