(* ===== verification/Admission_Safety.thy ===== *)
theory Admission_Safety
  imports Ledger
begin

text \<open>
  What serving requests guarantees: every branch of the handler keeps the ledger, so each action that
  is taken on the outside rests on what is on disk at that moment.
\<close>

subsection \<open>Every step keeps the ledger\<close>

lemma post_eq: "p s = p' s \<Longrightarrow> post p s Q = post p' s Q"
  by (simp add: post_def)

lemma postD: "post p s Q \<Longrightarrow> p s = (r, s') \<Longrightarrow> Q r s'"
  by (simp add: post_def)

lemma tracks_update [simp]:
  "tracks x px new c s0 (s\<lparr>ps_risk := k\<rparr>) = tracks x px new c s0 s"
  "tracks x px new c s0 (s\<lparr>ps_quotes := b\<rparr>) = tracks x px new c s0 s"
  "tracks x px new c s0 (s\<lparr>ps_waker := w\<rparr>) = tracks x px new c s0 s"
  by (simp_all add: tracks_def)

definition quiet :: "'c provider_state \<Rightarrow> 'c provider_state \<Rightarrow> bool" where
  "quiet s s' \<longleftrightarrow> ps_store s' = ps_store s \<and> ps_log s' = ps_log s"

lemma reserve_quiet: "post (reserved_then reserve i (check_funding_balance cx a j d n)) s (\<lambda>res s'. quiet s s')"
  by (auto simp: post_def reserved_then_def guarded_def check_funding_balance_def quiet_def Let_def
      split: prod.splits sum.splits if_splits)

lemmas reserve_pending_quiet = reserve_quiet [of "risk_reserve_pending (cx_limits cx) (an_instant a) p i n" i cx a i d n for cx a p i n d]

lemma intent_pending: "intent_request x px r = Inr request \<Longrightarrow> \<not> admitted r"
  by (auto simp: intent_request_def admitted_def try_bind_Inr ok_or_Inr)

lemma with_invoice_keeps:
  assumes "with_invoice x px a r request invoice = Inr q"
  shows "identity q = identity r" "r_swap_id q = r_swap_id r" "admitted q"
  using assms by (auto simp: with_invoice_def identity_def admitted_def Let_def try_bind_Inr split: if_splits)

lemma obtain_tracks:
  assumes t: "tracks x px new c s0 s" and r: "r \<in> records_in c s" "intent_request x px r = Inr request"
  shows "post (obtain_invoice a recover_existing request) s (\<lambda>res s'. tracks x px new c s0 s' \<and> ps_store s' = ps_store s)"
proof -
  have l: "tracks x px new c s0 (log_action (InvoiceLookedUp request) s)" by (rule tracks_log [OF t]) simp_all
  have cr: "tracks x px new c s0 (log_action (InvoiceCreated request) s')" if "tracks x px new c s0 s'" "ps_store s' = ps_store s" for s'
    using that r by (intro tracks_log) auto
  have "tracks x px new c s0 (log_action (InvoiceCreated request) (log_action (InvoiceLookedUp request) s))"
    by (rule cr [OF l]) (simp add: log_action_def)
  with t l cr [OF t] show ?thesis
    by (auto simp: post_def obtain_invoice_def Let_def log_action_def split: sum.splits option.splits if_splits)
qed

lemma complete_tracks:
  assumes c: "named_codec x c" and t: "tracks x px new c s0 s"
  shows "post (complete_invoice_intent x px c a i rec) s (\<lambda>res s'. tracks x px new c s0 s' \<and> (\<forall>r. res = Inr r \<longrightarrow>
     r_swap_id r = i \<and> admitted r \<and> i \<in> undriven (ps_log s') \<and> (\<exists>r'\<in>records_in c s'. core r' = core r)
     \<and> (\<exists>r'\<in>records_in c s. r_swap_id r' = i \<and> identity r' = identity r)))"
    (is "post _ _ ?Q")
proof (cases "store_get x c i (ps_store s)")
  case (Inl e)
  then show ?thesis using t by (simp add: post_def complete_invoice_intent_def andthen_def pass_def)
next
  case (Inr found)
  show ?thesis
  proof (cases found)
    case None
    with Inr show ?thesis using t by (simp add: post_def complete_invoice_intent_def andthen_def pass_def)
  next
    case (Some r)
    with Inr have m: "r \<in> records_in c s" "r_swap_id r = i"
      using store_get_member [OF tracks_order [OF t] c] by auto
    show ?thesis
    proof (cases "intent_request x px r")
      case (Inl e)
      with Inr Some show ?thesis using t by (simp add: post_def complete_invoice_intent_def andthen_def pass_def)
    next
      case req: (Inr request)
      have w: "may_write x (records_in c s) q" if "with_invoice x px a r request invoice = Inr q" for q invoice
        using tracks_one_each [OF t] m(1) intent_pending [OF req]
        by (rule may_complete) (use with_invoice_keeps [OF that] same_id_same_record [OF tracks_order [OF t]] m in auto)
      have fin: "post (put_step x c cs ctx q) s' (\<lambda>res s''. tracks x px new c s0 s'' \<and> (is_ok res \<longrightarrow>
            (\<exists>r'\<in>records_in c s''. core r' = core q) \<and> i \<in> undriven (ps_log s'')))"
        if "tracks x px new c s0 s'" "ps_store s' = ps_store s" "with_invoice x px a r request invoice = Inr q" for s' q invoice cs ctx
        using tracks_put [OF c that(1), of q cs ctx] w [OF that(3)] that(2) with_invoice_keeps [OF that(3)] m imageI [OF m(1), of r_swap_id]
        by (auto simp: post_def)
      have "complete_invoice_intent x px c a i rec s = andthen (obtain_invoice a rec request) (\<lambda>invoice.
          andthen (pass (map_err Internal (with_invoice x px a r request invoice))) (\<lambda>q.
          andthen (put_step x c (an_put_completed a) (\<lambda>_. Internal (AnyMsg ''persist completed reverse invoice creation'')) q)
            (\<lambda>_. pass (Inr q)))) s"
        using Inr Some req by (simp add: complete_invoice_intent_def andthen_def pass_def)
      then have "post (complete_invoice_intent x px c a i rec) s ?Q = post (andthen (obtain_invoice a rec request) (\<lambda>invoice.
          andthen (pass (map_err Internal (with_invoice x px a r request invoice))) (\<lambda>q.
          andthen (put_step x c (an_put_completed a) (\<lambda>_. Internal (AnyMsg ''persist completed reverse invoice creation'')) q)
            (\<lambda>_. pass (Inr q))))) s ?Q"
        by (rule post_eq)
      also have "\<dots>"
        unfolding post_andthen post_pass
      proof (rule post_mono [OF obtain_tracks [OF t m(1) req]], goal_cases)
        case (1 res s')
        show ?case
        proof (cases res)
          case (Inr invoice)
          show ?thesis
          proof (cases "with_invoice x px a r request invoice")
            case (Inr q)
            note k = with_invoice_keeps [OF Inr]
            from fin [OF _ _ Inr] 1 have "post (put_step x c (an_put_completed a)
                (\<lambda>_. Internal (AnyMsg ''persist completed reverse invoice creation'')) q) s'
              (\<lambda>res s''. tracks x px new c s0 s'' \<and> (is_ok res \<longrightarrow>
                (\<exists>r'\<in>records_in c s''. core r' = core q) \<and> i \<in> undriven (ps_log s'')))" by blast
            then have "post (put_step x c (an_put_completed a)
                (\<lambda>_. Internal (AnyMsg ''persist completed reverse invoice creation'')) q) s'
              (\<lambda>res s''. case res of Inl e \<Rightarrow> ?Q (Inl e) s'' | Inr v \<Rightarrow> ?Q (Inr q) s'')"
              by (rule post_mono) (use m k in \<open>auto split: sum.splits\<close>)
            then show ?thesis by (simp add: \<open>res = Inr invoice\<close> Inr)
          qed (use 1 Inr in simp)
        qed (use 1 in simp)
      qed
      finally show ?thesis .
    qed
  qed
qed


lemma tracks_quiet': "tracks x px new c s0 s \<Longrightarrow> quiet s s' \<Longrightarrow> tracks x px new c s0 s'"
  by (simp add: quiet_def tracks_quiet)

lemma recover_tracks:
  assumes c: "named_codec x c" and t: "tracks x px new c s0 s"
  shows "post (recover_pending_admission x px c cx a i) s (\<lambda>res s'. tracks x px new c s0 s' \<and> (\<forall>r mine. res = Inr (r, mine) \<longrightarrow>
     r_swap_id r = i \<and> admitted r \<and> (mine \<longrightarrow> i \<in> undriven (ps_log s')) \<and> (\<exists>r'\<in>records_in c s'. core r' = core r)
     \<and> (\<exists>r'\<in>records_in c s. r_swap_id r' = i \<and> identity r' = identity r)))"
    (is "post _ _ ?Q")
proof (cases "store_get x c i (ps_store s)")
  case (Inl e)
  then show ?thesis using t by (simp add: post_def recover_pending_admission_def andthen_def pass_def)
next
  case (Inr found)
  show ?thesis
  proof (cases found)
    case None
    with Inr show ?thesis using t by (simp add: post_def recover_pending_admission_def andthen_def pass_def)
  next
    case (Some r)
    with Inr have m: "r \<in> records_in c s" "r_swap_id r = i"
      using store_get_member [OF tracks_order [OF t] c] by auto
    show ?thesis
    proof (cases "admitted r")
      case True
      with Inr Some t m show ?thesis
        by (auto simp: post_def recover_pending_admission_def andthen_def pass_def admitted_def)
    next
      case False
      obtain res1 s1 where p1: "reserve_pending_swap cx a r s = (res1, s1)" by fastforce
      from postD [OF reserve_quiet p1 [unfolded reserve_pending_swap_def]]
      have t1: "tracks x px new c s0 s1" and k1: "ps_store s1 = ps_store s"
        using tracks_quiet' [OF t] by (auto simp: quiet_def)
      obtain res2 s2 where p2: "complete_invoice_intent x px c a i True s1 = (res2, s2)" by fastforce
      from Inr Some False p1 p2 postD [OF complete_tracks [OF c t1] p2] t1 k1 show ?thesis
        by (auto simp: post_def recover_pending_admission_def andthen_def pass_def admitted_def guarded_def
            split: sum.splits)
    qed
  qed
qed


subsection \<open>Starting a swap\<close>

lemma spawn_tracks:
  assumes "tracks x px new c s0 s" and "admitted r" and "r_swap_id r \<in> undriven (ps_log s)" and "\<exists>r'\<in>records_in c s. core r' = core r"
  shows "tracks x px new c s0 (spawn_driver cx r s)"
  using assms by (auto simp: spawn_driver_def intro!: tracks_log)

lemma respond_tracks:
  assumes "tracks x px new c s0 s"
    and "\<And>accept. m = MsgSwapAccept accept \<Longrightarrow>
      \<exists>r\<in>records_in c s. r_swap_accept r = Some accept \<and> admitted r \<and> same_pubky (px_pubky px) (r_peer r) peer"
  shows "tracks x px new c s0 (snd (respond a peer m s))" and "ps_log (snd (respond a peer m s)) = ps_log s @ [Replied peer m (an_send a m)]"
    and "ps_store (snd (respond a peer m s)) = ps_store s"
proof -
  have "tracks x px new c s0 (log_action (Replied peer m (an_send a m)) s)"
    using assms by (intro tracks_log) (auto split: swap_message.split)
  then show "tracks x px new c s0 (snd (respond a peer m s))" by (simp add: respond_def Let_def)
qed (simp_all add: respond_def log_action_def Let_def)

lemma reject_tracks: "tracks x px new c s0 s \<Longrightarrow> tracks x px new c s0 (snd (reject_with a peer i j k code reason s))"
  by (auto simp: reject_with_def reject_message_def intro: respond_tracks)

lemma accept_and_drive_tracks:
  assumes t: "tracks x px new c s0 s" and r: "admitted r" "r_swap_id r \<in> undriven (ps_log s)" "\<exists>r'\<in>records_in c s. core r' = core r"
    and a: "r_swap_accept r = Some accept" "same_pubky (px_pubky px) (r_peer r) sender"
  shows "tracks x px new c s0 (snd (accept_and_drive cx a sender accept r s))"
proof -
  from r(3) obtain r' where "r' \<in> records_in c s" "core r' = core r" by blast
  with r a core_fields [OF this(2)] have
    w: "\<exists>r\<in>records_in c s. r_swap_accept r = Some accept \<and> admitted r \<and> same_pubky (px_pubky px) (r_peer r) sender" by metis
  let ?s = "snd (respond a sender (MsgSwapAccept accept) s)"
  have "tracks x px new c s0 ?s" "ps_log ?s = ps_log s @ [Replied sender (MsgSwapAccept accept) (an_send a (MsgSwapAccept accept))]"
    "ps_store ?s = ps_store s"
    using w by (auto intro: respond_tracks [OF t])
  then have "tracks x px new c s0 (spawn_driver cx r ?s)"
    using r by (intro spawn_tracks) (auto simp: undriven_snoc)
  then show ?thesis by (simp add: accept_and_drive_def case_prod_beta Let_def)
qed

lemma replay_none:
  assumes "replay_among px sender auth req rs = Inr None" and "r \<in> set rs" and "r_swap_request r = Some q"
  shows "sr_quote_id q \<noteq> sr_quote_id req"
  using assms by (induction rs) (auto split: option.splits if_splits)

lemma hash_free:
  assumes "hash_taken x h rs = Inr u" and "r \<in> set rs" and "r_direction r = Reverse"
  shows "record_payment_hash x r \<noteq> Inr h"
  using assms by (induction rs) (auto split: sum.splits if_splits)

definition unseen :: "'c codec \<Rightarrow> 'c provider_state \<Rightarrow> answers \<Rightarrow> swap_request \<Rightarrow> bool" where
  "unseen c s a req \<longleftrightarrow> (\<forall>r\<in>records_in c s. r_swap_id r \<noteq> an_swap_id a
     \<and> (case r_swap_request r of None \<Rightarrow> True | Some q \<Rightarrow> sr_quote_id q \<noteq> sr_quote_id req))"

lemma may_write_new:
  assumes "unseen c s a req" and "r_swap_id r = an_swap_id a" and "r_swap_request r = Some req"
    and "r_direction r = Reverse \<Longrightarrow> record_payment_hash x r = Inr h \<and> (\<forall>r'\<in>records_in c s. r_direction r' = Reverse \<longrightarrow> record_payment_hash x r' \<noteq> Inr h)"
  shows "may_write x (records_in c s) r"
  using assms unfolding may_write_def unseen_def same_quote_def same_hash_def
  by (auto split: option.splits sum.splits)

lemma prepare_reverse_fields:
  assumes "prepare_reverse x px cx a sender req q claim_pk h = Inr r"
  shows "r_swap_id r = an_swap_id a" "r_swap_request r = Some req" "r_direction r = Reverse" "r_peer r = sender"
    "r_payment_hash_hex r = x_hex_encode x h" "\<not> admitted r"
  using assms by (auto simp: prepare_reverse_def reverse_record_def admitted_def Let_def try_bind_Inr map_err_Inr split: prod.splits)

lemma reverse_terms_hash: "reverse_terms x px req = Inr (pk, h) \<Longrightarrow> length h = 32"
  by (auto simp: reverse_terms_def parse_hash32_def try_bind_Inr map_err_Inr ok_or_Inr split: if_splits)

lemma persist_reverse_tracks:
  assumes c: "named_codec x c" and hex: "\<And>b. x_hex_decode x (x_hex_encode x b) = Inr b" and t: "tracks x px (an_swap_id a) c s0 s"
    and u: "unseen c s a req" and h: "length h = 32" "\<And>r. r \<in> records_in c s \<Longrightarrow> r_direction r = Reverse \<Longrightarrow> record_payment_hash x r \<noteq> Inr h"
  shows "post (persist_reverse x px c cx a sender req q claim_pk h) s (\<lambda>res s'. tracks x px (an_swap_id a) c s0 s' \<and> (\<forall>r accept. res = Inr (r, accept) \<longrightarrow>
     r_swap_id r = an_swap_id a \<and> admitted r \<and> r_swap_id r \<in> undriven (ps_log s') \<and> (\<exists>r'\<in>records_in c s'. core r' = core r)
     \<and> r_swap_accept r = Some accept \<and> r_peer r = sender))"
proof (cases "prepare_reverse x px cx a sender req q claim_pk h :: handler_error + 'a swap_record")
  case (Inl e)
  with t show ?thesis by (simp add: post_def persist_reverse_def andthen_def pass_def)
next
  case (Inr r)
  note f = prepare_reverse_fields [OF Inr]
  have "may_write x (records_in c s) r"
    using may_write_new [OF u f(1,2), of x h] hex h f by (auto simp: record_payment_hash_def bytes32_def)
  note put = tracks_put [OF c t this disjI1 [OF f(1)], of "an_put a" "\<lambda>_. Internal (AnyMsg ''persist reverse invoice intent'')"]
  obtain res1 s1 where p1: "put_step x c (an_put a) (\<lambda>_. Internal (AnyMsg ''persist reverse invoice intent'')) r s = (res1, s1)" by fastforce
  from postD [OF put p1] have t1: "tracks x px (an_swap_id a) c s0 s1" and k1: "is_ok res1 \<Longrightarrow> \<exists>r'\<in>records_in c s1. core r' = core r" by auto
  obtain res2 s2 where p2: "complete_invoice_intent x px c a (r_swap_id r) False s1 = (res2, s2)" by fastforce
  note comp = postD [OF complete_tracks [OF c t1] p2]
  have peer: "r_peer q = sender" if "res2 = Inr q" "is_ok res1" for q
  proof -
    from comp that(1) obtain r' where r': "r' \<in> records_in c s1" "r_swap_id r' = r_swap_id r" "identity r' = identity q" by auto
    from k1 [OF that(2)] obtain r'' where r'': "r'' \<in> records_in c s1" "core r'' = core r" by blast
    have "r' = r''" using same_id_same_record [OF tracks_order [OF t1] r'(1) r''(1)] r'(2) core_fields(1) [OF r''(2)] by simp
    with r'(3) core_fields(5) [OF r''(2)] f show ?thesis by (simp add: identity_def)
  qed
  from Inr p1 p2 t1 comp peer f(1) show ?thesis
    by (auto simp: post_def persist_reverse_def andthen_def pass_def ok_or_Inr split: sum.splits)
qed


lemma prepare_submarine_post:
  assumes t: "tracks x px (an_swap_id a) c s0 s"
  shows "post (prepare_submarine x px cx a sender req q invoice refund_pk) s (\<lambda>res s'. tracks x px (an_swap_id a) c s0 s' \<and> ps_store s' = ps_store s
     \<and> (\<forall>r accept. res = Inr (r, accept) \<longrightarrow> r_swap_id r = an_swap_id a \<and> r_swap_request r = Some req
          \<and> r_direction r = Submarine \<and> r_peer r = sender \<and> admitted r \<and> r_swap_accept r = Some accept))"
proof -
  have l: "tracks x px (an_swap_id a) c s0 (log_action (InvoiceDecoded invoice) s)" by (rule tracks_log [OF t]) simp_all
  show ?thesis
    using t l by (auto simp: prepare_submarine_def post_def andthen_def pass_def Let_def submarine_record_def admitted_def
      new_progress_def split: sum.splits prod.splits) (auto simp: log_action_def)
qed

lemma start_reverse_tracks:
  assumes c: "named_codec x c" and hex: "\<And>b. x_hex_decode x (x_hex_encode x b) = Inr b" and t: "tracks x px (an_swap_id a) c s0 s"
    and u: "unseen c s a req"
  shows "tracks x px (an_swap_id a) c s0 (snd (start_reverse x px c cx a sender req s))"
proof (cases "cx_has_chain cx")
  case True
  show ?thesis
  proof (cases "reverse_terms x px req")
    case Inl
    with t True show ?thesis by (simp add: start_reverse_def andthen_def pass_def)
  next
    case terms: (Inr ph)
    obtain claim_pk h where ph: "ph = (claim_pk, h)" by fastforce
    show ?thesis
    proof (cases "ensure_reverse_hash_available x c (ps_store s) h")
      case Inl
      with t True terms ph show ?thesis by (simp add: start_reverse_def andthen_def pass_def)
    next
      case av: (Inr v)
      have free: "record_payment_hash x r \<noteq> Inr h" if "r \<in> records_in c s" "r_direction r = Reverse" for r
        using av that hash_free load_all_checked_Inr [of c "ps_store s"]
        by (fastforce simp: ensure_reverse_hash_available_def try_bind_Inr map_err_Inr)
      obtain res1 b where p1: "take_valid_quote x (px_pubky px) (an_now a) (sr_quote_id req) sender Reverse (ps_quotes s) = (res1, b)"
        by fastforce
      let ?s1 = "s\<lparr>ps_quotes := b\<rparr>"
      show ?thesis
      proof (cases res1)
        case Inl
        with t True terms ph av p1 show ?thesis by (simp add: start_reverse_def andthen_def pass_def)
      next
        case q: (Inr q)
        obtain res2 s2 where p2: "reserve_for_swap cx a sender (an_swap_id a) Reverse (exposure_sat Reverse (iq_amount_sat q) (iq_fee_sat q)) ?s1
            = (res2, s2)" by fastforce
        have k2: "quiet ?s1 s2" using postD [OF reserve_quiet p2 [unfolded reserve_for_swap_def]] .
        then have t2: "tracks x px (an_swap_id a) c s0 s2" and k2: "ps_store s2 = ps_store s"
          using tracks_quiet' [of x px "an_swap_id a" c s0 ?s1 s2] t by (simp_all add: quiet_def)
        obtain res3 s3 where p3: "persist_reverse x px c cx a sender req q claim_pk h s2 = (res3, s3)" by fastforce
        have "length h = 32" using reverse_terms_hash terms ph by blast
        note per = postD [OF persist_reverse_tracks [OF c hex t2 _ this] p3]
        have "unseen c s2 a req" using u k2 by (simp add: unseen_def)
        with per free k2 have t3: "tracks x px (an_swap_id a) c s0 s3" and
          r: "\<And>r accept. res3 = Inr (r, accept) \<Longrightarrow> tracks x px (an_swap_id a) c s0 (snd (accept_and_drive cx a sender accept r s3))"
          by (auto intro!: accept_and_drive_tracks)
        from True terms ph av p1 q p2 t2 p3 t3 r show ?thesis
          by (auto simp: start_reverse_def andthen_def pass_def guarded_def split: sum.splits)
      qed
    qed
  qed
qed (use t in \<open>simp add: start_reverse_def\<close>)

lemma start_submarine_tracks:
  assumes c: "named_codec x c" and t: "tracks x px (an_swap_id a) c s0 s" and u: "unseen c s a req"
  shows "tracks x px (an_swap_id a) c s0 (snd (start_submarine x px c cx a sender req s))"
proof (cases "cx_has_chain cx")
  case True
  show ?thesis
  proof (cases "submarine_terms x px req")
    case Inl
    with t True show ?thesis by (simp add: start_submarine_def andthen_def pass_def)
  next
    case terms: (Inr ip)
    obtain invoice refund_pk where ip: "ip = (invoice, refund_pk)" by fastforce
    obtain res1 b where p1: "take_valid_quote x (px_pubky px) (an_now a) (sr_quote_id req) sender Submarine (ps_quotes s) = (res1, b)"
      by fastforce
    let ?s1 = "s\<lparr>ps_quotes := b\<rparr>"
    show ?thesis
    proof (cases res1)
      case Inl
      with t True terms ip p1 show ?thesis by (simp add: start_submarine_def andthen_def pass_def)
    next
      case q: (Inr q)
      obtain res2 s2 where p2: "reserve_for_swap cx a sender (an_swap_id a) Submarine (exposure_sat Submarine (iq_amount_sat q) (iq_fee_sat q)) ?s1
          = (res2, s2)" by fastforce
      have "quiet ?s1 s2" using postD [OF reserve_quiet p2 [unfolded reserve_for_swap_def]] .
      then have t2: "tracks x px (an_swap_id a) c s0 s2" and k2: "ps_store s2 = ps_store s"
        using tracks_quiet' [of x px "an_swap_id a" c s0 ?s1 s2] t by (simp_all add: quiet_def)
      obtain res3 s3 where p3: "prepare_submarine x px cx a sender req q invoice refund_pk s2 = (res3, s3)" by fastforce
      from postD [OF prepare_submarine_post [OF t2] p3] have t3: "tracks x px (an_swap_id a) c s0 s3" and k3: "ps_store s3 = ps_store s"
        and r: "\<And>r accept. res3 = Inr (r, accept) \<Longrightarrow> r_swap_id r = an_swap_id a \<and> r_swap_request r = Some req
          \<and> r_direction r = Submarine \<and> r_peer r = sender \<and> admitted r \<and> r_swap_accept r = Some accept"
        using k2 by auto
      have u3: "unseen c s3 a req" using u k3 by (simp add: unseen_def)
      have fin: "tracks x px (an_swap_id a) c s0 s4 \<and> (is_ok res4 \<longrightarrow> tracks x px (an_swap_id a) c s0 (snd (accept_and_drive cx a sender accept r s4)))"
        if "res3 = Inr (r, accept)" "put_step x c (an_put a) ctx r s3 = (res4, s4)" for r accept res4 s4 ctx
      proof -
        have "may_write x (records_in c s3) r" using r [OF that(1)] by (intro may_write_new [OF u3]) simp_all
        from postD [OF tracks_put [OF c t3 this disjI1] that(2)] r [OF that(1)] show ?thesis
          by (auto intro!: accept_and_drive_tracks)
      qed
      show ?thesis
      proof (cases res3)
        case Inl
        with True terms ip p1 q p2 t2 p3 t3 show ?thesis
          by (auto simp: start_submarine_def andthen_def pass_def guarded_def split: sum.splits)
      next
        case (Inr ra)
        obtain r accept where ra: "ra = (r, accept)" by fastforce
        obtain res4 s4 where p4: "put_step x c (an_put a) (\<lambda>e. Internal (AnyMsg (''cannot start submarine swap ''
                   @ x_uuid_str x (an_swap_id a) @ '': '' @ show_any_error e))) r s3 = (res4, s4)" by fastforce
        from fin [OF Inr [unfolded ra] p4] True terms ip p1 q p2 t2 p3 p4 Inr ra show ?thesis
          by (auto simp: start_submarine_def andthen_def pass_def guarded_def split: sum.splits)
      qed
    qed
  qed
qed (use t in \<open>simp add: start_submarine_def\<close>)


subsection \<open>Every message\<close>

lemma replay_some:
  assumes "replay_among px sender auth req rs = Inr (Some r)"
  shows "r \<in> set rs \<and> same_pubky (px_pubky px) (r_peer r) sender"
  using assms by (induction rs) (auto simp: authorized_peer_def split: option.splits if_splits)

lemma spawn_store [simp]: "ps_store (spawn_driver cx r s) = ps_store s"
  by (simp add: spawn_driver_def log_action_def)

lemma resume_admission_tracks:
  assumes c: "named_codec x c" and t: "tracks x px new c s0 s" and r: "r \<in> records_in c s"
  shows "post (resume_admission x px c cx a r) s (\<lambda>res s'. tracks x px new c s0 s'
     \<and> (\<forall>q. res = Inr q \<longrightarrow> admitted q \<and> r_peer q = r_peer r \<and> (\<exists>q'\<in>records_in c s'. core q' = core q)))"
proof (cases "admitted r")
  case True
  with r t show ?thesis by (auto simp: post_def resume_admission_def pass_def admitted_def)
next
  case False
  obtain res1 s1 where p1: "recover_pending_admission x px c cx a (r_swap_id r) s = (res1, s1)" by fastforce
  note rec = postD [OF recover_tracks [OF c t] p1]
  have peer: "r_peer q = r_peer r" if "res1 = Inr (q, mine)" for q mine
  proof -
    from rec that obtain r' where r': "r' \<in> records_in c s" "r_swap_id r' = r_swap_id r" "identity r' = identity q" by blast
    then have "r' = r" using same_id_same_record [OF tracks_order [OF t] r'(1) r] by simp
    with r' show ?thesis by (simp add: identity_def)
  qed
  show ?thesis
  proof (cases res1)
    case Inl
    with rec p1 False show ?thesis by (auto simp: post_def resume_admission_def andthen_def admitted_def)
  next
    case (Inr qm)
    obtain q mine where qm: "qm = (q, mine)" by fastforce
    from rec Inr qm have t1: "tracks x px new c s0 s1" and k: "r_swap_id q = r_swap_id r" "admitted q"
      "mine \<Longrightarrow> r_swap_id q \<in> undriven (ps_log s1)" "\<exists>q'\<in>records_in c s1. core q' = core q" by auto
    have "mine \<Longrightarrow> tracks x px new c s0 (spawn_driver cx q s1)" by (rule spawn_tracks [OF t1 k(2,3,4)])
    with t1 k p1 Inr qm peer False show ?thesis
      by (auto simp: post_def resume_admission_def andthen_def admitted_def guarded_def pass_def split: sum.splits)
  qed
qed

lemma replay_tracks:
  assumes c: "named_codec x c" and t: "tracks x px new c s0 s" and r: "r \<in> records_in c s" "same_pubky (px_pubky px) (r_peer r) sender"
  shows "tracks x px new c s0 (snd (replay_swap x px c cx a sender req r s))"
proof -
  obtain res1 s1 where p1: "resume_admission x px c cx a r s = (res1, s1)" by fastforce
  note k = postD [OF resume_admission_tracks [OF c t r(1)] p1]
  then have t1: "tracks x px new c s0 s1" by simp
  show ?thesis
  proof (cases res1)
    case Inl
    with p1 t1 show ?thesis by (simp add: replay_swap_def reject_tracks)
  next
    case (Inr q)
    have "tracks x px new c s0 (snd (respond a sender (MsgSwapAccept accept) s1))" if a: "r_swap_accept q = Some accept" for accept
    proof -
      from k Inr obtain q' where "q' \<in> records_in c s1" "core q' = core q" and "admitted q" "r_peer q = r_peer r" by auto
      with r(2) a core_fields [OF \<open>core q' = core q\<close>] show ?thesis by (auto intro!: respond_tracks [OF t1])
    qed
    with p1 t1 Inr show ?thesis by (simp add: replay_swap_def split: option.split)
  qed
qed

text \<open>The environment numbers swaps afresh, reads back what it writes, and the directory is in order.\<close>

definition sound_setting :: "ext \<Rightarrow> 'c codec \<Rightarrow> bool" where
  "sound_setting x c \<longleftrightarrow> named_codec x c \<and> (\<forall>b. x_hex_decode x (x_hex_encode x b) = Inr b)"

definition fresh_ids :: "'c codec \<Rightarrow> 'c provider_state \<Rightarrow> answers \<Rightarrow> bool" where
  "fresh_ids c s a \<longleftrightarrow> (\<forall>r\<in>records_in c s. r_swap_id r \<noteq> an_swap_id a)"

lemma answer_swap_tracks:
  assumes st: "sound_setting x c" and t: "tracks x px (an_swap_id a) c s0 s" and f: "fresh_ids c s a"
  shows "tracks x px (an_swap_id a) c s0 (snd (answer_swap x px c cx a allowed sender req s))"
proof (cases "replay_record px c (ps_store s) sender (authorization cx) req")
  case Inl
  with t show ?thesis by (simp add: answer_swap_def Let_def reject_tracks split: sum.split option.split)
next
  case (Inr found)
  then have l: "replay_among px sender (authorization cx) req (load_all c (ps_store s)) = Inr found"
    using load_all_checked_Inr [of c "ps_store s"] by (auto simp: replay_record_def try_bind_Inr map_err_Inr)
  have c: "named_codec x c" and hex: "\<And>b. x_hex_decode x (x_hex_encode x b) = Inr b"
    using st by (simp_all add: sound_setting_def)
  show ?thesis
  proof (cases found)
    case None
    then have "unseen c s a req"
      using f replay_none [of px sender "authorization cx" req "load_all c (ps_store s)"] l
      by (auto simp: unseen_def fresh_ids_def split: option.split)
    then have "tracks x px (an_swap_id a) c s0 (snd (start_swap x px c cx a sender req s))"
      using start_reverse_tracks [OF c hex t, where req = req and cx = cx and sender = sender]
        start_submarine_tracks [OF c t, where req = req and cx = cx and sender = sender]
      by (auto simp: start_swap_def reject_tracks split: swap_direction.split prod.split sum.split dest!: arg_cong [where f = snd])
    with Inr None t show ?thesis by (simp add: answer_swap_def Let_def reject_tracks split: sum.split option.split)
  next
    case (Some r)
    with replay_some l have "r \<in> records_in c s" "same_pubky (px_pubky px) (r_peer r) sender" by blast+
    then have "tracks x px (an_swap_id a) c s0 (snd (replay_swap x px c cx a sender req r s))" by (rule replay_tracks [OF c t])
    with Inr Some t show ?thesis by (simp add: answer_swap_def Let_def reject_tracks split: sum.split option.split)
  qed
qed

lemma answer_quote_tracks:
  "tracks x px new c s0 s \<Longrightarrow> tracks x px new c s0 (snd (answer_quote x px cx a allowed offer sender req s))"
  by (auto simp: answer_quote_def Let_def reject_tracks intro!: respond_tracks split: sum.splits)

lemma handle_tracks:
  assumes st: "sound_setting x c" and t: "tracks x px (an_swap_id a) c s0 s" and f: "fresh_ids c s a"
  shows "tracks x px (an_swap_id a) c s0 (snd (handle_message x px pp c cx a offer sender m s))"
proof (cases m)
  case (MsgSwapRequest req)
  then show ?thesis using answer_swap_tracks [OF st t f] by simp
next
  case (MsgQuoteRequest req)
  then show ?thesis using answer_quote_tracks [OF t] by simp
qed (use t in \<open>auto simp: answer_or_reject_def case_prod_beta Let_def reject_tracks intro!: respond_tracks split: option.split sum.split\<close>)

end
