(* ===== verification/Admission_Accounts.thy ===== *)
theory Admission_Accounts
  imports Admission_Safety
begin

text \<open>
  What a request leaves in the books: capital is held for the swaps whose driver it started and for no
  others, and a request is only acknowledged once a reply to its sender has gone out.
\<close>

subsection \<open>Steps that touch no capital\<close>

fun started :: "'c action list \<Rightarrow> uuid list" where
  "started [] = []"
| "started (DriverStarted r # l) = r_swap_id r # started l"
| "started (a # l) = started l"

lemma started_append [simp]: "started (l @ l') = started l @ started l'"
  by (induction l rule: started.induct) auto

definition unmoved :: "'c provider_state \<Rightarrow> 'c provider_state \<Rightarrow> bool" where
  "unmoved s s' \<longleftrightarrow> ps_risk s' = ps_risk s \<and> (\<exists>l. ps_log s' = ps_log s @ l \<and> started l = [])"

lemma calm_refl [simp]: "unmoved s s"
  by (simp add: unmoved_def)

lemma calm_trans [trans]: "unmoved s s' \<Longrightarrow> unmoved s' s'' \<Longrightarrow> unmoved s s''"
  by (force simp: unmoved_def)

lemma calm_log: "started [a] = [] \<Longrightarrow> unmoved s (log_action a s)"
  by (auto simp: unmoved_def log_action_def)

lemma calm_store [simp]: "unmoved s (s'\<lparr>ps_store := d\<rparr>) = unmoved s s'" "unmoved (s\<lparr>ps_store := d\<rparr>) s' = unmoved s s'"
  and calm_quotes [simp]: "unmoved s (s'\<lparr>ps_quotes := b\<rparr>) = unmoved s s'" "unmoved (s\<lparr>ps_quotes := b\<rparr>) s' = unmoved s s'"
  by (simp_all add: unmoved_def)

lemma put_calm: "post (put_step x c cs ctx r) s (\<lambda>res s'. unmoved s s')"
  by (auto simp: post_def put_step_def Let_def split: prod.split sum.split intro!: calm_log [THEN calm_trans [rotated]])

lemma respond_calm: "post (respond a peer m) s (\<lambda>res s'. unmoved s s')"
  by (simp add: calm_log)

lemma reject_calm: "post (reject_with a peer i j k code reason) s (\<lambda>res s'. unmoved s s')"
  by (simp add: calm_log)

lemma obtain_calm: "post (obtain_invoice a rec request) s (\<lambda>res s'. unmoved s s')"
  by (auto simp: post_def obtain_invoice_def Let_def split: sum.split option.split
      intro: calm_log calm_trans [OF calm_log calm_log])

lemma andthen_calm:
  assumes "post p s (\<lambda>res s'. unmoved s s')" and "\<And>v s. post (f v) s (\<lambda>res s'. unmoved s s')"
  shows "post (andthen p f) s (\<lambda>res s'. unmoved s s')"
  using assms by (auto simp: post_def andthen_def split: prod.split sum.split intro: calm_trans)

lemma pass_calm: "post (pass r) s (\<lambda>res s'. unmoved s s')"
  by simp

lemmas calm_steps = andthen_calm pass_calm put_calm obtain_calm respond_calm

lemma complete_calm: "post (complete_invoice_intent x px c a i rec) s (\<lambda>res s'. unmoved s s')"
  unfolding complete_invoice_intent_def [abs_def]
  by (subst post_eq [OF refl]) (intro calm_steps)

lemma persist_reverse_calm: "post (persist_reverse x px c cx a sender req q claim_pk h) s (\<lambda>res s'. unmoved s s')"
  unfolding persist_reverse_def by (intro calm_steps complete_calm)


lemma pair_calm: "(\<And>u v. post (f u v) s (\<lambda>res s'. unmoved s s')) \<Longrightarrow> post (case w of (u, v) \<Rightarrow> f u v) s (\<lambda>res s'. unmoved s s')"
  by (simp split: prod.split)

lemma decode_calm: "post (\<lambda>s. (Inr (), log_action (InvoiceDecoded i) s)) s (\<lambda>res s'. unmoved s s')"
  by (simp add: post_def calm_log)

lemma prepare_submarine_calm: "post (prepare_submarine x px cx a sender req q invoice refund_pk) s (\<lambda>res s'. unmoved s s')"
  unfolding prepare_submarine_def Let_def by (intro calm_steps pair_calm decode_calm)

subsection \<open>Reserving and releasing\<close>

definition held :: "'c provider_state \<Rightarrow> uuid set" where
  "held s = fst ` set (ri_reservations (ps_risk s))"

definition claiming :: "'c provider_state \<Rightarrow> uuid set" where
  "claiming s = fst ` set (ri_funding_claims (ps_risk s))"

lemma held_update [simp]:
  "held (s\<lparr>ps_store := d\<rparr>) = held s" "held (s\<lparr>ps_quotes := b\<rparr>) = held s" "held (s\<lparr>ps_waker := w\<rparr>) = held s"
  "held (s\<lparr>ps_log := l\<rparr>) = held s" "claiming (s\<lparr>ps_store := d\<rparr>) = claiming s" "claiming (s\<lparr>ps_quotes := b\<rparr>) = claiming s"
  "claiming (s\<lparr>ps_waker := w\<rparr>) = claiming s" "claiming (s\<lparr>ps_log := l\<rparr>) = claiming s"
  by (simp_all add: held_def claiming_def)

lemma held_calm: "unmoved s s' \<Longrightarrow> held s' = held s \<and> claiming s' = claiming s"
  by (simp add: unmoved_def held_def claiming_def)

lemma release_held [simp]:
  "held (s\<lparr>ps_risk := risk_release i (ps_risk s)\<rparr>) = held s - {i}"
  "claiming (s\<lparr>ps_risk := risk_release i (ps_risk s)\<rparr>) = claiming s - {i}"
proof -
  have "map_of xs i = None \<Longrightarrow> i \<notin> fst ` set xs" for xs :: "(uuid \<times> string \<times> u64) list"
    by (simp add: map_of_eq_None_iff)
  then show "held (s\<lparr>ps_risk := risk_release i (ps_risk s)\<rparr>) = held s - {i}"
    by (auto simp: held_def risk_release_def Let_def delete_keys split: option.split)
  show "claiming (s\<lparr>ps_risk := risk_release i (ps_risk s)\<rparr>) = claiming s - {i}"
    by (auto simp: claiming_def risk_release_def Let_def delete_keys split: option.split)
qed

lemma keys_update: "fst ` set (AList.update k v xs) = insert k (fst ` set xs)"
  by (induction xs) auto

lemma with_claim_keys: "fst ` set (ri_funding_claims (with_claim i claim k)) \<subseteq> insert i (fst ` set (ri_funding_claims k))"
  by (simp add: with_claim_def keys_update subset_insertI)

lemma check_books:
  assumes "check_funding_balance cx a i d n s = (res, s')"
  shows "held s' = held s" and "claiming s' \<subseteq> insert i (claiming s)"
proof -
  have "s' = s \<or> (\<exists>k. (k = ps_risk s \<or> k = with_claim i (funding_claim_sat cx n) (ps_risk s)) \<and> s' = s\<lparr>ps_risk := k\<rparr>)"
    using assms by (auto simp: check_funding_balance_def claim_funding_def Let_def split: if_splits sum.splits option.splits prod.splits)
  then have "held s' = held s \<and> claiming s' \<subseteq> insert i (claiming s)"
    using with_claim_keys [of i "funding_claim_sat cx n" "ps_risk s"] by (elim disjE exE conjE) (simp_all add: held_def claiming_def subset_insertI)
  then show "held s' = held s" "claiming s' \<subseteq> insert i (claiming s)" by blast+
qed

lemma reserve_books:
  assumes p: "reserved_then (\<lambda>k. reserve_inner lim at peer i amount mode k) i (check_funding_balance cx a i d n) s = (res, s')"
    and new: "i \<notin> held s" "i \<notin> claiming s"
  shows "ps_log s' = ps_log s" "ps_store s' = ps_store s"
    "(if is_ok res then held s' = insert i (held s) \<and> claiming s' \<subseteq> insert i (claiming s)
      else held s' = held s \<and> claiming s' \<subseteq> claiming s)"
proof -
  show "ps_log s' = ps_log s" "ps_store s' = ps_store s"
    using postD [OF reserve_quiet p] by (simp_all add: quiet_def)
  show "(if is_ok res then held s' = insert i (held s) \<and> claiming s' \<subseteq> insert i (claiming s)
      else held s' = held s \<and> claiming s' \<subseteq> claiming s)"
  proof (cases rule: reserve_inner_cases [of lim at peer i amount mode "ps_risk s"])
    case refused
    with p show ?thesis by (auto simp: reserved_then_def Let_def held_def claiming_def trimmed_def)
  next
    case admitted
    let ?k = "commit_reservation at peer i amount mode (trimmed at peer (ps_risk s))"
    have k: "fst ` set (ri_reservations ?k) = insert i (held s)" "ri_funding_claims ?k = ri_funding_claims (ps_risk s)"
      using admitted(2) by (auto simp: commit_reservation_def Let_def update_fresh held_def trimmed_def)
    obtain r s1 where c: "check_funding_balance cx a i d n (s\<lparr>ps_risk := ?k\<rparr>) = (r, s1)" by fastforce
    have "held (s\<lparr>ps_risk := ?k\<rparr>) = insert i (held s)" "claiming (s\<lparr>ps_risk := ?k\<rparr>) = claiming s"
      using k by (simp_all add: held_def claiming_def)
    with check_books [OF c] have b: "held s1 = insert i (held s)" "claiming s1 \<subseteq> insert i (claiming s)" by simp_all
    from p admitted c have "(res, s') = guarded i (check_funding_balance cx a i d n) (s\<lparr>ps_risk := ?k\<rparr>)"
      by (simp add: reserved_then_def Let_def)
    with c have "(res, s') = (case r of Inl e \<Rightarrow> (Inl e, s1\<lparr>ps_risk := risk_release i (ps_risk s1)\<rparr>) | Inr v \<Rightarrow> (Inr v, s1))"
      by (simp add: guarded_def)
    with b new show ?thesis by (cases r) auto
  qed
qed


subsection \<open>Capital follows the drivers\<close>

definition balanced :: "'c provider_state \<Rightarrow> 'c provider_state \<Rightarrow> bool" where
  "balanced s s' \<longleftrightarrow> (\<exists>l. ps_log s' = ps_log s @ l \<and> held s' = held s \<union> set (started l)
     \<and> claiming s' \<subseteq> claiming s \<union> set (started l))"

text \<open>In the middle of a request: its swap \<open>i\<close> holds capital and has no driver yet.\<close>

definition reserving :: "uuid \<Rightarrow> 'c provider_state \<Rightarrow> 'c provider_state \<Rightarrow> bool" where
  "reserving i s s' \<longleftrightarrow> i \<notin> held s \<and> i \<notin> claiming s \<and> (\<exists>l. ps_log s' = ps_log s @ l \<and> started l = [])
     \<and> held s' = insert i (held s) \<and> claiming s' \<subseteq> insert i (claiming s)"

lemma quotes_books [simp]:
  "balanced (s\<lparr>ps_quotes := b\<rparr>) s' = balanced s s'" "reserving i (s\<lparr>ps_quotes := b\<rparr>) s' = reserving i s s'"
  "balanced s (s'\<lparr>ps_waker := w\<rparr>) = balanced s s'" "balanced s (s'\<lparr>ps_quotes := b\<rparr>) = balanced s s'"
  by (simp_all add: balanced_def reserving_def)

lemma calm_balanced: "unmoved s s' \<Longrightarrow> balanced s s'"
  using held_calm [of s s'] by (auto simp: balanced_def unmoved_def)

lemma balanced_calm: "balanced s s' \<Longrightarrow> unmoved s' s'' \<Longrightarrow> balanced s s''"
  using held_calm [of s' s''] by (fastforce simp: balanced_def unmoved_def)

lemma balanced_refl [simp]: "balanced s s"
  by (simp add: calm_balanced)

lemma balanced_respond: "balanced s s' \<Longrightarrow> balanced s (snd (respond a peer m s'))"
  and balanced_reject: "balanced s s' \<Longrightarrow> balanced s (snd (reject_with a peer i j k code reason s'))"
  using respond_calm [of a peer m s'] reject_calm [of a peer i j k code reason s']
  by (auto simp: post_def intro: balanced_calm)

lemma reserving_calm: "reserving i s s' \<Longrightarrow> unmoved s' s'' \<Longrightarrow> reserving i s s''"
  using held_calm [of s' s''] by (fastforce simp: reserving_def unmoved_def)

lemma reserving_released: "reserving i s s' \<Longrightarrow> balanced s (s'\<lparr>ps_risk := risk_release i (ps_risk s')\<rparr>)"
  unfolding reserving_def balanced_def by (elim conjE exE, rule exI, intro conjI, simp) auto

lemma reserving_driven: "reserving i s s' \<Longrightarrow> r_swap_id r = i \<Longrightarrow> balanced s (spawn_driver cx r s')"
proof (cases "cx_has_chain cx \<and> cx_has_wallet cx")
  case True
  assume "reserving i s s'" and i: "r_swap_id r = i"
  then obtain l where "ps_log s' = ps_log s @ l" "started l = []" "held s' = insert i (held s)" "claiming s' \<subseteq> insert i (claiming s)"
    by (auto simp: reserving_def)
  with True i show ?thesis
    by (auto simp: balanced_def spawn_driver_def log_action_def intro!: exI [of _ "l @ [DriverStarted r]"])
next
  case False
  assume "reserving i s s'" and "r_swap_id r = i"
  with False show ?thesis using reserving_released [of i s s'] by (simp only: spawn_driver_def if_False)
qed

lemma reserve_reserves:
  assumes p: "reserved_then (\<lambda>k. reserve_inner lim at peer i amount mode k) i (check_funding_balance cx a i d n) s = (res, s')"
    and new: "i \<notin> held s" "i \<notin> claiming s"
  shows "if is_ok res then reserving i s s' else balanced s s'"
  using reserve_books [OF p new] new by (auto simp: reserving_def balanced_def split: if_splits)

lemma reserve_for_swap_inner:
  "reserve_for_swap cx a peer i d n = reserved_then (\<lambda>k. reserve_inner (cx_limits cx) (an_instant a) (unwrap_or (cx_account cx) peer) i n NewSwap k)
     i (check_funding_balance cx a i d n)"
  by (simp add: reserve_for_swap_def risk_reserve_def [abs_def])

lemma reserve_pending_swap_inner:
  "reserve_pending_swap cx a r = reserved_then (\<lambda>k. reserve_inner (cx_limits cx) (an_instant a)
       (unwrap_or (r_peer_account r) (r_peer r)) (r_swap_id r) (r_onchain_amount_sat r) PendingSwap k)
     (r_swap_id r) (check_funding_balance cx a (r_swap_id r) (r_direction r) (r_onchain_amount_sat r))"
  by (simp add: reserve_pending_swap_def risk_reserve_pending_def [abs_def])

lemma accept_and_drive_balanced:
  assumes "reserving i s s'" and "r_swap_id r = i"
  shows "balanced s (snd (accept_and_drive cx a sender accept r s'))"
proof -
  have "unmoved s' (snd (respond a sender (MsgSwapAccept accept) s'))"
    using respond_calm [of a sender "MsgSwapAccept accept" s'] by (simp add: post_def)
  from reserving_driven [OF reserving_calm [OF assms(1) this] assms(2)] show ?thesis
    by (simp add: accept_and_drive_def case_prod_beta Let_def)
qed

lemma start_reverse_balanced:
  assumes c: "named_codec x c" and hex: "\<And>b. x_hex_decode x (x_hex_encode x b) = Inr b" and t: "tracks x px (an_swap_id a) c s0 s"
    and u: "unseen c s a req" and new: "an_swap_id a \<notin> held s" "an_swap_id a \<notin> claiming s"
  shows "balanced s (snd (start_reverse x px c cx a sender req s))"
proof (cases "cx_has_chain cx")
  case True
  show ?thesis
  proof (cases "reverse_terms x px req")
    case Inl
    with True show ?thesis by (simp add: start_reverse_def andthen_def pass_def calm_balanced)
  next
    case terms: (Inr ph)
    obtain claim_pk h where ph: "ph = (claim_pk, h)" by fastforce
    show ?thesis
    proof (cases "ensure_reverse_hash_available x c (ps_store s) h")
      case Inl
      with True terms ph show ?thesis by (simp add: start_reverse_def andthen_def pass_def calm_balanced)
    next
      case av: (Inr v)
      have free: "record_payment_hash x r \<noteq> Inr h" if "r \<in> records_in c s" "r_direction r = Reverse" for r
        using av that hash_free load_all_checked_Inr [of c "ps_store s"]
        by (fastforce simp: ensure_reverse_hash_available_def try_bind_Inr map_err_Inr)
      obtain res1 b where p1: "take_valid_quote x (px_pubky px) (an_now a) (sr_quote_id req) sender Reverse (ps_quotes s) = (res1, b)"
        by fastforce
      let ?s1 = "s\<lparr>ps_quotes := b\<rparr>"
      show ?thesis
      proof (cases res1)
        case Inl
        with True terms ph av p1 show ?thesis by (simp add: start_reverse_def andthen_def pass_def calm_balanced)
      next
        case q: (Inr q)
        obtain res2 s2 where p2: "reserve_for_swap cx a sender (an_swap_id a) Reverse (exposure_sat Reverse (iq_amount_sat q) (iq_fee_sat q)) ?s1
            = (res2, s2)" by fastforce
        have "quiet ?s1 s2" using postD [OF reserve_quiet p2 [unfolded reserve_for_swap_def]] .
        then have t2: "tracks x px (an_swap_id a) c s0 s2" and k2: "ps_store s2 = ps_store s"
          using tracks_quiet' [of x px "an_swap_id a" c s0 ?s1 s2] t by (simp_all add: quiet_def)
        have r2: "if is_ok res2 then reserving (an_swap_id a) s s2 else balanced s s2"
          using reserve_reserves [OF p2 [unfolded reserve_for_swap_inner]] new by (simp split: if_splits)
        obtain res3 s3 where p3: "persist_reverse x px c cx a sender req q claim_pk h s2 = (res3, s3)" by fastforce
        have l: "length h = 32" using reverse_terms_hash terms ph by blast
        have u2: "unseen c s2 a req" using u k2 by (simp add: unseen_def)
        have id3: "r_swap_id r = an_swap_id a" if "res3 = Inr (r, accept)" for r accept
          using postD [OF persist_reverse_tracks [OF c hex t2 u2 l] p3] free k2 that by auto
        have r3: "is_ok res2 \<Longrightarrow> reserving (an_swap_id a) s s3"
          using r2 reserving_calm postD [OF persist_reverse_calm p3] by auto
        show ?thesis
          using True terms ph av p1 q p2 p3 r2 r3 id3
          by (auto simp: start_reverse_def andthen_def pass_def guarded_def reserving_released accept_and_drive_balanced split: sum.splits)
      qed
    qed
  qed
qed (simp add: start_reverse_def calm_balanced)

lemma prepare_submarine_id:
  assumes "prepare_submarine x px cx a sender req q invoice refund_pk s = (Inr (r, accept), s')"
  shows "r_swap_id r = an_swap_id a"
  using assms by (auto simp: prepare_submarine_def andthen_def pass_def Let_def submarine_record_def split: sum.splits prod.splits)

lemma start_submarine_balanced:
  assumes new: "an_swap_id a \<notin> held s" "an_swap_id a \<notin> claiming s"
  shows "balanced s (snd (start_submarine x px c cx a sender req s))"
proof (cases "cx_has_chain cx")
  case True
  show ?thesis
  proof (cases "submarine_terms x px req")
    case Inl
    with True show ?thesis by (simp add: start_submarine_def andthen_def pass_def calm_balanced)
  next
    case terms: (Inr ip)
    obtain invoice refund_pk where ip: "ip = (invoice, refund_pk)" by fastforce
    obtain res1 b where p1: "take_valid_quote x (px_pubky px) (an_now a) (sr_quote_id req) sender Submarine (ps_quotes s) = (res1, b)"
      by fastforce
    let ?s1 = "s\<lparr>ps_quotes := b\<rparr>"
    show ?thesis
    proof (cases res1)
      case Inl
      with True terms ip p1 show ?thesis by (simp add: start_submarine_def andthen_def pass_def calm_balanced)
    next
      case q: (Inr q)
      obtain res2 s2 where p2: "reserve_for_swap cx a sender (an_swap_id a) Submarine (exposure_sat Submarine (iq_amount_sat q) (iq_fee_sat q)) ?s1
          = (res2, s2)" by fastforce
      have r2: "if is_ok res2 then reserving (an_swap_id a) s s2 else balanced s s2"
        using reserve_reserves [OF p2 [unfolded reserve_for_swap_inner]] new by (simp split: if_splits)
      let ?p = "andthen (prepare_submarine x px cx a sender req q invoice refund_pk) (\<lambda>(r, accept).
               andthen (put_step x c (an_put a) (\<lambda>e. Internal (AnyMsg (''cannot start submarine swap ''
                   @ x_uuid_str x (an_swap_id a) @ '': '' @ show_any_error e))) r) (\<lambda>_. pass (Inr (r, accept))))"
      obtain res3 s3 where p3: "?p s2 = (res3, s3)" by fastforce
      have cm: "post ?p s2 (\<lambda>res s'. unmoved s2 s')"
        by (intro calm_steps pair_calm prepare_submarine_calm)
      have r3: "is_ok res2 \<Longrightarrow> reserving (an_swap_id a) s s3" using r2 reserving_calm postD [OF cm p3] by auto
      have id3: "r_swap_id r = an_swap_id a" if "res3 = Inr (r, accept)" for r accept
        using p3 that by (auto simp: andthen_def pass_def split: prod.splits sum.splits dest: prepare_submarine_id)
      show ?thesis
        using True terms ip p1 q p2 p3 r2 r3 id3
        by (auto simp: start_submarine_def andthen_def [of "guarded _ _"] andthen_def [of "pass _"] andthen_def [of "reserve_for_swap _ _ _ _ _ _"]
            andthen_def [of "\<lambda>s. _ s"] pass_def guarded_def reserving_released accept_and_drive_balanced split: sum.splits)
    qed
  qed
qed (simp add: start_submarine_def calm_balanced)


lemma resume_admission_balanced:
  assumes c: "named_codec x c" and t: "tracks x px new c s0 s" and r: "r \<in> records_in c s"
    and n: "\<not> admitted r \<Longrightarrow> r_swap_id r \<notin> held s \<and> r_swap_id r \<notin> claiming s"
  shows "balanced s (snd (resume_admission x px c cx a r s))"
proof (cases "admitted r")
  case True
  then show ?thesis by (simp add: resume_admission_def pass_def admitted_def calm_balanced)
next
  case False
  let ?i = "r_swap_id r"
  have g: "store_get x c ?i (ps_store s) = Inr (Some r)" by (rule member_store_get [OF tracks_order [OF t] r])
  obtain res1 s1 where p1: "reserve_pending_swap cx a r s = (res1, s1)" by fastforce
  have r1: "if is_ok res1 then reserving ?i s s1 else balanced s s1"
    using reserve_reserves [OF p1 [unfolded reserve_pending_swap_inner]] n [OF False] by blast
  have "quiet s s1" using postD [OF reserve_quiet p1 [unfolded reserve_pending_swap_def]] .
  then have t1: "tracks x px new c s0 s1" by (rule tracks_quiet' [OF t])
  obtain res2 s2 where p2: "complete_invoice_intent x px c a ?i True s1 = (res2, s2)" by fastforce
  have r2: "is_ok res1 \<Longrightarrow> reserving ?i s s2" using r1 reserving_calm postD [OF complete_calm p2] by auto
  have id2: "r_swap_id q = ?i" if "res2 = Inr q" for q using postD [OF complete_tracks [OF c t1] p2] that by auto
  show ?thesis
    using g False p1 p2 r1 r2 id2 reserving_released [of ?i s s2] reserving_driven [of ?i s s2]
    by (auto simp: resume_admission_def recover_pending_admission_def andthen_def pass_def guarded_def admitted_def
        split: sum.splits)
qed

lemma replay_balanced:
  assumes "named_codec x c" and "tracks x px new c s0 s" and "r \<in> records_in c s"
    and "\<not> admitted r \<Longrightarrow> r_swap_id r \<notin> held s \<and> r_swap_id r \<notin> claiming s"
  shows "balanced s (snd (replay_swap x px c cx a sender req r s))"
proof -
  have "balanced s (snd (resume_admission x px c cx a r s))" by (rule resume_admission_balanced [OF assms])
  then show ?thesis
    by (auto simp: replay_swap_def intro: balanced_reject balanced_respond split: prod.splits sum.splits option.splits)
qed

definition uncommitted :: "'c codec \<Rightarrow> 'c provider_state \<Rightarrow> answers \<Rightarrow> bool" where
  "uncommitted c s a \<longleftrightarrow> an_swap_id a \<notin> held s \<union> claiming s
     \<and> (\<forall>r\<in>records_in c s. admitted r \<or> r_swap_id r \<notin> held s \<union> claiming s)"

lemma answer_swap_balanced:
  assumes st: "sound_setting x c" and t: "tracks x px (an_swap_id a) c s0 s" and f: "fresh_ids c s a" and n: "uncommitted c s a"
  shows "balanced s (snd (answer_swap x px c cx a allowed sender req s))"
proof -
  note unmoved = balanced_reject [OF balanced_refl]
  have c: "named_codec x c" and hex: "\<And>b. x_hex_decode x (x_hex_encode x b) = Inr b"
    using st by (simp_all add: sound_setting_def)
  show ?thesis
  proof (cases "replay_record px c (ps_store s) sender (authorization cx) req")
    case Inl
    then show ?thesis by (simp add: unmoved answer_swap_def Let_def split: sum.split option.split)
  next
    case (Inr found)
    then have l: "replay_among px sender (authorization cx) req (load_all c (ps_store s)) = Inr found"
      using load_all_checked_Inr [of c "ps_store s"] by (auto simp: replay_record_def try_bind_Inr map_err_Inr)
    show ?thesis
    proof (cases found)
      case None
      then have u: "unseen c s a req"
        using f replay_none [of px sender "authorization cx" req "load_all c (ps_store s)"] l
        by (auto simp: unseen_def fresh_ids_def split: option.split)
      have n': "an_swap_id a \<notin> held s" "an_swap_id a \<notin> claiming s" using n by (simp_all add: uncommitted_def)
      have "balanced s (snd (start_swap x px c cx a sender req s))"
        using start_reverse_balanced [OF c hex t u n', where cx = cx and sender = sender] start_submarine_balanced [OF n', where cx = cx and sender = sender and req = req and x = x and px = px and c = c]
        by (auto simp: start_swap_def intro: balanced_reject split: swap_direction.split prod.split sum.split dest!: arg_cong [where f = snd])
      with Inr None show ?thesis by (simp add: unmoved answer_swap_def Let_def split: sum.split option.split)
    next
      case (Some r)
      with replay_some l have m: "r \<in> records_in c s" by blast
      have "balanced s (snd (replay_swap x px c cx a sender req r s))"
        by (rule replay_balanced [OF c t m]) (use n m in \<open>auto simp: uncommitted_def\<close>)
      with Inr Some show ?thesis by (simp add: unmoved answer_swap_def Let_def split: sum.split option.split)
    qed
  qed
qed

lemma handle_balanced:
  assumes st: "sound_setting x c" and t: "tracks x px (an_swap_id a) c s0 s" and f: "fresh_ids c s a" and n: "uncommitted c s a"
  shows "balanced s (snd (handle_message x px pp c cx a offer sender m s))"
proof (cases m)
  case (MsgSwapRequest req)
  then show ?thesis using answer_swap_balanced [OF st t f n] by simp
next
  case (MsgQuoteRequest req)
  then show ?thesis
    by (auto simp: answer_quote_def Let_def intro!: balanced_respond balanced_reject split: sum.split)
qed (auto simp: answer_or_reject_def case_prod_beta Let_def intro!: balanced_respond balanced_reject split: option.split sum.split)

end
