(* ===== verification/Admission_Replies.thy ===== *)
theory Admission_Replies
  imports Admission_Accounts
begin

text \<open>
  What a request says to its sender: it is acknowledged only once a reply has gone out, and the one way
  in which a swap that was started is refused after all.
\<close>

subsection \<open>Steps that say nothing\<close>

fun replies :: "'c action list \<Rightarrow> (string \<times> swap_message \<times> send_result) list" where
  "replies [] = []"
| "replies (Replied p m out # l) = (p, m, out) # replies l"
| "replies (a # l) = replies l"

lemma replies_append [simp]: "replies (l @ l') = replies l @ replies l'"
  by (induction l rule: replies.induct) auto

definition silent :: "'c provider_state \<Rightarrow> 'c provider_state \<Rightarrow> bool" where
  "silent s s' \<longleftrightarrow> (\<exists>l. ps_log s' = ps_log s @ l \<and> started l = [] \<and> replies l = [])"

lemma silent_refl [simp]: "silent s s"
  by (simp add: silent_def)

lemma silent_trans: "silent s s' \<Longrightarrow> silent s' s'' \<Longrightarrow> silent s s''"
  by (force simp: silent_def)

lemma silent_log: "started [a] = [] \<Longrightarrow> replies [a] = [] \<Longrightarrow> silent s (log_action a s)"
  by (auto simp: silent_def log_action_def)

lemma silent_update [simp]:
  "silent s (s'\<lparr>ps_store := d\<rparr>) = silent s s'" "silent s (s'\<lparr>ps_risk := k\<rparr>) = silent s s'"
  "silent s (s'\<lparr>ps_quotes := b\<rparr>) = silent s s'" "silent (s\<lparr>ps_store := d\<rparr>) s' = silent s s'"
  "silent (s\<lparr>ps_risk := k\<rparr>) s' = silent s s'" "silent (s\<lparr>ps_quotes := b\<rparr>) s' = silent s s'"
  by (simp_all add: silent_def)

lemma quiet_silent: "quiet s s' \<Longrightarrow> silent s s'"
  by (simp add: quiet_def silent_def)

lemma andthen_silent:
  assumes "post p s (\<lambda>res s'. silent s s')" and "\<And>v s. post (f v) s (\<lambda>res s'. silent s s')"
  shows "post (andthen p f) s (\<lambda>res s'. silent s s')"
  using assms by (auto simp: post_def andthen_def split: prod.split sum.split intro: silent_trans)

lemma pass_silent: "post (pass r) s (\<lambda>res s'. silent s s')"
  by simp

lemma put_silent: "post (put_step x c cs ctx r) s (\<lambda>res s'. silent s s')"
  by (auto simp: post_def put_step_def Let_def split: prod.split sum.split intro!: silent_log [THEN silent_trans [rotated]])

lemma obtain_silent: "post (obtain_invoice a rec request) s (\<lambda>res s'. silent s s')"
  by (auto simp: post_def obtain_invoice_def Let_def split: sum.split option.split
      intro: silent_log silent_trans [OF silent_log silent_log])

lemma guarded_silent: "post p s (\<lambda>res s'. silent s s') \<Longrightarrow> post (guarded i p) s (\<lambda>res s'. silent s s')"
  by (auto simp: post_def guarded_def split: prod.split sum.split)

lemma pair_silent: "(\<And>u v. post (f u v) s (\<lambda>res s'. silent s s')) \<Longrightarrow> post (case w of (u, v) \<Rightarrow> f u v) s (\<lambda>res s'. silent s s')"
  by (simp split: prod.split)

lemma decode_silent: "post (\<lambda>s. (Inr (), log_action (InvoiceDecoded i) s)) s (\<lambda>res s'. silent s s')"
  by (simp add: post_def silent_log)

lemmas silent_steps = andthen_silent pass_silent put_silent obtain_silent guarded_silent pair_silent decode_silent

lemma complete_silent: "post (complete_invoice_intent x px c a i rec) s (\<lambda>res s'. silent s s')"
  unfolding complete_invoice_intent_def [abs_def]
  by (subst post_eq [OF refl]) (intro silent_steps)

lemma persist_reverse_silent: "post (persist_reverse x px c cx a sender req q claim_pk h) s (\<lambda>res s'. silent s s')"
  unfolding persist_reverse_def by (intro silent_steps complete_silent)

lemma prepare_submarine_silent: "post (prepare_submarine x px cx a sender req q invoice refund_pk) s (\<lambda>res s'. silent s s')"
  unfolding prepare_submarine_def Let_def by (intro silent_steps)

lemma reserve_silent: "post (reserve_for_swap cx a peer i d n) s (\<lambda>res s'. silent s s')"
  unfolding reserve_for_swap_def by (rule post_mono [OF reserve_quiet quiet_silent])

lemma take_silent:
  "post (\<lambda>s. let (r, b) = take_valid_quote x f t i p d (ps_quotes s) in (r, s\<lparr>ps_quotes := b\<rparr>)) s (\<lambda>res s'. silent s s')"
  by (simp add: post_def case_prod_beta Let_def)

subsection \<open>Starting a swap speaks once, at the end\<close>

definition starts_or_stops ::
  "exec_ctx \<Rightarrow> answers \<Rightarrow> string \<Rightarrow> 'c provider_state \<Rightarrow> handler_error + unit \<Rightarrow> 'c provider_state \<Rightarrow> bool" where
  "starts_or_stops cx a sender s res s' \<longleftrightarrow> (silent s s' \<and> \<not> is_ok res)
     \<or> (\<exists>s1 r accept. silent s s1 \<and> (res, s') = accept_and_drive cx a sender accept r s1)"


lemma andthen_starts:
  assumes "post p s (\<lambda>res s'. silent s s')" and "\<And>v s. post (f v) s (starts_or_stops cx a sender s)"
  shows "post (andthen p f) s (starts_or_stops cx a sender s)"
proof -
  obtain res s1 where p: "p s = (res, s1)" by fastforce
  with assms(1) have q: "silent s s1" by (simp add: post_def)
  show ?thesis
  proof (cases res)
    case (Inl e)
    with p q show ?thesis by (simp add: post_def andthen_def starts_or_stops_def)
  next
    case (Inr v)
    obtain res' s2 where f: "f v s1 = (res', s2)" by fastforce
    have "starts_or_stops cx a sender s1 res' s2" using assms(2) [of v s1] f by (simp add: post_def)
    then have "starts_or_stops cx a sender s res' s2"
      using q silent_trans unfolding starts_or_stops_def by blast
    with p Inr f show ?thesis by (simp add: post_def andthen_def)
  qed
qed

lemma accept_starts: "post (accept_and_drive cx a sender accept r) s (starts_or_stops cx a sender s)"
  unfolding starts_or_stops_def post_def by (metis prod.collapse silent_refl)

lemma pair_starts: "(\<And>u v. post (f u v) s (starts_or_stops cx a sender s')) \<Longrightarrow> post (case w of (u, v) \<Rightarrow> f u v) s (starts_or_stops cx a sender s')"
  by (simp split: prod.split)

lemmas start_steps = andthen_starts accept_starts pair_starts pass_silent guarded_silent reserve_silent take_silent
  persist_reverse_silent prepare_submarine_silent put_silent

lemma start_reverse_starts: "post (start_reverse x px c cx a sender req) s (starts_or_stops cx a sender s)"
proof (cases "cx_has_chain cx")
  case True
  let ?p = "andthen (pass (reverse_terms x px req)) (\<lambda>(claim_pk, h).
           andthen (pass (ensure_reverse_hash_available x c (ps_store s) h)) (\<lambda>_.
           andthen (\<lambda>s. let (r, b) = take_valid_quote x (px_pubky px) (an_now a) (sr_quote_id req) sender Reverse (ps_quotes s)
                        in (r, s\<lparr>ps_quotes := b\<rparr>)) (\<lambda>q.
           andthen (reserve_for_swap cx a sender (an_swap_id a) Reverse
                      (exposure_sat Reverse (iq_amount_sat q) (iq_fee_sat q))) (\<lambda>_.
           andthen (guarded (an_swap_id a) (persist_reverse x px c cx a sender req q claim_pk h)) (\<lambda>(r, accept).
           accept_and_drive cx a sender accept r)))))"
  have e: "start_reverse x px c cx a sender req s = ?p s" using True by (simp add: start_reverse_def)
  have "post ?p s (starts_or_stops cx a sender s)" by (intro start_steps)
  then show ?thesis unfolding post_def e .
qed (simp add: post_def start_reverse_def starts_or_stops_def)

lemma start_submarine_starts: "post (start_submarine x px c cx a sender req) s (starts_or_stops cx a sender s)"
proof (cases "cx_has_chain cx")
  case True
  have "post (andthen (pass (submarine_terms x px req)) (\<lambda>(invoice, refund_pk).
           andthen (\<lambda>s. let (r, b) = take_valid_quote x (px_pubky px) (an_now a) (sr_quote_id req) sender Submarine (ps_quotes s)
                        in (r, s\<lparr>ps_quotes := b\<rparr>)) (\<lambda>q.
           andthen (reserve_for_swap cx a sender (an_swap_id a) Submarine
                      (exposure_sat Submarine (iq_amount_sat q) (iq_fee_sat q))) (\<lambda>_.
           andthen (guarded (an_swap_id a) (andthen (prepare_submarine x px cx a sender req q invoice refund_pk) (\<lambda>(r, accept).
               andthen (put_step x c (an_put a) (\<lambda>e. Internal (AnyMsg (''cannot start submarine swap ''
                   @ x_uuid_str x (an_swap_id a) @ '': '' @ show_any_error e))) r) (\<lambda>_. pass (Inr (r, accept)))))) (\<lambda>(r, accept).
           accept_and_drive cx a sender accept r))))) s (starts_or_stops cx a sender s)" (is "post ?p s ?Q")
    by (intro start_steps silent_steps)
  moreover have e: "start_submarine x px c cx a sender req s = ?p s" using True by (simp add: start_submarine_def)
  ultimately show ?thesis unfolding post_def e by simp
qed (simp add: post_def start_submarine_def starts_or_stops_def)

end
