(* ===== verification/Admission_Properties.thy ===== *)
theory Admission_Properties
  imports Admission_Replies
begin

text \<open>
  The properties of serving requests, over any sequence of requests and of the writes that running
  drivers and the pruner make between them, and one concrete admission they are shown on.
\<close>

subsection \<open>One admission, run\<close>

definition shop_peer :: string where
  "shop_peer = replicate 52 CHR ''a''"

definition shop_cx :: exec_ctx where
  "shop_cx = \<lparr>cx_account = None, cx_scope = None, cx_has_chain = True, cx_has_wallet = True, cx_network = NetRegtest,
     cx_required_confirmations = 1, cx_timelock = default_params, cx_onchain_fee_rate_sat_vb = 2,
     cx_invoice_expiry_secs = 3600, cx_max_routing_fee_msat = 1000, cx_quote_ttl_secs = 60, cx_access_policy_file = None,
     cx_limits = default_risk_limits, cx_min_onchain_reserve_sat = 0, cx_capable = True\<rparr>"

definition shop_invoice :: decoded_invoice where
  "shop_invoice = \<lparr>di_payment_hash = replicate 32 7, di_amount_msat = 50000000, di_min_final_cltv_expiry = 10,
     di_amount_is_explicit = True, di_expires_at_unix = 1000\<rparr>"

definition shop_answers :: "send_result \<Rightarrow> answers" where
  "shop_answers outcome = \<lparr>an_now = 5, an_instant = 5, an_created = 5, an_updated = 5, an_completed = 6, an_swap_id = 1,
     an_quote_id = 2, an_secret_key = [3], an_tip = Inr 100, an_balance = Inr None, an_lookup = (\<lambda>_. Inr None),
     an_create = (\<lambda>_. Inl (LnBackend ''down'')), an_decode = (\<lambda>_. Inr shop_invoice), an_put = Store.calm,
     an_put_completed = Store.calm, an_send = (\<lambda>m. case m of MsgSwapAccept _ \<Rightarrow> outcome | _ \<Rightarrow> Sent),
     an_policy = Inl [], an_wake_written = True, an_later_dir = id\<rparr>"

definition shop_request :: swap_request where
  "shop_request = \<lparr>sr_script_type = P2wsh, sr_quote_id = 2, sr_client_pkarr = shop_peer, sr_direction = Submarine,
     sr_payment_hash_hex = [], sr_client_claim_pubkey_hex = None, sr_client_refund_pubkey_hex = Some ''r'',
     sr_invoice = Some ''ln'', sr_owner_ref = None\<rparr>"

definition shop_quote :: issued_quote where
  "shop_quote = \<lparr>iq_peer = shop_peer, iq_direction = Submarine, iq_amount_sat = 50000, iq_fee_sat = 500,
     iq_service_fee_sat = 300, iq_onchain_fee_sat = 200, iq_expires_at_unix = 60, iq_claimable_hint = False\<rparr>"

definition shop_swap :: submarine_swap where
  "shop_swap = \<lparr>sb_payment_hash = replicate 32 7, sb_onchain_amount_sat = 50500, sb_fee_rate_sat_vb = 2,
     sb_htlc_script = build_htlc_script sample_ext (replicate 32 7) \<lparr>pk_inner = [3], pk_compressed = True\<rparr>
       \<lparr>pk_inner = sample_bytes ''r'', pk_compressed = True\<rparr> 244,
     sb_htlc_spk = x_address_spk sample_ext (htlc_p2wsh_address sample_ext
       (build_htlc_script sample_ext (replicate 32 7) \<lparr>pk_inner = [3], pk_compressed = True\<rparr>
         \<lparr>pk_inner = sample_bytes ''r'', pk_compressed = True\<rparr> 244) NetRegtest),
     sb_taproot = None, sb_timeout_height = 244, sb_claim_key = [3], sb_invoice = ''ln'', sb_max_routing_fee_msat = 1000,
     sb_timelock = default_params\<rparr>"

definition shop_accept :: swap_accept where
  "shop_accept = submarine_accept sample_ext keyring_px shop_cx (shop_answers Sent) shop_request shop_swap"

definition shop_record :: "unit swap_record" where
  "shop_record = submarine_record sample_ext shop_cx (shop_answers Sent) shop_peer shop_request shop_quote Regtest shop_swap shop_accept"

definition shop_codec :: "unit codec" where
  "shop_codec = table_codec [shop_record]"

definition shop_state :: "unit provider_state" where
  "shop_state = \<lparr>ps_store = [], ps_quotes = \<lparr>qb_quotes = [(2, shop_quote)], qb_order = [2], qb_redeemed = []\<rparr>,
     ps_risk = risk_new, ps_waker = \<lparr>wk_allowlist = [], wk_held = [], wk_file = None, wk_sent = []\<rparr>, ps_log = []\<rparr>"

lemma shop_fields [simp]:
  "cx_account shop_cx = None" "cx_scope shop_cx = None" "cx_has_chain shop_cx" "cx_has_wallet shop_cx"
  "cx_network shop_cx = NetRegtest" "cx_timelock shop_cx = default_params" "cx_onchain_fee_rate_sat_vb shop_cx = 2"
  "cx_max_routing_fee_msat shop_cx = 1000" "cx_access_policy_file shop_cx = None" "cx_limits shop_cx = default_risk_limits" "cx_capable shop_cx"
  "an_now (shop_answers out) = 5" "an_instant (shop_answers out) = 5" "an_swap_id (shop_answers out) = 1"
  "an_secret_key (shop_answers out) = [3]" "an_tip (shop_answers out) = Inr 100" "an_decode (shop_answers out) = (\<lambda>_. Inr shop_invoice)"
  "an_put (shop_answers out) = Store.calm" "an_created (shop_answers out) = 5" "an_updated (shop_answers out) = 5"
  "sr_script_type shop_request = P2wsh" "sr_quote_id shop_request = 2" "sr_direction shop_request = Submarine"
  "sr_client_pkarr shop_request = shop_peer" "sr_owner_ref shop_request = None" "sr_invoice shop_request = Some ''ln''"
  "sr_client_refund_pubkey_hex shop_request = Some ''r''" "iq_amount_sat shop_quote = 50000" "iq_fee_sat shop_quote = 500"
  "iq_peer shop_quote = shop_peer" "iq_direction shop_quote = Submarine" "iq_expires_at_unix shop_quote = 60"
  by (simp_all add: shop_cx_def shop_answers_def shop_request_def shop_quote_def)

lemma shop_sends [simp]:
  "an_send (shop_answers out) (MsgSwapAccept accept) = out" "an_send (shop_answers out) (MsgReject rj) = Sent"
  by (simp_all add: shop_answers_def)

lemma shop_timeout: "timeout_at (shop_answers out) shop_cx = Inr (100, 244)"
  by (simp add: timeout_at_def onchain_timeout_def default_params_def checked_add_def)

lemma for_invoice_ok:
  assumes "di_amount_is_explicit d" "di_amount_msat d mod 1000 = 0" "di_amount_msat d div 1000 = amount"
    and "check_submarine_invoice_cltv tip height (di_min_final_cltv_expiry d) p = Inr ()" and "checked_add amount fee = Some sum_sat"
  shows "submarine_for_invoice x (Inr d) invoice refund_pk key claim_pk amount fee rate limit tip height network p
     = Inr \<lparr>sb_payment_hash = di_payment_hash d, sb_onchain_amount_sat = sum_sat, sb_fee_rate_sat_vb = rate,
            sb_htlc_script = build_htlc_script x (di_payment_hash d) claim_pk refund_pk height,
            sb_htlc_spk = x_address_spk x (htlc_p2wsh_address x (build_htlc_script x (di_payment_hash d) claim_pk refund_pk height) network),
            sb_taproot = None, sb_timeout_height = height, sb_claim_key = key, sb_invoice = invoice,
            sb_max_routing_fee_msat = limit, sb_timelock = p\<rparr>"
  using assms by (simp add: submarine_for_invoice_def Let_def)

lemma shop_for_invoice:
  "submarine_for_invoice sample_ext (Inr shop_invoice) ''ln'' \<lparr>pk_inner = sample_bytes ''r'', pk_compressed = True\<rparr> [3]
     \<lparr>pk_inner = [3], pk_compressed = True\<rparr> 50000 500 2 1000 100 244 NetRegtest default_params = Inr shop_swap"
proof -
  have v: "di_amount_is_explicit shop_invoice" "di_amount_msat shop_invoice = 50000000" "di_min_final_cltv_expiry shop_invoice = 10"
    by (simp_all add: shop_invoice_def)
  have "check_submarine_invoice_cltv 100 244 10 default_params = Inr ()" by code_simp
  moreover have "checked_add (50000 :: u64) 500 = Some 50500" by (simp add: checked_add_def)
  ultimately have f: "di_amount_is_explicit shop_invoice" "di_amount_msat shop_invoice mod 1000 = 0" "di_amount_msat shop_invoice div 1000 = 50000"
    "check_submarine_invoice_cltv 100 244 (di_min_final_cltv_expiry shop_invoice) default_params = Inr ()"
    "checked_add (50000 :: u64) 500 = Some 50500"
    by (simp_all add: v)
  have "di_payment_hash shop_invoice = replicate 32 7" by (simp add: shop_invoice_def)
  with for_invoice_ok [OF f] show ?thesis by (simp add: shop_swap_def)
qed

lemma shop_prepared:
  "prepare_submarine sample_ext keyring_px shop_cx (shop_answers out) shop_peer shop_request shop_quote ''ln''
     \<lparr>pk_inner = sample_bytes ''r'', pk_compressed = True\<rparr> s
   = (Inr (shop_record, shop_accept), log_action (InvoiceDecoded ''ln'') s)"
proof -
  have k: "px_public_key keyring_px [3] = \<lparr>pk_inner = [3], pk_compressed = True\<rparr>" by (simp add: keyring_px_def)
  have t: "sb_taproot shop_swap = None" by (simp add: shop_swap_def)
  have a: "submarine_accept sample_ext keyring_px shop_cx (shop_answers out) shop_request shop_swap = shop_accept"
    by (simp add: shop_accept_def submarine_accept_def)
  have r: "submarine_record sample_ext shop_cx (shop_answers out) shop_peer shop_request shop_quote Regtest shop_swap shop_accept = shop_record"
    by (simp add: shop_record_def submarine_record_def)
  show ?thesis
    by (simp add: prepare_submarine_def andthen_def pass_def shop_timeout submarine_contract_def k shop_for_invoice adopt_contract_def a r Let_def)
qed


lemma shop_reserved: "fst (risk_reserve default_risk_limits 5 shop_peer 1 50500 risk_new) = Inr ()"
  by (simp add: risk_reserve_def reserve_inner_def risk_new_def trimmed_def peer_of_def default_peer_def recent_def
      peer_refusal_def total_refusal_def saturating_add_def Let_def)

lemma shop_quote_taken:
  "fst (take_valid_quote sample_ext f 5 2 shop_peer Submarine \<lparr>qb_quotes = [(2, shop_quote)], qb_order = [2], qb_redeemed = []\<rparr>) = Inr shop_quote"
  by (simp add: take_valid_quote_def quotes_prune_def live_until_def Let_def)

lemma shop_stamp [simp]: "stamp None t shop_record = shop_record"
  by (simp add: stamp_def shop_record_def submarine_record_def new_progress_def opt_or_def)

lemma shop_put:
  "fst (store_put sample_ext shop_codec 9 1 0 NoFault shop_record []) = Inr ()"
  by (simp add: store_put_def persist_record_def shop_codec_def table_codec_def existing_record_def store_get_def lookup_file_def)

lemma shop_allowed: "access_allowed keyring_px parse None policy_bytes None shop_peer"
  using keyring_canonical
  by (simp add: access_allowed_def policy_load_def allows_request_def policy_allows_def default_policy_def shop_peer_def)


definition shop_refusal :: "string \<Rightarrow> swap_message" where
  "shop_refusal e = reject_message None None (Some 2) (refusal_code (Internal (AnyMsg e))) (''swap start failed: '' @ e)"

definition shop_log :: "send_result \<Rightarrow> unit action list" where
  "shop_log out = [InvoiceDecoded ''ln'', Persisted shop_record True, Replied shop_peer (MsgSwapAccept shop_accept) out,
     DriverStarted shop_record]
     @ (case out of SendFailed e \<Rightarrow> [Replied shop_peer (shop_refusal e) Sent] | _ \<Rightarrow> [])"

definition shop_serve :: "send_result \<Rightarrow> (handler_error + unit) \<times> unit provider_state" where
  "shop_serve out = handle_message sample_ext keyring_px (\<lambda>_. None) shop_codec shop_cx (shop_answers out) None shop_peer
     (MsgSwapRequest shop_request) shop_state"

lemma shop_started:
  "ps_log (snd (start_submarine sample_ext keyring_px shop_codec shop_cx (shop_answers out) shop_peer shop_request shop_state))
     = take 4 (shop_log out)"
  "fst (start_submarine sample_ext keyring_px shop_codec shop_cx (shop_answers out) shop_peer shop_request shop_state)
     = (case out of Sent \<Rightarrow> Inr () | MessengerFailed e \<Rightarrow> Inl (ReplyNotSent e) | SendFailed e \<Rightarrow> Inl (Internal (AnyMsg e)))"
proof -
  let ?pk = "\<lparr>pk_inner = sample_bytes ''r'', pk_compressed = True\<rparr>"
  have t: "submarine_terms sample_ext keyring_px shop_request = Inr (''ln'', ?pk)"
    by (simp add: submarine_terms_def parse_pubkey_def sample_ext_def keyring_px_def)
  obtain b where q: "take_valid_quote sample_ext (px_pubky keyring_px) 5 2 shop_peer Submarine (ps_quotes shop_state) = (Inr shop_quote, b)"
    using shop_quote_taken [of "px_pubky keyring_px"] by (simp add: shop_state_def prod_eq_iff)
  have e: "exposure_sat Submarine 50000 500 = 50500" by (simp add: exposure_sat_def saturating_add_def)
  obtain k where k: "risk_reserve default_risk_limits 5 shop_peer 1 50500 (ps_risk shop_state) = (Inr (), k)"
    using shop_reserved by (simp add: shop_state_def prod_eq_iff)
  have r: "reserve_for_swap shop_cx (shop_answers out) shop_peer 1 Submarine 50500 (s\<lparr>ps_risk := ps_risk shop_state\<rparr>)
      = (Inr (), s\<lparr>ps_risk := k\<rparr>)" for s :: "unit provider_state"
    by (simp add: reserve_for_swap_def reserved_then_def k check_funding_balance_def guarded_def Let_def)
  have r': "reserve_for_swap shop_cx (shop_answers out) shop_peer 1 Submarine 50500 (shop_state\<lparr>ps_quotes := b\<rparr>)
      = (Inr (), shop_state\<lparr>ps_quotes := b, ps_risk := k\<rparr>)"
    using r [of "shop_state\<lparr>ps_quotes := b\<rparr>"] by simp
  obtain d where p: "store_put sample_ext shop_codec 9 (Suc 0) 0 NoFault shop_record [] = (Inr (), d)"
    using shop_put by (simp add: prod_eq_iff)
  have c: "Store.calm = \<lparr>at_unix = 9, at_pid = 1, at_seq = 0, at_fault = NoFault\<rparr>" by (simp add: Store.calm_def)
  have st: "ps_store shop_state = []" "ps_log shop_state = []" by (simp_all add: shop_state_def)
  have ex: "existing_record sample_ext shop_codec i [] = None" for i
    by (simp add: existing_record_def store_get_def lookup_file_def)
  have run: "start_submarine sample_ext keyring_px shop_codec shop_cx (shop_answers out) shop_peer shop_request shop_state
      = accept_and_drive shop_cx (shop_answers out) shop_peer shop_accept shop_record
          (shop_state\<lparr>ps_quotes := b, ps_risk := k, ps_store := d, ps_log := [InvoiceDecoded ''ln'', Persisted shop_record True]\<rparr>)"
    by (simp add: start_submarine_def andthen_def pass_def t q e r' guarded_def shop_prepared put_step_def c p st ex log_action_def)
  show "ps_log (snd (start_submarine sample_ext keyring_px shop_codec shop_cx (shop_answers out) shop_peer shop_request shop_state))
     = take 4 (shop_log out)"
    unfolding run by (simp add: accept_and_drive_def respond_def spawn_driver_def log_action_def shop_log_def)
  show "fst (start_submarine sample_ext keyring_px shop_codec shop_cx (shop_answers out) shop_peer shop_request shop_state)
     = (case out of Sent \<Rightarrow> Inr () | MessengerFailed e \<Rightarrow> Inl (ReplyNotSent e) | SendFailed e \<Rightarrow> Inl (Internal (AnyMsg e)))"
    unfolding run by (simp add: accept_and_drive_def respond_def Let_def)
qed

lemma shop_served:
  "ps_log (snd (shop_serve out)) = shop_log out"
  "fst (shop_serve out) = (case out of MessengerFailed e \<Rightarrow> Inl (ReplyNotSent e) | _ \<Rightarrow> Inr ())"
proof -
  have p: "check_client_pkarr keyring_px shop_peer shop_peer = Inr ()" by (simp add: check_client_pkarr_def)
  have a: "authorization shop_cx = None" by (simp add: authorization_def)
  have rep: "replay_record keyring_px shop_codec [] shop_peer None shop_request = Inr None" by (simp add: replay_record_def)
  have st: "ps_store shop_state = []" by (simp add: shop_state_def)
  have serve: "shop_serve out = start_swap sample_ext keyring_px shop_codec shop_cx (shop_answers out) shop_peer shop_request shop_state"
    by (simp add: shop_serve_def answer_swap_def p shop_allowed a rep st Let_def)
  obtain res s where r: "start_submarine sample_ext keyring_px shop_codec shop_cx (shop_answers out) shop_peer shop_request shop_state = (res, s)"
    by fastforce
  have l: "ps_log s = [InvoiceDecoded ''ln'', Persisted shop_record True, Replied shop_peer (MsgSwapAccept shop_accept) out, DriverStarted shop_record]"
    using shop_started(1) [of out] by (simp only: r snd_conv) (simp add: shop_log_def)
  have f: "res = (case out of Sent \<Rightarrow> Inr () | MessengerFailed e \<Rightarrow> Inl (ReplyNotSent e) | SendFailed e \<Rightarrow> Inl (Internal (AnyMsg e)))"
    using shop_started(2) [of out] by (simp only: r fst_conv)
  have "ps_log (snd (shop_serve out)) = shop_log out
     \<and> fst (shop_serve out) = (case out of MessengerFailed e \<Rightarrow> Inl (ReplyNotSent e) | _ \<Rightarrow> Inr ())"
  proof (cases out)
    case (SendFailed e)
    have "shop_serve out = reject_with (shop_answers out) shop_peer None None (Some 2) (refusal_code (Internal (AnyMsg e))) (''swap start failed: '' @ e) s"
      unfolding serve start_swap_def using f SendFailed r by (simp add: is_reply_not_sent_def)
    then show ?thesis
      using l SendFailed by (simp add: shop_log_def shop_refusal_def reject_with_def respond_def log_action_def reject_message_def Let_def)
  qed (use f l r serve in \<open>simp_all add: start_swap_def is_reply_not_sent_def shop_log_def\<close>)
  then show "ps_log (snd (shop_serve out)) = shop_log out" "fst (shop_serve out) = (case out of MessengerFailed e \<Rightarrow> Inl (ReplyNotSent e) | _ \<Rightarrow> Inr ())"
    by simp_all
qed


lemma shop_setting:
  "sound_setting sample_ext shop_codec" "in_order sample_ext shop_codec (ps_store shop_state)"
  "one_each sample_ext (records_in shop_codec shop_state)" "fresh_ids shop_codec shop_state (shop_answers out)"
  "uncommitted shop_codec shop_state (shop_answers out)"
proof -
  have "codec_ok sample_ext shop_codec" by (simp add: shop_codec_def table_codec_ok)
  moreover have "x_hex_decode sample_ext (x_hex_encode sample_ext b) = Inr b" for b
    using sample_reads_back by (simp add: reads_back_def)
  moreover have "x_uuid_str sample_ext i \<noteq> []" for i
    by (simp add: sample_ext_def show_u_def show_nat_digits)
  ultimately show "sound_setting sample_ext shop_codec" by (simp add: sound_setting_def named_codec_def)
qed (simp_all add: shop_state_def in_order_def unique_names_def one_each_def fresh_ids_def uncommitted_def held_def claiming_def risk_new_def load_all_def)

subsection \<open>One request\<close>

text \<open>C14: Every action a request causes rests on what is on disk at that moment: a hold invoice is created
  only for an intent that was written and checked before, an acceptance goes out only to the peer of a
  swap whose completed record is on disk, a driver starts only for such a record and only if it has
  none, and the only writes are of the request's own new swap, whose quote and payment hash no other
  record has, or to admit one that was pending.\<close>

theorem requests_are_served_lawfully:
  assumes "sound_setting x c" and "in_order x c (ps_store s)" and "one_each x (records_in c s)" and "fresh_ids c s a"
  shows "\<exists>l. ps_log (snd (handle_message x px pp c cx a offer sender m s)) = ps_log s @ l
     \<and> lawful x px (an_swap_id a) (records_in c s) (undriven (ps_log s)) l"
  using handle_tracks [OF assms(1) tracks_refl [OF assms(2,3)] assms(4)] unfolding tracks_def by blast

theorem requests_are_served_lawfully_witness:
  "\<exists>l. ps_log (snd (shop_serve Sent)) = ps_log shop_state @ l
     \<and> lawful sample_ext keyring_px (an_swap_id (shop_answers Sent)) (records_in shop_codec shop_state) (undriven (ps_log shop_state)) l"
  unfolding shop_serve_def by (rule requests_are_served_lawfully [OF shop_setting(1-4)])

text \<open>C17: Capital follows the drivers: after a request the swaps that hold a reservation are those that held
  one before and those whose driver the request started, whatever failed in between, and no claim on
  the wallet's balance is left behind by a swap that did not start.\<close>

theorem capital_follows_the_drivers:
  assumes "sound_setting x c" and "in_order x c (ps_store s)" and "one_each x (records_in c s)" and "fresh_ids c s a"
    and "uncommitted c s a"
  shows "\<exists>l. ps_log (snd (handle_message x px pp c cx a offer sender m s)) = ps_log s @ l
     \<and> held (snd (handle_message x px pp c cx a offer sender m s)) = held s \<union> set (started l)
     \<and> claiming (snd (handle_message x px pp c cx a offer sender m s)) \<subseteq> claiming s \<union> set (started l)"
  using handle_balanced [OF assms(1) tracks_refl [OF assms(2,3)] assms(4,5)] unfolding balanced_def by blast

theorem capital_follows_the_drivers_witness:
  "held (snd (shop_serve Sent)) = {1}"
proof -
  from capital_follows_the_drivers [OF shop_setting]
  obtain l where l: "ps_log (snd (shop_serve Sent)) = ps_log shop_state @ l" "held (snd (shop_serve Sent)) = held shop_state \<union> set (started l)"
    unfolding shop_serve_def by blast
  have "r_swap_id shop_record = 1" by (simp add: shop_record_def submarine_record_def)
  moreover have "l = shop_log Sent" using l(1) shop_served(1) [of Sent] by (simp add: shop_state_def)
  ultimately have "started l = [1]" by (simp add: shop_log_def)
  with l show ?thesis by (simp add: shop_state_def held_def risk_new_def)
qed


subsection \<open>What the sender hears\<close>

definition answerable :: "swap_message \<Rightarrow> bool" where
  "answerable m \<longleftrightarrow> (case m of MsgOfferRequest _ \<Rightarrow> True | MsgSwapStatusRequest _ \<Rightarrow> True | MsgSwapListRequest _ \<Rightarrow> True
     | MsgSwapWakeCapability _ \<Rightarrow> True | MsgQuoteRequest _ \<Rightarrow> True | MsgSwapRequest _ \<Rightarrow> True | _ \<Rightarrow> False)"

definition answered :: "string \<Rightarrow> 'c provider_state \<Rightarrow> 'c provider_state \<Rightarrow> bool" where
  "answered peer s s' \<longleftrightarrow> (\<exists>l m. ps_log s' = ps_log s @ l \<and> (peer, m, Sent) \<in> set (replies l))"

lemma answered_respond: "fst (respond a peer m s) = Inr () \<Longrightarrow> answered peer s (snd (respond a peer m s))"
  by (auto simp: respond_def Let_def answered_def log_action_def split: send_result.splits)

lemma answered_reject: "fst (reject_with a peer i j k code reason s) = Inr () \<Longrightarrow> answered peer s (snd (reject_with a peer i j k code reason s))"
  by (simp add: reject_with_def answered_respond)

lemma answered_later:
  assumes "answered peer s' s''" and "ps_log s' = ps_log s @ l"
  shows "answered peer s s''"
proof -
  from assms obtain l' m where "ps_log s'' = ps_log s @ (l @ l')" "(peer, m, Sent) \<in> set (replies l')"
    by (auto simp: answered_def)
  then show ?thesis unfolding answered_def by (intro exI [of _ "l @ l'"]) auto
qed

lemma answered_update [simp]: "answered peer (s\<lparr>ps_waker := w\<rparr>) s' = answered peer s s'" "answered peer (s\<lparr>ps_quotes := b\<rparr>) s' = answered peer s s'"
  by (simp_all add: answered_def)

lemma spawn_log: "\<exists>l. ps_log (spawn_driver cx r s) = ps_log s @ l"
  by (simp add: spawn_driver_def log_action_def)

lemma accept_answered:
  assumes "accept_and_drive cx a peer accept r s = (Inr (), s')"
  shows "answered peer s s'"
proof -
  have r: "fst (respond a peer (MsgSwapAccept accept) s) = Inr ()" and s': "s' = spawn_driver cx r (snd (respond a peer (MsgSwapAccept accept) s))"
    using assms by (auto simp: accept_and_drive_def split: prod.splits)
  from answered_respond [OF r] obtain l m where l: "ps_log (snd (respond a peer (MsgSwapAccept accept) s)) = ps_log s @ l"
    "(peer, m, Sent) \<in> set (replies l)" by (auto simp: answered_def)
  obtain l' where "ps_log s' = (ps_log s @ l) @ l'" using spawn_log [of cx r] l(1) s' by metis
  with l(2) show ?thesis unfolding answered_def by (intro exI [of _ "l @ l'"]) auto
qed

lemma start_answered:
  assumes "starts_or_stops cx a peer s (Inr ()) s'"
  shows "answered peer s s'"
  using assms accept_answered answered_later unfolding starts_or_stops_def silent_def by (metis is_ok_simps(2))

lemma starts_log:
  assumes "starts_or_stops cx a peer s res s'"
  shows "\<exists>l. ps_log s' = ps_log s @ l"
proof -
  have "\<exists>l. ps_log (snd (accept_and_drive cx a peer accept r s1)) = ps_log s1 @ l" for accept r s1
    by (simp add: accept_and_drive_def respond_def spawn_driver_def log_action_def Let_def)
  with assms show ?thesis unfolding starts_or_stops_def silent_def by (metis append_assoc snd_conv)
qed

lemma start_swap_answered:
  assumes "start_swap x px c cx a sender req s = (Inr (), s')"
  shows "answered sender s s'"
proof -
  obtain res s1 where p: "(case sr_direction req of Reverse \<Rightarrow> start_reverse x px c cx a sender req s
      | Submarine \<Rightarrow> start_submarine x px c cx a sender req s) = (res, s1)" by fastforce
  then have k: "starts_or_stops cx a sender s res s1"
    using postD [OF start_reverse_starts [of x px c cx a sender req s]] postD [OF start_submarine_starts [of x px c cx a sender req s]]
    by (auto split: swap_direction.splits)
  show ?thesis
  proof (cases res)
    case (Inr u)
    with assms p k start_answered show ?thesis by (auto simp: start_swap_def)
  next
    case (Inl e)
    with assms p have "(Inr (), s') = reject_with a sender None None (Some (sr_quote_id req)) (refusal_code e)
        (''swap start failed: '' @ show_handler_error e) s1"
      by (auto simp: start_swap_def split: if_splits)
    with answered_reject have "answered sender s1 s'" by (metis fst_conv snd_conv)
    with starts_log [OF k] answered_later show ?thesis by blast
  qed
qed


lemma resume_admission_log: "\<exists>l. ps_log (snd (resume_admission x px c cx a r s)) = ps_log s @ l"
proof -
  have rec: "post (recover_pending_admission x px c cx a i) s (\<lambda>res s'. silent s s')" for i
  proof -
    let ?p = "andthen (pass (try_bind (map_err Internal (store_get x c i (ps_store s)))
         (ok_or (Internal (AnyMsg ''the persisted admission is no longer in the store''))))) (\<lambda>r.
       if r_pending_hold_invoice r = None then pass (Inr (r, False))
       else andthen (reserve_pending_swap cx a r) (\<lambda>_.
          guarded (r_swap_id r) (andthen (complete_invoice_intent x px c a i True) (\<lambda>completed.
            pass (Inr (completed, True))))))"
    have e: "recover_pending_admission x px c cx a i s = ?p s" by (simp add: recover_pending_admission_def)
    have res: "post (reserve_pending_swap cx a r) s (\<lambda>res s'. silent s s')" for r :: "'a swap_record" and s
      unfolding reserve_pending_swap_def by (rule post_mono [OF reserve_quiet quiet_silent])
    have cond: "post (if b then p else q) s Q" if "post p s Q" "post q s Q" for b p q s and Q :: "handler_error + 'a swap_record \<times> bool \<Rightarrow> 'a provider_state \<Rightarrow> bool"
      using that by simp
    have "post ?p s (\<lambda>res s'. silent s s')" by (intro silent_steps cond res complete_silent)
    then show ?thesis unfolding post_def e .
  qed
  obtain res s1 where p: "recover_pending_admission x px c cx a (r_swap_id r) s = (res, s1)" by fastforce
  from postD [OF rec p] obtain l where l: "ps_log s1 = ps_log s @ l" by (auto simp: silent_def)
  show ?thesis
  proof (cases res)
    case (Inl e)
    with p l show ?thesis by (auto simp: resume_admission_def andthen_def pass_def)
  next
    case (Inr qm)
    obtain q mine where "qm = (q, mine)" by fastforce
    with p l Inr spawn_log [of cx q s1] show ?thesis
      by (auto simp: resume_admission_def andthen_def pass_def guarded_def split: sum.split)
  qed
qed

definition heard :: "string \<Rightarrow> 'c provider_state \<Rightarrow> (handler_error + unit) \<times> 'c provider_state \<Rightarrow> bool" where
  "heard peer s rs \<longleftrightarrow> (fst rs = Inr () \<longrightarrow> answered peer s (snd rs))"

lemma heard_reject [simp]: "heard peer s (reject_with a peer i j k code reason s)"
  and heard_respond [simp]: "heard peer s (respond a peer m s)"
  and heard_respond_quotes [simp]: "heard peer s (respond a peer m (s\<lparr>ps_quotes := b\<rparr>))"
  and heard_respond_waker [simp]: "heard peer s (respond a peer m (s\<lparr>ps_waker := w\<rparr>))"
  and heard_reject_waker [simp]: "heard peer s (reject_with a peer i j k code reason (s\<lparr>ps_waker := w\<rparr>))"
  using answered_reject [of a peer i j k code reason s] answered_respond [of a peer m s]
    answered_respond [of a peer m "s\<lparr>ps_quotes := b\<rparr>"] answered_respond [of a peer m "s\<lparr>ps_waker := w\<rparr>"]
    answered_reject [of a peer i j k code reason "s\<lparr>ps_waker := w\<rparr>"]
  by (simp_all add: heard_def)

lemma heard_start [simp]: "heard sender s (start_swap x px c cx a sender req s)"
  unfolding heard_def using start_swap_answered [of x px c cx a sender req s] by (simp add: prod_eq_iff)

lemma heard_replay [simp]: "heard sender s (replay_swap x px c cx a sender req r s)"
proof -
  obtain res s1 where p: "resume_admission x px c cx a r s = (res, s1)" by fastforce
  with resume_admission_log [of x px c cx a r s] obtain l where l: "ps_log s1 = ps_log s @ l" by auto
  have "heard sender s1 (replay_swap x px c cx a sender req r s)"
    using p by (simp add: replay_swap_def split: sum.split option.split) (simp add: heard_def)
  with l answered_later show ?thesis unfolding heard_def by blast
qed

lemma handle_heard:
  assumes "answerable m"
  shows "heard sender s (handle_message x px pp c cx a offer sender m s)"
proof (cases m)
  case (MsgSwapRequest req)
  then show ?thesis by (simp add: answer_swap_def Let_def split: sum.split option.split)
next
  case (MsgQuoteRequest req)
  then show ?thesis by (simp add: answer_quote_def Let_def split: sum.split prod.split)
qed (use assms in \<open>simp_all add: answerable_def answer_or_reject_def case_prod_beta Let_def split: option.split sum.split\<close>)

text \<open>C18: A request is acknowledged (the handler returns without an error, and the inbox drops it) only once
  a reply to its sender has actually gone out.\<close>

theorem acknowledged_only_when_answered:
  assumes "answerable m" and "fst (handle_message x px pp c cx a offer sender m s) = Inr ()"
  shows "\<exists>l reply. ps_log (snd (handle_message x px pp c cx a offer sender m s)) = ps_log s @ l
     \<and> (sender, reply, Sent) \<in> set (replies l)"
  using handle_heard [OF assms(1), of sender s x px pp c cx a offer] assms(2) by (simp add: heard_def answered_def)

theorem acknowledged_only_when_answered_witness:
  "\<exists>l reply. ps_log (snd (shop_serve Sent)) = ps_log shop_state @ l \<and> (shop_peer, reply, Sent) \<in> set (replies l)"
  unfolding shop_serve_def
  by (rule acknowledged_only_when_answered [where pp = "\<lambda>_. None"])
    (use shop_served(2) [of Sent] in \<open>simp_all add: answerable_def shop_serve_def\<close>)


subsection \<open>Refused after all\<close>

lemma reject_spoken:
  "ps_log (snd (reject_with a peer i j k code reason s)) = ps_log s @ [Replied peer (reject_message i j k code reason)
     (an_send a (reject_message i j k code reason))]"
  by (simp add: reject_with_def respond_def log_action_def Let_def)

lemma start_swap_spoken:
  "\<exists>l. ps_log (snd (start_swap x px c cx a sender req s)) = ps_log s @ l
     \<and> (started l \<noteq> [] \<longrightarrow> (\<exists>accept out rest. replies l = (sender, MsgSwapAccept accept, out) # rest
          \<and> (case out of SendFailed _ \<Rightarrow> \<exists>rj out'. rest = [(sender, MsgReject rj, out')] | _ \<Rightarrow> rest = [])))"
proof -
  obtain res s1 where p: "(case sr_direction req of Reverse \<Rightarrow> start_reverse x px c cx a sender req s
      | Submarine \<Rightarrow> start_submarine x px c cx a sender req s) = (res, s1)" by fastforce
  then have k: "starts_or_stops cx a sender s res s1"
    using postD [OF start_reverse_starts [of x px c cx a sender req s]] postD [OF start_submarine_starts [of x px c cx a sender req s]]
    by (auto split: swap_direction.splits)
  show ?thesis
  proof (cases "silent s s1 \<and> \<not> is_ok res")
    case True
    then show ?thesis using p by (auto simp: start_swap_def silent_def reject_spoken split: sum.splits)
  next
    case False
    then obtain s0 r accept where s0: "silent s s0" "(res, s1) = accept_and_drive cx a sender accept r s0"
      using k by (auto simp: starts_or_stops_def)
    let ?out = "an_send a (MsgSwapAccept accept)"
    from s0(1) obtain l where l: "ps_log s0 = ps_log s @ l" "started l = []" "replies l = []" by (auto simp: silent_def)
    from s0(2) l obtain m where m: "ps_log s1 = ps_log s @ (l @ Replied sender (MsgSwapAccept accept) ?out # m)" "replies m = []"
      and res: "res = (case ?out of Sent \<Rightarrow> Inr () | MessengerFailed e \<Rightarrow> Inl (ReplyNotSent e) | SendFailed e \<Rightarrow> Inl (Internal (AnyMsg e)))"
      by (auto simp: accept_and_drive_def respond_def spawn_driver_def log_action_def Let_def split: if_splits)
    show ?thesis
    proof (cases ?out)
      case (SendFailed e)
      with p res m l show ?thesis
        by (auto simp: start_swap_def is_reply_not_sent_def reject_spoken reject_message_def
            intro!: exI [of _ "l @ Replied sender (MsgSwapAccept accept) ?out # m @ _"])
    qed (use p res m l in \<open>auto simp: start_swap_def is_reply_not_sent_def\<close>)
  qed
qed



end
