(* ===== verification/Admission_Runs.thy ===== *)
theory Admission_Runs
  imports Admission_Properties
begin

text \<open>
  Any sequence of requests, with what running drivers and the pruner do to the directory in between:
  the step relation \<open>provider_run\<close>, and what stays true along it.
\<close>

fun mentioned :: "'c action list \<Rightarrow> uuid set" where
  "mentioned [] = {}"
| "mentioned (Persisted r ok # l) = insert (r_swap_id r) (mentioned l)"
| "mentioned (DriverStarted r # l) = insert (r_swap_id r) (mentioned l)"
| "mentioned (a # l) = mentioned l"

lemma mentioned_append [simp]: "mentioned (l @ l') = mentioned l \<union> mentioned l'"
  by (induction l rule: mentioned.induct) auto

text \<open>Drivers update the records they run and the pruner removes settled ones: no record is new, none
  becomes another swap's, and none that was admitted goes back to waiting.\<close>

definition background :: "ext \<Rightarrow> 'c codec \<Rightarrow> dir \<Rightarrow> dir \<Rightarrow> bool" where
  "background x c d d' \<longleftrightarrow> in_order x c d' \<and> (\<forall>r'\<in>set (load_all c d'). \<exists>r\<in>set (load_all c d).
     r_swap_id r = r_swap_id r' \<and> identity r = identity r' \<and> (admitted r \<longrightarrow> admitted r'))"

inductive provider_run ::
  "ext \<Rightarrow> provider_ext \<Rightarrow> 'c codec \<Rightarrow> 'c provider_state \<Rightarrow> 'c provider_state \<Rightarrow> bool"
  for x :: ext and px :: provider_ext and c :: "'c codec" and s0 :: "'c provider_state" where
  opened: "provider_run x px c s0 s0"
| served: "provider_run x px c s0 s \<Longrightarrow> fresh_ids c s a \<Longrightarrow> an_swap_id a \<notin> mentioned (ps_log s)
     \<Longrightarrow> provider_run x px c s0 (snd (handle_message x px pp c cx a offer sender m s))"
| elsewhere: "provider_run x px c s0 s \<Longrightarrow> background x c (ps_store s) d
     \<Longrightarrow> provider_run x px c s0 (s\<lparr>ps_store := d, ps_risk := k, ps_quotes := b, ps_waker := w\<rparr>)"

lemma one_each_background:
  fixes K K' :: "'c swap_record set"
  assumes "one_each x K" and "\<And>r'. r' \<in> K' \<Longrightarrow> \<exists>r\<in>K. r_swap_id r = r_swap_id r' \<and> identity r = identity r'"
  shows "one_each x K'"
  unfolding one_each_def
proof (intro ballI impI)
  fix r r' assume r: "r \<in> K'" "r' \<in> K'" "r_swap_id r \<noteq> r_swap_id r'"
  from assms(2) [OF r(1)] assms(2) [OF r(2)] obtain q q' where
    q: "q \<in> K" "r_swap_id q = r_swap_id r" "identity q = identity r" "q' \<in> K" "r_swap_id q' = r_swap_id r'" "identity q' = identity r'"
    by blast
  with assms(1) r have "\<not> same_quote q q' \<and> \<not> same_hash x q q'" unfolding one_each_def by metis
  then show "\<not> same_quote r r' \<and> \<not> same_hash x r r'"
    using same_quote_identity [OF q(6)] same_hash_identity [OF q(6)] same_quote_sym same_hash_sym
      same_quote_identity [OF q(3)] same_hash_identity [OF q(3)] by metis
qed

lemma run_in_order:
  assumes "provider_run x px c s0 s" and st: "sound_setting x c" and "in_order x c (ps_store s0)" and "one_each x (records_in c s0)"
  shows "in_order x c (ps_store s) \<and> one_each x (records_in c s)"
  using assms(1,3,4)
proof induction
  case (served s a pp cx offer sender m)
  then have "tracks x px (an_swap_id a) c s (snd (handle_message x px pp c cx a offer sender m s))"
    by (intro handle_tracks [OF st tracks_refl]) auto
  then show ?case by (simp add: tracks_order tracks_one_each)
next
  case (elsewhere s d k b w)
  have bg: "\<exists>r\<in>records_in c s. r_swap_id r = r_swap_id r' \<and> identity r = identity r'" if "r' \<in> set (load_all c d)" for r'
    using elsewhere(2) that unfolding background_def by blast
  have "one_each x (set (load_all c d))"
    using elsewhere.IH [OF elsewhere.prems] by (blast intro: one_each_background [OF _ bg])
  moreover have "in_order x c d" using elsewhere(2) by (simp add: background_def)
  ultimately show ?case by simp
qed auto

text \<open>The drivers started so far, the swaps waiting for one, and the records on disk.\<close>

definition accounts_for :: "uuid \<Rightarrow> 'c swap_record set \<Rightarrow> uuid set \<Rightarrow> uuid list \<Rightarrow> bool" where
  "accounts_for new K F S \<longleftrightarrow> distinct S \<and> set S \<inter> F = {} \<and> (\<forall>r\<in>K. r_swap_id r \<in> set S \<union> F \<longrightarrow> admitted r)
     \<and> (new \<in> set S \<union> F \<longrightarrow> new \<in> r_swap_id ` K)"

lemma accounts_step:
  assumes "accounts_for new K F S" and "allowed_now x px new K F a"
  shows "accounts_for new (known_after K a) (undriven_after F a) (S @ started [a])"
proof (cases a)
  case (Persisted r ok)
  show ?thesis
  proof (cases ok)
    case True
    have n: "r_swap_id r \<notin> set S \<union> F"
    proof
      assume i: "r_swap_id r \<in> set S \<union> F"
      then have "r_swap_id r \<in> r_swap_id ` K"
        using assms Persisted by (auto simp: accounts_for_def)
      then obtain r' where "r' \<in> K" "r_swap_id r' = r_swap_id r" by force
      with i assms Persisted show False by (fastforce simp: accounts_for_def may_write_def)
    qed
    with assms Persisted True show ?thesis by (auto simp: accounts_for_def)
  qed (use assms Persisted in simp)
next
  case (DriverStarted r)
  with assms(2) obtain r' where "r' \<in> K" "r_swap_id r' = r_swap_id r" "r_swap_id r \<in> F" using core_fields(1) by fastforce
  then have "r_swap_id r \<in> r_swap_id ` K" by (metis imageI)
  with assms DriverStarted \<open>r_swap_id r \<in> F\<close> show ?thesis unfolding accounts_for_def by simp blast
qed (use assms in \<open>auto simp: accounts_for_def\<close>)

lemma accounts_run:
  assumes "accounts_for new K F S" and "lawful x px new K F l"
  shows "accounts_for new (fold (\<lambda>a K. known_after K a) l K) (fold (\<lambda>a F. undriven_after F a) l F) (S @ started l)"
  using assms
proof (induction l arbitrary: K F S)
  case (Cons a l)
  then have "accounts_for new (known_after K a) (undriven_after F a) (S @ started [a])"
    by (intro accounts_step) auto
  with Cons.IH [OF this] Cons.prems show ?case by (simp flip: started_append)
qed simp

lemma undriven_mentioned: "undriven l \<subseteq> mentioned l" and started_mentioned: "set (started l) \<subseteq> mentioned l"
proof -
  have "fold (\<lambda>a F. undriven_after F a) l F \<subseteq> F \<union> mentioned l" for F
  proof (induction l arbitrary: F)
    case (Cons a l)
    have "undriven_after F a \<subseteq> F \<union> mentioned [a]" by (cases "(F, a)" rule: undriven_after.cases) auto
    with Cons [of "undriven_after F a"] show ?case using mentioned_append [of "[a]" l] by auto
  qed simp
  from this [of "{}"] show "undriven l \<subseteq> mentioned l" by (simp add: undriven_def)
  show "set (started l) \<subseteq> mentioned l" by (induction l rule: started.induct) auto
qed

definition driven_once :: "'c codec \<Rightarrow> 'c provider_state \<Rightarrow> bool" where
  "driven_once c s \<longleftrightarrow> distinct (started (ps_log s)) \<and> set (started (ps_log s)) \<inter> undriven (ps_log s) = {}
     \<and> (\<forall>r\<in>records_in c s. r_swap_id r \<in> set (started (ps_log s)) \<union> undriven (ps_log s) \<longrightarrow> admitted r)"

lemma run_driven_once:
  assumes "provider_run x px c s0 s" and st: "sound_setting x c" and "in_order x c (ps_store s0)" and "one_each x (records_in c s0)"
    and "ps_log s0 = []"
  shows "driven_once c s"
  using assms(1)
proof induction
  case opened
  show ?case by (simp add: driven_once_def assms(5) undriven_def)
next
  case (served s a pp cx offer sender m)
  let ?s = "snd (handle_message x px pp c cx a offer sender m s)"
  have "tracks x px (an_swap_id a) c s ?s"
    using run_in_order [OF served(1) st assms(3,4)] served(2) by (intro handle_tracks [OF st tracks_refl]) auto
  then obtain l where l: "ps_log ?s = ps_log s @ l" "lawful x px (an_swap_id a) (records_in c s) (undriven (ps_log s)) l"
    "records_in c ?s = fold (\<lambda>a K. known_after K a) l (records_in c s)" by (auto simp: tracks_def)
  have "accounts_for (an_swap_id a) (records_in c s) (undriven (ps_log s)) (started (ps_log s))"
    using served(3,4) undriven_mentioned [of "ps_log s"] started_mentioned [of "ps_log s"]
    by (auto simp: accounts_for_def driven_once_def)
  from accounts_run [OF this l(2)] show ?case
    using l by (simp add: driven_once_def accounts_for_def undriven_append)
next
  case (elsewhere s d k b w)
  then show ?case by (fastforce simp: driven_once_def background_def)
qed


text \<open>C15: Over any run of the provider (requests from anybody in any order, whatever the node, the chain,
  the wallet, the disk and the messenger answer, with drivers and the pruner writing in between), no
  two swaps on disk redeem the same quote, and no two reverse swaps have the same payment hash.\<close>

theorem a_quote_buys_one_swap:
  assumes "provider_run x px c s0 s" and "sound_setting x c" and "in_order x c (ps_store s0)" and "one_each x (records_in c s0)"
    and "r \<in> set (load_all c (ps_store s))" and "r' \<in> set (load_all c (ps_store s))"
    and "same_quote r r' \<or> same_hash x r r'"
  shows "r = r'"
  using run_in_order [OF assms(1-4)] assms(5-7) same_id_same_record [of x c "ps_store s" r r']
  unfolding one_each_def by blast

lemma shop_ran: "provider_run sample_ext keyring_px shop_codec shop_state (snd (shop_serve Sent))"
  unfolding shop_serve_def
  by (rule served [OF opened shop_setting(4)]) (simp add: shop_state_def)

lemma shop_on_disk: "set (load_all shop_codec (ps_store (snd (shop_serve Sent)))) = {shop_record}"
proof -
  have "tracks sample_ext keyring_px (an_swap_id (shop_answers Sent)) shop_codec shop_state (snd (shop_serve Sent))"
    unfolding shop_serve_def by (rule handle_tracks [OF shop_setting(1) tracks_refl [OF shop_setting(2,3)] shop_setting(4)])
  then obtain l where l: "ps_log (snd (shop_serve Sent)) = ps_log shop_state @ l"
    "records_in shop_codec (snd (shop_serve Sent)) = fold (\<lambda>a K. known_after K a) l (records_in shop_codec shop_state)"
    by (auto simp: tracks_def)
  moreover from l(1) have "l = shop_log Sent" using shop_served(1) [of Sent] by (simp add: shop_state_def)
  ultimately show ?thesis by (simp add: shop_log_def shop_state_def load_all_def)
qed

theorem a_quote_buys_one_swap_witness:
  "\<exists>r r'. r \<in> set (load_all shop_codec (ps_store (snd (shop_serve Sent)))) \<and> r' \<in> set (load_all shop_codec (ps_store (snd (shop_serve Sent))))
     \<and> (same_quote r r' \<or> same_hash sample_ext r r') \<and> r = r'"
proof -
  have m: "shop_record \<in> set (load_all shop_codec (ps_store (snd (shop_serve Sent))))" by (simp add: shop_on_disk)
  have q: "same_quote shop_record shop_record \<or> same_hash sample_ext shop_record shop_record"
    by (simp add: same_quote_def shop_record_def submarine_record_def)
  from a_quote_buys_one_swap [OF shop_ran shop_setting(1-3) m m q] m q show ?thesis by blast
qed

text \<open>C16: Over any run, a swap gets at most one driver, so nothing the requester repeats, reorders or sends in
  parallel makes the provider fund or pay one swap twice.\<close>

theorem a_swap_is_driven_once:
  assumes "provider_run x px c s0 s" and "sound_setting x c" and "in_order x c (ps_store s0)" and "one_each x (records_in c s0)"
    and "ps_log s0 = []"
  shows "distinct (started (ps_log s))"
  using run_driven_once [OF assms] by (simp add: driven_once_def)

theorem a_swap_is_driven_once_witness:
  "distinct (started (ps_log (snd (shop_serve Sent)))) \<and> started (ps_log (snd (shop_serve Sent))) = [1]"
proof -
  have "r_swap_id shop_record = 1" by (simp add: shop_record_def submarine_record_def)
  then have "started (ps_log (snd (shop_serve Sent))) = [1]" by (simp add: shop_served shop_log_def)
  with a_swap_is_driven_once [OF shop_ran shop_setting(1-3)] show ?thesis by (simp add: shop_state_def)
qed

end
