(* ===== verification/Secrets.thy ===== *)
theory Secrets
  imports Identity
begin

text \<open>
  Secrets in the configuration: \<open>swap-config/src/secret.rs\<close> and the secret sources, the identity and
  the redaction of configuration errors of \<open>swap-config/src/lib.rs\<close>. Reading a file is a parameter; the
  layering itself is figment's, of which only the errors it raises are seen here, with the values they
  carry as a type of their own. Text is trimmed as ASCII.
\<close>

subsection \<open>A secret\<close>

datatype secret = Secret (expose: string)

definition secret_is_empty :: "secret \<Rightarrow> bool" where
  "secret_is_empty s \<longleftrightarrow> expose s = []"

definition debug_secret :: "secret \<Rightarrow> string" where
  "debug_secret s = (if expose s = [] then ''Secret(empty)'' else ''Secret(<redacted>)'')"

definition show_secret :: "secret \<Rightarrow> string" where
  "show_secret s = (if expose s = [] then [] else ''<redacted>'')"

definition serialize_secret :: "secret \<Rightarrow> string" where
  "serialize_secret s = (if expose s = [] then [] else ''<redacted>'')"

subsection \<open>Where a secret comes from\<close>

record secret_source =
  ss_value :: secret
  ss_file :: string

definition is_configured :: "secret_source \<Rightarrow> bool" where
  "is_configured src \<longleftrightarrow> \<not> secret_is_empty (ss_value src) \<or> ss_file src \<noteq> []"

definition first_line :: "string \<Rightarrow> string" where
  "first_line raw = trim_white (takeWhile (\<lambda>ch. ch \<noteq> CHR 0x0A) raw)"

text \<open>\<open>read\<close> is the file system: the text of a file, or why it could not be read.\<close>

definition resolve_secret :: "(string \<Rightarrow> string + string) \<Rightarrow> secret_source \<Rightarrow> string \<Rightarrow> string + secret option" where
  "resolve_secret read src what =
     (if \<not> secret_is_empty (ss_value src) then Inr (Some (ss_value src))
      else if ss_file src = [] then Inr None
      else try_bind (map_err (\<lambda>_. ''read '' @ what @ '' from '' @ ss_file src) (read (ss_file src))) (\<lambda>raw.
        let trimmed = first_line raw
        in if trimmed = [] then Inl (ss_file src @ '' is empty, so there is no '' @ what @ '' to read'')
           else Inr (Some (Secret trimmed))))"

record pubky_identity =
  id_method :: string
  id_value :: string
  id_passphrase :: string

definition resolve_identity ::
  "(string \<Rightarrow> string + string) \<Rightarrow> string \<Rightarrow> secret_source \<Rightarrow> secret_source \<Rightarrow> string + pubky_identity" where
  "resolve_identity read recovery_file recovery_phrase passphrase =
     try_bind (resolve_secret read recovery_phrase ''the recovery phrase'') (\<lambda>phrase.
     try_bind (resolve_secret read passphrase ''the passphrase'') (\<lambda>pass.
     let pass = (case pass of Some s \<Rightarrow> expose s | None \<Rightarrow> [])
     in case (recovery_file \<noteq> [], phrase) of
          (True, None) \<Rightarrow> Inr \<lparr>id_method = ''file'', id_value = recovery_file, id_passphrase = pass\<rparr>
        | (False, Some phrase) \<Rightarrow> Inr \<lparr>id_method = ''phrase'', id_value = expose phrase, id_passphrase = pass\<rparr>
        | (True, Some _) \<Rightarrow> Inl ''both a recovery file and a recovery phrase are configured; use exactly one''
        | (False, None) \<Rightarrow> Inl (''no Pubky identity configured. Set PUBKY_SWAP_RECOVERY_PHRASE__FILE to a file ''
             @ ''holding the phrase, or PUBKY_SWAP_RECOVERY_PHRASE__VALUE, or pass a recovery file ''
             @ ''path as the first argument'')))"

text \<open>The three fields \<open>Debug\<close> prints of an identity.\<close>

definition debug_identity :: "pubky_identity \<Rightarrow> (string \<times> string) list" where
  "debug_identity i =
     [(''method'', id_method i),
      (''value'', if id_method i = ''file'' then id_value i else ''<redacted>''),
      (''passphrase'', ''<redacted>'')]"

subsection \<open>Errors of the configuration\<close>

datatype 'v actual =
    ABool 'v | AUnsigned 'v | ASigned 'v | AFloat 'v | AChar 'v | AStr 'v | ABytes 'v | AUnit | AOption
  | ANewtypeStruct | ANewtypeVariant | ASeq | ATupleVariant | AMap | AStructVariant | AEnum | AUnitVariant | AOther 'v

datatype ('v, 'o) config_error_kind =
    InvalidType "'v actual" string
  | InvalidValue "'v actual" string
  | Unsupported "'v actual"
  | UnsupportedKey "'v actual" string
  | OtherKind 'o

record ('v, 'o) config_error =
  ce_path :: "string list"
  ce_source :: "string option"
  ce_kind :: "('v, 'o) config_error_kind"

fun actual_shape :: "'v actual \<Rightarrow> string" where
  "actual_shape (ABool _) = ''a boolean''"
| "actual_shape (AUnsigned _) = ''an integer''"
| "actual_shape (ASigned _) = ''an integer''"
| "actual_shape (AFloat _) = ''a decimal''"
| "actual_shape (AChar _) = ''a character''"
| "actual_shape (AStr _) = ''a string''"
| "actual_shape (ABytes _) = ''bytes''"
| "actual_shape AUnit = ''a unit''"
| "actual_shape AOption = ''an option''"
| "actual_shape ANewtypeStruct = ''a newtype''"
| "actual_shape ANewtypeVariant = ''a newtype''"
| "actual_shape ASeq = ''a list''"
| "actual_shape ATupleVariant = ''a list''"
| "actual_shape AMap = ''a table''"
| "actual_shape AStructVariant = ''a table''"
| "actual_shape AEnum = ''an enum''"
| "actual_shape AUnitVariant = ''an enum''"
| "actual_shape (AOther _) = ''a value of another type''"

fun join_with :: "string \<Rightarrow> string list \<Rightarrow> string" where
  "join_with sep [] = []"
| "join_with sep [s] = s"
| "join_with sep (s # t # ss) = s @ sep @ join_with sep (t # ss)"

text \<open>One line; \<open>show_other\<close> renders the kinds the source leaves to figment.\<close>

definition redact_one :: "('o \<Rightarrow> string) \<Rightarrow> ('v, 'o) config_error \<Rightarrow> string" where
  "redact_one show_other e =
     (let where_at = (if ce_path e = [] then [] else '' for `'' @ join_with ''.'' (ce_path e) @ ''`'');
          source = (case ce_source e of None \<Rightarrow> [] | Some name \<Rightarrow> '' (from '' @ name @ '')'')
      in case ce_kind e of
           InvalidType actual expected \<Rightarrow>
             ''invalid type'' @ where_at @ source @ '': expected '' @ expected @ '', found '' @ actual_shape actual
         | InvalidValue actual expected \<Rightarrow>
             ''invalid value'' @ where_at @ source @ '': expected '' @ expected @ '', found '' @ actual_shape actual
         | Unsupported actual \<Rightarrow> ''unsupported value'' @ where_at @ source @ '': '' @ actual_shape actual
         | UnsupportedKey actual expected \<Rightarrow>
             ''unsupported key'' @ where_at @ source @ '': expected '' @ expected @ '', found '' @ actual_shape actual
         | OtherKind k \<Rightarrow> show_other k @ where_at @ source)"

definition redact_config_error :: "('o \<Rightarrow> string) \<Rightarrow> ('v, 'o) config_error list \<Rightarrow> string" where
  "redact_config_error show_other es =
     (let lines = map (redact_one show_other) es
      in join_with ''; '' (if lines = [] then [''the configuration could not be assembled''] else lines))"

subsection \<open>What is printed does not depend on the secret\<close>

text \<open>Two deployments that differ in their secrets only: the same files are named, the same values and
  files are empty.\<close>

definition same_but_secret :: "secret_source \<Rightarrow> secret_source \<Rightarrow> bool" where
  "same_but_secret a b \<longleftrightarrow> ss_file a = ss_file b \<and> secret_is_empty (ss_value a) = secret_is_empty (ss_value b)"

definition same_files :: "(string \<Rightarrow> string + string) \<Rightarrow> (string \<Rightarrow> string + string) \<Rightarrow> bool" where
  "same_files f g \<longleftrightarrow> (\<forall>n. case (f n, g n) of
     (Inl _, Inl _) \<Rightarrow> True | (Inr a, Inr b) \<Rightarrow> (first_line a = []) = (first_line b = []) | _ \<Rightarrow> False)"

lemma resolve_same:
  assumes "same_files f g" and "same_but_secret a b"
  shows "case (resolve_secret f a what, resolve_secret g b what) of
     (Inl e, Inl e') \<Rightarrow> e = e' | (Inr s, Inr s') \<Rightarrow> (s = None) = (s' = None) | _ \<Rightarrow> False"
  using assms(2) spec [OF assms(1) [unfolded same_files_def], of "ss_file a"]
  by (auto simp: resolve_secret_def same_but_secret_def Let_def split: sum.splits)

text \<open>C33: Nothing the startup of a daemon prints about its identity gives a secret away: for two
  deployments that name the same files and differ only in what the recovery phrase, the passphrase and
  the files say, resolving the identity fails with the same message or succeeds with the same debug
  output.\<close>

theorem identity_output_hides_secrets:
  assumes "same_files f g" and "same_but_secret phrase phrase'" and "same_but_secret pass pass'"
  shows "(case resolve_identity f file phrase pass of Inl e \<Rightarrow> Inl e | Inr i \<Rightarrow> Inr (debug_identity i))
       = (case resolve_identity g file phrase' pass' of Inl e \<Rightarrow> Inl e | Inr i \<Rightarrow> Inr (debug_identity i))"
proof -
  note p = resolve_same [OF assms(1,2), of "''the recovery phrase''"]
    and q = resolve_same [OF assms(1,3), of "''the passphrase''"]
  show ?thesis
    using p q by (cases "resolve_secret f phrase ''the recovery phrase''"; cases "resolve_secret f pass ''the passphrase''")
      (auto simp: resolve_identity_def debug_identity_def Let_def split: sum.splits option.splits bool.splits)
qed

theorem identity_output_hides_secrets_witness:
  "(case resolve_identity (\<lambda>_. Inr ''one'') [] \<lparr>ss_value = Secret [], ss_file = ''seed''\<rparr> \<lparr>ss_value = Secret ''p'', ss_file = []\<rparr> of
      Inl e \<Rightarrow> Inl e | Inr i \<Rightarrow> Inr (debug_identity i))
   = (case resolve_identity (\<lambda>_. Inr ''two'') [] \<lparr>ss_value = Secret [], ss_file = ''seed''\<rparr> \<lparr>ss_value = Secret ''q'', ss_file = []\<rparr> of
      Inl e \<Rightarrow> Inl e | Inr i \<Rightarrow> Inr (debug_identity i))"
proof (rule identity_output_hides_secrets)
  have "first_line ''one'' \<noteq> []" "first_line ''two'' \<noteq> []" by code_simp+
  then show "same_files (\<lambda>_. Inr ''one'') (\<lambda>_. Inr ''two'')" by (simp add: same_files_def)
qed (simp_all add: same_but_secret_def secret_is_empty_def)

text \<open>A configuration that does not load is reported without any of its values: the text of the error
  does not change when every value figment found is replaced by another of the same shape.\<close>

theorem config_errors_hide_values:
  fixes f :: "'v \<Rightarrow> 'v"
  shows "redact_config_error show_other (map (\<lambda>e. e\<lparr>ce_kind := map_config_error_kind f id (ce_kind e)\<rparr>) es)
   = redact_config_error show_other es"
proof -
  have shape: "actual_shape (map_actual f a) = actual_shape a" for a :: "'v actual"
    by (cases a) simp_all
  have "redact_one show_other (e\<lparr>ce_kind := map_config_error_kind f id (ce_kind e)\<rparr>) = redact_one show_other e" for e
    by (cases "ce_kind e") (simp_all add: redact_one_def shape)
  then show ?thesis by (simp add: redact_config_error_def comp_def)
qed

end
