(* ===== verification/Negotiate.thy ===== *)
theory Negotiate
  imports Listing
begin

text \<open>
  The client's side of a negotiation: \<open>swap-client/src/negotiate.rs\<close>. A channel carries one request and
  brings one reply; the negotiator tries the preferred channel, sends a request again that may have
  been lost, falls back, and looks a creation up by its quote before it believes a refusal. A channel is
  a function of the world it talks to and of the time left; time is in milliseconds.
\<close>

subsection \<open>Which transport\<close>

datatype negotiation = Auto | Iroh | Dm | PaykitCap

fun negotiation_as_str :: "negotiation \<Rightarrow> string" where
  "negotiation_as_str Auto = ''auto''"
| "negotiation_as_str Iroh = ''iroh''"
| "negotiation_as_str Dm = ''dm''"
| "negotiation_as_str PaykitCap = ''paykit-cap''"

definition uses_dm :: "negotiation \<Rightarrow> bool" where
  "uses_dm n \<longleftrightarrow> n = Auto \<or> n = Dm"

definition negotiation_from_str :: "string \<Rightarrow> string + negotiation" where
  "negotiation_from_str value =
     (if value = ''auto'' then Inr Auto
      else if value = ''iroh'' then Inr Iroh
      else if value = ''dm'' then Inr Dm
      else if value = ''paykit-cap'' then Inr PaykitCap
      else Inl (''unknown negotiation transport: '' @ value))"

subsection \<open>Errors\<close>

text \<open>\<open>MayExist\<close> is the context \<open>recover\<close> adds when it gives up.\<close>

datatype nego_error =
    NMsg string
  | Rejected "reject_code option" string
  | MayExist uuid nego_error

datatype exchange_error = NotSent string | Uncertain string

fun into_inner :: "exchange_error \<Rightarrow> nego_error" where
  "into_inner (NotSent e) = NMsg e"
| "into_inner (Uncertain e) = NMsg e"

fun show_nego_error :: "ext \<Rightarrow> nego_error \<Rightarrow> string" where
  "show_nego_error x (NMsg e) = e"
| "show_nego_error x (Rejected code reason) = ''provider rejected: '' @ reason"
| "show_nego_error x (MayExist quote_id cause) = ''the provider may have created a swap for quote ''
     @ x_uuid_str x quote_id @ ''; query its status before requesting another''"

fun rejection :: "swap_message \<Rightarrow> nego_error" where
  "rejection (MsgReject reject) = Rejected (reject_code_of reject) (rj_reason reject)"
| "rejection _ = NMsg ''provider replied with an unexpected message''"

subsection \<open>Replies and the requests they answer\<close>

fun is_reject :: "swap_message \<Rightarrow> bool" where
  "is_reject (MsgReject _) = True"
| "is_reject _ = False"

fun acceptance :: "swap_message \<Rightarrow> swap_accept option" where
  "acceptance (MsgSwapAccept accept) = Some accept"
| "acceptance (MsgSwapStatusSnapshot snapshot) = Some (ss_accept snapshot)"
| "acceptance _ = None"

definition acceptance_conflicts :: "swap_message \<Rightarrow> swap_message \<Rightarrow> bool" where
  "acceptance_conflicts first second \<longleftrightarrow>
     (case (acceptance first, acceptance second) of (Some a, Some b) \<Rightarrow> a \<noteq> b | _ \<Rightarrow> False)"

fun read_only_reply :: "swap_message \<Rightarrow> bool" where
  "read_only_reply (MsgOffer _) = True"
| "read_only_reply (MsgQuote _) = True"
| "read_only_reply (MsgReject _) = True"
| "read_only_reply (MsgSwapStatusUpdate _) = True"
| "read_only_reply (MsgSwapList _) = True"
| "read_only_reply _ = False"

definition show_id_option :: "ext \<Rightarrow> uuid option \<Rightarrow> string" where
  "show_id_option x i = (case i of None \<Rightarrow> ''None'' | Some i \<Rightarrow> ''Some('' @ x_uuid_str x i @ '')'')"

fun request_key :: "ext \<Rightarrow> swap_message \<Rightarrow> string" where
  "request_key x (MsgOfferRequest r) = ''offer:'' @ show_id_option x (or_request_id r)"
| "request_key x (MsgQuoteRequest r) = ''request:'' @ show_id_option x (qr_request_id r)"
| "request_key x (MsgSwapRequest r) = ''quote:'' @ x_uuid_str x (sr_quote_id r)"
| "request_key x (MsgSwapStatusRequest r) =
     (case ssr_quote_id r of Some i \<Rightarrow> ''quote:'' @ x_uuid_str x i | None \<Rightarrow> ''swap:'' @ show_id_option x (ssr_swap_id r))"
| "request_key x (MsgSwapListRequest r) = ''list:'' @ show_id_option x (slr_request_id r)"
| "request_key x _ = ''unsupported''"

definition none_or :: "'a option \<Rightarrow> 'a \<Rightarrow> bool" where
  "none_or a b \<longleftrightarrow> (case a of None \<Rightarrow> True | Some v \<Rightarrow> b = v)"

definition answers_id :: "uuid option \<Rightarrow> uuid option \<Rightarrow> bool" where
  "answers_id wanted got \<longleftrightarrow> wanted \<noteq> None \<and> got = wanted"

definition reply_matches :: "swap_message \<Rightarrow> swap_message \<Rightarrow> bool" where
  "reply_matches request reply =
     (case request of
        MsgOfferRequest r \<Rightarrow> (case reply of
            MsgOffer v \<Rightarrow> answers_id (or_request_id r) (of_request_id v)
          | MsgReject v \<Rightarrow> answers_id (or_request_id r) (rj_request_id v) | _ \<Rightarrow> False)
      | MsgQuoteRequest r \<Rightarrow> (case reply of
            MsgQuote v \<Rightarrow> answers_id (qr_request_id r) (q_request_id v)
          | MsgReject v \<Rightarrow> answers_id (qr_request_id r) (rj_request_id v) | _ \<Rightarrow> False)
      | MsgSwapRequest r \<Rightarrow> (case reply of
            MsgSwapAccept v \<Rightarrow> sa_quote_id v = sr_quote_id r
          | MsgReject v \<Rightarrow> rj_quote_id v = Some (sr_quote_id r) | _ \<Rightarrow> False)
      | MsgSwapStatusRequest r \<Rightarrow> (case reply of
            MsgSwapStatusSnapshot v \<Rightarrow> answers_id (ssr_request_id r) (ss_request_id v)
              \<and> none_or (ssr_quote_id r) (sa_quote_id (ss_accept v)) \<and> none_or (ssr_swap_id r) (sa_swap_id (ss_accept v))
          | MsgReject v \<Rightarrow> answers_id (ssr_request_id r) (rj_request_id v) | _ \<Rightarrow> False)
      | MsgSwapListRequest r \<Rightarrow> (case reply of
            MsgSwapList v \<Rightarrow> answers_id (slr_request_id r) (sl_request_id v)
          | MsgReject v \<Rightarrow> answers_id (slr_request_id r) (rj_request_id v) | _ \<Rightarrow> False)
      | _ \<Rightarrow> False)"

subsection \<open>Channels\<close>

text \<open>\<open>None\<close> is a request that was still open when the time ran out; otherwise how long it took.\<close>

record 'w channel =
  ch_exchange :: "swap_message \<Rightarrow> (swap_message \<Rightarrow> bool) \<Rightarrow> nat \<Rightarrow> 'w \<Rightarrow> (nat \<times> (exchange_error + swap_message)) option \<times> 'w"
  ch_acknowledge :: "swap_message \<Rightarrow> 'w \<Rightarrow> (string + unit) \<times> 'w"

text \<open>A request over iroh: the transport's outcome, the frames it carries and their parsing are parameters.\<close>

datatype 'b raw_reply = RawNotSent string | RawFailed string | RawBytes 'b

definition iroh_reply :: "('b \<Rightarrow> string + swap_message) \<Rightarrow> swap_message \<Rightarrow> (swap_message \<Rightarrow> bool) \<Rightarrow> 'b raw_reply
   \<Rightarrow> exchange_error + swap_message" where
  "iroh_reply parse request expected raw =
     (case raw of
        RawNotSent e \<Rightarrow> Inl (NotSent e)
      | RawFailed e \<Rightarrow> Inl (Uncertain e)
      | RawBytes b \<Rightarrow> try_bind (map_err (\<lambda>e. Uncertain (''unreadable reply: '' @ e)) (parse b)) (\<lambda>reply.
          if reply_matches request reply \<and> (is_reject reply \<or> expected reply) then Inr reply
          else Inl (Uncertain ''provider replied with an unexpected message'')))"

definition iroh_channel ::
  "('b \<Rightarrow> string + swap_message) \<Rightarrow> (swap_message \<Rightarrow> nat \<Rightarrow> 'w \<Rightarrow> (nat \<times> 'b raw_reply) option \<times> 'w) \<Rightarrow> 'w channel" where
  "iroh_channel parse ask =
     \<lparr>ch_exchange = (\<lambda>request expected budget w. case ask request budget w of
        (None, w) \<Rightarrow> (None, w)
      | (Some (took, raw), w) \<Rightarrow> (Some (took, iroh_reply parse request expected raw), w)),
      ch_acknowledge = (\<lambda>_ w. (Inr (), w))\<rparr>"


subsection \<open>Pubky DMs\<close>

text \<open>What the inbox holds for this peer: messages with the receipts that take them out of it.\<close>

record inbound =
  ib_message :: swap_message
  ib_receipt :: nat

text \<open>The conversation: what the transport answers and how long it takes, the polls to come, the receipts
  that were given back and those kept until the outcome is on disk. The doorbell only makes the provider
  poll sooner; it has no part in the reply and is not modelled.\<close>

record conversation =
  cv_register :: "string + unit"
  cv_send :: "swap_message \<Rightarrow> nat \<times> (string + unit)"
  cv_polls :: "(nat \<times> (string + inbound list)) list"
  cv_settle :: "nat \<Rightarrow> string + unit"
  cv_recorded :: "swap_message \<Rightarrow> string + bool"
  cv_acknowledged :: "nat list"
  cv_receipts :: "(string \<times> nat list) list"

definition settle_receipt :: "nat \<Rightarrow> conversation \<Rightarrow> (string + unit) \<times> conversation" where
  "settle_receipt i w = (case cv_settle w i of Inl e \<Rightarrow> (Inl e, w)
     | Inr _ \<Rightarrow> (Inr (), w\<lparr>cv_acknowledged := cv_acknowledged w @ [i]\<rparr>))"

definition recovered_reply :: "swap_message \<Rightarrow> swap_message \<Rightarrow> swap_message" where
  "recovered_reply request reply =
     (case (request, reply) of
        (MsgSwapRequest r, MsgSwapStatusSnapshot snapshot) \<Rightarrow>
          if sa_quote_id (ss_accept snapshot) = sr_quote_id r then MsgSwapAccept (ss_accept snapshot) else reply
      | _ \<Rightarrow> reply)"

record batch_state =
  bs_matched :: "swap_message option"
  bs_receipts :: "nat list"
  bs_unresolved :: bool

text \<open>The messages of one poll, in order.\<close>

fun read_batch ::
  "swap_message \<Rightarrow> (swap_message \<Rightarrow> bool) \<Rightarrow> inbound list \<Rightarrow> batch_state \<Rightarrow> conversation
   \<Rightarrow> (exchange_error + batch_state) \<times> conversation" where
  "read_batch request expected [] b w = (Inr b, w)"
| "read_batch request expected (m # ms) b w =
     (let reply = recovered_reply request (ib_message m)
      in if reply_matches request reply \<and> (is_reject reply \<or> expected reply)
         then if (case bs_matched b of None \<Rightarrow> False | Some previous \<Rightarrow> acceptance_conflicts previous reply)
              then (Inl (Uncertain ''provider sent conflicting correlated replies''), w)
              else let next = b\<lparr>bs_matched := (if bs_matched b = None \<or> \<not> is_reject reply then Some reply else bs_matched b)\<rparr>
              in if read_only_reply reply
                 then (case settle_receipt (ib_receipt m) w of
                         (Inl e, w) \<Rightarrow> (Inl (Uncertain e), w)
                       | (Inr _, w) \<Rightarrow> read_batch request expected ms next w)
                 else read_batch request expected ms (next\<lparr>bs_receipts := bs_receipts b @ [ib_receipt m]\<rparr>) w
         else (case (if read_only_reply reply then Inr True else cv_recorded w reply) of
              Inl e \<Rightarrow> (Inl (Uncertain e), w)
            | Inr True \<Rightarrow> (case settle_receipt (ib_receipt m) w of
                 (Inl e, w) \<Rightarrow> (Inl (Uncertain e), w)
               | (Inr _, w) \<Rightarrow> read_batch request expected ms b w)
            | Inr False \<Rightarrow> read_batch request expected ms (b\<lparr>bs_unresolved := True\<rparr>) w))"

text \<open>What \<open>cv_recorded\<close> stands for: the reply belongs to a swap that is already on the client's disk.
  Without a store nothing is recorded.\<close>

definition recorded_acceptance ::
  "provider_ext \<Rightarrow> 'c codec \<Rightarrow> dir option \<Rightarrow> string \<Rightarrow> swap_message \<Rightarrow> any_error + bool" where
  "recorded_acceptance px c accepted_store provider reply =
     (case accepted_store of None \<Rightarrow> Inr False
      | Some d \<Rightarrow> try_bind (load_all_checked c d) (\<lambda>rs. Inr (list_ex (\<lambda>r.
          r_role r = Client \<and> same_pubky (px_pubky px) (r_peer r) provider
          \<and> (case reply of
               MsgSwapAccept accept \<Rightarrow> r_swap_accept r = Some accept
             | MsgSwapStatusSnapshot snapshot \<Rightarrow> r_swap_accept r = Some (ss_accept snapshot)
             | MsgSwapStatusUpdate update \<Rightarrow>
                 (case r_swap_accept r of None \<Rightarrow> False | Some accept \<Rightarrow> sa_swap_id accept = su_swap_id update)
             | _ \<Rightarrow> False)) rs)))"

definition keep_receipts :: "string \<Rightarrow> nat list \<Rightarrow> conversation \<Rightarrow> conversation" where
  "keep_receipts key rs w =
     w\<lparr>cv_receipts := AList.update key ((case map_of (cv_receipts w) key of None \<Rightarrow> [] | Some old \<Rightarrow> old) @ rs) (cv_receipts w)\<rparr>"

text \<open>Polling until a batch decides the exchange or \<open>limit\<close> is reached; \<open>None\<close> is still waiting.\<close>

fun await_reply ::
  "ext \<Rightarrow> swap_message \<Rightarrow> (swap_message \<Rightarrow> bool) \<Rightarrow> nat \<Rightarrow> nat \<Rightarrow> (nat \<times> (string + inbound list)) list \<Rightarrow> conversation
   \<Rightarrow> (nat \<times> (exchange_error + swap_message)) option \<times> conversation" where
  "await_reply x request expected limit elapsed [] w = (None, w)"
| "await_reply x request expected limit elapsed ((took, polled) # rest) w =
     (let at = elapsed + took; w = w\<lparr>cv_polls := rest\<rparr>
      in if at > limit then (None, w)
         else case polled of
           Inl e \<Rightarrow> (Some (at, Inl (Uncertain e)), w)
         | Inr ms \<Rightarrow> (case read_batch request expected ms \<lparr>bs_matched = None, bs_receipts = [], bs_unresolved = False\<rparr> w of
              (Inl e, w) \<Rightarrow> (Some (at, Inl e), w)
            | (Inr b, w) \<Rightarrow> (case bs_matched b of
                 Some reply \<Rightarrow> (Some (at, Inr reply), keep_receipts (request_key x request) (bs_receipts b) w)
               | None \<Rightarrow> if bs_unresolved b
                   then (Some (at, Inl (Uncertain (''an unrecorded creation reply is pending; recover the ''
                          @ ''earlier swap before negotiating another''))), w)
                   else await_reply x request expected limit (at + 200) rest w)))"

definition REPLY_TIMEOUT :: nat where "REPLY_TIMEOUT = 30000"

definition dm_exchange ::
  "ext \<Rightarrow> swap_message \<Rightarrow> (swap_message \<Rightarrow> bool) \<Rightarrow> nat \<Rightarrow> conversation
   \<Rightarrow> (nat \<times> (exchange_error + swap_message)) option \<times> conversation" where
  "dm_exchange x request expected budget w =
     (let limit = min REPLY_TIMEOUT budget
      in case (case cv_register w of
            Inl e \<Rightarrow> (Some (0, Inl (NotSent e)), w)
          | Inr _ \<Rightarrow> let (took, outcome) = cv_send w request
              in if took > limit then (None, w)
                 else case outcome of
                   Inl e \<Rightarrow> (Some (took, Inl (Uncertain e)), w)
                 | Inr _ \<Rightarrow> await_reply x request expected limit took (cv_polls w) w) of
        (Some r, w) \<Rightarrow> (Some r, w)
      | (None, w) \<Rightarrow>
          (if REPLY_TIMEOUT \<le> budget
           then Some (REPLY_TIMEOUT, Inl (Uncertain ''timed out waiting for provider response'')) else None, w))"

fun settle_all :: "nat list \<Rightarrow> conversation \<Rightarrow> (string + unit) \<times> conversation" where
  "settle_all [] w = (Inr (), w)"
| "settle_all (i # is) w = (case settle_receipt i w of (Inl e, w) \<Rightarrow> (Inl e, w) | (Inr _, w) \<Rightarrow> settle_all is w)"

definition dm_acknowledge :: "ext \<Rightarrow> swap_message \<Rightarrow> conversation \<Rightarrow> (string + unit) \<times> conversation" where
  "dm_acknowledge x request w =
     (case settle_all (case map_of (cv_receipts w) (request_key x request) of None \<Rightarrow> [] | Some pending \<Rightarrow> pending) w of
        (Inl e, w) \<Rightarrow> (Inl e, w)
      | (Inr _, w) \<Rightarrow> (Inr (), w\<lparr>cv_receipts := AList.delete (request_key x request) (cv_receipts w)\<rparr>))"

definition dm_channel :: "ext \<Rightarrow> conversation channel" where
  "dm_channel x = \<lparr>ch_exchange = dm_exchange x, ch_acknowledge = dm_acknowledge x\<rparr>"


subsection \<open>The negotiator\<close>

record 'w negotiator =
  ng_preferred :: "'w channel option"
  ng_fallback :: "'w channel option"
  ng_new_id :: "'w \<Rightarrow> uuid \<times> 'w"

record 'w talk =
  tk_unavailable :: bool
  tk_time :: nat
  tk_world :: 'w

record exchanged =
  ex_reply :: swap_message
  ex_uncertain :: bool

text \<open>A computation under a deadline: \<open>None\<close> is one that was cut off by it.\<close>

type_synonym ('w, 'a) timed = "nat \<Rightarrow> 'w talk \<Rightarrow> 'a option \<times> 'w talk"

definition call_channel :: "'w channel \<Rightarrow> swap_message \<Rightarrow> (swap_message \<Rightarrow> bool) \<Rightarrow> ('w, exchange_error + swap_message) timed" where
  "call_channel ch request expected deadline t =
     (let budget = deadline - tk_time t
      in case ch_exchange ch request expected budget (tk_world t) of
           (None, w) \<Rightarrow> (None, t\<lparr>tk_time := tk_time t + budget, tk_world := w\<rparr>)
         | (Some (took, r), w) \<Rightarrow>
             if took > budget then (None, t\<lparr>tk_time := tk_time t + budget, tk_world := w\<rparr>)
             else (Some r, t\<lparr>tk_time := tk_time t + took, tk_world := w\<rparr>))"

text \<open>The preferred channel, at most twice. \<open>Inl\<close> is a reply; \<open>Inr\<close> goes on with the fallback.\<close>

fun try_preferred ::
  "nat \<Rightarrow> 'w channel \<Rightarrow> swap_message \<Rightarrow> (swap_message \<Rightarrow> bool) \<Rightarrow> bool \<Rightarrow> string option
   \<Rightarrow> ('w, exchanged + bool \<times> string option) timed" where
  "try_preferred 0 ch request expected uncertain last_error deadline t = (Some (Inr (uncertain, last_error)), t)"
| "try_preferred (Suc n) ch request expected uncertain last_error deadline t =
     (if tk_unavailable t then (Some (Inr (uncertain, last_error)), t)
      else case call_channel ch request expected deadline t of
        (None, t) \<Rightarrow> (None, t)
      | (Some (Inr reply), t) \<Rightarrow> (Some (Inl \<lparr>ex_reply = reply, ex_uncertain = uncertain\<rparr>), t)
      | (Some (Inl (NotSent e)), t) \<Rightarrow>
          try_preferred n ch request expected uncertain (Some e) deadline (t\<lparr>tk_unavailable := True\<rparr>)
      | (Some (Inl (Uncertain e)), t) \<Rightarrow> try_preferred n ch request expected True (Some e) deadline t)"

definition failed_exchange :: "bool \<Rightarrow> string \<Rightarrow> exchange_error" where
  "failed_exchange uncertain e = (if uncertain then Uncertain e else NotSent e)"

definition negotiator_exchange ::
  "'w negotiator \<Rightarrow> swap_message \<Rightarrow> (swap_message \<Rightarrow> bool) \<Rightarrow> ('w, exchange_error + exchanged) timed" where
  "negotiator_exchange ng request expected deadline t =
     (case (case ng_preferred ng of None \<Rightarrow> (Some (Inr (False, None)), t)
            | Some ch \<Rightarrow> try_preferred 2 ch request expected False None deadline t) of
        (None, t) \<Rightarrow> (None, t)
      | (Some (Inl exchanged), t) \<Rightarrow> (Some (Inr exchanged), t)
      | (Some (Inr (uncertain, last_error)), t) \<Rightarrow>
          (case ng_fallback ng of
             None \<Rightarrow> (Some (Inl (failed_exchange uncertain (unwrap_or last_error ''no transport to the provider''))), t)
           | Some ch \<Rightarrow> (case call_channel ch request expected deadline t of
               (None, t) \<Rightarrow> (None, t)
             | (Some (Inr reply), t) \<Rightarrow> (Some (Inr \<lparr>ex_reply = reply, ex_uncertain = uncertain\<rparr>), t)
             | (Some (Inl (Uncertain e)), t) \<Rightarrow> (Some (Inl (failed_exchange True e)), t)
             | (Some (Inl (NotSent e)), t) \<Rightarrow> (Some (Inl (failed_exchange uncertain e)), t))))"

definition acknowledge_channel :: "'w channel option \<Rightarrow> swap_message \<Rightarrow> 'w \<Rightarrow> (string + unit) \<times> 'w" where
  "acknowledge_channel channel request w = (case channel of None \<Rightarrow> (Inr (), w) | Some ch \<Rightarrow> ch_acknowledge ch request w)"

definition negotiator_acknowledge :: "'w negotiator \<Rightarrow> swap_message \<Rightarrow> 'w talk \<Rightarrow> (nego_error + unit) \<times> 'w talk" where
  "negotiator_acknowledge ng request t =
     (case acknowledge_channel (ng_preferred ng) request (tk_world t) of
        (Inl e, w) \<Rightarrow> (Inl (NMsg e), t\<lparr>tk_world := w\<rparr>)
      | (Inr _, w) \<Rightarrow> (case acknowledge_channel (ng_fallback ng) request w of
            (r, w) \<Rightarrow> (map_err NMsg r, t\<lparr>tk_world := w\<rparr>)))"

text \<open>Which channels a preference sets up; what opening each gives is a parameter. Only \<open>Auto\<close> goes on
  without iroh.\<close>

definition connect_inner ::
  "negotiation \<Rightarrow> string + 'w channel \<Rightarrow> string + 'w channel \<Rightarrow> string + 'w channel
   \<Rightarrow> string + 'w channel option \<times> 'w channel option" where
  "connect_inner preference iroh cap dm =
     try_bind (case preference of
         Dm \<Rightarrow> Inr None
       | Auto \<Rightarrow> (case iroh of Inr ch \<Rightarrow> Inr (Some ch) | Inl _ \<Rightarrow> Inr None)
       | Iroh \<Rightarrow> try_bind iroh (\<lambda>ch. Inr (Some ch))
       | PaykitCap \<Rightarrow> try_bind cap (\<lambda>ch. Inr (Some ch)))
     (\<lambda>preferred. try_bind (if uses_dm preference then try_bind dm (\<lambda>ch. Inr (Some ch)) else Inr None)
        (\<lambda>fallback. Inr (preferred, fallback)))"

definition RECOVERY_WINDOW :: nat where "RECOVERY_WINDOW = 60000"
definition RECOVERY_POLL :: nat where "RECOVERY_POLL = 500"

text \<open>\<open>tokio::time::timeout\<close> around a whole negotiation.\<close>

definition negotiation_deadline :: "('w, nego_error + 'a) timed \<Rightarrow> 'w talk \<Rightarrow> (nego_error + 'a) \<times> 'w talk" where
  "negotiation_deadline future t =
     (case future (tk_time t + RECOVERY_WINDOW) t of
        (None, t) \<Rightarrow> (Inl (NMsg (''negotiation deadline elapsed; any persisted creation remains pending ''
             @ ''for recovery'')), t)
      | (Some r, t) \<Rightarrow> (r, t))"

definition fresh_id :: "'w negotiator \<Rightarrow> 'w talk \<Rightarrow> uuid \<times> 'w talk" where
  "fresh_id ng t = (let (i, w) = ng_new_id ng (tk_world t) in (i, t\<lparr>tk_world := w\<rparr>))"

text \<open>Send a request, read its reply; an error of the exchange is the caller's.\<close>

definition ask ::
  "'w negotiator \<Rightarrow> swap_message \<Rightarrow> (swap_message \<Rightarrow> bool) \<Rightarrow> (swap_message \<Rightarrow> 'w talk \<Rightarrow> (nego_error + 'a) \<times> 'w talk)
   \<Rightarrow> ('w, nego_error + 'a) timed" where
  "ask ng request expected k deadline t =
     (case negotiator_exchange ng request expected deadline t of
        (None, t) \<Rightarrow> (None, t)
      | (Some (Inl e), t) \<Rightarrow> (Some (Inl (into_inner e)), t)
      | (Some (Inr exchanged), t) \<Rightarrow> (case k (ex_reply exchanged) t of (r, t) \<Rightarrow> (Some r, t)))"

fun is_offer :: "swap_message \<Rightarrow> bool" where
  "is_offer (MsgOffer offer) = (of_request_id offer \<noteq> None)"
| "is_offer _ = False"

fun is_quote :: "swap_message \<Rightarrow> bool" where
  "is_quote (MsgQuote _) = True"
| "is_quote _ = False"

fun is_accept :: "swap_message \<Rightarrow> bool" where
  "is_accept (MsgSwapAccept _) = True"
| "is_accept _ = False"

fun is_snapshot :: "swap_message \<Rightarrow> bool" where
  "is_snapshot (MsgSwapStatusSnapshot _) = True"
| "is_snapshot _ = False"

fun is_list :: "swap_message \<Rightarrow> bool" where
  "is_list (MsgSwapList _) = True"
| "is_list _ = False"

definition acknowledged_with :: "'w negotiator \<Rightarrow> swap_message \<Rightarrow> 'a \<Rightarrow> 'w talk \<Rightarrow> (nego_error + 'a) \<times> 'w talk" where
  "acknowledged_with ng request v t =
     (case negotiator_acknowledge ng request t of (Inl e, t) \<Rightarrow> (Inl e, t) | (Inr _, t) \<Rightarrow> (Inr v, t))"

definition get_offer :: "'w negotiator \<Rightarrow> 'w talk \<Rightarrow> (nego_error + swap_offer) \<times> 'w talk" where
  "get_offer ng = negotiation_deadline (\<lambda>deadline t.
     let (i, t) = fresh_id ng t; request = MsgOfferRequest \<lparr>or_request_id = Some i\<rparr>
     in ask ng request is_offer (\<lambda>reply t. case reply of
          MsgOffer offer \<Rightarrow> if of_request_id offer = Some i then acknowledged_with ng request offer t
            else (Inl (NMsg ''offer answers a different request''), t)
        | other \<Rightarrow> (Inl (rejection other), t)) deadline t)"

definition get_quote :: "'w negotiator \<Rightarrow> quote_request \<Rightarrow> 'w talk \<Rightarrow> (nego_error + quote) \<times> 'w talk" where
  "get_quote ng request = negotiation_deadline (ask ng (MsgQuoteRequest request) is_quote (\<lambda>reply t. case reply of
       MsgQuote q \<Rightarrow> if qr_request_id request \<noteq> None \<and> q_request_id q = qr_request_id request
         then acknowledged_with ng (MsgQuoteRequest request) q t
         else (Inl (NMsg ''quote answers a different request''), t)
     | other \<Rightarrow> (Inl (rejection other), t)))"

definition get_status :: "'w negotiator \<Rightarrow> swap_status_request \<Rightarrow> 'w talk \<Rightarrow> (nego_error + swap_status_snapshot) \<times> 'w talk" where
  "get_status ng request = negotiation_deadline (ask ng (MsgSwapStatusRequest request) is_snapshot (\<lambda>reply t. case reply of
       MsgSwapStatusSnapshot snapshot \<Rightarrow>
         if ssr_request_id request \<noteq> None \<and> ss_request_id snapshot = ssr_request_id request
            \<and> none_or (ssr_quote_id request) (sa_quote_id (ss_accept snapshot))
            \<and> none_or (ssr_swap_id request) (sa_swap_id (ss_accept snapshot))
         then (Inr snapshot, t) else (Inl (NMsg ''status answers a different request''), t)
     | other \<Rightarrow> (Inl (rejection other), t)))"

definition get_list :: "'w negotiator \<Rightarrow> swap_list_request \<Rightarrow> 'w talk \<Rightarrow> (nego_error + swap_list) \<times> 'w talk" where
  "get_list ng request = negotiation_deadline (\<lambda>deadline t.
     let (i, t) = (case slr_request_id request of Some i \<Rightarrow> (i, t) | None \<Rightarrow> fresh_id ng t);
         request = request\<lparr>slr_request_id := Some i\<rparr>
     in ask ng (MsgSwapListRequest request) is_list (\<lambda>reply t. case reply of
          MsgSwapList l \<Rightarrow> if sl_request_id l = slr_request_id request then (Inr l, t)
            else (Inl (NMsg ''listing answers a different request''), t)
        | other \<Rightarrow> (Inl (rejection other), t)) deadline t)"

definition MAX_LIST_PAGES :: nat where "MAX_LIST_PAGES = 200"

fun list_pages ::
  "nat \<Rightarrow> 'w negotiator \<Rightarrow> bool \<Rightarrow> string option \<Rightarrow> swap_status_snapshot list \<Rightarrow> 'w talk
   \<Rightarrow> (nego_error + swap_status_snapshot list) \<times> 'w talk" where
  "list_pages 0 ng active_only cursor all t =
     (Inl (NMsg (''the provider's listing did not end within '' @ show_nat MAX_LIST_PAGES @ '' pages'')), t)"
| "list_pages (Suc n) ng active_only cursor all t =
     (case get_list ng \<lparr>slr_request_id = None, slr_cursor = cursor, slr_limit = None, slr_active_only = active_only\<rparr> t of
        (Inl e, t) \<Rightarrow> (Inl e, t)
      | (Inr page, t) \<Rightarrow>
          let all = all @ sl_snapshots page
          in case sl_next_cursor page of
               None \<Rightarrow> (Inr all, t)
             | Some next \<Rightarrow> if cursor = Some next then (Inr all, t) else list_pages n ng active_only (Some next) all t)"

definition list_all_swaps :: "'w negotiator \<Rightarrow> bool \<Rightarrow> 'w talk \<Rightarrow> (nego_error + swap_status_snapshot list) \<times> 'w talk" where
  "list_all_swaps ng active_only = list_pages MAX_LIST_PAGES ng active_only None []"


subsection \<open>Time only moves forward, and not past the deadline\<close>

definition on_time :: "nat \<Rightarrow> 'w talk \<Rightarrow> 'w talk \<Rightarrow> bool" where
  "on_time deadline t t' \<longleftrightarrow> tk_time t \<le> tk_time t' \<and> tk_time t' \<le> max deadline (tk_time t)"

lemma on_time_refl [simp]: "on_time d t t"
  by (simp add: on_time_def)

lemma on_time_trans: "on_time d t t' \<Longrightarrow> on_time d t' t'' \<Longrightarrow> on_time d t t''"
  by (auto simp: on_time_def)

lemma on_time_update [simp]:
  "on_time d t (t'\<lparr>tk_unavailable := b\<rparr>) = on_time d t t'" "on_time d t (t'\<lparr>tk_world := w\<rparr>) = on_time d t t'"
  "on_time d (t\<lparr>tk_unavailable := b\<rparr>) t' = on_time d t t'" "on_time d (t\<lparr>tk_world := w\<rparr>) t' = on_time d t t'"
  by (simp_all add: on_time_def)

lemma call_on_time: "on_time d t (snd (call_channel ch request expected d t))"
  by (auto simp: call_channel_def on_time_def Let_def split: prod.split option.split)

lemma try_on_time: "on_time d t (snd (try_preferred n ch request expected uncertain last_error d t))"
proof (induction n arbitrary: uncertain last_error t)
  case (Suc n)
  obtain r t' where c: "call_channel ch request expected d t = (r, t')" by fastforce
  with call_on_time [of d t ch request expected] have "on_time d t t'" by simp
  with Suc.IH show ?case
    by (auto simp: c intro: on_time_trans split: option.split sum.split exchange_error.split)
      (metis on_time_trans on_time_update(3))+
qed simp

lemma exchange_on_time: "on_time d t (snd (negotiator_exchange ng request expected d t))"
proof -
  let ?first = "case ng_preferred ng of None \<Rightarrow> (Some (Inr (False, None)), t) | Some ch \<Rightarrow> try_preferred 2 ch request expected False None d t"
  obtain r t' where f: "?first = (r, t')" by fastforce
  have t': "on_time d t t'"
    using f try_on_time [of d t 2 _ request expected False None] by (auto split: option.splits dest!: arg_cong [where f = snd])
  have "on_time d t (snd (call_channel ch request expected d t'))" for ch
    using on_time_trans [OF t' call_on_time] .
  then show ?thesis
    using t' f by (auto simp: negotiator_exchange_def split: option.split sum.split prod.split exchange_error.split dest!: arg_cong [where f = snd])
qed

lemma fresh_time [simp]: "tk_time (snd (fresh_id ng t)) = tk_time t"
  by (simp add: fresh_id_def case_prod_beta Let_def)

subsection \<open>Creating a swap\<close>

text \<open>What a status query settles: the swap, its final refusal, or nothing yet.\<close>

definition status_verdict :: "uuid \<Rightarrow> uuid \<Rightarrow> (exchange_error + exchanged) option \<Rightarrow> swap_accept option option" where
  "status_verdict i quote_id r =
     (case r of
        Some (Inr exchanged) \<Rightarrow> (case ex_reply exchanged of
            MsgSwapStatusSnapshot snapshot \<Rightarrow>
              if ss_request_id snapshot = Some i \<and> sa_quote_id (ss_accept snapshot) = quote_id
              then Some (Some (ss_accept snapshot)) else None
          | MsgReject reject \<Rightarrow>
              if rj_request_id reject = Some i
                 \<and> reject_code_of reject \<noteq> Some RcNotFound \<and> reject_code_of reject \<noteq> Some RcPending
              then Some None else None
          | _ \<Rightarrow> None)
      | _ \<Rightarrow> None)"

definition status_of_quote :: "uuid \<Rightarrow> uuid \<Rightarrow> swap_message" where
  "status_of_quote i quote_id = MsgSwapStatusRequest \<lparr>ssr_request_id = Some i, ssr_swap_id = None, ssr_quote_id = Some quote_id\<rparr>"

function recover_loop ::
  "'w negotiator \<Rightarrow> uuid \<Rightarrow> nego_error \<Rightarrow> nat \<Rightarrow> ('w, nego_error + swap_accept) timed" where
  "recover_loop ng quote_id cause window deadline t =
     (let (i, t') = fresh_id ng (t\<lparr>tk_unavailable := False\<rparr>);
          (r, t') = negotiator_exchange ng (status_of_quote i quote_id) is_snapshot (min window deadline) t'
      in if r = None \<and> deadline < window then (None, t')
         else case status_verdict i quote_id r of
           Some (Some accept) \<Rightarrow> (Some (Inr accept), t')
         | Some None \<Rightarrow> (Some (Inl cause), t')
         | None \<Rightarrow>
             if tk_time t' \<ge> window then (Some (Inl (MayExist quote_id cause)), t')
             else let wake = min (tk_time t' + RECOVERY_POLL) window
                  in if wake > deadline then (None, t'\<lparr>tk_time := max deadline (tk_time t')\<rparr>)
                     else recover_loop ng quote_id cause window deadline (t'\<lparr>tk_time := wake\<rparr>))"
  by pat_completeness auto
termination
proof (relation "measure (\<lambda>(ng, quote_id, cause, window, deadline, t). window - tk_time t)", simp, goal_cases)
  case (1 ng quote_id cause window deadline t x i t1 y r t2)
  have "t1 = snd (fresh_id ng (t\<lparr>tk_unavailable := False\<rparr>))" using 1(1,2) by (metis snd_conv)
  then have "tk_time t1 = tk_time t" by simp
  moreover have "t2 = snd (negotiator_exchange ng (status_of_quote i quote_id) is_snapshot (min window deadline) t1)"
    using 1(3,4) by (metis snd_conv)
  ultimately have "tk_time t \<le> tk_time t2"
    using exchange_on_time [of "min window deadline" t1 ng "status_of_quote i quote_id" is_snapshot] by (simp add: on_time_def)
  then show ?case using 1 by (simp add: RECOVERY_POLL_def)
qed

declare recover_loop.simps [simp del]

definition recover_swap :: "'w negotiator \<Rightarrow> uuid \<Rightarrow> nego_error \<Rightarrow> ('w, nego_error + swap_accept) timed" where
  "recover_swap ng quote_id cause deadline t = recover_loop ng quote_id cause (tk_time t + RECOVERY_WINDOW) deadline t"

definition is_pending :: "swap_message \<Rightarrow> bool" where
  "is_pending reply \<longleftrightarrow> (case reply of MsgReject reject \<Rightarrow> reject_code_of reject = Some RcPending | _ \<Rightarrow> False)"

text \<open>Both ways to an acceptance end in the check of its quote.\<close>

definition for_this_quote :: "swap_request \<Rightarrow> (nego_error + swap_accept) option \<times> 'w talk \<Rightarrow> (nego_error + swap_accept) option \<times> 'w talk" where
  "for_this_quote request rt = (case rt of
     (Some (Inr accept), t) \<Rightarrow> (Some (if sa_quote_id accept \<noteq> sr_quote_id request
         then Inl (NMsg ''acceptance is for a different quote'') else Inr accept), t)
   | other \<Rightarrow> other)"

definition create_swap :: "'w negotiator \<Rightarrow> swap_request \<Rightarrow> 'w talk \<Rightarrow> (nego_error + swap_accept) \<times> 'w talk" where
  "create_swap ng request = negotiation_deadline (\<lambda>deadline t.
     for_this_quote request (case negotiator_exchange ng (MsgSwapRequest request) is_accept deadline t of
        (None, t) \<Rightarrow> (None, t)
      | (Some (Inr exchanged), t) \<Rightarrow> (case ex_reply exchanged of
            MsgSwapAccept accept \<Rightarrow> (Some (Inr accept), t)
          | reply \<Rightarrow> if ex_uncertain exchanged \<or> is_pending reply
              then recover_swap ng (sr_quote_id request) (rejection reply) deadline t
              else (Some (Inl (rejection reply)), t))
      | (Some (Inl (Uncertain e)), t) \<Rightarrow> recover_swap ng (sr_quote_id request) (NMsg e) deadline t
      | (Some (Inl (NotSent e)), t) \<Rightarrow> (Some (Inl (NMsg e)), t)))"

definition recover_creation :: "'w negotiator \<Rightarrow> swap_request \<Rightarrow> 'w talk \<Rightarrow> (nego_error + swap_accept) \<times> 'w talk" where
  "recover_creation ng request = negotiation_deadline (\<lambda>deadline t.
     case negotiator_exchange ng (MsgSwapRequest request) is_accept deadline t of
        (None, t) \<Rightarrow> (None, t)
      | (Some (Inr exchanged), t) \<Rightarrow>
          (case ex_reply exchanged of
             MsgSwapAccept accept \<Rightarrow> if sa_quote_id accept = sr_quote_id request then (Some (Inr accept), t)
               else recover_swap ng (sr_quote_id request) (rejection (MsgSwapAccept accept)) deadline t
           | reply \<Rightarrow> recover_swap ng (sr_quote_id request) (rejection reply) deadline t)
      | (Some (Inl e), t) \<Rightarrow> recover_swap ng (sr_quote_id request) (into_inner e) deadline t)"

end
