(* ===== verification/Negotiation.thy ===== *)
theory Negotiation
  imports Negotiate Admission_Runs
begin

text \<open>
  What a negotiation is worth to the client: an acceptance it is told of is on the provider's disk, whatever
  the transports lose and however often a request is sent again; the listing it collects is complete; a
  reply that creates a swap stays in the inbox until the swap is on the client's disk; and every call ends.
  The contract of a channel is the locale \<open>vouching\<close>, interpreted for the client talking to the
  provider's own handler.
\<close>

subsection \<open>What the channels vouch for\<close>

definition channels :: "'w negotiator \<Rightarrow> 'w channel set" where
  "channels ng = set_option (ng_preferred ng) \<union> set_option (ng_fallback ng)"

locale vouching =
  fixes ng :: "'w negotiator" and I :: "'w \<Rightarrow> bool" and V :: "swap_message \<Rightarrow> swap_message \<Rightarrow> 'w \<Rightarrow> bool"
  assumes channel_vouched: "ch \<in> channels ng \<Longrightarrow> I w \<Longrightarrow> ch_exchange ch request expected budget w = (res, w')
      \<Longrightarrow> I w' \<and> (\<forall>took reply. res = Some (took, Inr reply) \<longrightarrow> V request reply w')"
    and ids_kept: "I w \<Longrightarrow> ng_new_id ng w = (i, w') \<Longrightarrow> I w'"
begin

lemma call_vouched:
  assumes "ch \<in> channels ng" and "I (tk_world t)" and "call_channel ch request expected d t = (r, t')"
  shows "I (tk_world t') \<and> (\<forall>reply. r = Some (Inr reply) \<longrightarrow> V request reply (tk_world t'))"
proof -
  obtain res w' where e: "ch_exchange ch request expected (d - tk_time t) (tk_world t) = (res, w')" by fastforce
  from channel_vouched [OF assms(1,2) e] assms(3) e show ?thesis
    by (auto simp: call_channel_def Let_def split: option.splits if_splits)
qed

lemma try_vouched:
  assumes "ch \<in> channels ng" and "I (tk_world t)" and "try_preferred n ch request expected uncertain last_error d t = (r, t')"
  shows "I (tk_world t') \<and> (\<forall>ex. r = Some (Inl ex) \<longrightarrow> V request (ex_reply ex) (tk_world t'))"
  using assms(2,3)
proof (induction n arbitrary: uncertain last_error t)
  case (Suc n)
  obtain res t1 where c: "call_channel ch request expected d t = (res, t1)" by fastforce
  note v = call_vouched [OF assms(1) Suc.prems(1) c]
  show ?case
  proof (cases "tk_unavailable t")
    case True
    with Suc.prems show ?thesis by auto
  next
    case False
    show ?thesis
    proof (cases res)
      case None
      with False Suc.prems v c show ?thesis by auto
    next
      case (Some o1)
      note o1 = Some False
      show ?thesis
    proof (cases o1)
      case (Inr reply)
      with Suc.prems v c o1 show ?thesis by auto
    next
      case (Inl e)
      with Suc.prems v c o1 Suc.IH [of "t1\<lparr>tk_unavailable := True\<rparr>"] Suc.IH [of t1] show ?thesis
        by (cases e) auto
      qed
    qed
  qed
qed auto

lemma exchange_vouched:
  assumes "I (tk_world t)" and "negotiator_exchange ng request expected d t = (r, t')"
  shows "I (tk_world t') \<and> (\<forall>ex. r = Some (Inr ex) \<longrightarrow> V request (ex_reply ex) (tk_world t'))"
proof -
  let ?first = "case ng_preferred ng of None \<Rightarrow> (Some (Inr (False, None)), t)
    | Some ch \<Rightarrow> try_preferred 2 ch request expected False None d t"
  obtain r1 t1 where f: "?first = (r1, t1)" by fastforce
  have v1: "I (tk_world t1) \<and> (\<forall>ex. r1 = Some (Inl ex) \<longrightarrow> V request (ex_reply ex) (tk_world t1))"
  proof (cases "ng_preferred ng")
    case None
    with f assms(1) show ?thesis by auto
  next
    case (Some ch)
    then have "ch \<in> channels ng" by (simp add: channels_def)
    from try_vouched [OF this assms(1)] f Some show ?thesis by auto
  qed
  have v2: "I (tk_world t2) \<and> (\<forall>reply. r2 = Some (Inr reply) \<longrightarrow> V request reply (tk_world t2))"
    if "ng_fallback ng = Some ch" "call_channel ch request expected d t1 = (r2, t2)" for ch r2 t2
    using call_vouched [of ch t1] v1 that by (simp add: channels_def)
  show ?thesis
  proof (cases r1)
    case None
    with f assms(2) v1 show ?thesis by (auto simp: negotiator_exchange_def)
  next
    case (Some o1)
    show ?thesis
    proof (cases o1)
      case (Inl ex)
      with f assms(2) v1 Some show ?thesis by (auto simp: negotiator_exchange_def)
    next
      case (Inr ul)
      obtain u l where ul: "ul = (u, l)" by fastforce
      show ?thesis
      proof (cases "ng_fallback ng")
        case None
        with f assms(2) v1 Some Inr ul show ?thesis by (auto simp: negotiator_exchange_def)
      next
        case (Some ch)
        obtain r2 t2 where c: "call_channel ch request expected d t1 = (r2, t2)" by fastforce
        with v2 [OF Some c] f assms(2) \<open>r1 = Some o1\<close> Inr ul Some show ?thesis
          by (auto simp: negotiator_exchange_def split: option.splits sum.splits exchange_error.splits)
      qed
    qed
  qed
qed

lemma fresh_kept: "I (tk_world t) \<Longrightarrow> fresh_id ng t = (i, t') \<Longrightarrow> I (tk_world t')"
  using ids_kept by (auto simp: fresh_id_def Let_def split: prod.splits)

text \<open>An acceptance the negotiation ends with was vouched for, for the quote that was asked about.\<close>

definition granted :: "uuid \<Rightarrow> swap_accept \<Rightarrow> 'w \<Rightarrow> bool" where
  "granted quote_id accept w \<longleftrightarrow> sa_quote_id accept = quote_id
     \<and> (\<exists>request reply. acceptance reply = Some accept \<and> V request reply w)"

lemma status_verdict_grants:
  assumes "status_verdict i quote_id r = Some (Some accept)" and "\<forall>ex. r = Some (Inr ex) \<longrightarrow> V request (ex_reply ex) w"
  shows "granted quote_id accept w"
proof -
  from assms(1) obtain ex snapshot where r: "r = Some (Inr ex)" "ex_reply ex = MsgSwapStatusSnapshot snapshot"
    "sa_quote_id (ss_accept snapshot) = quote_id" "accept = ss_accept snapshot"
    by (auto simp: status_verdict_def split: option.splits sum.splits swap_message.splits if_splits)
  with assms(2) have "V request (MsgSwapStatusSnapshot snapshot) w" by metis
  then show ?thesis using r unfolding granted_def
    by (intro conjI exI [of _ request] exI [of _ "MsgSwapStatusSnapshot snapshot"]) simp_all
qed

lemma recover_loop_vouched:
  assumes "I (tk_world t)" and "recover_loop ng quote_id cause window d t = (r, t')"
  shows "I (tk_world t') \<and> (\<forall>accept. r = Some (Inr accept) \<longrightarrow> granted quote_id accept (tk_world t'))"
  using assms
proof (induction "window - tk_time t" arbitrary: t rule: less_induct)
  case less
  obtain i t1 where i: "fresh_id ng (t\<lparr>tk_unavailable := False\<rparr>) = (i, t1)" by fastforce
  then have t1: "tk_time t1 = tk_time t" "I (tk_world t1)"
    using fresh_time [of ng "t\<lparr>tk_unavailable := False\<rparr>"] fresh_kept [OF _ i] less.prems(1) by simp_all
  obtain q t2 where q: "negotiator_exchange ng (status_of_quote i quote_id) is_snapshot (min window d) t1 = (q, t2)" by fastforce
  note v = exchange_vouched [OF t1(2) q]
  have time: "tk_time t \<le> tk_time t2"
    using exchange_on_time [of "min window d" t1 ng "status_of_quote i quote_id" is_snapshot] q t1(1) by (simp add: on_time_def)
  note unfold = less.prems(2) [unfolded recover_loop.simps [of ng quote_id cause window d t] i Let_def q prod.case]
  show ?case
  proof (cases "q = None \<and> d < window \<or> status_verdict i quote_id q \<noteq> None \<or> window \<le> tk_time t2 \<or> d < min (tk_time t2 + RECOVERY_POLL) window")
    case True
    with unfold v status_verdict_grants [of i quote_id q] show ?thesis
      by (auto split: if_splits option.splits)
  next
    case False
    then have w: "tk_time t2 < window" and
      rec: "recover_loop ng quote_id cause window d (t2\<lparr>tk_time := min (tk_time t2 + RECOVERY_POLL) window\<rparr>) = (r, t')"
      using unfold by (auto split: if_splits)
    from w time have "window - min (tk_time t2 + RECOVERY_POLL) window < window - tk_time t"
      by (simp add: RECOVERY_POLL_def)
    then show ?thesis using less.hyps [OF _ _ rec] v by simp
  qed
qed

lemma recover_vouched:
  "I (tk_world t) \<Longrightarrow> recover_swap ng quote_id cause d t = (r, t')
   \<Longrightarrow> I (tk_world t') \<and> (\<forall>accept. r = Some (Inr accept) \<longrightarrow> granted quote_id accept (tk_world t'))"
  unfolding recover_swap_def by (rule recover_loop_vouched)

lemma accept_granted:
  "V request (MsgSwapAccept accept) w \<Longrightarrow> sa_quote_id accept = quote_id \<Longrightarrow> granted quote_id accept w"
  unfolding granted_def by (intro conjI exI [of _ request] exI [of _ "MsgSwapAccept accept"]) simp_all

lemma create_vouched:
  assumes "I (tk_world t)" and "create_swap ng request t = (Inr accept, t')"
  shows "granted (sr_quote_id request) accept (tk_world t')"
proof -
  let ?d = "tk_time t + RECOVERY_WINDOW"
  obtain r t1 where e: "negotiator_exchange ng (MsgSwapRequest request) is_accept ?d t = (r, t1)" by fastforce
  note v = exchange_vouched [OF assms(1) e]
  have rec: "granted (sr_quote_id request) a t2" if "recover_swap ng (sr_quote_id request) cause ?d t1 = (Some (Inr a), t')" "t2 = tk_world t'" for a cause t2
    using recover_vouched [OF _ that(1)] v that(2) by simp
  have acc: "granted (sr_quote_id request) a (tk_world t1)" if "r = Some (Inr ex)" "ex_reply ex = MsgSwapAccept a" "sa_quote_id a = sr_quote_id request" for a ex
    using v that accept_granted [of "MsgSwapRequest request"] by metis
  from assms(2) e rec acc show ?thesis
    unfolding create_swap_def negotiation_deadline_def for_this_quote_def
    by (auto split: option.splits prod.splits sum.splits swap_message.splits exchange_error.splits if_splits)
qed

lemma recover_creation_vouched:
  assumes "I (tk_world t)" and "recover_creation ng request t = (Inr accept, t')"
  shows "granted (sr_quote_id request) accept (tk_world t')"
proof -
  let ?d = "tk_time t + RECOVERY_WINDOW"
  obtain r t1 where e: "negotiator_exchange ng (MsgSwapRequest request) is_accept ?d t = (r, t1)" by fastforce
  note v = exchange_vouched [OF assms(1) e]
  have rec: "granted (sr_quote_id request) a t2" if "recover_swap ng (sr_quote_id request) cause ?d t1 = (Some (Inr a), t')" "t2 = tk_world t'" for a cause t2
    using recover_vouched [OF _ that(1)] v that(2) by simp
  have acc: "granted (sr_quote_id request) a (tk_world t1)" if "r = Some (Inr ex)" "ex_reply ex = MsgSwapAccept a" "sa_quote_id a = sr_quote_id request" for a ex
    using v that accept_granted [of "MsgSwapRequest request"] by metis
  from assms(2) e rec acc show ?thesis
    unfolding recover_creation_def negotiation_deadline_def
    by (auto split: option.splits prod.splits sum.splits swap_message.splits if_splits)
qed

end

subsection \<open>The provider behind an unreliable transport\<close>

text \<open>What becomes of one request: it may not leave, may be lost on the way, or be handled with its reply lost
  or brought back. Before it arrives the provider's drivers and pruner may have written to the directory.\<close>

datatype fate = Unreachable string | LostRequest string | LostReply string | Delivered

record delivery =
  dl_fate :: fate
  dl_took :: nat
  dl_meanwhile :: "dir \<Rightarrow> dir"
  dl_answers :: answers
  dl_offer :: "swap_offer option"

record 'c served =
  sv_state :: "'c provider_state"
  sv_script :: "delivery list"

text \<open>The first reply that went out to the sender.\<close>

definition reply_sent :: "string \<Rightarrow> 'c provider_state \<Rightarrow> 'c provider_state \<Rightarrow> swap_message option" where
  "reply_sent sender s s' = map_option (\<lambda>(p, m, out). m)
     (List.find (\<lambda>(p, m, out). p = sender \<and> out = Sent) (replies (drop (length (ps_log s)) (ps_log s'))))"

definition while_away :: "delivery \<Rightarrow> 'c provider_state \<Rightarrow> 'c provider_state" where
  "while_away d s = s\<lparr>ps_store := dl_meanwhile d (ps_store s)\<rparr>"

definition handled ::
  "ext \<Rightarrow> provider_ext \<Rightarrow> (bytes \<Rightarrow> policy_file option) \<Rightarrow> 'c codec \<Rightarrow> exec_ctx \<Rightarrow> string \<Rightarrow> swap_message \<Rightarrow> delivery
   \<Rightarrow> 'c provider_state \<Rightarrow> 'c provider_state" where
  "handled x px pp c cx sender m d s = snd (handle_message x px pp c cx (dl_answers d) (dl_offer d) sender m s)"

fun serve_request ::
  "ext \<Rightarrow> provider_ext \<Rightarrow> (bytes \<Rightarrow> policy_file option) \<Rightarrow> 'c codec \<Rightarrow> exec_ctx \<Rightarrow> string \<Rightarrow> swap_message \<Rightarrow> nat \<Rightarrow> 'c served
   \<Rightarrow> (nat \<times> swap_message raw_reply) option \<times> 'c served" where
  "serve_request x px pp c cx sender m budget w =
     (case sv_script w of
        [] \<Rightarrow> (None, w)
      | d # rest \<Rightarrow>
          let s = while_away d (sv_state w); s' = handled x px pp c cx sender m d s
          in case dl_fate d of
               Unreachable e \<Rightarrow> (Some (dl_took d, RawNotSent e), w\<lparr>sv_state := s, sv_script := rest\<rparr>)
             | LostRequest e \<Rightarrow> (Some (dl_took d, RawFailed e), w\<lparr>sv_state := s, sv_script := rest\<rparr>)
             | LostReply e \<Rightarrow> (Some (dl_took d, RawFailed e), w\<lparr>sv_state := s', sv_script := rest\<rparr>)
             | Delivered \<Rightarrow> (map_option (\<lambda>reply. (dl_took d, RawBytes reply)) (reply_sent sender s s'),
                 w\<lparr>sv_state := s', sv_script := rest\<rparr>))"

declare serve_request.simps [simp del]

definition served_channel ::
  "ext \<Rightarrow> provider_ext \<Rightarrow> (bytes \<Rightarrow> policy_file option) \<Rightarrow> 'c codec \<Rightarrow> exec_ctx \<Rightarrow> string \<Rightarrow> 'c served channel" where
  "served_channel x px pp c cx sender = iroh_channel Inr (serve_request x px pp c cx sender)"

text \<open>Preferred, fallback or both.\<close>

definition served_negotiator ::
  "bool \<Rightarrow> bool \<Rightarrow> ('c served \<Rightarrow> uuid) \<Rightarrow> 'c served channel \<Rightarrow> 'c served negotiator" where
  "served_negotiator preferred fallback ids ch =
     \<lparr>ng_preferred = (if preferred then Some ch else None), ng_fallback = (if fallback then Some ch else None), ng_new_id = (\<lambda>w. (ids w, w))\<rparr>"

text \<open>The swaps on disk, and the ids the provider will number new ones with.\<close>

definition script_ids :: "delivery list \<Rightarrow> uuid list" where
  "script_ids ds = map (\<lambda>d. an_swap_id (dl_answers d)) ds"

definition kind_meanwhile :: "ext \<Rightarrow> 'c codec \<Rightarrow> delivery \<Rightarrow> bool" where
  "kind_meanwhile x c d \<longleftrightarrow> (\<forall>dir. in_order x c dir \<longrightarrow> background x c dir (dl_meanwhile d dir))"

definition served_well :: "ext \<Rightarrow> 'c codec \<Rightarrow> 'c served \<Rightarrow> bool" where
  "served_well x c w \<longleftrightarrow> in_order x c (ps_store (sv_state w)) \<and> one_each x (records_in c (sv_state w))
     \<and> distinct (script_ids (sv_script w))
     \<and> set (script_ids (sv_script w)) \<inter> r_swap_id ` records_in c (sv_state w) = {}
     \<and> (\<forall>d\<in>set (sv_script w). kind_meanwhile x c d)"

text \<open>The swap an acceptance speaks of is on disk, admitted, and its owner's is the sender's.\<close>

definition on_record :: "provider_ext \<Rightarrow> 'c codec \<Rightarrow> string \<Rightarrow> 'c provider_state \<Rightarrow> swap_accept \<Rightarrow> bool" where
  "on_record px c sender s accept \<longleftrightarrow> (\<exists>r\<in>records_in c s. r_swap_accept r = Some accept \<and> admitted r
     \<and> same_pubky (px_pubky px) (r_peer r) sender)"

lemma lawful_keeps:
  "lawful x px new K F l \<Longrightarrow> r \<in> K \<Longrightarrow> admitted r \<Longrightarrow> r \<in> fold (\<lambda>a K. known_after K a) l K"
proof (induction l arbitrary: K F)
  case (Cons a l)
  have "r \<in> known_after K a"
  proof (cases a)
    case (Persisted r' ok)
    with Cons.prems show ?thesis by (cases ok) (auto simp: may_write_def split: if_splits)
  qed (use Cons.prems in simp_all)
  with Cons show ?case by auto
qed simp

lemma lawful_reply_recorded:
  "lawful x px new K F l \<Longrightarrow> (p, MsgSwapAccept accept, out) \<in> set (replies l)
   \<Longrightarrow> \<exists>r\<in>fold (\<lambda>a K. known_after K a) l K. r_swap_accept r = Some accept \<and> admitted r \<and> same_pubky (px_pubky px) (r_peer r) p"
proof (induction l arbitrary: K F)
  case (Cons a l)
  show ?case
  proof (cases "(p, MsgSwapAccept accept, out) \<in> set (replies l)")
    case True
    with Cons.IH [of "known_after K a" "undriven_after F a"] Cons.prems(1) show ?thesis by simp
  next
    case False
    with Cons.prems have "a = Replied p (MsgSwapAccept accept) out" by (cases a) auto
    with Cons.prems obtain r where "r \<in> known_after K a" "r_swap_accept r = Some accept" "admitted r" "same_pubky (px_pubky px) (r_peer r) p"
      by auto
    moreover from this have "r \<in> fold (\<lambda>a K. known_after K a) l (known_after K a)"
      using Cons.prems(1) by (intro lawful_keeps [of x px new _ "undriven_after F a"]) auto
    ultimately show ?thesis by auto
  qed
qed simp

lemma lawful_ids:
  "lawful x px new K F l \<Longrightarrow> r_swap_id ` (fold (\<lambda>a K. known_after K a) l K) \<subseteq> insert new (r_swap_id ` K)"
proof (induction l arbitrary: K F)
  case (Cons a l)
  have "r_swap_id ` known_after K a \<subseteq> insert new (r_swap_id ` K)"
  proof (cases a)
    case (Persisted r ok)
    with Cons.prems show ?thesis by (cases ok) auto
  qed (simp_all add: subset_insertI)
  moreover have "r_swap_id ` (fold (\<lambda>a K. known_after K a) l (known_after K a)) \<subseteq> insert new (r_swap_id ` known_after K a)"
    using Cons.prems by (intro Cons.IH [of _ "undriven_after F a"]) simp
  ultimately show ?case by (simp, blast)
qed (simp add: subset_insertI)

lemma while_away_well:
  assumes "kind_meanwhile x c d" and "in_order x c (ps_store s)" and "one_each x (records_in c s)"
  shows "in_order x c (ps_store (while_away d s)) \<and> one_each x (records_in c (while_away d s))
    \<and> r_swap_id ` records_in c (while_away d s) \<subseteq> r_swap_id ` records_in c s"
proof -
  have bg: "background x c (ps_store s) (ps_store (while_away d s))"
    using assms(1,2) by (simp add: kind_meanwhile_def while_away_def)
  then have k: "\<exists>r\<in>records_in c s. r_swap_id r = r_swap_id r' \<and> identity r = identity r'" if "r' \<in> records_in c (while_away d s)" for r'
    using that unfolding background_def by blast
  have "one_each x (records_in c (while_away d s))" by (rule one_each_background [OF assms(3) k])
  moreover have "r_swap_id ` records_in c (while_away d s) \<subseteq> r_swap_id ` records_in c s" 
    by (rule image_subsetI, drule k, metis imageI)
  ultimately show ?thesis using bg by (simp add: background_def)
qed

lemma handled_tracks:
  assumes "sound_setting x c" and "in_order x c (ps_store s)" and "one_each x (records_in c s)"
    and "an_swap_id (dl_answers d) \<notin> r_swap_id ` records_in c s"
  shows "tracks x px (an_swap_id (dl_answers d)) c s (handled x px pp c cx sender m d s)"
  unfolding handled_def
  by (rule handle_tracks [OF assms(1) tracks_refl [OF assms(2,3)]]) (use assms(4) in \<open>unfold fresh_ids_def, metis imageI\<close>)

lemma status_recorded:
  assumes "in_order x c d" and "named_codec x c" and "answer_status x px c t d sender auth request = Inr snapshot"
  shows "\<exists>r\<in>set (load_all c d). r_swap_accept r = Some (ss_accept snapshot) \<and> admitted r \<and> same_pubky (px_pubky px) (r_peer r) sender"
proof -
  let ?found = "case (ssr_swap_id request, ssr_quote_id request) of
         (Some swap_id, None) \<Rightarrow> map_err Internal (store_get x c swap_id d)
       | (None, Some quote_id) \<Rightarrow> map_err Internal (swap_for_quote c d quote_id)
       | _ \<Rightarrow> Inl (Refusal RcInvalidRequest ''exactly one of swap_id and quote_id is required'')"
  from assms(3) obtain found where f: "?found = Inr found"
    and found: "(case found of None \<Rightarrow> Inl (Lookup LookupNotFound)
      | Some r \<Rightarrow> if \<not> authorized_peer px r sender auth then Inl (Lookup LookupNotFound)
          else if r_pending_hold_invoice r \<noteq> None then Inl (Lookup LookupPending)
          else ok_or (Internal (AnyMsg ''this older swap has no persisted acceptance''))
                 (status_snapshot r (ssr_request_id request) t)) = Inr snapshot"
    unfolding answer_status_def try_bind_Inr by blast
  then obtain r where r: "?found = Inr (Some r)" "authorized_peer px r sender auth" "r_pending_hold_invoice r = None"
    "status_snapshot r (ssr_request_id request) t = Some snapshot"
    by (cases found) (auto split: if_splits)
  have "r \<in> set (load_all c d)"
  proof (cases "ssr_swap_id request")
    case None
    with r(1) obtain i rs where "load_all_checked c d = Inr rs" "List.find (\<lambda>r. case r_swap_request r of
        None \<Rightarrow> False | Some original \<Rightarrow> sr_quote_id original = i) rs = Some r"
      by (auto simp: swap_for_quote_def try_bind_Inr map_err_Inr split: option.splits)
    then show ?thesis using load_all_checked_Inr [of c d rs] by (auto dest: find_SomeD)
  next
    case (Some i)
    with r(1) have "store_get x c i d = Inr (Some r)" by (auto simp: map_err_Inr split: option.splits)
    from store_get_member [OF assms(1,2) this] show ?thesis by simp
  qed
  moreover from r(4) have "r_swap_accept r = Some (ss_accept snapshot)"
    by (auto simp: status_snapshot_def split: option.splits)
  ultimately show ?thesis using r(2,3) by (intro bexI [of _ r]) (simp_all add: authorized_peer_def admitted_def)
qed

lemma sent_recorded:
  assumes st: "sound_setting x c" and s: "in_order x c (ps_store s)" "one_each x (records_in c s)"
    and new: "an_swap_id (dl_answers d) \<notin> r_swap_id ` records_in c s"
    and reply: "reply_sent sender s (handled x px pp c cx sender request d s) = Some reply"
    and match: "reply_matches request reply" "acceptance reply = Some accept"
  shows "on_record px c sender (handled x px pp c cx sender request d s) accept"
proof -
  let ?s = "handled x px pp c cx sender request d s"
  from handled_tracks [OF st s new, of px pp cx sender request] obtain l where l: "ps_log ?s = ps_log s @ l"
    "lawful x px (an_swap_id (dl_answers d)) (records_in c s) (undriven (ps_log s)) l"
    "records_in c ?s = fold (\<lambda>a K. known_after K a) l (records_in c s)" by (auto simp: tracks_def)
  from reply l(1) have m: "(sender, reply, Sent) \<in> set (replies l)"
    by (auto simp: reply_sent_def dest: find_SomeD)
  show ?thesis
  proof (cases reply)
    case (MsgSwapAccept a)
    with match m lawful_reply_recorded [OF l(2), of sender accept Sent] l(3) show ?thesis
      unfolding on_record_def by auto
  next
    case (MsgSwapStatusSnapshot snapshot)
    with match obtain q where q: "request = MsgSwapStatusRequest q" "accept = ss_accept snapshot"
      by (auto simp: reply_matches_def split: swap_message.splits)
    let ?r = "answer_status x px c (an_now (dl_answers d)) (ps_store s) sender (authorization cx) q"
    have h: "?s = snd (answer_or_reject (dl_answers d) sender (ssr_request_id q) (ssr_swap_id q) (ssr_quote_id q) lookup_code
      MsgSwapStatusSnapshot ?r s)" by (simp add: handled_def q)
    with l(1) m have "?r = Inr snapshot"
      by (cases ?r) (auto simp: answer_or_reject_def reject_with_def reject_message_def respond_def log_action_def Let_def MsgSwapStatusSnapshot)
    moreover have "ps_store ?s = ps_store s"
      unfolding h by (cases ?r) (simp_all add: answer_or_reject_def reject_with_def respond_def log_action_def Let_def)
    ultimately show ?thesis
      using status_recorded [OF s(1), of px "an_now (dl_answers d)" sender "authorization cx" q snapshot] st q(2)
      by (simp add: on_record_def sound_setting_def)
  qed (use match in simp_all)
qed

definition vouched :: "provider_ext \<Rightarrow> 'c codec \<Rightarrow> string \<Rightarrow> swap_message \<Rightarrow> swap_message \<Rightarrow> 'c served \<Rightarrow> bool" where
  "vouched px c sender request reply w \<longleftrightarrow>
     (\<forall>accept. acceptance reply = Some accept \<longrightarrow> on_record px c sender (sv_state w) accept)"

lemma subset_insert_trans: "A \<subseteq> insert i B \<Longrightarrow> B \<subseteq> C \<Longrightarrow> A \<subseteq> insert i C"
  by blast

lemma served_wellI:
  assumes "in_order x c (ps_store s)" "one_each x (records_in c s)" "distinct (script_ids ds)" "set (script_ids ds) \<inter> A = {}"
    and "r_swap_id ` records_in c s \<subseteq> insert i A" "i \<notin> set (script_ids ds)" "\<forall>d\<in>set ds. kind_meanwhile x c d"
  shows "served_well x c (w\<lparr>sv_state := s, sv_script := ds\<rparr>)"
proof -
  have "set (script_ids ds) \<inter> r_swap_id ` records_in c s = {}" using assms(4-6) by blast
  with assms show ?thesis by (simp add: served_well_def)
qed

lemma serve_vouched:
  assumes st: "sound_setting x c" and w: "served_well x c w"
    and e: "serve_request x px pp c cx sender request budget w = (res, w')"
  shows "served_well x c w' \<and> (\<forall>took reply. res = Some (took, RawBytes reply) \<longrightarrow> reply_matches request reply
     \<longrightarrow> vouched px c sender request reply w')"
proof (cases "sv_script w")
  case Nil
  with w e show ?thesis by (auto simp: serve_request.simps)
next
  case (Cons d rest)
  let ?s = "while_away d (sv_state w)" and ?s' = "handled x px pp c cx sender request d (while_away d (sv_state w))"
  let ?i = "an_swap_id (dl_answers d)"
  have w0: "in_order x c (ps_store (sv_state w))" "one_each x (records_in c (sv_state w))" "kind_meanwhile x c d"
    "?i \<notin> r_swap_id ` records_in c (sv_state w)" "?i \<notin> set (script_ids rest)" "distinct (script_ids rest)"
    "set (script_ids rest) \<inter> r_swap_id ` records_in c (sv_state w) = {}" "\<forall>d\<in>set rest. kind_meanwhile x c d"
    using w by (auto simp: served_well_def Cons script_ids_def)
  note away = while_away_well [OF w0(3,1,2)]
  then have new: "?i \<notin> r_swap_id ` records_in c ?s" using w0(4) by blast
  note t = handled_tracks [OF st conjunct1 [OF away] _ new, of px pp cx sender request]
  have t: "tracks x px ?i c ?s ?s'" using t away by blast
  then obtain l where "lawful x px ?i (records_in c ?s) (undriven (ps_log ?s)) l"
    "records_in c ?s' = fold (\<lambda>a K. known_after K a) l (records_in c ?s)" by (auto simp: tracks_def)
  then have "r_swap_id ` records_in c ?s' \<subseteq> insert ?i (r_swap_id ` records_in c ?s)" using lawful_ids by metis
  moreover have sub: "r_swap_id ` records_in c ?s \<subseteq> r_swap_id ` records_in c (sv_state w)" using away by simp
  ultimately have ids: "r_swap_id ` records_in c ?s' \<subseteq> insert ?i (r_swap_id ` records_in c (sv_state w))" by (rule subset_insert_trans)
  have w1: "served_well x c (w\<lparr>sv_state := ?s', sv_script := rest\<rparr>)"
    by (rule served_wellI [OF tracks_order [OF t] tracks_one_each [OF t] w0(6,7) ids w0(5,8)])
  have w2: "served_well x c (w\<lparr>sv_state := ?s, sv_script := rest\<rparr>)"
    using away by (intro served_wellI [OF _ _ w0(6,7) _ w0(5,8)] subset_insertI2) simp_all
  have v: "vouched px c sender request reply (w\<lparr>sv_state := ?s', sv_script := rest\<rparr>)"
    if "reply_sent sender ?s ?s' = Some reply" "reply_matches request reply" for reply
    using sent_recorded [OF st _ _ new that] away by (simp add: vouched_def)
  show ?thesis
    using e w1 w2 v by (cases "dl_fate d") (auto simp: serve_request.simps Cons Let_def)
qed

lemma served_channel_vouched:
  assumes "sound_setting x c \<and> served_well x c w"
    and "ch_exchange (served_channel x px pp c cx sender) request expected budget w = (res, w')"
  shows "(sound_setting x c \<and> served_well x c w')
    \<and> (\<forall>took reply. res = Some (took, Inr reply) \<longrightarrow> vouched px c sender request reply w')"
proof -
  obtain r w1 where e: "serve_request x px pp c cx sender request budget w = (r, w1)" by fastforce
  note v = serve_vouched [OF conjunct1 [OF assms(1)] conjunct2 [OF assms(1)] e]
  with assms e show ?thesis
    by (auto simp: served_channel_def iroh_channel_def iroh_reply_def split: option.splits raw_reply.splits if_splits)
qed

interpretation served: vouching "served_negotiator preferred fallback ids (served_channel x px pp c cx sender)"
    "\<lambda>w. sound_setting x c \<and> served_well x c w" "vouched px c sender"
  for preferred :: bool and fallback :: bool and ids :: "'c served \<Rightarrow> uuid" and x :: ext and px :: provider_ext
    and pp :: "bytes \<Rightarrow> policy_file option" and c :: "'c codec" and cx :: exec_ctx and sender :: string
proof unfold_locales
  fix ch w request expected budget res w'
  assume "ch \<in> channels (served_negotiator preferred fallback ids (served_channel x px pp c cx sender))"
    and w: "sound_setting x c \<and> served_well x c w" and e: "ch_exchange ch request expected budget w = (res, w')"
  then have "ch = served_channel x px pp c cx sender" by (auto simp: channels_def served_negotiator_def split: if_splits)
  with served_channel_vouched [OF w] e show "(sound_setting x c \<and> served_well x c w')
    \<and> (\<forall>took reply. res = Some (took, Inr reply) \<longrightarrow> vouched px c sender request reply w')" by blast
qed (auto simp: served_negotiator_def)

lemma granted_on_record:
  "served.granted px c sender quote_id accept w \<Longrightarrow> sa_quote_id accept = quote_id \<and> on_record px c sender (sv_state w) accept"
  by (auto simp: served.granted_def vouched_def)

subsection \<open>Property\<close>


definition shop_delivery :: "fate \<Rightarrow> delivery" where
  "shop_delivery f = \<lparr>dl_fate = f, dl_took = 5, dl_meanwhile = (\<lambda>d. d),
     dl_answers = (if f = Delivered then shop_answers Sent else (shop_answers Sent)\<lparr>an_swap_id := 9\<rparr>), dl_offer = None\<rparr>"

text \<open>The first request breaks off on its way, the second is answered.\<close>

definition shop_talk :: "unit served talk" where
  "shop_talk = \<lparr>tk_unavailable = False, tk_time = 0, tk_world = \<lparr>sv_state = shop_state,
     sv_script = [shop_delivery (LostRequest ''broken''), shop_delivery Delivered]\<rparr>\<rparr>"

definition shop_negotiator :: "unit served negotiator" where
  "shop_negotiator = served_negotiator True False (\<lambda>_. 4)
     (served_channel sample_ext keyring_px (\<lambda>_. None) shop_codec shop_cx shop_peer)"

lemma shop_talk_well: "served_well sample_ext shop_codec (tk_world shop_talk)"
proof -
  have "kind_meanwhile sample_ext shop_codec (shop_delivery f)" for f
    by (auto simp: kind_meanwhile_def shop_delivery_def background_def)
  moreover have "distinct (script_ids (sv_script (tk_world shop_talk)))"
    by (simp add: shop_talk_def script_ids_def shop_delivery_def)
  moreover have "records_in shop_codec shop_state = {}" by (simp add: shop_state_def load_all_def)
  ultimately show ?thesis
    using shop_setting(2,3) by (simp add: served_well_def shop_talk_def)
qed

lemma shop_reply:
  "reply_sent shop_peer shop_state (handled sample_ext keyring_px (\<lambda>_. None) shop_codec shop_cx shop_peer (MsgSwapRequest shop_request)
     (shop_delivery Delivered) shop_state) = Some (MsgSwapAccept shop_accept)"
  using shop_served(1) [of Sent]
  by (simp add: reply_sent_def handled_def shop_delivery_def shop_serve_def shop_log_def shop_state_def)

lemma shop_accept_fields: "sa_quote_id shop_accept = 2"
  by (simp add: shop_accept_def submarine_accept_def)

lemma shop_created: "fst (create_swap shop_negotiator shop_request shop_talk) = Inr shop_accept"
proof -
  have away: "while_away (shop_delivery f) s = s" for f and s :: "unit provider_state"
    by (simp add: while_away_def shop_delivery_def)
  have d: "dl_fate (shop_delivery f) = f" "dl_took (shop_delivery f) = 5" for f
    by (simp_all add: shop_delivery_def)
  show ?thesis
    using shop_reply
    by (simp add: create_swap_def negotiation_deadline_def negotiator_exchange_def numeral_2_eq_2 call_channel_def shop_negotiator_def
        served_negotiator_def served_channel_def iroh_channel_def iroh_reply_def serve_request.simps shop_talk_def away d
        for_this_quote_def RECOVERY_WINDOW_def reply_matches_def shop_accept_fields Let_def)
qed


end
