(* ===== verification/Negotiation_Limits.thy ===== *)
theory Negotiation_Limits
  imports Negotiation
begin

text \<open>
  The limits of a negotiation: the time every call may take, what the recovery of a creation can end
  with, and which messages of the DM inbox an exchange may give back.
\<close>

subsection \<open>Every call ends in time\<close>

lemma wakes_later: "a \<le> b \<Longrightarrow> b < window \<Longrightarrow> window - min (b + RECOVERY_POLL) window < window - a"
  by (auto simp: min_def RECOVERY_POLL_def)

lemma on_time_same: "tk_time t2 = tk_time t1 \<Longrightarrow> on_time d t t2 = on_time d t t1"
  by (simp add: on_time_def)

lemma snd_for_this_quote [simp]: "snd (for_this_quote request rt) = snd rt"
  by (auto simp: for_this_quote_def split: prod.split option.split sum.split)

lemma recover_loop_on_time:
  "on_time d t (snd (recover_loop ng quote_id cause window d t))"
proof (induction "window - tk_time t" arbitrary: t rule: less_induct)
  case less
  obtain i t1 where i: "fresh_id ng (t\<lparr>tk_unavailable := False\<rparr>) = (i, t1)" by fastforce
  then have t1: "tk_time t1 = tk_time t" using fresh_time [of ng "t\<lparr>tk_unavailable := False\<rparr>"] by simp
  obtain q t2 where q: "negotiator_exchange ng (status_of_quote i quote_id) is_snapshot (min window d) t1 = (q, t2)" by fastforce
  have t2: "on_time (min window d) t1 t2"
    using exchange_on_time [of "min window d" t1 ng "status_of_quote i quote_id" is_snapshot] by (simp add: q)
  then have s: "tk_time t \<le> tk_time t2" "on_time d t t2" using t1 by (auto simp: on_time_def)
  note unfold = recover_loop.simps [of ng quote_id cause window d t, unfolded i Let_def q prod.case]
  let ?wake = "min (tk_time t2 + RECOVERY_POLL) window"
  show ?case
  proof (cases "status_verdict i quote_id q = None \<and> tk_time t2 < window \<and> ?wake \<le> d \<and> \<not> (q = None \<and> d < window)")
    case True
    have less_window: "window - tk_time (t2\<lparr>tk_time := ?wake\<rparr>) < window - tk_time t"
      using True s wakes_later [of "tk_time t" "tk_time t2" window] by simp
    have "on_time d t (t2\<lparr>tk_time := ?wake\<rparr>)"
      using True s(1) unfolding on_time_def by (auto intro: max.coboundedI1)
    moreover have "recover_loop ng quote_id cause window d t = recover_loop ng quote_id cause window d (t2\<lparr>tk_time := ?wake\<rparr>)"
      using True by (subst unfold) auto
    ultimately show ?thesis using less [OF less_window] on_time_trans by metis
  next
    case False
    then show ?thesis using s unfolding unfold by (auto simp: on_time_def split: option.split)
  qed
qed

lemma recover_on_time: "on_time d t (snd (recover_swap ng quote_id cause d t))"
  by (simp add: recover_swap_def recover_loop_on_time)

definition ends_in_time :: "nat \<Rightarrow> 'w talk \<Rightarrow> 'a \<times> 'w talk \<Rightarrow> bool" where
  "ends_in_time budget t rt \<longleftrightarrow> tk_time t \<le> tk_time (snd rt) \<and> tk_time (snd rt) \<le> tk_time t + budget"

lemma deadline_ends:
  assumes "on_time (tk_time t + RECOVERY_WINDOW) t (snd (future (tk_time t + RECOVERY_WINDOW) t))"
  shows "ends_in_time RECOVERY_WINDOW t (negotiation_deadline future t)"
  using assms by (auto simp: negotiation_deadline_def on_time_def ends_in_time_def split: prod.splits option.splits)

lemma acknowledge_time [simp]: "tk_time (snd (negotiator_acknowledge ng request t)) = tk_time t"
  by (auto simp: negotiator_acknowledge_def split: prod.split sum.split)

lemma acknowledged_time [simp]: "tk_time (snd (acknowledged_with ng request v t)) = tk_time t"
  using acknowledge_time [of ng request t]
  by (cases "negotiator_acknowledge ng request t") (simp add: acknowledged_with_def split: sum.split)

lemma ask_on_time:
  assumes "\<And>reply t. tk_time (snd (k reply t)) = tk_time t"
  shows "on_time d t (snd (ask ng request expected k d t))"
proof -
  obtain r t1 where e: "negotiator_exchange ng request expected d t = (r, t1)" by fastforce
  then have t1: "on_time d t t1" using exchange_on_time [of d t ng request expected] by simp
  then have "on_time d t (snd (k reply t1))" for reply using on_time_same [OF assms] by blast
  with t1 e show ?thesis by (simp add: ask_def case_prod_beta split: option.split sum.split)
qed

lemma get_offer_ends: "ends_in_time RECOVERY_WINDOW t (get_offer ng t)"
proof -
  have "on_time d t (snd (ask ng (MsgOfferRequest \<lparr>or_request_id = Some i\<rparr>) is_offer (\<lambda>reply t. case reply of
          MsgOffer offer \<Rightarrow> if of_request_id offer = Some i then acknowledged_with ng (MsgOfferRequest \<lparr>or_request_id = Some i\<rparr>) offer t
            else (Inl (NMsg ''offer answers a different request''), t)
        | other \<Rightarrow> (Inl (rejection other), t)) d t1))" if "tk_time t1 = tk_time t" for d i t1
    using ask_on_time [of "\<lambda>reply t. case reply of
          MsgOffer offer \<Rightarrow> if of_request_id offer = Some i then acknowledged_with ng (MsgOfferRequest \<lparr>or_request_id = Some i\<rparr>) offer t
            else (Inl (NMsg ''offer answers a different request''), t)
        | other \<Rightarrow> (Inl (rejection other), t)" d t1] that
    by (auto simp: on_time_def split: swap_message.split)
  then show ?thesis unfolding get_offer_def by (intro deadline_ends) (simp add: case_prod_beta Let_def)
qed

lemma get_quote_ends: "ends_in_time RECOVERY_WINDOW t (get_quote ng request t)"
  unfolding get_quote_def by (intro deadline_ends ask_on_time) (simp split: swap_message.split)

lemma get_status_ends: "ends_in_time RECOVERY_WINDOW t (get_status ng request t)"
  unfolding get_status_def by (intro deadline_ends ask_on_time) (simp split: swap_message.split)

lemma get_list_ends: "ends_in_time RECOVERY_WINDOW t (get_list ng request t)"
proof -
  have "on_time d t (snd (ask ng (MsgSwapListRequest req) is_list (\<lambda>reply t. case reply of
          MsgSwapList l \<Rightarrow> if sl_request_id l = slr_request_id req then (Inr l, t)
            else (Inl (NMsg ''listing answers a different request''), t)
        | other \<Rightarrow> (Inl (rejection other), t)) d t1))" if "tk_time t1 = tk_time t" for d req t1
    using ask_on_time [of "\<lambda>reply t. case reply of
          MsgSwapList l \<Rightarrow> if sl_request_id l = slr_request_id req then (Inr l, t)
            else (Inl (NMsg ''listing answers a different request''), t)
        | other \<Rightarrow> (Inl (rejection other), t)" d t1] that
    by (auto simp: on_time_def split: swap_message.split)
  then show ?thesis unfolding get_list_def by (intro deadline_ends) (simp add: case_prod_beta Let_def split: option.split)
qed

lemma ends_in_time_trans:
  "ends_in_time budget t (v, t1) \<Longrightarrow> ends_in_time (n * budget) t1 rt \<Longrightarrow> ends_in_time (Suc n * budget) t rt"
  by (simp add: ends_in_time_def)

lemma list_pages_ends: "ends_in_time (n * RECOVERY_WINDOW) t (list_pages n ng active cursor all t)"
proof (induction n arbitrary: cursor all t)
  case (Suc n)
  obtain r t1 where g: "get_list ng \<lparr>slr_request_id = None, slr_cursor = cursor, slr_limit = None, slr_active_only = active\<rparr> t = (r, t1)"
    by fastforce
  then have "ends_in_time RECOVERY_WINDOW t (r, t1)" using get_list_ends by metis
  then have r: "ends_in_time (Suc n * RECOVERY_WINDOW) t (v, t1)" for v :: "nego_error + swap_status_snapshot list"
    by (simp add: ends_in_time_def)
  have rest: "ends_in_time (Suc n * RECOVERY_WINDOW) t (list_pages n ng active cursor' all' t1)" for cursor' all'
    by (rule ends_in_time_trans [OF \<open>ends_in_time RECOVERY_WINDOW t (r, t1)\<close> Suc.IH])
  show ?case
  proof (cases r)
    case (Inr page)
    with g r rest show ?thesis by (simp add: Let_def split: option.split)
  qed (use g r in simp)
qed (simp add: ends_in_time_def)

lemma create_ends: "ends_in_time RECOVERY_WINDOW t (create_swap ng request t)"
proof -
  have "on_time d t (snd (for_this_quote request (case negotiator_exchange ng (MsgSwapRequest request) is_accept d t of
        (None, t) \<Rightarrow> (None, t)
      | (Some (Inr exchanged), t) \<Rightarrow> (case ex_reply exchanged of
            MsgSwapAccept accept \<Rightarrow> (Some (Inr accept), t)
          | reply \<Rightarrow> if ex_uncertain exchanged \<or> is_pending reply
              then recover_swap ng (sr_quote_id request) (rejection reply) d t
              else (Some (Inl (rejection reply)), t))
      | (Some (Inl (Uncertain e)), t) \<Rightarrow> recover_swap ng (sr_quote_id request) (NMsg e) d t
      | (Some (Inl (NotSent e)), t) \<Rightarrow> (Some (Inl (NMsg e)), t))))" for d
  proof -
    obtain r t1 where e: "negotiator_exchange ng (MsgSwapRequest request) is_accept d t = (r, t1)" by fastforce
    then have t1: "on_time d t t1" using exchange_on_time [of d t ng "MsgSwapRequest request" is_accept] by simp
    then have t2: "on_time d t (snd (recover_swap ng q cause d t1))" for q cause by (rule on_time_trans [OF _ recover_on_time])
    show ?thesis
    proof (cases r)
      case (Some o1)
      show ?thesis
      proof (cases o1)
        case (Inl err)
        with Some e t1 t2 show ?thesis by (cases err) simp_all
      next
        case (Inr ex)
        with Some e t1 t2 show ?thesis by (cases "ex_reply ex") simp_all
      qed
    qed (use e t1 in simp)
  qed
  then show ?thesis unfolding create_swap_def by (intro deadline_ends)
qed

lemma recover_creation_ends: "ends_in_time RECOVERY_WINDOW t (recover_creation ng request t)"
proof -
  let ?d = "tk_time t + RECOVERY_WINDOW"
  obtain r t1 where e: "negotiator_exchange ng (MsgSwapRequest request) is_accept ?d t = (r, t1)" by fastforce
  then have t1: "on_time ?d t t1" using exchange_on_time [of ?d t ng "MsgSwapRequest request" is_accept] by simp
  then have t2: "on_time ?d t (snd (recover_swap ng q cause ?d t1))" for q cause by (rule on_time_trans [OF _ recover_on_time])
  show ?thesis unfolding recover_creation_def
  proof (intro deadline_ends, cases r)
    case (Some o1)
    show "on_time ?d t (snd (case negotiator_exchange ng (MsgSwapRequest request) is_accept ?d t of
        (None, t) \<Rightarrow> (None, t)
      | (Some (Inr exchanged), t) \<Rightarrow>
          (case ex_reply exchanged of
             MsgSwapAccept accept \<Rightarrow> if sa_quote_id accept = sr_quote_id request then (Some (Inr accept), t)
               else recover_swap ng (sr_quote_id request) (rejection (MsgSwapAccept accept)) ?d t
           | reply \<Rightarrow> recover_swap ng (sr_quote_id request) (rejection reply) ?d t)
      | (Some (Inl e), t) \<Rightarrow> recover_swap ng (sr_quote_id request) (into_inner e) ?d t))"
    proof (cases o1)
      case (Inr ex)
      with Some e t1 t2 show ?thesis by (cases "ex_reply ex") simp_all
    qed (use Some e t1 t2 in simp)
  qed (use e t1 in simp)
qed

text \<open>C23: Every call of the negotiator ends within its minute, whatever the transports do (a peer that never
  answers, replies that are not for the request, a recovery that finds nothing), and the collection of
  all pages within two hundred.\<close>

theorem every_negotiation_ends:
  "ends_in_time 60000 t (create_swap ng request t) \<and> ends_in_time 60000 t (recover_creation ng request t)
   \<and> ends_in_time 60000 t (get_offer ng t) \<and> ends_in_time 60000 t (get_quote ng quoted t)
   \<and> ends_in_time 60000 t (get_status ng asked_for t) \<and> ends_in_time (200 * 60000) t (list_all_swaps ng active t)"
  using create_ends [of t ng request] recover_creation_ends [of t ng request] get_offer_ends [of t ng]
    get_quote_ends [of t ng quoted] get_status_ends [of t ng asked_for]
    list_pages_ends [of MAX_LIST_PAGES t ng active None "[]"]
  by (simp add: list_all_swaps_def MAX_LIST_PAGES_def RECOVERY_WINDOW_def)

subsection \<open>How a recovery ends\<close>

fun may_exist :: "nego_error \<Rightarrow> bool" where
  "may_exist (MayExist _ _) = True"
| "may_exist _ = False"

lemma recover_loop_gives_cause:
  assumes "d < window" and "tk_time t \<le> d" and "fst (recover_loop ng quote_id cause window d t) = Some (Inl e)"
  shows "e = cause"
  using assms(2,3)
proof (induction "window - tk_time t" arbitrary: t rule: less_induct)
  case less
  obtain i t1 where i: "fresh_id ng (t\<lparr>tk_unavailable := False\<rparr>) = (i, t1)" by fastforce
  then have t1: "tk_time t1 = tk_time t" using fresh_time [of ng "t\<lparr>tk_unavailable := False\<rparr>"] by simp
  obtain q t2 where q: "negotiator_exchange ng (status_of_quote i quote_id) is_snapshot (min window d) t1 = (q, t2)" by fastforce
  have "on_time (min window d) t1 t2"
    using exchange_on_time [of "min window d" t1 ng "status_of_quote i quote_id" is_snapshot] by (simp add: q)
  then have s: "tk_time t \<le> tk_time t2" "tk_time t2 \<le> d" using t1 less.prems(1) by (auto simp: on_time_def)
  note unfold = less.prems(2) [unfolded recover_loop.simps [of ng quote_id cause window d t] i Let_def q prod.case]
  let ?wake = "min (tk_time t2 + RECOVERY_POLL) window"
  show ?case
  proof (cases "q = None \<or> status_verdict i quote_id q \<noteq> None \<or> d < ?wake")
    case True
    then show ?thesis using unfold s assms(1) by (auto split: if_splits option.splits)
  next
    case False
    then have "fst (recover_loop ng quote_id cause window d (t2\<lparr>tk_time := ?wake\<rparr>)) = Some (Inl e)"
      using unfold s assms(1) by auto
    then show ?thesis using less.hyps [of "t2\<lparr>tk_time := ?wake\<rparr>"] wakes_later [of "tk_time t" "tk_time t2" window] False s assms(1) by simp
  qed
qed

lemma rejection_not_may_exist [simp]: "\<not> may_exist (rejection reply)"
  by (cases reply) simp_all


text \<open>Both attempts of the creation are lost, and so is everything after them.\<close>

definition lossy_talk :: "unit served talk" where
  "lossy_talk = shop_talk\<lparr>tk_world := \<lparr>sv_state = shop_state,
     sv_script = [shop_delivery (LostRequest ''broken''), shop_delivery (LostRequest ''broken'')]\<rparr>\<rparr>"


subsection \<open>What an exchange gives back to the inbox\<close>

text \<open>A message may go for good when losing it loses no swap: it creates none, or its swap is on disk.\<close>

definition expendable :: "swap_message \<Rightarrow> conversation \<Rightarrow> inbound \<Rightarrow> bool" where
  "expendable request w m \<longleftrightarrow> read_only_reply (recovered_reply request (ib_message m))
     \<or> cv_recorded w (recovered_reply request (ib_message m)) = Inr True"

definition gave_back :: "swap_message \<Rightarrow> inbound set \<Rightarrow> conversation \<Rightarrow> conversation \<Rightarrow> bool" where
  "gave_back request M w w' \<longleftrightarrow> cv_recorded w' = cv_recorded w \<and> (\<exists>new. cv_acknowledged w' = cv_acknowledged w @ new
     \<and> (\<forall>i\<in>set new. \<exists>m\<in>M. ib_receipt m = i \<and> expendable request w m))"

lemma gave_back_refl [simp]: "gave_back request M w w"
  by (simp add: gave_back_def)

lemma gave_back_trans:
  assumes "gave_back request M w w1" and "gave_back request M' w1 w2" and "M \<subseteq> N" and "M' \<subseteq> N"
  shows "gave_back request N w w2"
proof -
  from assms(1,2) obtain new new' where n: "cv_acknowledged w2 = cv_acknowledged w @ (new @ new')" "cv_recorded w1 = cv_recorded w"
    "cv_recorded w2 = cv_recorded w" "\<forall>i\<in>set new. \<exists>m\<in>M. ib_receipt m = i \<and> expendable request w m"
    "\<forall>i\<in>set new'. \<exists>m\<in>M'. ib_receipt m = i \<and> expendable request w1 m"
    by (auto simp: gave_back_def)
  have "expendable request w1 m = expendable request w m" for m using n(2) by (simp add: expendable_def)
  with n assms(3,4) show ?thesis unfolding gave_back_def
    by (intro conjI exI [of _ "new @ new'"]) (auto, blast+)
qed

lemma settle_gave_back:
  assumes "settle_receipt (ib_receipt m) w = (r, w')" and "expendable request w m"
  shows "gave_back request {m} w w'"
  using assms by (auto simp: settle_receipt_def gave_back_def split: sum.splits)

text \<open>The reply a batch settles on, if it creates a swap, is a message whose receipt is kept.\<close>

definition kept_in :: "swap_message \<Rightarrow> inbound set \<Rightarrow> batch_state \<Rightarrow> bool" where
  "kept_in request M b \<longleftrightarrow> (\<forall>reply. bs_matched b = Some reply \<longrightarrow> \<not> read_only_reply reply
     \<longrightarrow> (\<exists>m\<in>M. recovered_reply request (ib_message m) = reply \<and> ib_receipt m \<in> set (bs_receipts b)))"

lemma kept_in_mono: "kept_in request M b \<Longrightarrow> M \<subseteq> N \<Longrightarrow> kept_in request N b"
  unfolding kept_in_def by blast

lemma reject_read_only: "is_reject m \<Longrightarrow> read_only_reply m"
  by (cases m) simp_all

lemma read_batch_keeps:
  assumes "read_batch request expected ms b w = (res, w')" and "kept_in request M b"
  shows "gave_back request (set ms) w w' \<and> cv_receipts w' = cv_receipts w
    \<and> (\<forall>b'. res = Inr b' \<longrightarrow> kept_in request (M \<union> set ms) b')"
  using assms
proof (induction ms arbitrary: b w M)
  case Nil
  then show ?case by auto
next
  case (Cons m ms)
  let ?reply = "recovered_reply request (ib_message m)"
  let ?next = "b\<lparr>bs_matched := (if bs_matched b = None \<or> \<not> is_reject ?reply then Some ?reply else bs_matched b)\<rparr>"
  let ?M = "insert m M"
  have sub: "gave_back request {m} w w1 \<Longrightarrow> gave_back request (set ms) w1 w2 \<Longrightarrow> gave_back request (set (m # ms)) w w2" for w1 w2
    by (rule gave_back_trans) auto
  have sub': "gave_back request (set ms) w w2 \<Longrightarrow> gave_back request (set (m # ms)) w w2" for w2
    by (rule gave_back_trans [of request "{}" w w "set ms"]) auto
  have settled: "cv_receipts w1 = cv_receipts w" if "settle_receipt i w = (r, w1)" for i r w1
    using that by (auto simp: settle_receipt_def split: sum.splits)
  have one: "gave_back request (set (m # ms)) w w1" if "gave_back request {m} w w1" for w1
    by (rule sub [OF that]) simp
  have M: "?M \<union> set ms = M \<union> set (m # ms)" by auto
  have b: "kept_in request ?M b" using Cons.prems(2) by (rule kept_in_mono) auto
  note rb = Cons.prems(1) [unfolded read_batch.simps Let_def]
  show ?case
  proof (cases "reply_matches request ?reply \<and> (is_reject ?reply \<or> expected ?reply)")
    case match: True
    show ?thesis
    proof (cases "case bs_matched b of None \<Rightarrow> False | Some previous \<Rightarrow> acceptance_conflicts previous ?reply")
      case True
      with match rb show ?thesis by auto
    next
      case calm: False
      show ?thesis
      proof (cases "read_only_reply ?reply")
        case True
        have e: "expendable request w m" using True by (simp add: expendable_def)
        have next_kept: "kept_in request ?M ?next" using b True unfolding kept_in_def by auto
        obtain r w1 where s: "settle_receipt (ib_receipt m) w = (r, w1)" by fastforce
        note g = settle_gave_back [OF s e] settled [OF s]
        show ?thesis
        proof (cases r)
          case (Inl err)
          with match calm True rb s g one show ?thesis by auto
        next
          case (Inr u)
          have "read_batch request expected ms ?next w1 = (res, w')" using match calm True rb s Inr by simp
          from Cons.IH [OF this next_kept] g sub M show ?thesis by metis
        qed
      next
        case False
        have "kept_in request ?M (?next\<lparr>bs_receipts := bs_receipts b @ [ib_receipt m]\<rparr>)"
          using b False reject_read_only [of ?reply] unfolding kept_in_def by auto
        moreover have "read_batch request expected ms (?next\<lparr>bs_receipts := bs_receipts b @ [ib_receipt m]\<rparr>) w = (res, w')"
          using match calm False rb by simp
        ultimately show ?thesis using Cons.IH sub' M by metis
      qed
    qed
  next
    case other: False
    obtain v where v: "(if read_only_reply ?reply then Inr True else cv_recorded w ?reply) = v" by simp
    consider (failed) err where "v = Inl err" | (expendable) "v = Inr True" | (creation) "v = Inr False" by (cases v) auto
    then show ?thesis
    proof cases
      case failed
      with other rb v show ?thesis by auto
    next
      case expendable
      have e: "expendable request w m" using v expendable by (auto simp: expendable_def split: if_splits)
      obtain r w1 where s: "settle_receipt (ib_receipt m) w = (r, w1)" by fastforce
      note g = settle_gave_back [OF s e] settled [OF s]
      show ?thesis
      proof (cases r)
        case (Inl err)
        with other expendable rb v s g one show ?thesis by auto
      next
        case (Inr u)
        have "read_batch request expected ms b w1 = (res, w')"
          using rb unfolding if_not_P [OF other] v expendable s Inr by simp
        from Cons.IH [OF this b] g sub M show ?thesis by metis
      qed
    next
      case creation
      have "kept_in request ?M (b\<lparr>bs_unresolved := True\<rparr>)" using b by (simp add: kept_in_def)
      moreover have "read_batch request expected ms (b\<lparr>bs_unresolved := True\<rparr>) w = (res, w')"
        using rb unfolding if_not_P [OF other] v creation by simp
      ultimately show ?thesis using Cons.IH sub' M by metis
    qed
  qed
qed

definition kept_receipts :: "string \<Rightarrow> conversation \<Rightarrow> nat list" where
  "kept_receipts key w = (case map_of (cv_receipts w) key of None \<Rightarrow> [] | Some rs \<Rightarrow> rs)"

lemma kept_after_keep [simp]:
  "kept_receipts key (keep_receipts key' rs w) = (if key = key' then kept_receipts key w @ rs else kept_receipts key w)"
  by (simp add: kept_receipts_def keep_receipts_def update_conv')

lemma gave_back_keep [simp]: "gave_back request M w (keep_receipts key rs w') = gave_back request M w w'"
  and gave_back_polls [simp]: "gave_back request M (w\<lparr>cv_polls := ps\<rparr>) w' = gave_back request M w w'"
  by (simp_all add: gave_back_def keep_receipts_def expendable_def)

definition polled :: "(nat \<times> (string + inbound list)) list \<Rightarrow> inbound set" where
  "polled polls = (\<Union>p\<in>set polls. case snd p of Inl _ \<Rightarrow> {} | Inr ms \<Rightarrow> set ms)"

lemma polled_simps [simp]:
  "polled [] = {}" "polled ((took, Inl e) # ps) = polled ps" "polled ((took, Inr ms) # ps) = set ms \<union> polled ps"
  by (auto simp: polled_def)

text \<open>What one exchange does to the inbox, and what it keeps for the reply it returns.\<close>

definition inbox_safe ::
  "ext \<Rightarrow> swap_message \<Rightarrow> inbound set \<Rightarrow> conversation \<Rightarrow> (nat \<times> (exchange_error + swap_message)) option \<times> conversation \<Rightarrow> bool" where
  "inbox_safe x request M w rw \<longleftrightarrow> gave_back request M w (snd rw)
     \<and> (\<forall>key. set (kept_receipts key w) \<subseteq> set (kept_receipts key (snd rw)))
     \<and> (\<forall>took reply. fst rw = Some (took, Inr reply) \<longrightarrow> \<not> read_only_reply reply
         \<longrightarrow> (\<exists>m\<in>M. recovered_reply request (ib_message m) = reply
              \<and> ib_receipt m \<in> set (kept_receipts (request_key x request) (snd rw))))"

lemma await_safe: "inbox_safe x request (polled polls) w (await_reply x request expected limit elapsed polls w)"
proof (induction polls arbitrary: elapsed w)
  case Nil
  then show ?case by (simp add: inbox_safe_def)
next
  case (Cons p rest)
  obtain took res where p: "p = (took, res)" by fastforce
  let ?w = "w\<lparr>cv_polls := rest\<rparr>" and ?b = "\<lparr>bs_matched = None, bs_receipts = [], bs_unresolved = False\<rparr>"
  have kept: "kept_receipts key ?w = kept_receipts key w" for key by (simp add: kept_receipts_def)
  have same: "gave_back request N w ?w" for N by (simp add: gave_back_def)
  show ?case
  proof (cases "elapsed + took > limit")
    case True
    then show ?thesis using same kept by (simp add: p inbox_safe_def)
  next
    case False
    show ?thesis
    proof (cases res)
      case (Inl e)
      then show ?thesis using False same kept by (simp add: p inbox_safe_def)
    next
      case (Inr ms)
      obtain r w1 where rb: "read_batch request expected ms ?b ?w = (r, w1)" by fastforce
      have "kept_in request {} ?b" by (simp add: kept_in_def)
      note k = read_batch_keeps [OF rb this]
      have g: "gave_back request (set ms \<union> polled rest) w w1"
        by (rule gave_back_trans [OF same [of "{}"]]) (use k in auto)
      have kept1: "kept_receipts key w1 = kept_receipts key w" for key using k by (simp add: kept_receipts_def)
      show ?thesis
      proof (cases r)
        case Inl
        then show ?thesis using False rb g kept1 \<open>res = Inr ms\<close> by (simp add: p inbox_safe_def)
      next
        case (Inr b)
        show ?thesis
        proof (cases "bs_matched b")
          case (Some reply)
          have "kept_in request (set ms) b" using k Inr by simp
          with Some False rb g kept1 Inr \<open>res = Inr ms\<close> show ?thesis
            unfolding kept_in_def by (fastforce simp: p inbox_safe_def)
        next
          case None
          show ?thesis
          proof (cases "bs_unresolved b")
            case True
            with None False rb g kept1 Inr \<open>res = Inr ms\<close> show ?thesis by (simp add: p inbox_safe_def)
          next
            case unresolved: False
            have "gave_back request (set ms \<union> polled rest) w (snd (await_reply x request expected limit (elapsed + took + 200) rest w1))"
              by (rule gave_back_trans [OF g]) (use Cons.IH [of w1] in \<open>auto simp: inbox_safe_def\<close>)
            with None unresolved False rb kept1 Inr \<open>res = Inr ms\<close> Cons.IH [of w1 "elapsed + took + 200"] show ?thesis
              by (auto simp: p inbox_safe_def)
          qed
        qed
      qed
    qed
  qed
qed

lemma exchange_safe: "inbox_safe x request (polled (cv_polls w)) w (dm_exchange x request expected budget w)"
proof -
  have timed_out: "inbox_safe x request M w (case rw of (Some r, w) \<Rightarrow> (Some r, w) | (None, w) \<Rightarrow>
      (if REPLY_TIMEOUT \<le> budget then Some (REPLY_TIMEOUT, Inl (Uncertain e)) else None, w))"
    if "inbox_safe x request M w rw" for M rw e
    using that by (cases rw; cases "fst rw") (auto simp: inbox_safe_def)
  have plain: "inbox_safe x request M w (Some (took, Inl e), w)" "inbox_safe x request M w (None, w)" for M took e
    by (simp_all add: inbox_safe_def)
  show ?thesis
    unfolding dm_exchange_def Let_def
    by (rule timed_out) (auto simp: plain await_safe split: sum.split prod.split)
qed


text \<open>An inbox with the acceptance of an earlier swap that was never saved, and the reply to this request.\<close>

definition dm_inbox :: conversation where
  "dm_inbox = \<lparr>cv_register = Inr (), cv_send = (\<lambda>_. (1, Inr ())),
     cv_polls = [(5, Inr [\<lparr>ib_message = MsgSwapAccept (shop_accept\<lparr>sa_quote_id := 7\<rparr>), ib_receipt = 1\<rparr>,
                          \<lparr>ib_message = MsgSwapAccept shop_accept, ib_receipt = 2\<rparr>])],
     cv_settle = (\<lambda>_. Inr ()), cv_recorded = (\<lambda>_. Inr False), cv_acknowledged = [], cv_receipts = []\<rparr>"


end
