(* ===== verification/Client_Listing.thy ===== *)
theory Client_Listing
  imports Negotiation
begin

text \<open>
  The client's \<open>list_all_swaps\<close> run against the provider's own handler: what it collects is what the
  provider has for it, up to the limit on pages.
\<close>

text \<open>A script of requests that are all answered in time, with the provider's clock at \<open>now\<close>.\<close>

definition answers_all :: "u64 \<Rightarrow> delivery list \<Rightarrow> bool" where
  "answers_all t ds \<longleftrightarrow> list_all (\<lambda>d. dl_fate d = Delivered \<and> dl_took d \<le> RECOVERY_WINDOW
     \<and> (\<forall>dir. dl_meanwhile d dir = dir) \<and> an_now (dl_answers d) = t \<and> (\<forall>m. an_send (dl_answers d) m = Sent)) ds"

definition in_touch :: "bool \<Rightarrow> bool \<Rightarrow> 'w talk \<Rightarrow> bool" where
  "in_touch preferred fallback t \<longleftrightarrow> (if preferred then \<not> tk_unavailable t else fallback)"

lemma list_swaps_id:
  "list_swaps x px c t d sender auth (request\<lparr>slr_request_id := v\<rparr>)
   = map_sum id (\<lambda>l. l\<lparr>sl_request_id := v\<rparr>) (list_swaps x px c t d sender auth request)"
  by (auto simp: list_swaps_def try_bind_def Let_def split: option.splits sum.splits)

text \<open>One page over the provider.\<close>

lemma page_served:
  assumes "sv_script (tk_world t) = d # rest" and "answers_all now_unix (d # rest)" and "in_touch preferred fallback t"
    and "list_swaps x px c now_unix (ps_store (sv_state (tk_world t))) sender (authorization cx) request = Inr l"
    and "slr_request_id request = None"
  shows "\<exists>t'. get_list (served_negotiator preferred fallback ids (served_channel x px pp c cx sender)) request t
      = (Inr (l\<lparr>sl_request_id := Some (ids (tk_world t))\<rparr>), t')
    \<and> sv_script (tk_world t') = rest \<and> in_touch preferred fallback t'
    \<and> ps_store (sv_state (tk_world t')) = ps_store (sv_state (tk_world t))"
proof -
  let ?i = "ids (tk_world t)"
  let ?q = "request\<lparr>slr_request_id := Some ?i\<rparr>"
  let ?l = "l\<lparr>sl_request_id := Some ?i\<rparr>"
  let ?s = "sv_state (tk_world t)"
  have d: "dl_fate d = Delivered" "dl_took d \<le> RECOVERY_WINDOW" "dl_meanwhile d dir = dir" "an_now (dl_answers d) = now_unix"
    "an_send (dl_answers d) m = Sent" for dir m
    using assms(2) by (auto simp: answers_all_def)
  have away: "while_away d ?s = ?s" by (simp add: while_away_def d)
  have h: "handled x px pp c cx sender (MsgSwapListRequest ?q) d ?s = log_action (Replied sender (MsgSwapList ?l) Sent) ?s"
    by (simp add: handled_def list_swaps_id assms(4) d answer_or_reject_def respond_def)
  have sent: "reply_sent sender ?s (log_action (Replied sender (MsgSwapList ?l) Sent) ?s) = Some (MsgSwapList ?l)"
    by (simp add: reply_sent_def log_action_def)
  have serve: "serve_request x px pp c cx sender (MsgSwapListRequest ?q) budget (tk_world t)
      = (Some (dl_took d, RawBytes (MsgSwapList ?l)),
         (tk_world t)\<lparr>sv_state := log_action (Replied sender (MsgSwapList ?l) Sent) ?s, sv_script := rest\<rparr>)" for budget
    by (simp add: serve_request.simps assms(1) away h d sent Let_def)
  have m: "reply_matches (MsgSwapListRequest ?q) (MsgSwapList ?l)" by (simp add: reply_matches_def answers_id_def)
  have store: "ps_store (log_action a ?s) = ps_store ?s" for a by (simp add: log_action_def)
  have call: "call_channel (served_channel x px pp c cx sender) (MsgSwapListRequest ?q) is_list (tk_time t + RECOVERY_WINDOW) t
      = (Some (Inr (MsgSwapList ?l)), t\<lparr>tk_time := tk_time t + dl_took d,
           tk_world := (tk_world t)\<lparr>sv_state := log_action (Replied sender (MsgSwapList ?l) Sent) ?s, sv_script := rest\<rparr>\<rparr>)"
    using d(2) by (simp add: call_channel_def served_channel_def iroh_channel_def iroh_reply_def serve m Let_def)
  have r: "t\<lparr>tk_world := tk_world t\<rparr> = t" by simp
  show ?thesis
    using assms(3,5) store
    by (cases preferred) (simp_all add: get_list_def negotiation_deadline_def fresh_id_def ask_def negotiator_exchange_def
        served_negotiator_def numeral_2_eq_2 in_touch_def call r Let_def)
qed

lemma answers_all_tl: "answers_all t (d # ds) \<Longrightarrow> answers_all t ds"
  by (simp add: answers_all_def)

lemma pages_from:
  assumes "reads_back x px" and "load_all_checked c (ps_store (sv_state (tk_world t))) = Inr rs" and "distinct (map r_swap_id rs)"
    and "answers_all now_unix (sv_script (tk_world t))" and "n \<le> length (sv_script (tk_world t))" and "in_touch preferred fallback t"
    and "owned = owned_records px sender (authorization cx) active rs"
    and "start = 0 \<and> 0 < n \<or> start < length owned"
    and "cursor = (if start = 0 then None else Some (encode_list_cursor x (list_key (owned ! (start - 1)))))"
    and "ng = served_negotiator preferred fallback ids (served_channel x px pp c cx sender)"
  shows "fst (list_pages n ng active cursor all t) = (if length owned - start \<le> n * list_page_limit None
      then Inr (all @ map (snapshot_of now_unix) (drop start owned))
      else Inl (NMsg (''the provider's listing did not end within '' @ show_nat MAX_LIST_PAGES @ '' pages'')))"
  using assms(2,4-6,8,9)
proof (induction n arbitrary: start cursor all t)
  case 0
  then show ?case by auto
next
  case (Suc n)
  let ?L = "list_page_limit None" and ?req = "\<lparr>slr_request_id = None, slr_cursor = cursor, slr_limit = None, slr_active_only = active\<rparr>"
  have strict: "strictly_listed owned" unfolding assms(7) by (rule owned_strict [OF assms(3)])
  define page where "page = take ?L (drop start owned)"
  define next_start where "next_start = start + length page"
  obtain after where
    after: "(case cursor of None \<Rightarrow> Inr None | Some cur \<Rightarrow> try_bind (decode_list_cursor x px cur) (\<lambda>key. Inr (Some key))) = Inr after"
    "start = (case after of None \<Rightarrow> 0 | Some key \<Rightarrow> position_after key owned)"
  proof (cases "start = 0")
    case True
    with that [of None] Suc.prems(6) show ?thesis by simp
  next
    case False
    with that [of "Some (list_key (owned ! (start - 1)))"] Suc.prems(5,6) show ?thesis
      using decode_encode [OF assms(1)] position_after_nth [OF strict, of "start - 1"] by simp
  qed
  note answer = one_page [OF Suc.prems(1) after(1) assms(7) after(2) page_def, folded next_start_def]
  obtain d rest where script: "sv_script (tk_world t) = d # rest" using Suc.prems(3) by (cases "sv_script (tk_world t)") auto
  from page_served [OF script Suc.prems(2) [unfolded script] Suc.prems(4) answer, of ids pp, folded assms(10)]
  obtain t' where got: "get_list ng ?req t = (Inr \<lparr>sl_request_id = Some (ids (tk_world t)), sl_snapshots = map (snapshot_of now_unix) page,
           sl_next_cursor = (if page \<noteq> [] \<and> next_start < length owned
             then Some (encode_list_cursor x (list_key (owned ! (next_start - 1)))) else None)\<rparr>, t')"
    "sv_script (tk_world t') = rest" "in_touch preferred fallback t'"
    "ps_store (sv_state (tk_world t')) = ps_store (sv_state (tk_world t))"
    by auto
  show ?case
  proof (cases "page \<noteq> [] \<and> next_start < length owned")
    case True
    then have next_pos: "start < next_start" by (simp add: next_start_def)
    have len: "length page = ?L" using True by (auto simp: next_start_def page_def)
    have moved: "cursor \<noteq> Some (encode_list_cursor x (list_key (owned ! (next_start - 1))))"
    proof
      assume e: "cursor = Some (encode_list_cursor x (list_key (owned ! (next_start - 1))))"
      with Suc.prems(6) have "0 < start" by (auto split: if_splits)
      from after e have "start = position_after (list_key (owned ! (next_start - 1))) owned"
        using decode_encode [OF assms(1)] by auto
      also have "\<dots> = Suc (next_start - 1)" using position_after_nth [OF strict, of "next_start - 1"] True by (metis less_imp_diff_less)
      also have "\<dots> = next_start" using next_pos by simp
      finally show False using next_pos by simp
    qed
    have "fst (list_pages n ng active (Some (encode_list_cursor x (list_key (owned ! (next_start - 1))))) (all @ map (snapshot_of now_unix) page) t')
        = (if length owned - next_start \<le> n * ?L then Inr ((all @ map (snapshot_of now_unix) page) @ map (snapshot_of now_unix) (drop next_start owned))
           else Inl (NMsg (''the provider's listing did not end within '' @ show_nat MAX_LIST_PAGES @ '' pages'')))"
      by (rule Suc.IH) (use Suc.prems script got True next_pos answers_all_tl in auto)
    moreover have "drop start owned = page @ drop next_start owned"
      unfolding next_start_def len unfolding page_def by (metis append_take_drop_id drop_drop add.commute)
    moreover have "length owned - start \<le> Suc n * ?L \<longleftrightarrow> length owned - next_start \<le> n * ?L"
      unfolding next_start_def len by auto
    ultimately show ?thesis using True moved by (simp add: got(1))
  next
    case False
    have all: "drop start owned = page"
      using False page_positive [of None] Suc.prems(5)
      by (auto simp: next_start_def page_def min_def split: if_splits)
    then have "length owned - start \<le> ?L" by (metis length_drop length_take min.cobounded2 page_def)
    then have "length owned - start \<le> Suc n * ?L" by simp
    with False all show ?thesis by (auto simp: got(1))
  qed
qed

text \<open>C21: Client and provider together: while the provider answers and nobody changes its store, the client's
  \<open>list_all_swaps\<close> collects exactly the swaps the provider has for this client, newest first, each once;
  beyond two hundred pages, two thousand swaps at the ten a page the provider gives when no limit is asked
  for, it fails rather than return part of them.\<close>

theorem every_owned_swap_is_listed:
  assumes "reads_back x px" and "load_all_checked c (ps_store (sv_state (tk_world t))) = Inr rs" and "distinct (map r_swap_id rs)"
    and "answers_all now_unix (sv_script (tk_world t))" and "200 \<le> length (sv_script (tk_world t))" and "in_touch preferred fallback t"
  shows "fst (list_all_swaps (served_negotiator preferred fallback ids (served_channel x px pp c cx sender)) active t)
    = (if length (owned_records px sender (authorization cx) active rs) \<le> 2000
       then Inr (map (snapshot_of now_unix) (owned_records px sender (authorization cx) active rs))
       else Inl (NMsg (''the provider's listing did not end within '' @ show_nat 200 @ '' pages'')))"
proof -
  have l: "list_page_limit None = 10" by (simp add: list_page_limit_def SWAP_LIST_DEFAULT_PAGE_def)
  have n: "(200 :: nat) \<le> length (sv_script (tk_world t))" "(0 :: nat) < 200" using assms(5) by simp_all
  from pages_from [OF assms(1-4) n(1) assms(6) refl disjI1 [OF conjI [OF refl n(2)]] refl refl,
      where ids = ids and pp = pp and all = "[]" and active = active and sender = sender and cx = cx]
  show ?thesis by (simp add: list_all_swaps_def MAX_LIST_PAGES_def l)
qed

text \<open>Two swaps on the provider's disk.\<close>

definition listed_talk :: "unit served talk" where
  "listed_talk = \<lparr>tk_unavailable = False, tk_time = 0, tk_world = \<lparr>sv_state = shop_state\<lparr>ps_store := listed_dir\<rparr>,
     sv_script = replicate 200 (shop_delivery Delivered)\<rparr>\<rparr>"

theorem every_owned_swap_is_listed_witness:
  "fst (list_all_swaps (served_negotiator True True (\<lambda>_. 4) (served_channel sample_ext sample_px (\<lambda>_. None) listed_codec shop_cx ''alice''))
      False listed_talk)
   = Inr (map (snapshot_of 5) (owned_records sample_px ''alice'' None False [listed_record 1 100, listed_record 2 200]))"
proof -
  have l: "load_all_checked listed_codec (ps_store (sv_state (tk_world listed_talk))) = Inr [listed_record 1 100, listed_record 2 200]"
    using listed_loads by (simp add: listed_talk_def)
  have d: "distinct (map r_swap_id [listed_record 1 100, listed_record 2 200])" by (simp add: listed_record_def)
  have a: "answers_all 5 (sv_script (tk_world listed_talk))"
    by (auto simp: answers_all_def listed_talk_def shop_delivery_def RECOVERY_WINDOW_def list_all_iff shop_answers_def split: swap_message.split)
  have n: "200 \<le> length (sv_script (tk_world listed_talk))" by (simp add: listed_talk_def)
  have i: "in_touch True True listed_talk" by (simp add: in_touch_def listed_talk_def)
  have c: "authorization shop_cx = None" by (simp add: authorization_def)
  have "length (owned_records sample_px ''alice'' None False [listed_record 1 100, listed_record 2 200]) \<le> 2000"
    by (rule order_trans [of _ 2]) (simp_all add: owned_records_def)
  with every_owned_swap_is_listed [OF sample_reads_back l d a n i, where pp = "\<lambda>_. None" and cx = shop_cx and sender = "''alice''"
      and active = False and ids = "\<lambda>_. 4"] c
  show ?thesis by simp
qed

end
