(* ===== verification/Spec2Isabelle.thy ===== *)
theory Spec2Isabelle
  imports Prelude Swap_Types Timelock Messages Onchain Taproot Validate Chain Lightning Effects Fee_Bump Mock_Chain Spend_Safety Store Refusals Reorg Funding Reverse_Driver Reverse_Safety Reverse_Properties Submarine_Driver Submarine_Safety Submarine_Properties Client_Reverse Client_Submarine Risk Recovery Progress Restart Quotes Listing Identity Access Provider_Config Wake Admission Handler Ledger Admission_Safety Admission_Accounts Admission_Replies Admission_Properties Admission_Runs Secrets Negotiate Negotiation Negotiation_Limits Client_Listing
begin

text \<open>
  A verification library for the trustless on-chain/Lightning swap program of this repository.

  The program. A provider quotes, a client accepts. In a \<^emph>\<open>reverse\<close> swap the client pays a Lightning
  hold invoice and the provider locks coins in an on-chain HTLC; the client's claim reveals the
  preimage, with which the provider settles the invoice. In a \<^emph>\<open>submarine\<close> swap the client locks
  the coins, the provider pays the client's invoice and claims with the preimage the payment
  bought. Everything that can lose money is in how the two on-chain branches (claim, refund after a
  height) and the Lightning payment are ordered, and in what survives a restart.

  Parts and theories.
  \<^item> Prelude: errors as values, checked and saturating word arithmetic, decimal printing, lists.
  \<^item> Swap_Types, Messages: \<open>swap-common/src/swap.rs\<close>, \<open>error.rs\<close>, \<open>messages.rs\<close>.
  \<^item> Timelock: \<open>timelock.rs\<close>, every gate on blocks and seconds.
  \<^item> Externals: the record of functions for code outside this repository (hashes, keys, script
    and address encodings, transaction building blocks, decimal and text codecs). A theorem that
    relies on one of them names the law it needs as a hypothesis, and its witness instantiates it.
  \<^item> Htlc, Onchain, Taproot, Validate, Chain: \<open>htlc.rs\<close>, \<open>onchain.rs\<close>, \<open>taproot.rs\<close>,
    \<open>validate.rs\<close>, \<open>chain.rs\<close>.
  \<^item> Lightning, Effects: the interfaces the drivers call. A driver is a program over a state that
    holds the answers of the environment as a script and the calls made as a trace; \<open>bnd\<close> is the
    source's sequencing and \<open>trym\<close> its \<open>?\<close>. \<open>wpl p s Q\<close> says that every result of \<open>p\<close> from \<open>s\<close>, with the
    events it emitted, satisfies \<open>Q\<close>; \<open>emits E p\<close> bounds the kinds of calls, \<open>oblivious\<close> that the trace
    is only appended to.
  \<^item> Fee_Bump, Mock_Chain, Spend_Safety: \<open>fee_bump.rs\<close>, \<open>chain/mock.rs\<close> and what the
    \<open>confirm_or_bump\<close> loop guarantees to whoever spends an HTLC. The locales \<open>spend_hook\<close> and
    \<open>htlc_spender\<close> are the interface between the loop and its callers; the four drivers interpret them.
  \<^item> Store, Reorg: \<open>store.rs\<close> (records, pruning, the directory with its write faults), \<open>reorg.rs\<close>.
  \<^item> Funding, Reverse_Driver, Reverse_Safety, Reverse_Properties: \<open>swap-provider/src/reverse.rs\<close>.
  \<^item> Submarine_Driver, Submarine_Safety, Submarine_Properties: \<open>swap-provider/src/submarine.rs\<close>.
  \<^item> Client_Reverse, Client_Submarine: \<open>swap-client/src/reverse.rs\<close>, \<open>submarine.rs\<close>.
  \<^item> Refusals, Risk, Recovery: the provider's refusal codes, \<open>swap-provider/src/risk.rs\<close> (reservations
    against the limits, and the claims on the wallet's balance) and \<open>recovery.rs\<close> (what a failed run
    earns). The counters of the risk state are shown exact, and what is admitted within the limits.
  \<^item> Progress, Restart: \<open>StoreProgress\<close> and the end of a driver's run, of \<open>swap-provider/src/lib.rs\<close>, and
    the drivers run again from the records they left: over any number of restarts the HTLC is funded
    and the invoice paid at most once.
  \<^item> Quotes, Listing, Identity, Access: the quote book, replays, status and the paged listing of
    \<open>lib.rs\<close>; \<open>same_pubky\<close> of \<open>pubky-transport\<close>; \<open>access.rs\<close>.
  \<^item> Provider_Config, Wake: offers and the settings they come from (\<open>lib.rs\<close>, \<open>pricing.rs\<close>), and the
    wake grants of \<open>wake.rs\<close>.
  \<^item> Admission, Handler: from a request to a running swap (\<open>start_reverse\<close>, \<open>start_submarine\<close>, the
    completion of a pending admission, the resume after a restart) and \<open>handle_message\<close>, every branch.
    A request is a function of the provider's state and of a record of answers (clock, node, chain,
    wallet, disk, messenger); what it does to the outside is a log.
  \<^item> Ledger, Admission_Safety, Admission_Accounts, Admission_Replies, Admission_Properties,
    Admission_Runs: \<open>post p s Q\<close> is the calculus for these steps; \<open>lawful\<close> says on which record on disk
    each action of the log may rest, \<open>tracks\<close> that a step keeps to it, \<open>balanced\<close> and \<open>silent\<close> the same for
    reserved capital and for replies. \<open>provider_run\<close> is any sequence of requests, with what drivers and
    the pruner write in between.
  \<^item> Secrets: the secrets and identities of \<open>swap-config\<close>, and what of them is ever printed.
  \<^item> Negotiate, Negotiation, Negotiation_Limits, Client_Listing: \<open>swap-client/src/negotiate.rs\<close>. A channel is a function of the
    world it talks to and of the time left. The locale \<open>vouching\<close> is the contract between the negotiator
    and its channels; it is interpreted for a transport that loses requests and replies at will in
    front of the provider's own \<open>handle_message\<close>, so that the two programs are proved together. The
    limits are the time each call takes, how a recovery ends, and what an exchange over DMs may take
    out of the inbox.

  Fuel. A polling loop of the source runs until the environment lets it end. Its model takes the
  number of rounds as an argument and returns the stuck outcome when it is used up; safety theorems
  hold for every number of rounds, and a theorem that a loop returns gives the number
  (\<open>confirm_or_bump_terminates\<close>) or runs it on a concrete environment.

  Not modelled. Cryptography, consensus encoding, HTTP and JSON belong to libraries: they are
  parameters, with the laws the code relies on as named hypotheses. Left out of the source here, because
  they are glue around such libraries or processes around the modelled functions: the LND, beignet and
  BDK backends, the Electrum watcher, key storage, the binaries' \<open>main\<close> and argument handling, the paykit
  identity and capability formats, the iroh endpoint and the outbox, inbox and journal of
  \<open>pubky-transport\<close>, and the provider's dispatch loop, delivery loop and status page. Concurrency is
  modelled where it decides something: a request is served in one piece (the source holds the creation
  lock across it), with background writes between requests; a driver shares nothing with another but the
  record it writes.
\<close>

end
